(* ===== verification/Prelude.thy ===== *)
theory Prelude
  imports Main "HOL-Library.AList" "HOL-Library.Word" "HOL-Library.List_Lexorder"
    "HOL-Library.Char_ord" "HOL-Library.Product_Lexorder"
begin

text \<open>
  Shared vocabulary of the development: machine integers, results, the hash maps of the Rust
  code, and the string operations of the Rust standard library that the sources call.

  \<^item> A \<^verbatim>\<open>Result<T, E>\<close> is the sum \<open>'e + 't\<close>, with \<open>Inl\<close> for \<^verbatim>\<open>Err\<close>;
    \<open>bindR\<close> is the \<^verbatim>\<open>?\<close> operator.
  \<^item> A \<^verbatim>\<open>HashMap\<close> is an association list with distinct keys. The order of the list stands for
    the unspecified iteration order of the map: a theorem that holds for every list holds for
    every iteration order. The locale \<open>hash_map\<close> states the laws the clients rely on.
  \<^item> A \<^verbatim>\<open>String\<close> is a list of bytes holding UTF-8 text, so \<open>length\<close> is \<^verbatim>\<open>str::len\<close>.
  \<^item> Instants and durations are nanosecond counts.
\<close>

section \<open>Numbers and time\<close>

type_synonym u8 = "8 word"
type_synonym u32 = "32 word"
type_synonym u64 = "64 word"

type_synonym instant = nat
type_synonym duration = nat

definition from_secs :: "nat \<Rightarrow> duration" where
  "from_secs n = n * 1000000000"

definition from_millis :: "nat \<Rightarrow> duration" where
  "from_millis n = n * 1000000"

definition as_secs :: "duration \<Rightarrow> nat" where
  "as_secs d = d div 1000000000"

text \<open>\<^verbatim>\<open>usize::checked_add\<close> on the 64-bit targets the product ships for.\<close>

definition checked_add_usize :: "nat \<Rightarrow> nat \<Rightarrow> nat option" where
  "checked_add_usize a b = (if a + b < 2 ^ 64 then Some (a + b) else None)"

definition u32_max :: nat where
  "u32_max = 2 ^ 32 - 1"

text \<open>\<^verbatim>\<open>u32::try_from(n)\<close> and \<^verbatim>\<open>u32::try_from(n).unwrap_or(u32::MAX)\<close>.\<close>

definition u32_try_from :: "nat \<Rightarrow> u32 option" where
  "u32_try_from n = (if n \<le> u32_max then Some (of_nat n) else None)"

definition u32_saturating_from :: "nat \<Rightarrow> u32" where
  "u32_saturating_from n = (case u32_try_from n of None \<Rightarrow> of_nat u32_max | Some w \<Rightarrow> w)"

lemma unat_u32_try_from: "u32_try_from n = Some w \<Longrightarrow> unat w = n"
  by (auto simp: u32_try_from_def u32_max_def unat_of_nat split: if_splits)

lemma unat_u32_saturating_from: "unat (u32_saturating_from n) = min n u32_max"
  by (auto simp: u32_saturating_from_def u32_try_from_def u32_max_def unat_of_nat min_def)

lemma as_secs_from_secs [simp]: "as_secs (from_secs n) = n"
  by (simp add: as_secs_def from_secs_def)

lemma from_secs_mono [simp]: "from_secs m \<le> from_secs n \<longleftrightarrow> m \<le> n"
  by (simp add: from_secs_def)

lemma from_secs_eq_0 [simp]: "from_secs n = 0 \<longleftrightarrow> n = 0"
  by (simp add: from_secs_def)

section \<open>Results\<close>

definition bindR :: "'e + 'a \<Rightarrow> ('a \<Rightarrow> 'e + 'b) \<Rightarrow> 'e + 'b" where
  "bindR r f = (case r of Inl e \<Rightarrow> Inl e | Inr x \<Rightarrow> f x)"

definition map_err :: "('e \<Rightarrow> 'f) \<Rightarrow> 'e + 'a \<Rightarrow> 'f + 'a" where
  "map_err f r = (case r of Inl e \<Rightarrow> Inl (f e) | Inr x \<Rightarrow> Inr x)"

definition ok_or :: "'e \<Rightarrow> 'a option \<Rightarrow> 'e + 'a" where
  "ok_or e v = (case v of None \<Rightarrow> Inl e | Some x \<Rightarrow> Inr x)"

text \<open>\<^verbatim>\<open>collect::<Result<Vec<_>, _>>()\<close>: the first error wins.\<close>

fun collectR :: "('a \<Rightarrow> 'e + 'b) \<Rightarrow> 'a list \<Rightarrow> 'e + 'b list" where
  "collectR f [] = Inr []"
| "collectR f (x # xs) = bindR (f x) (\<lambda>y. bindR (collectR f xs) (\<lambda>ys. Inr (y # ys)))"

lemma bindR_simps [simp]: "bindR (Inl e) f = Inl e" "bindR (Inr x) f = f x"
  by (simp_all add: bindR_def)

lemma map_err_simps [simp]: "map_err f (Inl e) = Inl (f e)" "map_err f (Inr x) = Inr x"
  by (simp_all add: map_err_def)

lemma ok_or_simps [simp]: "ok_or e None = Inl e" "ok_or e (Some x) = Inr x"
  by (simp_all add: ok_or_def)

lemma bindR_eq_Inr: "bindR r f = Inr y \<longleftrightarrow> (\<exists>x. r = Inr x \<and> f x = Inr y)"
  by (cases r) auto

lemma bindR_eq_Inl: "bindR r f = Inl e \<longleftrightarrow> r = Inl e \<or> (\<exists>x. r = Inr x \<and> f x = Inl e)"
  by (cases r) auto

lemma map_err_eq_Inr [simp]: "map_err f r = Inr x \<longleftrightarrow> r = Inr x"
  by (cases r) auto

lemma map_err_eq_Inl: "map_err f r = Inl e' \<longleftrightarrow> (\<exists>e. r = Inl e \<and> e' = f e)"
  by (cases r) auto

lemma ok_or_eq_Inr [simp]: "ok_or e v = Inr x \<longleftrightarrow> v = Some x"
  by (cases v) auto

lemma ok_or_eq_Inl [simp]: "ok_or e v = Inl e' \<longleftrightarrow> v = None \<and> e' = e"
  by (cases v) auto

text \<open>An early return: the check passed and the rest succeeded.\<close>

lemma early_return_Inr:
  "(if c then Inl e else k) = Inr x \<longleftrightarrow> \<not> c \<and> k = Inr x"
  by simp

lemma early_return_Inl:
  "(if c then Inl e else k) = Inl e' \<longleftrightarrow> c \<and> e' = e \<or> \<not> c \<and> k = Inl e'"
  by auto

lemmas result_eqs = bindR_eq_Inr bindR_eq_Inl map_err_eq_Inl

lemma collectR_Inr_iff:
  "collectR f xs = Inr ys \<longleftrightarrow> list_all2 (\<lambda>x y. f x = Inr y) xs ys"
  by (induction xs arbitrary: ys) (auto simp: bindR_eq_Inr list_all2_Cons1)

section \<open>Hash maps\<close>

type_synonym ('k, 'v) hm = "('k \<times> 'v) list"

definition hm_wf :: "('k, 'v) hm \<Rightarrow> bool" where
  "hm_wf m \<longleftrightarrow> distinct (map fst m)"

definition hm_get :: "('k, 'v) hm \<Rightarrow> 'k \<Rightarrow> 'v option" where
  "hm_get m k = map_of m k"

definition hm_insert :: "'k \<Rightarrow> 'v \<Rightarrow> ('k, 'v) hm \<Rightarrow> ('k, 'v) hm" where
  "hm_insert k v m = AList.update k v m"

definition hm_remove :: "'k \<Rightarrow> ('k, 'v) hm \<Rightarrow> ('k, 'v) hm" where
  "hm_remove k m = AList.delete k m"

definition hm_retain :: "('k \<Rightarrow> 'v \<Rightarrow> bool) \<Rightarrow> ('k, 'v) hm \<Rightarrow> ('k, 'v) hm" where
  "hm_retain P m = filter (\<lambda>(k, v). P k v) m"

definition hm_len :: "('k, 'v) hm \<Rightarrow> nat" where
  "hm_len m = length m"

text \<open>\<^verbatim>\<open>values_mut\<close> with an in-place update of every value.\<close>

definition hm_map :: "('v \<Rightarrow> 'v) \<Rightarrow> ('k, 'v) hm \<Rightarrow> ('k, 'v) hm" where
  "hm_map f m = map (\<lambda>(k, v). (k, f v)) m"

text \<open>\<^verbatim>\<open>get_mut\<close> followed by an in-place update.\<close>

definition hm_modify :: "'k \<Rightarrow> ('v \<Rightarrow> 'v) \<Rightarrow> ('k, 'v) hm \<Rightarrow> ('k, 'v) hm" where
  "hm_modify k f m = map (\<lambda>(k', v). (k', if k' = k then f v else v)) m"

definition hm_values :: "('k, 'v) hm \<Rightarrow> 'v list" where
  "hm_values m = map snd m"

definition hm_keys :: "('k, 'v) hm \<Rightarrow> 'k list" where
  "hm_keys m = map fst m"

lemma hm_get_Nil [simp]: "hm_get [] k = None"
  by (simp add: hm_get_def)

lemma hm_get_insert [simp]: "hm_get (hm_insert k v m) k' = (if k' = k then Some v else hm_get m k')"
  by (simp add: hm_get_def hm_insert_def update_conv')

lemma hm_get_remove [simp]: "hm_get (hm_remove k m) k' = (if k' = k then None else hm_get m k')"
  by (simp add: hm_get_def hm_remove_def delete_conv')

lemma hm_get_map [simp]: "hm_get (hm_map f m) k = map_option f (hm_get m k)"
  by (induction m) (auto simp: hm_get_def hm_map_def)

lemma hm_get_modify [simp]:
  "hm_get (hm_modify k f m) k' = (if k' = k then map_option f (hm_get m k) else hm_get m k')"
  by (induction m) (auto simp: hm_get_def hm_modify_def)

lemma hm_get_in_set: "hm_get m k = Some v \<Longrightarrow> (k, v) \<in> set m"
  by (simp add: hm_get_def map_of_SomeD)

lemma hm_get_iff_in_set: "hm_wf m \<Longrightarrow> hm_get m k = Some v \<longleftrightarrow> (k, v) \<in> set m"
  by (simp add: hm_get_def hm_wf_def)

lemma hm_get_None_iff: "hm_get m k = None \<longleftrightarrow> k \<notin> fst ` set m"
  by (simp add: hm_get_def map_of_eq_None_iff)

lemma hm_get_retain:
  assumes "hm_wf m"
  shows "hm_get (hm_retain P m) k =
    (case hm_get m k of None \<Rightarrow> None | Some v \<Rightarrow> if P k v then Some v else None)"
proof -
  have wf: "hm_wf (hm_retain P m)"
    using assms by (simp add: hm_wf_def hm_retain_def distinct_map_filter)
  show ?thesis
  proof (cases "hm_get m k")
    case None
    then have "k \<notin> fst ` set (hm_retain P m)"
      by (auto simp: hm_get_None_iff hm_retain_def)
    then have "hm_get (hm_retain P m) k = None" by (simp only: hm_get_None_iff not_False_eq_True)
    with None show ?thesis by simp
  next
    case (Some v)
    then have mem: "(k, v) \<in> set m" by (rule hm_get_in_set)
    show ?thesis
    proof (cases "P k v")
      case True
      with mem have "(k, v) \<in> set (hm_retain P m)" by (simp add: hm_retain_def)
      with wf have "hm_get (hm_retain P m) k = Some v" by (simp add: hm_get_iff_in_set)
      with Some True show ?thesis by simp
    next
      case False
      have "k \<notin> fst ` set (hm_retain P m)"
      proof
        assume "k \<in> fst ` set (hm_retain P m)"
        then obtain v' where "(k, v') \<in> set m" and "P k v'" by (auto simp: hm_retain_def)
        with assms Some False show False by (simp add: hm_get_iff_in_set [symmetric])
      qed
      with Some False show ?thesis by (simp add: hm_get_None_iff [symmetric])
    qed
  qed
qed

lemma hm_wf_Nil [simp]: "hm_wf []"
  by (simp add: hm_wf_def)

lemma hm_wf_insert [simp]: "hm_wf m \<Longrightarrow> hm_wf (hm_insert k v m)"
  by (simp add: hm_wf_def hm_insert_def distinct_update)

lemma hm_wf_remove [simp]: "hm_wf m \<Longrightarrow> hm_wf (hm_remove k m)"
  by (simp add: hm_wf_def hm_remove_def distinct_delete)

lemma hm_wf_retain [simp]: "hm_wf m \<Longrightarrow> hm_wf (hm_retain P m)"
  by (simp add: hm_wf_def hm_retain_def distinct_map_filter)

lemma hm_wf_map [simp]: "hm_wf (hm_map f m) = hm_wf m"
  by (simp add: hm_wf_def hm_map_def comp_def case_prod_beta)

lemma hm_wf_modify [simp]: "hm_wf (hm_modify k f m) = hm_wf m"
  by (simp add: hm_wf_def hm_modify_def comp_def case_prod_beta)

lemma hm_len_card: "hm_wf m \<Longrightarrow> hm_len m = card (dom (hm_get m))"
proof -
  assume wf: "hm_wf m"
  have "dom (hm_get m) = fst ` set m"
    by (simp add: hm_get_def [abs_def] dom_map_of_conv_image_fst)
  with wf show ?thesis
    by (simp add: hm_len_def hm_wf_def distinct_card [symmetric])
       (metis distinct_card length_map set_map)
qed

text \<open>The interface the components rely on: look-ups after each operation, sizes as key counts.\<close>

locale hash_map =
  fixes empty :: 'm
    and get :: "'m \<Rightarrow> 'k \<Rightarrow> 'v option"
    and insert_at :: "'k \<Rightarrow> 'v \<Rightarrow> 'm \<Rightarrow> 'm"
    and remove_at :: "'k \<Rightarrow> 'm \<Rightarrow> 'm"
    and retain :: "('k \<Rightarrow> 'v \<Rightarrow> bool) \<Rightarrow> 'm \<Rightarrow> 'm"
    and len :: "'m \<Rightarrow> nat"
    and wf_map :: "'m \<Rightarrow> bool"
  assumes get_empty: "get empty k = None"
    and get_insert: "wf_map m \<Longrightarrow> get (insert_at k v m) k' = (if k' = k then Some v else get m k')"
    and get_remove: "wf_map m \<Longrightarrow> get (remove_at k m) k' = (if k' = k then None else get m k')"
    and get_retain: "wf_map m \<Longrightarrow> get (retain P m) k =
      (case get m k of None \<Rightarrow> None | Some v \<Rightarrow> if P k v then Some v else None)"
    and len_card: "wf_map m \<Longrightarrow> len m = card (dom (get m))"
    and finite_keys: "wf_map m \<Longrightarrow> finite (dom (get m))"
    and wf_empty: "wf_map empty"
    and wf_insert: "wf_map m \<Longrightarrow> wf_map (insert_at k v m)"
    and wf_remove: "wf_map m \<Longrightarrow> wf_map (remove_at k m)"
    and wf_retain: "wf_map m \<Longrightarrow> wf_map (retain P m)"
begin

lemma dom_insert_at: "wf_map m \<Longrightarrow> dom (get (insert_at k v m)) = insert k (dom (get m))"
  by (auto simp: get_insert dom_def)

lemma dom_remove_at: "wf_map m \<Longrightarrow> dom (get (remove_at k m)) = dom (get m) - {k}"
  by (auto simp: get_remove dom_def)

lemma dom_retain: "wf_map m \<Longrightarrow> dom (get (retain P m)) \<subseteq> dom (get m)"
  by (auto simp: get_retain dom_def split: option.splits)

lemma len_insert_new: "wf_map m \<Longrightarrow> get m k = None \<Longrightarrow> len (insert_at k v m) = Suc (len m)"
  by (simp add: len_card wf_insert finite_keys dom_insert_at card_insert_if domIff)

lemma len_insert_old: "wf_map m \<Longrightarrow> get m k \<noteq> None \<Longrightarrow> len (insert_at k v m) = len m"
  by (simp add: len_card wf_insert dom_insert_at insert_absorb domIff)

lemma len_insert_le: "wf_map m \<Longrightarrow> len (insert_at k v m) \<le> Suc (len m)"
  by (cases "get m k = None") (simp_all add: len_insert_new len_insert_old)

lemma len_remove: "wf_map m \<Longrightarrow> get m k \<noteq> None \<Longrightarrow> Suc (len (remove_at k m)) = len m"
  unfolding len_card [OF wf_remove] len_card dom_remove_at
  by (rule card_Suc_Diff1) (auto simp: finite_keys)

lemma len_remove_le: "wf_map m \<Longrightarrow> len (remove_at k m) \<le> len m"
  by (simp add: len_card wf_remove dom_remove_at card_Diff1_le)

lemma len_retain_le: "wf_map m \<Longrightarrow> len (retain P m) \<le> len m"
  by (simp add: len_card wf_retain card_mono finite_keys dom_retain)

end

interpretation hm: hash_map "[]" hm_get hm_insert hm_remove hm_retain hm_len hm_wf
proof unfold_locales
  show "\<And>m. hm_wf m \<Longrightarrow> finite (dom (hm_get m))"
    by (simp add: hm_get_def [abs_def] finite_dom_map_of)
qed (simp_all add: hm_get_retain hm_len_card)

section \<open>Vectors\<close>

text \<open>\<^verbatim>\<open>Vec::dedup_by\<close> on a key: only neighbours are compared, the first of a run is kept.\<close>

fun dedup_by_key :: "('a \<Rightarrow> 'k) \<Rightarrow> 'a list \<Rightarrow> 'a list" where
  "dedup_by_key f [] = []"
| "dedup_by_key f [x] = [x]"
| "dedup_by_key f (x # y # xs) =
     (if f y = f x then dedup_by_key f (x # xs) else x # dedup_by_key f (y # xs))"

lemma set_dedup_by_key: "set (dedup_by_key f xs) \<subseteq> set xs"
  by (induction f xs rule: dedup_by_key.induct) auto

lemma length_dedup_by_key: "length (dedup_by_key f xs) \<le> length xs"
  by (induction f xs rule: dedup_by_key.induct) auto

lemma keys_dedup_by_key: "f ` set (dedup_by_key f xs) = f ` set xs"
  by (induction f xs rule: dedup_by_key.induct) auto

lemma dedup_by_key_sorted_distinct:
  "sorted (map f xs) \<Longrightarrow> distinct (map f (dedup_by_key f xs))"
proof (induction f xs rule: dedup_by_key.induct)
  case (3 f x y xs)
  show ?case
  proof (cases "f y = f x")
    case True
    with "3" show ?thesis by simp
  next
    case False
    with "3.prems" have "f x < f y" by (simp add: order_less_le)
    with "3.prems" have "\<forall>z \<in> set (y # xs). f x < f z" by (auto simp: less_le_trans)
    then have "f x \<notin> f ` set (dedup_by_key f (y # xs))"
      by (auto simp: keys_dedup_by_key)
    with "3" False show ?thesis by simp
  qed
qed simp_all

text \<open>\<^verbatim>\<open>HashSet::from_iter(xs).len() == xs.len()\<close>.\<close>

definition all_unique :: "'a list \<Rightarrow> bool" where
  "all_unique xs \<longleftrightarrow> card (set xs) = length xs"

lemma all_unique_distinct [simp]: "all_unique xs = distinct xs"
  by (auto simp: all_unique_def distinct_card card_distinct)

section \<open>Strings\<close>

definition byte_of :: "char \<Rightarrow> nat" where
  "byte_of c = of_char c"

text \<open>
  \<^verbatim>\<open>str::trim\<close> removes the characters with the Unicode property White\_Space at both ends. On
  UTF-8 bytes these are the blanks of ASCII and the two- and three-byte encodings listed here;
  \<open>ws_head\<close> is the number of bytes of a white-space character at the start of a byte list,
  \<open>ws_last\<close> the same at the start of a reversed byte list.
\<close>

definition ws1 :: "nat \<Rightarrow> bool" where
  "ws1 a \<longleftrightarrow> (9 \<le> a \<and> a \<le> 13) \<or> a = 32"

definition ws2 :: "nat \<Rightarrow> nat \<Rightarrow> bool" where
  "ws2 a b \<longleftrightarrow> a = 194 \<and> (b = 133 \<or> b = 160)"

definition ws3 :: "nat \<Rightarrow> nat \<Rightarrow> nat \<Rightarrow> bool" where
  "ws3 a b c \<longleftrightarrow>
     (a = 225 \<and> b = 154 \<and> c = 128) \<or>
     (a = 226 \<and> b = 128 \<and> (128 \<le> c \<and> c \<le> 138 \<or> c = 168 \<or> c = 169 \<or> c = 175)) \<or>
     (a = 226 \<and> b = 129 \<and> c = 159) \<or>
     (a = 227 \<and> b = 128 \<and> c = 128)"

fun ws_head :: "string \<Rightarrow> nat" where
  "ws_head [] = 0"
| "ws_head (a # r) =
     (if ws1 (byte_of a) then 1
      else case r of
        [] \<Rightarrow> 0
      | b # r2 \<Rightarrow>
          (if ws2 (byte_of a) (byte_of b) then 2
           else case r2 of
             [] \<Rightarrow> 0
           | c # _ \<Rightarrow> if ws3 (byte_of a) (byte_of b) (byte_of c) then 3 else 0))"

fun ws_last :: "string \<Rightarrow> nat" where
  "ws_last [] = 0"
| "ws_last (a # r) =
     (if ws1 (byte_of a) then 1
      else case r of
        [] \<Rightarrow> 0
      | b # r2 \<Rightarrow>
          (if ws2 (byte_of b) (byte_of a) then 2
           else case r2 of
             [] \<Rightarrow> 0
           | c # _ \<Rightarrow> if ws3 (byte_of c) (byte_of b) (byte_of a) then 3 else 0))"

function strip_while :: "(string \<Rightarrow> nat) \<Rightarrow> string \<Rightarrow> string" where
  "strip_while h s = (if s = [] \<or> h s = 0 then s else strip_while h (drop (h s) s))"
  by pat_completeness auto
termination
  by (relation "measure (\<lambda>(h, s). length s)") auto

declare strip_while.simps [simp del]

definition trim :: "string \<Rightarrow> string" where
  "trim s = rev (strip_while ws_last (rev (strip_while ws_head s)))"

lemma length_strip_while: "length (strip_while h s) \<le> length s"
proof (induction h s rule: strip_while.induct)
  case (1 h s)
  then show ?case by (subst strip_while.simps) force
qed

lemma length_trim: "length (trim s) \<le> length s"
  unfolding trim_def
  using length_strip_while [of ws_last "rev (strip_while ws_head s)"]
    length_strip_while [of ws_head s] by simp

text \<open>\<^verbatim>\<open>s.chars().any(char::is_control)\<close>: the C0 controls, DEL and the C1 controls.\<close>

fun has_control :: "string \<Rightarrow> bool" where
  "has_control [] = False"
| "has_control (a # r) =
     (byte_of a < 32 \<or> byte_of a = 127 \<or>
      (byte_of a = 194 \<and> r \<noteq> [] \<and> 128 \<le> byte_of (hd r) \<and> byte_of (hd r) < 160) \<or>
      has_control r)"

definition to_ascii_lowercase :: "string \<Rightarrow> string" where
  "to_ascii_lowercase s =
     map (\<lambda>c. if 65 \<le> byte_of c \<and> byte_of c \<le> 90 then char_of (byte_of c + 32) else c) s"

definition is_ascii_punctuation :: "char \<Rightarrow> bool" where
  "is_ascii_punctuation c \<longleftrightarrow>
     (33 \<le> byte_of c \<and> byte_of c \<le> 47) \<or> (58 \<le> byte_of c \<and> byte_of c \<le> 64) \<or>
     (91 \<le> byte_of c \<and> byte_of c \<le> 96) \<or> (123 \<le> byte_of c \<and> byte_of c \<le> 126)"

definition is_ascii_alphanumeric :: "char \<Rightarrow> bool" where
  "is_ascii_alphanumeric c \<longleftrightarrow>
     (48 \<le> byte_of c \<and> byte_of c \<le> 57) \<or> (65 \<le> byte_of c \<and> byte_of c \<le> 90) \<or>
     (97 \<le> byte_of c \<and> byte_of c \<le> 122)"

end
