(* ===== verification/F64.thy ===== *)
theory F64
  imports Prelude "HOL-Library.Log_Nat"
begin

text \<open>
  The \<^verbatim>\<open>f64\<close> type of the Rust sources: IEEE 754 binary64 values and the operations the
  protocol and runtime crates apply to them. A finite value is kept as the rational number it
  denotes (the two zeros are one value; no modelled operation tells them apart). Every arithmetic
  operation computes the exact rational result and rounds it to the nearest representable value,
  ties to even, overflowing to an infinity, as IEEE 754 prescribes.

  The locale \<open>correct_rounding\<close> states what the geometry proofs need of rounding; the
  interpretation at the end of the theory proves it for the rounding defined here.
\<close>

section \<open>Values and rounding\<close>

datatype f64 = Fin rat | PosInf | NegInf | NaN

text \<open>The greatest \<open>e\<close> with \<open>2 ^ e \<le> x\<close>, for positive \<open>x\<close>.\<close>

definition ilog2 :: "rat \<Rightarrow> int" where
  "ilog2 x =
     (if 1 \<le> x then int (floorlog 2 (nat \<lfloor>x\<rfloor>)) - 1
      else - int (floorlog 2 (nat (\<lceil>1 / x\<rceil> - 1))))"

text \<open>Round to the nearest integer, ties to the even one.\<close>

definition rne :: "rat \<Rightarrow> int" where
  "rne x =
     (let f = \<lfloor>x\<rfloor>; d = x - of_int f
      in if d < 1 / 2 then f else if 1 / 2 < d then f + 1 else if even f then f else f + 1)"

text \<open>Exponent of the unit in the last place of a binary64 value of the magnitude of \<open>x\<close>.\<close>

definition ulp_exp :: "rat \<Rightarrow> int" where
  "ulp_exp x = max (-1074) (ilog2 \<bar>x\<bar> - 52)"

definition rnd :: "rat \<Rightarrow> rat" where
  "rnd x = (if x = 0 then 0 else of_int (rne (x / 2 powi ulp_exp x)) * 2 powi ulp_exp x)"

definition f64_round_to :: "rat \<Rightarrow> f64" where
  "f64_round_to x =
     (let r = rnd x
      in if 2 ^ 1024 \<le> r then PosInf else if r \<le> - (2 ^ 1024) then NegInf else Fin r)"

text \<open>\<^verbatim>\<open>f64::MIN_POSITIVE\<close>, the least normal value.\<close>

definition min_normal :: rat where
  "min_normal = 2 powi (-1022)"

section \<open>Operations\<close>

definition is_finite :: "f64 \<Rightarrow> bool" where
  "is_finite a = (case a of Fin _ \<Rightarrow> True | _ \<Rightarrow> False)"

fun f64_le :: "f64 \<Rightarrow> f64 \<Rightarrow> bool" where
  "f64_le NaN b = False"
| "f64_le a NaN = False"
| "f64_le NegInf b = True"
| "f64_le a PosInf = True"
| "f64_le (Fin x) (Fin y) = (x \<le> y)"
| "f64_le (Fin x) NegInf = False"
| "f64_le PosInf b = False"

fun f64_lt :: "f64 \<Rightarrow> f64 \<Rightarrow> bool" where
  "f64_lt NaN b = False"
| "f64_lt a NaN = False"
| "f64_lt NegInf b = (b \<noteq> NegInf)"
| "f64_lt (Fin x) (Fin y) = (x < y)"
| "f64_lt (Fin x) PosInf = True"
| "f64_lt (Fin x) NegInf = False"
| "f64_lt PosInf b = False"

text \<open>The \<^verbatim>\<open>PartialEq\<close> of \<^verbatim>\<open>f64\<close>: not a number is not equal to itself.\<close>

definition f64_eq :: "f64 \<Rightarrow> f64 \<Rightarrow> bool" where
  "f64_eq a b \<longleftrightarrow> a \<noteq> NaN \<and> a = b"

definition f64_in_range :: "f64 \<Rightarrow> f64 \<Rightarrow> f64 \<Rightarrow> bool" where
  "f64_in_range lo hi a \<longleftrightarrow> f64_le lo a \<and> f64_le a hi"

fun f64_abs :: "f64 \<Rightarrow> f64" where
  "f64_abs (Fin x) = Fin \<bar>x\<bar>"
| "f64_abs PosInf = PosInf"
| "f64_abs NegInf = PosInf"
| "f64_abs NaN = NaN"

definition inf_of_sign :: "rat \<Rightarrow> f64" where
  "inf_of_sign x = (if 0 < x then PosInf else if x < 0 then NegInf else NaN)"

fun f64_neg :: "f64 \<Rightarrow> f64" where
  "f64_neg (Fin x) = Fin (- x)"
| "f64_neg PosInf = NegInf"
| "f64_neg NegInf = PosInf"
| "f64_neg NaN = NaN"

fun f64_add :: "f64 \<Rightarrow> f64 \<Rightarrow> f64" where
  "f64_add (Fin x) (Fin y) = f64_round_to (x + y)"
| "f64_add NaN b = NaN"
| "f64_add a NaN = NaN"
| "f64_add PosInf NegInf = NaN"
| "f64_add NegInf PosInf = NaN"
| "f64_add PosInf b = PosInf"
| "f64_add NegInf b = NegInf"
| "f64_add a PosInf = PosInf"
| "f64_add a NegInf = NegInf"

fun f64_mul :: "f64 \<Rightarrow> f64 \<Rightarrow> f64" where
  "f64_mul (Fin x) (Fin y) = f64_round_to (x * y)"
| "f64_mul NaN b = NaN"
| "f64_mul a NaN = NaN"
| "f64_mul PosInf (Fin y) = inf_of_sign y"
| "f64_mul NegInf (Fin y) = inf_of_sign (- y)"
| "f64_mul (Fin x) PosInf = inf_of_sign x"
| "f64_mul (Fin x) NegInf = inf_of_sign (- x)"
| "f64_mul PosInf PosInf = PosInf"
| "f64_mul NegInf NegInf = PosInf"
| "f64_mul PosInf NegInf = NegInf"
| "f64_mul NegInf PosInf = NegInf"

text \<open>Division by zero takes the sign of the dividend: the divisor is a positive zero.\<close>

fun f64_div :: "f64 \<Rightarrow> f64 \<Rightarrow> f64" where
  "f64_div (Fin x) (Fin y) = (if y = 0 then inf_of_sign x else f64_round_to (x / y))"
| "f64_div NaN b = NaN"
| "f64_div a NaN = NaN"
| "f64_div (Fin x) PosInf = Fin 0"
| "f64_div (Fin x) NegInf = Fin 0"
| "f64_div PosInf (Fin y) = (if y < 0 then NegInf else PosInf)"
| "f64_div NegInf (Fin y) = (if y < 0 then PosInf else NegInf)"
| "f64_div a b = NaN"

text \<open>\<^verbatim>\<open>f64::round\<close>: ties away from zero; the result of rounding a binary64 value is exact.\<close>

definition round_half_away :: "rat \<Rightarrow> int" where
  "round_half_away x = (if 0 \<le> x then \<lfloor>x + 1 / 2\<rfloor> else - \<lfloor>- x + 1 / 2\<rfloor>)"

fun f64_round :: "f64 \<Rightarrow> f64" where
  "f64_round (Fin x) = Fin (of_int (round_half_away x))"
| "f64_round a = a"

text \<open>\<^verbatim>\<open>as u32\<close>: truncates and saturates; not a number becomes 0.\<close>

fun f64_as_u32 :: "f64 \<Rightarrow> u32" where
  "f64_as_u32 (Fin x) =
     (if x \<le> 0 then 0 else if of_nat u32_max \<le> x then of_nat u32_max else of_nat (nat \<lfloor>x\<rfloor>))"
| "f64_as_u32 PosInf = of_nat u32_max"
| "f64_as_u32 NegInf = 0"
| "f64_as_u32 NaN = 0"

definition f64_from_u32 :: "u32 \<Rightarrow> f64" where
  "f64_from_u32 w = Fin (of_nat (unat w))"

section \<open>Rounding is correct\<close>

lemma two_powi_pos [simp]: "0 < (2 :: rat) powi e"
  by (simp add: zero_less_power_int)

lemma two_powi_le_iff [simp]: "(2 :: rat) powi d \<le> 2 powi e \<longleftrightarrow> d \<le> e"
  using power_int_increasing [of d e "2 :: rat"] power_int_strict_increasing [of e d "2 :: rat"]
  by (cases "d \<le> e") auto

lemma two_powi_less_iff [simp]: "(2 :: rat) powi d < 2 powi e \<longleftrightarrow> d < e"
  by (simp add: not_le [symmetric])

lemma two_powi_add: "(2 :: rat) powi (d + e) = 2 powi d * 2 powi e"
  by (simp add: power_int_add)

lemma rat_two_power_le: "2 ^ k \<le> n \<Longrightarrow> (2 :: rat) ^ k \<le> of_nat n"
  by (metis of_nat_le_iff of_nat_numeral of_nat_power)

lemma rat_less_two_power: "n < 2 ^ k \<Longrightarrow> of_nat n + 1 \<le> (2 :: rat) ^ k"
  by (metis Suc_leI add.commute of_nat_Suc of_nat_le_iff of_nat_numeral of_nat_power)

lemma ilog2_bounds_ge1:
  assumes "1 \<le> x"
  shows "2 powi ilog2 x \<le> x \<and> x < 2 powi (ilog2 x + 1)"
proof -
  define n where "n = nat \<lfloor>x\<rfloor>"
  define k where "k = floorlog 2 n"
  have n: "0 < n" "of_nat n \<le> x" "x < of_nat n + 1"
    using assms floor_correct [of x] by (auto simp: n_def)
  have b: "2 ^ (k - 1) \<le> n" "n < 2 ^ k"
    using floorlog_bounds [of n 2] n(1) by (auto simp: k_def)
  have k: "0 < k" using b(2) n(1) by (cases k) auto
  have il: "ilog2 x = int (k - 1)"
    using assms k by (simp add: ilog2_def n_def k_def of_nat_diff)
  have p: "int (k - 1) + 1 = int k" using k by simp
  show ?thesis
    unfolding il p power_int_of_nat using n rat_two_power_le [OF b(1)] rat_less_two_power [OF b(2)]
    by linarith
qed

lemma ilog2_bounds_less1:
  assumes "0 < x" "x < 1"
  shows "2 powi ilog2 x \<le> x \<and> x < 2 powi (ilog2 x + 1)"
proof -
  define n where "n = nat (\<lceil>1 / x\<rceil> - 1)"
  define k where "k = floorlog 2 n"
  have "1 < 1 / x" using assms by simp
  then have c: "1 < \<lceil>1 / x\<rceil>" by (simp add: less_ceiling_iff)
  then have "0 \<le> \<lceil>1 / x\<rceil> - 1" by linarith
  then have "rat_of_nat n = of_int (\<lceil>1 / x\<rceil> - 1)" unfolding n_def by (rule of_nat_nat)
  with c have n: "0 < n" "of_nat n < 1 / x" "1 / x \<le> of_nat n + 1"
    using ceiling_correct [of "1 / x"] by (linarith | simp add: n_def)+
  have b: "2 ^ (k - 1) \<le> n" "n < 2 ^ k"
    using floorlog_bounds [of n 2] n(1) by (auto simp: k_def)
  have k: "0 < k" using b(2) n(1) by (cases k) auto
  have il: "ilog2 x = - int k" using assms by (simp add: ilog2_def n_def k_def)
  have p: "- int k + 1 = - int (k - 1)" using k by simp
  have "1 / x \<le> 2 ^ k" "2 ^ (k - 1) < 1 / x"
    using n rat_two_power_le [OF b(1)] rat_less_two_power [OF b(2)] by linarith+
  then show ?thesis
    unfolding il p power_int_minus power_int_of_nat using assms
    by (simp add: field_simps)
qed

lemma ilog2_bounds:
  assumes "0 < x"
  shows "2 powi ilog2 x \<le> x" and "x < 2 powi (ilog2 x + 1)"
  using ilog2_bounds_ge1 [of x] ilog2_bounds_less1 [OF assms] by (cases "1 \<le> x"; simp)+

lemma ilog2_less:
  assumes "0 < x" "x < 2 powi e"
  shows "ilog2 x < e"
  using ilog2_bounds(1) [OF assms(1)] assms(2)
  by (metis le_less_trans two_powi_less_iff)

lemma ilog2_mono:
  assumes "0 < x" "x \<le> y"
  shows "ilog2 x \<le> ilog2 y"
  using ilog2_less [of x "ilog2 y + 1"] ilog2_bounds(2) [of y] assms by simp

lemma rne_of_int [simp]: "rne (of_int n) = n"
  by (simp add: rne_def)

lemma rne_error: "\<bar>of_int (rne x) - x\<bar> \<le> 1 / 2"
  using floor_correct [of x] by (simp add: rne_def Let_def abs_le_iff)

lemma rne_mono:
  assumes "x \<le> y"
  shows "rne x \<le> rne y"
proof (cases "\<lfloor>x\<rfloor> = \<lfloor>y\<rfloor>")
  case True
  with assms show ?thesis by (auto simp: rne_def Let_def)
next
  case False
  with floor_mono [OF assms] have "\<lfloor>x\<rfloor> + 1 \<le> \<lfloor>y\<rfloor>" by simp
  moreover have "rne x \<le> \<lfloor>x\<rfloor> + 1" "\<lfloor>y\<rfloor> \<le> rne y" by (auto simp: rne_def Let_def)
  ultimately show ?thesis by linarith
qed

lemma rne_minus: "rne (- x) = - rne x"
proof (cases "x = of_int \<lfloor>x\<rfloor>")
  case True
  then have "rne x = \<lfloor>x\<rfloor>" "rne (- x) = - \<lfloor>x\<rfloor>"
    by (metis rne_of_int, metis of_int_minus rne_of_int)
  then show ?thesis by simp
next
  case False
  then have c: "\<lfloor>- x\<rfloor> = - \<lfloor>x\<rfloor> - 1"
    by (metis ceiling_altdef floor_minus minus_add uminus_add_conv_diff)
  show ?thesis by (auto simp: rne_def Let_def c)
qed

lemma rnd_0 [simp]: "rnd 0 = 0"
  by (simp add: rnd_def)

lemma rnd_minus: "rnd (- x) = - rnd x"
  by (simp add: rnd_def ulp_exp_def rne_minus flip: minus_divide_left)

text \<open>Every positive number is below 2 to the 53 units in its last place.\<close>

lemma scaled_less: "0 < x \<Longrightarrow> x / 2 powi ulp_exp x < 2 ^ 53"
proof -
  assume x: "0 < x"
  have "x < 2 powi (ilog2 x + 1)" using x by (rule ilog2_bounds)
  also have "\<dots> \<le> 2 powi (53 + ulp_exp x)" using x by (simp add: ulp_exp_def)
  finally show ?thesis by (simp add: two_powi_add pos_divide_less_eq)
qed

lemma rnd_le_top: "0 < x \<Longrightarrow> rnd x \<le> 2 ^ 53 * 2 powi ulp_exp x"
  using rne_mono [of "x / 2 powi ulp_exp x" "of_int (2 ^ 53)"] scaled_less [of x]
  by (simp only: rne_of_int) (simp add: rnd_def)

lemma rnd_nonneg: "0 \<le> x \<Longrightarrow> 0 \<le> rnd x"
  using rne_mono [of "of_int 0" "x / 2 powi ulp_exp x"] by (simp only: rne_of_int) (simp add: rnd_def)

lemma rnd_mono_pos:
  assumes "0 < x" "x \<le> y"
  shows "rnd x \<le> rnd y"
proof (cases "ulp_exp x = ulp_exp y")
  case True
  with assms show ?thesis
    by (simp add: rnd_def rne_mono divide_right_mono)
next
  case False
  have le: "ilog2 x \<le> ilog2 y" using assms by (rule ilog2_mono)
  with False assms have ey: "ulp_exp x + 1 \<le> ulp_exp y" "ulp_exp y = ilog2 y - 52"
    by (auto simp: ulp_exp_def)
  have "2 powi (52 + ulp_exp y) \<le> y" using ilog2_bounds(1) [of y] assms ey(2) by simp
  then have "of_int (2 ^ 52) \<le> y / 2 powi ulp_exp y" by (simp add: two_powi_add pos_le_divide_eq)
  then have "2 ^ 52 \<le> rne (y / 2 powi ulp_exp y)" by (metis rne_mono rne_of_int)
  then have "(2 :: rat) ^ 52 * 2 powi ulp_exp y \<le> rnd y" using assms
    by (simp add: rnd_def)
  moreover have "(2 :: rat) * 2 powi ulp_exp x \<le> 2 powi ulp_exp y"
    using ey(1) two_powi_le_iff [of "1 + ulp_exp x" "ulp_exp y"] by (simp only: two_powi_add) simp
  ultimately show ?thesis using rnd_le_top [OF assms(1)] by simp
qed

lemma rnd_mono: "x \<le> y \<Longrightarrow> rnd x \<le> rnd y"
proof -
  assume le: "x \<le> y"
  consider "0 < x" | "x \<le> 0" "0 \<le> y" | "y < 0" by linarith
  then show ?thesis
  proof cases
    case 1
    with le show ?thesis by (simp add: rnd_mono_pos)
  next
    case 2
    then show ?thesis using rnd_nonneg [of y] rnd_nonneg [of "- x"] by (simp add: rnd_minus)
  next
    case 3
    then show ?thesis using le rnd_mono_pos [of "- y" "- x"] by (simp add: rnd_minus)
  qed
qed

text \<open>A multiple of a power of two with a 53-bit factor is representable.\<close>

lemma rnd_exact:
  assumes "\<bar>m\<bar> < 2 ^ 53" "-1074 \<le> e"
  shows "rnd (of_int m * 2 powi e) = of_int m * 2 powi e"
proof (cases "m = 0")
  case False
  define x where "x = of_int m * (2 :: rat) powi e"
  have "\<bar>x\<bar> < 2 powi (53 + e)" "0 < \<bar>x\<bar>"
    using assms(1) False unfolding two_powi_add x_def
    by (simp_all add: abs_mult flip: of_int_abs)
  then have "ilog2 \<bar>x\<bar> < 53 + e" by (simp add: ilog2_less)
  then have "ulp_exp x \<le> e" using assms(2) by (simp add: ulp_exp_def)
  then obtain k where k: "e = int k + ulp_exp x" by (metis diff_add_cancel zle_iff_zadd add.commute)
  have x: "x = of_int m * (2 ^ k * 2 powi ulp_exp x)"
    using k by (metis x_def two_powi_add power_int_of_nat)
  then have "x / 2 powi ulp_exp x = of_int (m * 2 ^ k)"
    by (metis nonzero_mult_div_cancel_right mult.assoc of_int_mult of_int_power of_int_numeral
        order_less_irrefl two_powi_pos)
  then have "rne (x / 2 powi ulp_exp x) = m * 2 ^ k" by (simp only: rne_of_int)
  with x have "rnd x = x" by (simp add: rnd_def mult.assoc)
  then show ?thesis by (simp add: x_def)
qed simp

lemma rnd_of_int: "\<bar>m\<bar> < 2 ^ 53 \<Longrightarrow> rnd (of_int m) = of_int m"
  using rnd_exact [of m 0] by simp

lemma min_normal_pos: "0 < min_normal"
  unfolding min_normal_def by (rule two_powi_pos)

lemma min_normal_le: "min_normal \<le> 1 / 2 ^ 40"
proof -
  have "min_normal \<le> 2 powi (-40)" unfolding min_normal_def two_powi_le_iff by simp
  then show ?thesis by (simp add: power_int_minus)
qed

lemma rnd_error:
  assumes "min_normal \<le> \<bar>x\<bar>"
  shows "\<bar>rnd x - x\<bar> \<le> \<bar>x\<bar> / 2 ^ 53"
proof -
  have pos: "0 < \<bar>x\<bar>" using assms min_normal_pos by linarith
  have "2 powi (-1022) < (2 :: rat) powi (ilog2 \<bar>x\<bar> + 1)"
    using assms [unfolded min_normal_def] ilog2_bounds(2) [OF pos] by (rule le_less_trans)
  then have il: "ilog2 \<bar>x\<bar> = 52 + ulp_exp x" by (simp only: two_powi_less_iff) (simp add: ulp_exp_def)
  let ?u = "(2 :: rat) powi ulp_exp x"
  have "rnd x - x = (of_int (rne (x / ?u)) - x / ?u) * ?u"
    using pos by (simp add: rnd_def left_diff_distrib)
  then have "\<bar>rnd x - x\<bar> \<le> 1 / 2 * ?u"
    by (simp only: abs_mult) (simp add: mult_right_mono [OF rne_error [unfolded], simplified])
  moreover have "2 ^ 52 * ?u \<le> \<bar>x\<bar>"
    using ilog2_bounds(1) [OF pos] unfolding il two_powi_add by simp
  ultimately show ?thesis by simp
qed

section \<open>What coordinate arithmetic needs of rounding\<close>

locale correct_rounding =
  fixes r :: "rat \<Rightarrow> rat"
  assumes mono: "x \<le> y \<Longrightarrow> r x \<le> r y"
    and exact_int: "\<bar>m\<bar> < 2 ^ 53 \<Longrightarrow> r (of_int m) = of_int m"
    and error: "min_normal \<le> \<bar>x\<bar> \<Longrightarrow> \<bar>r x - x\<bar> \<le> \<bar>x\<bar> / 2 ^ 53"
begin

lemma exact_nat: "n < 2 ^ 53 \<Longrightarrow> r (of_nat n) = of_nat n"
  using exact_int [of "int n"] by simp

lemma zero: "r 0 = 0"
  using exact_nat [of 0] by simp

lemma at_most: "x \<le> of_nat n \<Longrightarrow> n < 2 ^ 53 \<Longrightarrow> r x \<le> of_nat n"
  using mono [of x "of_nat n"] by (simp add: exact_nat)

lemma nonneg: "0 \<le> x \<Longrightarrow> 0 \<le> r x"
  using mono [of 0 x] by (simp add: zero)

lemma above: "min_normal \<le> x \<Longrightarrow> x * (1 - 1 / 2 ^ 53) \<le> r x"
  using error [of x] min_normal_pos abs_ge_minus_self [of "r x - x"] by (simp add: algebra_simps)

lemma below: "min_normal \<le> x \<Longrightarrow> r x \<le> x * (1 + 1 / 2 ^ 53)"
  using error [of x] min_normal_pos abs_ge_self [of "r x - x"] by (simp add: algebra_simps)

lemma normal: "1 / 2 ^ 40 \<le> x \<Longrightarrow> min_normal \<le> x"
  using min_normal_le by (rule order_trans)

text \<open>A thousandth of a share of \<open>n\<close> never rounds beyond \<open>n\<close>.\<close>

lemma share_bounds:
  assumes "0 \<le> v" "v \<le> 1000" "n < 2 ^ 32"
  shows "0 \<le> r (r (v * of_nat n) / 1000)" "r (r (v * of_nat n) / 1000) \<le> of_nat n"
proof -
  have "r (v * of_nat n) \<le> r (of_nat (1000 * n))"
    using assms by (intro mono) (simp add: mult_right_mono)
  also have "\<dots> = 1000 * of_nat n" using assms by (simp add: exact_nat del: of_nat_mult)
  finally have "r (r (v * of_nat n) / 1000) \<le> r (of_nat n)" by (intro mono) simp
  then show "r (r (v * of_nat n) / 1000) \<le> of_nat n" using assms by (simp add: exact_nat)
  show "0 \<le> r (r (v * of_nat n) / 1000)" using assms by (simp add: nonneg)
qed

text \<open>Three roundings move a pixel number by less than half a pixel.\<close>

lemma three_roundings:
  assumes "0 < p" "p \<le> n" "n < 2 ^ 32"
  shows "\<bar>r (r (r (1000 * of_nat p / of_nat n) * of_nat n) / 1000) - of_nat p\<bar> < 1 / 2"
proof -
  let ?lo = "1 - 1 / 2 ^ 53 :: rat" and ?hi = "1 + 1 / 2 ^ 53 :: rat"
  let ?P = "rat_of_nat p" and ?N = "rat_of_nat n"
  define v where "v = r (1000 * ?P / ?N)"
  define w where "w = r (v * ?N)"
  have P: "1 \<le> ?P" "?P \<le> 2 ^ 32" and N: "1 \<le> ?N" "?N \<le> 2 ^ 32"
    using assms rat_less_two_power [of p 32] rat_less_two_power [of n 32] by simp_all
  have "1 / 2 ^ 40 \<le> 1000 * ?P / ?N" using P N by (simp add: field_simps)
  then have v: "1000 * ?P / ?N * ?lo \<le> v" "v \<le> 1000 * ?P / ?N * ?hi"
    unfolding v_def by (simp_all only: above below normal)
  then have vn: "1000 * ?P * ?lo \<le> v * ?N" "v * ?N \<le> 1000 * ?P * ?hi"
    using N by (simp_all add: field_simps)
  then have "1 / 2 ^ 40 \<le> v * ?N" using P by simp
  then have w: "v * ?N * ?lo \<le> w" "w \<le> v * ?N * ?hi"
    unfolding w_def by (simp_all only: above below normal)
  with vn have w2: "?P * ?lo * ?lo \<le> w / 1000" "w / 1000 \<le> ?P * ?hi * ?hi" by simp_all
  then have "1 / 2 ^ 40 \<le> w / 1000" using P by simp
  then have "w / 1000 * ?lo \<le> r (w / 1000)" "r (w / 1000) \<le> w / 1000 * ?hi"
    by (simp_all only: above below normal)
  with w2 have "?P * ?lo * ?lo * ?lo \<le> r (w / 1000)" "r (w / 1000) \<le> ?P * ?hi * ?hi * ?hi"
    by simp_all
  then have "- (1 / 2) < r (w / 1000) - ?P" "r (w / 1000) - ?P < 1 / 2" using P by simp_all
  then show ?thesis unfolding w_def [symmetric] v_def [symmetric] by (simp only: abs_less_iff) simp
qed

text \<open>A proper fraction of a length never rounds beyond the length.\<close>

lemma fraction_bounds:
  assumes "min_normal \<le> w" "r w = w" "p < n" "n < 2 ^ 32"
  shows "0 \<le> r (r (of_nat p * w) / of_nat n)" "r (r (of_nat p * w) / of_nat n) \<le> w"
proof -
  have w: "0 < w" using assms(1) min_normal_pos by linarith
  show "0 \<le> r (r (of_nat p * w) / of_nat n)" using w by (simp add: nonneg)
  have "r (of_nat p * w) \<le> of_nat n * w"
  proof (cases "p = 0")
    case False
    then have "w \<le> of_nat p * w" using w by simp
    then have "min_normal \<le> of_nat p * w" using assms(1) by linarith
    then have "r (of_nat p * w) \<le> of_nat p * w * (1 + 1 / 2 ^ 53)" by (rule below)
    also have "\<dots> = (of_nat p * (1 + 1 / 2 ^ 53)) * w" by simp
    also have "\<dots> \<le> of_nat n * w"
    proof (rule mult_right_mono)
      have "rat_of_nat p + 1 \<le> of_nat n" "rat_of_nat p \<le> 2 ^ 32"
        using assms rat_less_two_power [of p 32] by simp_all
      then show "rat_of_nat p * (1 + 1 / 2 ^ 53) \<le> of_nat n" by simp
    qed (use w in simp)
    finally show ?thesis .
  qed (use w in \<open>simp add: zero\<close>)
  then have "r (r (of_nat p * w) / of_nat n) \<le> r w"
    using assms(3) by (intro mono) (simp add: pos_divide_le_eq mult.commute)
  with assms(2) show "r (r (of_nat p * w) / of_nat n) \<le> w" by simp
qed

end

interpretation ieee: correct_rounding rnd
  by unfold_locales (erule rnd_mono rnd_of_int rnd_error)+

lemma round_half_away_near:
  assumes "\<bar>x - of_nat n\<bar> < 1 / 2"
  shows "round_half_away x = int n"
proof (cases "0 \<le> x")
  case True
  from assms have "of_nat n \<le> x + 1 / 2" "x + 1 / 2 < of_nat n + 1"
    using abs_ge_self [of "x - of_nat n"] abs_ge_minus_self [of "x - of_nat n"] by linarith+
  with True show ?thesis by (simp add: round_half_away_def floor_unique)
next
  case False
  have "rat_of_nat n < 1" using False assms abs_ge_minus_self [of "x - of_nat n"] by linarith
  then have "n = 0" by simp
  moreover have "\<lfloor>- x + 1 / 2\<rfloor> = 0" using False assms \<open>n = 0\<close>
    by (intro floor_unique) simp_all
  ultimately show ?thesis using False by (simp add: round_half_away_def)
qed

lemma round_half_away_bounds:
  assumes "0 \<le> x" "x \<le> of_nat n"
  shows "0 \<le> round_half_away x" "round_half_away x \<le> int n"
  using assms by (simp_all add: round_half_away_def floor_le_iff le_floor_iff)

lemma f64_round_to_finite: "\<bar>rnd x\<bar> < 2 ^ 1024 \<Longrightarrow> f64_round_to x = Fin (rnd x)"
  by (simp add: f64_round_to_def abs_less_iff Let_def not_le)

lemma f64_round_to_small:
  assumes "0 \<le> rnd x" "rnd x < 2 ^ 100"
  shows "f64_round_to x = Fin (rnd x)"
proof (rule f64_round_to_finite)
  have "(2 :: rat) ^ 100 \<le> 2 ^ 1024" by (rule power_increasing) simp_all
  with assms show "\<bar>rnd x\<bar> < 2 ^ 1024" by linarith
qed

lemma f64_round_to_mono: "x \<le> y \<Longrightarrow> f64_le (f64_round_to x) (f64_round_to y)"
  using rnd_mono [of x y] by (auto simp: f64_round_to_def Let_def)

lemma is_finite_iff: "is_finite a \<longleftrightarrow> (\<exists>x. a = Fin x)"
  by (cases a) (simp_all add: is_finite_def)

lemma f64_as_u32_of_nat: "n < 2 ^ 32 \<Longrightarrow> f64_as_u32 (Fin (of_nat n)) = of_nat n"
proof (cases "n = u32_max")
  case False
  assume "n < 2 ^ 32"
  with False have "\<not> of_nat u32_max \<le> rat_of_nat n" by (simp add: u32_max_def)
  then show ?thesis by simp
qed simp

end
