(* ===== verification/Geometry.thy ===== *)
theory Geometry
  imports F64
begin

text \<open>
  The coordinate spaces of \<^verbatim>\<open>crates/protocol/src/geometry.rs\<close>: logical screen points and
  rectangles, screenshot pixels, points normalized to 0..1000, and the conversions between them.
  Floating-point steps are the ones of the source, each with its own rounding.
\<close>

section \<open>Model\<close>

record screen_point =
  sp_x :: f64
  sp_y :: f64

record screen_rect =
  sr_x :: f64
  sr_y :: f64
  sr_width :: f64
  sr_height :: f64

definition rect_contains :: "screen_rect \<Rightarrow> screen_point \<Rightarrow> bool" where
  "rect_contains self point \<longleftrightarrow>
     f64_le (sr_x self) (sp_x point) \<and>
     f64_le (sr_y self) (sp_y point) \<and>
     f64_le (sp_x point) (f64_add (sr_x self) (sr_width self)) \<and>
     f64_le (sp_y point) (f64_add (sr_y self) (sr_height self))"

record screenshot_point =
  px_x :: u32
  px_y :: u32

record normalized_point =
  np_x :: f64
  np_y :: f64

record pixel_size =
  ps_width :: u32
  ps_height :: u32

definition size_contains :: "pixel_size \<Rightarrow> screenshot_point \<Rightarrow> bool" where
  "size_contains self point \<longleftrightarrow> px_x point < ps_width self \<and> px_y point < ps_height self"

definition to_pixel_axis :: "f64 \<Rightarrow> u32 \<Rightarrow> u32" where
  "to_pixel_axis value len =
     f64_as_u32 (f64_round (f64_div (f64_mul value (f64_from_u32 (len - 1))) (Fin 1000)))"

definition to_pixel :: "normalized_point \<Rightarrow> pixel_size \<Rightarrow> screenshot_point option" where
  "to_pixel self img =
     (if \<not> is_finite (np_x self) \<or> \<not> is_finite (np_y self)
       \<or> \<not> f64_in_range (Fin 0) (Fin 1000) (np_x self)
       \<or> \<not> f64_in_range (Fin 0) (Fin 1000) (np_y self)
       \<or> ps_width img = 0 \<or> ps_height img = 0
      then None
      else Some \<lparr>px_x = to_pixel_axis (np_x self) (ps_width img),
                 px_y = to_pixel_axis (np_y self) (ps_height img)\<rparr>)"

definition saturating_sub_u32 :: "u32 \<Rightarrow> u32 \<Rightarrow> u32" where
  "saturating_sub_u32 a b = (if a < b then 0 else a - b)"

definition from_pixel_axis :: "u32 \<Rightarrow> u32 \<Rightarrow> f64" where
  "from_pixel_axis value len =
     f64_div (f64_mul (f64_from_u32 value) (Fin 1000))
       (f64_from_u32 (max (saturating_sub_u32 len 1) 1))"

definition from_pixel :: "screenshot_point \<Rightarrow> pixel_size \<Rightarrow> normalized_point option" where
  "from_pixel point img =
     (if \<not> size_contains img point then None
      else Some \<lparr>np_x = from_pixel_axis (px_x point) (ps_width img),
                 np_y = from_pixel_axis (px_y point) (ps_height img)\<rparr>)"

definition div_ceil_u64 :: "u64 \<Rightarrow> u64 \<Rightarrow> u64" where
  "div_ceil_u64 a b = (if 0 < a mod b then a div b + 1 else a div b)"

definition fit_scale :: "u32 \<Rightarrow> u32 \<Rightarrow> u32 \<Rightarrow> u32 option" where
  "fit_scale edge longest value =
     u32_try_from (unat (div_ceil_u64 (ucast value * ucast edge) (ucast longest)))"

definition fit_long_edge :: "pixel_size \<Rightarrow> u32 \<Rightarrow> pixel_size option" where
  "fit_long_edge self edge =
     (if ps_width self = 0 \<or> ps_height self = 0 \<or> edge = 0 then None
      else let longest = max (ps_width self) (ps_height self)
      in if longest \<le> edge then Some self
      else case fit_scale edge longest (ps_width self) of
          None \<Rightarrow> None
        | Some w \<Rightarrow> (case fit_scale edge longest (ps_height self) of
            None \<Rightarrow> None
          | Some h \<Rightarrow> Some \<lparr>ps_width = max w 1, ps_height = max h 1\<rparr>))"

record screenshot_mapping =
  sm_screen_bounds :: screen_rect
  sm_pixel_size :: pixel_size

definition to_screen_axis :: "f64 \<Rightarrow> f64 \<Rightarrow> u32 \<Rightarrow> u32 \<Rightarrow> f64" where
  "to_screen_axis origin extent pixel pixels =
     f64_add origin (f64_div (f64_mul (f64_from_u32 pixel) extent) (f64_from_u32 pixels))"

definition to_screen :: "screenshot_mapping \<Rightarrow> screenshot_point \<Rightarrow> screen_point option" where
  "to_screen self point =
     (let bounds = sm_screen_bounds self; img = sm_pixel_size self
      in if \<not> size_contains img point \<or> f64_le (sr_width bounds) (Fin 0)
          \<or> f64_le (sr_height bounds) (Fin 0)
      then None
      else Some \<lparr>sp_x = to_screen_axis (sr_x bounds) (sr_width bounds) (px_x point) (ps_width img),
                 sp_y = to_screen_axis (sr_y bounds) (sr_height bounds) (px_y point) (ps_height img)\<rparr>)"

section \<open>Pixels and normalized points\<close>

declare of_nat_unat [simp del]

lemma word_of_nat_unat [simp]: "of_nat (unat w) = (w :: 'a :: len word)"
  by (simp add: of_nat_unat)

lemma unat_less_u32: "unat (w :: u32) < 2 ^ 32"
  using unsigned_less [of w, where ?'a = nat] by simp

lemma rat_unat_u32: "rat_of_nat (unat (w :: u32)) + 1 \<le> 2 ^ 32"
  by (rule rat_less_two_power, rule unat_less_u32)

lemma unat_pred_u32: "(w :: u32) \<noteq> 0 \<Longrightarrow> unat (w - 1) = unat w - 1"
  by (rule unat_minus_one)

lemma to_pixel_axis_eval:
  assumes "0 \<le> v" "v \<le> 1000" "len \<noteq> 0"
  shows "to_pixel_axis (Fin v) len =
    of_nat (nat (round_half_away (rnd (rnd (v * of_nat (unat (len - 1))) / 1000))))"
    and "unat (to_pixel_axis (Fin v) len) \<le> unat (len - 1)"
proof -
  let ?n = "unat (len - 1)"
  have n: "?n < 2 ^ 32" using unat_less_u32 [of "len - 1"] by simp
  note b = ieee.share_bounds [OF assms(1,2) n]
  have i: "0 \<le> rnd (v * of_nat ?n)" "rnd (v * of_nat ?n) < 2 ^ 100"
  proof -
    have "v * of_nat ?n \<le> of_nat (1000 * ?n)" using assms by (simp add: mult_right_mono)
    then have "rnd (v * of_nat ?n) \<le> of_nat (1000 * ?n)"
      by (rule ieee.at_most) (use n in simp)
    moreover have "rat_of_nat (1000 * ?n) < 2 ^ 100" using rat_less_two_power [OF n] by simp
    ultimately show "rnd (v * of_nat ?n) < 2 ^ 100" by linarith
  qed (use assms in \<open>simp add: rnd_nonneg\<close>)
  have o: "rnd (rnd (v * of_nat ?n) / 1000) < 2 ^ 100"
    using b(2) rat_less_two_power [OF n] by simp
  let ?z = "rnd (rnd (v * of_nat ?n) / 1000)"
  note r = round_half_away_bounds [OF b]
  have z: "rat_of_int (round_half_away ?z) = of_nat (nat (round_half_away ?z))" using r(1) by simp
  have lt: "nat (round_half_away ?z) < 2 ^ 32" using r n by linarith
  show e: "to_pixel_axis (Fin v) len = of_nat (nat (round_half_away ?z))"
    unfolding to_pixel_axis_def f64_from_u32_def f64_mul.simps f64_round_to_small [OF i]
      f64_div.simps f64_round_to_small [OF b(1) o]
    by (simp only: zero_neq_numeral [symmetric] if_False f64_round.simps z f64_as_u32_of_nat [OF lt])
  show "unat (to_pixel_axis (Fin v) len) \<le> ?n"
    unfolding e using r lt by (simp only: unat_of_nat take_bit_nat_eq_self) simp
qed

lemma from_pixel_axis_eval:
  assumes "value < len"
  shows "from_pixel_axis value len =
    Fin (rnd (1000 * of_nat (unat value) / of_nat (max (unat len - 1) 1)))"
proof -
  let ?p = "unat value" and ?n = "max (unat len - 1) 1"
  have p: "?p \<le> unat len - 1" using assms by (simp add: word_less_nat_alt)
  have l: "len \<noteq> 0" using assms by auto
  have n: "unat (max (saturating_sub_u32 len 1) 1) = ?n"
    using l by (auto simp: saturating_sub_u32_def word_less_nat_alt unat_pred_u32 max_def word_le_nat_alt)
  have e: "rnd (of_nat ?p * 1000) = of_nat (1000 * ?p)"
    using ieee.exact_nat [of "1000 * ?p"] unat_less_u32 [of "value"] by (simp add: mult.commute)
  have m: "f64_mul (f64_from_u32 value) (Fin 1000) = Fin (of_nat (1000 * ?p))"
    unfolding f64_from_u32_def f64_mul.simps
    by (subst f64_round_to_small) (use e rat_unat_u32 [of "value"] in simp_all)
  have le: "of_nat (1000 * ?p) / of_nat ?n \<le> (of_nat 1000 :: rat)"
    using p by (simp add: pos_divide_le_eq del: of_nat_max)
  have "rnd (of_nat (1000 * ?p) / of_nat ?n) \<le> of_nat 1000"
    using le by (rule ieee.at_most) simp
  then have "f64_round_to (of_nat (1000 * ?p) / of_nat ?n) = Fin (rnd (of_nat (1000 * ?p) / of_nat ?n))"
    by (intro f64_round_to_small rnd_nonneg) simp_all
  then show ?thesis
    unfolding from_pixel_axis_def m unfolding f64_from_u32_def n f64_div.simps by simp
qed

text \<open>The normalized coordinate of a pixel lies in the documented range.\<close>

lemma from_pixel_axis_range:
  assumes "value < len"
  shows "\<exists>v. from_pixel_axis value len = Fin v \<and> 0 \<le> v \<and> v \<le> 1000"
proof -
  let ?n = "max (unat len - 1) 1"
  have "unat value \<le> ?n" using assms by (simp add: word_less_nat_alt)
  then have "1000 * of_nat (unat value) / of_nat ?n \<le> (of_nat 1000 :: rat)"
    by (simp add: pos_divide_le_eq del: of_nat_max)
  then have "rnd (1000 * of_nat (unat value) / of_nat ?n) \<le> of_nat 1000"
    by (rule ieee.at_most) simp
  then show ?thesis using from_pixel_axis_eval [OF assms] by (simp add: rnd_nonneg del: of_nat_max)
qed

lemma axis_round_trip:
  assumes "value < len"
  shows "to_pixel_axis (from_pixel_axis value len) len = value"
proof -
  let ?p = "unat value" and ?n = "max (unat len - 1) 1"
  obtain v where v: "from_pixel_axis value len = Fin v" "0 \<le> v" "v \<le> 1000"
    using from_pixel_axis_range [OF assms] by blast
  have veq: "v = rnd (1000 * of_nat ?p / of_nat ?n)"
    using v(1) from_pixel_axis_eval [OF assms] by simp
  have l: "len \<noteq> 0" using assms by auto
  have p: "?p \<le> unat len - 1" using assms by (simp add: word_less_nat_alt)
  have "round_half_away (rnd (rnd (v * of_nat (unat (len - 1))) / 1000)) = int ?p"
  proof (cases "?p = 0")
    case True
    then show ?thesis using round_half_away_near [of 0 0] by (simp add: veq)
  next
    case False
    with p have n: "?n = unat (len - 1)" "0 < ?p" using l by (simp_all add: unat_pred_u32)
    show ?thesis unfolding veq n(1)
      by (rule round_half_away_near, rule ieee.three_roundings)
        (use n p l unat_less_u32 [of "len - 1"] in \<open>simp_all add: unat_pred_u32\<close>)
  qed
  then show ?thesis using to_pixel_axis_eval(1) [OF v(2,3) l] v(1) by simp
qed

text \<open>Every pixel that \<^verbatim>\<open>to_pixel\<close> returns addresses the image.\<close>

lemma to_pixel_Some_contained:
  assumes "to_pixel pt img = Some px"
  shows "size_contains img px"
proof -
  from assms obtain x y where xy: "np_x pt = Fin x" "np_y pt = Fin y"
    and r: "0 \<le> x" "x \<le> 1000" "0 \<le> y" "y \<le> 1000"
    and nz: "ps_width img \<noteq> 0" "ps_height img \<noteq> 0"
    and px: "px = \<lparr>px_x = to_pixel_axis (Fin x) (ps_width img), px_y = to_pixel_axis (Fin y) (ps_height img)\<rparr>"
    by (auto simp: to_pixel_def is_finite_iff f64_in_range_def split: if_splits)
  have "unat (to_pixel_axis (Fin x) (ps_width img)) < unat (ps_width img)"
    "unat (to_pixel_axis (Fin y) (ps_height img)) < unat (ps_height img)"
    using to_pixel_axis_eval(2) [OF r(1,2) nz(1)] to_pixel_axis_eval(2) [OF r(3,4) nz(2)] nz
    by (simp_all add: unat_pred_u32 unat_gt_0 le_simps(2) [symmetric] Suc_pred)
  then show ?thesis by (simp add: px size_contains_def word_less_nat_alt)
qed

text \<open>
  \<^verbatim>\<open>to_pixel\<close> returns a pixel for exactly the finite points in the inclusive range
  0..1000 and images with non-zero sides, and the pixel it returns addresses the image: the
  rounding, the division and the saturating cast never leave it, for every \<^verbatim>\<open>u32\<close> image size.
\<close>

theorem to_pixel_in_bounds:
  "case to_pixel pt img of
     Some px \<Rightarrow> size_contains img px
   | None \<Rightarrow> \<not> (f64_in_range (Fin 0) (Fin 1000) (np_x pt) \<and> f64_in_range (Fin 0) (Fin 1000) (np_y pt)
       \<and> ps_width img \<noteq> 0 \<and> ps_height img \<noteq> 0)"
proof (cases "to_pixel pt img")
  case None
  then show ?thesis
    by (cases "np_x pt"; cases "np_y pt")
      (auto simp: to_pixel_def f64_in_range_def is_finite_def split: if_splits)
next
  case (Some px)
  then show ?thesis using to_pixel_Some_contained by simp
qed

text \<open>
  Projecting a pixel of an image to normalized coordinates and back gives the same
  pixel, for every image size and every pixel of it: \<^verbatim>\<open>to_pixel\<close> inverts \<^verbatim>\<open>from_pixel\<close> exactly,
  although each of the four floating-point operations rounds.
\<close>

theorem pixel_round_trip:
  assumes "size_contains img px"
  shows "\<exists>pt. from_pixel px img = Some pt \<and> to_pixel pt img = Some px"
proof -
  have b: "px_x px < ps_width img" "px_y px < ps_height img"
    using assms by (simp_all add: size_contains_def)
  then have "ps_width img \<noteq> 0" "ps_height img \<noteq> 0" by auto
  with from_pixel_axis_range [OF b(1)] from_pixel_axis_range [OF b(2)]
    axis_round_trip [OF b(1)] axis_round_trip [OF b(2)] assms
  show ?thesis
    by (auto simp: from_pixel_def to_pixel_def f64_in_range_def is_finite_def)
qed

theorem pixel_round_trip_witness:
  "\<exists>pt. from_pixel \<lparr>px_x = 1919, px_y = 7\<rparr> \<lparr>ps_width = 1920, ps_height = 1080\<rparr> = Some pt \<and>
    to_pixel pt \<lparr>ps_width = 1920, ps_height = 1080\<rparr> = Some \<lparr>px_x = 1919, px_y = 7\<rparr>"
  by (rule pixel_round_trip) (simp add: size_contains_def)

section \<open>Fitting a size under a long-edge budget\<close>

lemma unat_ucast_u64: "unat (ucast (w :: u32) :: u64) = unat w"
  by (simp add: unsigned_ucast_eq take_bit_nat_eq_self order_less_trans [OF unat_less_u32])

lemma unat_mult_u64: "unat (ucast (a :: u32) * ucast (b :: u32) :: u64) = unat a * unat b"
proof -
  have "unat a * unat b \<le> (2 ^ 32 - 1) * (2 ^ 32 - 1)"
    using unat_less_u32 [of a] unat_less_u32 [of b] by (intro mult_le_mono) simp_all
  then have "unat (ucast a :: u64) * unat (ucast b :: u64) < 2 ^ LENGTH(64)"
    by (simp add: unat_ucast_u64)
  then show ?thesis unfolding unat_mult_lem by (simp only: unat_ucast_u64)
qed

text \<open>Ceiling division on \<^verbatim>\<open>u64\<close> does not wrap.\<close>

lemma unat_div_ceil_u64:
  assumes "b \<noteq> 0" "unat a < 2 ^ 64 - 1"
  shows "unat a \<le> unat (div_ceil_u64 a b) * unat b"
    and "unat (div_ceil_u64 a b) * unat b < unat a + unat b"
proof -
  have b: "0 < unat b" using assms(1) by (simp add: unat_gt_0)
  have m: "unat a = unat a div unat b * unat b + unat a mod unat b" "unat a mod unat b < unat b"
    using b by simp_all
  have "unat (a div b) \<le> unat a" by (simp add: unat_div_distrib)
  then have "unat (a div b) + unat (1 :: u64) < 2 ^ LENGTH(64)" using assms(2) by simp
  then have s: "unat (a div b + 1) = unat a div unat b + 1"
    unfolding unat_add_lem by (simp only: unat_div_distrib unat_1)
  have e: "unat (div_ceil_u64 a b) =
      (if unat a mod unat b = 0 then unat a div unat b else unat a div unat b + 1)"
    by (simp add: div_ceil_u64_def word_less_nat_alt unat_mod_distrib unat_div_distrib s)
  have "unat a \<le> unat (div_ceil_u64 a b) * unat b \<and> unat (div_ceil_u64 a b) * unat b < unat a + unat b"
  proof (cases "unat a mod unat b = 0")
    case True
    then have "unat (div_ceil_u64 a b) * unat b = unat a" using m(1) by (simp add: e)
    with b show ?thesis by simp
  next
    case False
    then have "unat (div_ceil_u64 a b) * unat b = unat a div unat b * unat b + unat b" by (simp add: e)
    with m False show ?thesis by linarith
  qed
  then show "unat a \<le> unat (div_ceil_u64 a b) * unat b"
    and "unat (div_ceil_u64 a b) * unat b < unat a + unat b" by blast+
qed

text \<open>One scaled side: the least size whose aspect error is below one pixel.\<close>

lemma fit_scale_eval:
  assumes "value \<le> longest" "edge < longest"
  shows "\<exists>w. fit_scale edge longest value = Some w \<and>
    unat value * unat edge \<le> unat w * unat longest \<and>
    unat w * unat longest < unat value * unat edge + unat longest \<and>
    unat w \<le> unat edge \<and> unat w \<le> unat value"
proof -
  let ?v = "unat value" and ?e = "unat edge" and ?l = "unat longest"
  define r where "r = unat (div_ceil_u64 (ucast value * ucast edge) (ucast longest))"
  have le: "?v \<le> ?l" "?e < ?l" using assms by (simp_all add: word_le_nat_alt word_less_nat_alt)
  have nz: "(ucast longest :: u64) \<noteq> 0" using le by (metis unat_0 unat_ucast_u64 not_less0)
  have "?v * ?e \<le> (2 ^ 32 - 1) * (2 ^ 32 - 1)"
    using unat_less_u32 [of "value"] unat_less_u32 [of edge] by (intro mult_le_mono) simp_all
  then have "unat (ucast value * ucast edge :: u64) < 2 ^ 64 - 1" by (simp add: unat_mult_u64)
  note c = unat_div_ceil_u64 [OF nz this, unfolded unat_ucast_u64 unat_mult_u64, folded r_def]
  have "?v * ?e \<le> ?e * ?l" using le(1) by (metis mult.commute mult_le_mono2)
  with c(2) have "r * ?l < ?e * ?l + ?l" by linarith
  also have "\<dots> = (?e + 1) * ?l" by simp
  finally have "r < ?e + 1" by (simp only: mult_less_cancel2)
  then have re: "r \<le> ?e" by simp
  have "?v * ?e \<le> ?v * ?l" using le(2) by simp
  with c(2) have "r * ?l < ?v * ?l + ?l" by linarith
  also have "\<dots> = (?v + 1) * ?l" by simp
  finally have "r < ?v + 1" by (simp only: mult_less_cancel2)
  then have rv: "r \<le> ?v" by simp
  have "r < 2 ^ 32" using re unat_less_u32 [of edge] by linarith
  then have "fit_scale edge longest value = Some (of_nat r)" "unat (of_nat r :: u32) = r"
    by (simp_all add: fit_scale_def r_def [symmetric] u32_try_from_def u32_max_def unat_of_nat take_bit_nat_eq_self)
  with c re rv show ?thesis by simp
qed

definition fits :: "u32 \<Rightarrow> pixel_size \<Rightarrow> pixel_size \<Rightarrow> bool" where
  "fits edge big small \<longleftrightarrow>
     0 < ps_width small \<and> ps_width small \<le> ps_width big \<and>
     0 < ps_height small \<and> ps_height small \<le> ps_height big \<and>
     max (ps_width small) (ps_height small) = min edge (max (ps_width big) (ps_height big))"

lemma fit_scale_pos:
  assumes "value \<le> longest" "edge < longest" "value \<noteq> 0" "edge \<noteq> 0"
  shows "\<exists>w. fit_scale edge longest value = Some w \<and> 0 < w \<and> w \<le> value \<and> w \<le> edge \<and>
    (value = longest \<longrightarrow> w = edge)"
proof -
  obtain w where w: "fit_scale edge longest value = Some w"
    and c: "unat value * unat edge \<le> unat w * unat longest"
    and le: "w \<le> edge" "w \<le> value"
    using fit_scale_eval [OF assms(1,2)] by (auto simp: word_le_nat_alt)
  have "0 < unat value * unat edge" using assms by (simp add: unat_gt_0)
  with c have "0 < unat w" by (cases "unat w") auto
  moreover have "value = longest \<longrightarrow> unat edge \<le> unat w"
    using c assms(3) by (auto simp: mult.commute unat_gt_0)
  ultimately have "0 < w" "value = longest \<longrightarrow> edge \<le> w"
    by (simp_all add: word_less_nat_alt word_le_nat_alt)
  with w le show ?thesis by auto
qed

text \<open>
  On every input with non-zero sides and budget \<^verbatim>\<open>fit_long_edge\<close> succeeds, never upscales, keeps both sides positive and makes the long edge exactly the smaller
  of the budget and the original long edge.
\<close>

theorem fit_long_edge_fits:
  assumes "ps_width img \<noteq> 0" "ps_height img \<noteq> 0" "edge \<noteq> 0"
  shows "\<exists>small. fit_long_edge img edge = Some small \<and> fits edge img small"
proof (cases "max (ps_width img) (ps_height img) \<le> edge")
  case True
  then show ?thesis using assms
    by (simp add: fit_long_edge_def fits_def word_neq_0_conv min_absorb2 Let_def)
next
  case False
  let ?l = "max (ps_width img) (ps_height img)"
  have lt: "edge < ?l" using False by (simp only: not_le)
  obtain w where w: "fit_scale edge ?l (ps_width img) = Some w" "0 < w" "w \<le> ps_width img"
    "w \<le> edge" "ps_width img = ?l \<longrightarrow> w = edge"
    using fit_scale_pos [OF max.cobounded1 lt assms(1,3)] by blast
  obtain h where h: "fit_scale edge ?l (ps_height img) = Some h" "0 < h" "h \<le> ps_height img"
    "h \<le> edge" "ps_height img = ?l \<longrightarrow> h = edge"
    using fit_scale_pos [OF max.cobounded2 lt assms(2,3)] by blast
  have "1 \<le> w" "1 \<le> h" using w(2) h(2) by (simp_all add: inc_le word_le_nat_alt word_less_nat_alt)
  then have "fit_long_edge img edge = Some \<lparr>ps_width = w, ps_height = h\<rparr>"
    using assms False w(1) h(1) by (simp add: fit_long_edge_def Let_def max_absorb1 del: max.bounded_iff)
  moreover have "max w h = edge"
    using w(4,5) h(4,5) by (cases "ps_width img \<le> ps_height img") (auto simp: max_def)
  ultimately show ?thesis using w h lt by (simp add: fits_def min_absorb1 less_imp_le)
qed

theorem fit_long_edge_fits_witness:
  "\<exists>small. fit_long_edge \<lparr>ps_width = 3000, ps_height = 7\<rparr> 1000 = Some small \<and>
    fits 1000 \<lparr>ps_width = 3000, ps_height = 7\<rparr> small"
  by (rule fit_long_edge_fits) simp_all

section \<open>Screen coordinates\<close>

text \<open>Values of the Rust type: the finite ones are representable.\<close>

definition f64_valid :: "f64 \<Rightarrow> bool" where
  "f64_valid a = (case a of Fin v \<Rightarrow> f64_round_to v = a | _ \<Rightarrow> True)"

text \<open>A display-sized extent: a normal value that leaves the products far below overflow.\<close>

definition sane_extent :: "f64 \<Rightarrow> bool" where
  "sane_extent a = (case a of Fin w \<Rightarrow> min_normal \<le> w \<and> w \<le> 2 ^ 64 | _ \<Rightarrow> False)"

lemma f64_round_to_FinD: "f64_round_to v = Fin u \<Longrightarrow> rnd v = u"
  by (auto simp: f64_round_to_def Let_def split: if_splits)

lemma scaled_extent_small:
  assumes "0 \<le> w" "w \<le> 2 ^ 64" "p < 2 ^ 32"
  shows "rnd (of_nat p * w) < 2 ^ 100"
proof -
  have "rat_of_nat p \<le> 2 ^ 32" using rat_less_two_power [OF assms(3)] by simp
  then have "of_nat p * w \<le> 2 ^ 32 * 2 ^ 64" using assms by (intro mult_mono) simp_all
  also have "\<dots> = of_int 1 * 2 powi 96" by (simp add: power_add [symmetric] power_int_def)
  finally have "rnd (of_nat p * w) \<le> of_int 1 * 2 powi 96"
    using rnd_mono rnd_exact [of 1 96] by fastforce
  also have "\<dots> < 2 ^ 100" by (simp add: power_int_def)
  finally show ?thesis .
qed

lemma to_screen_axis_eval:
  assumes "min_normal \<le> w" "w \<le> 2 ^ 64" "rnd w = w" "pixel < pixels"
  obtains d where "to_screen_axis (Fin x) (Fin w) pixel pixels = f64_round_to (x + d)"
    and "0 \<le> d" and "d \<le> w"
proof -
  let ?p = "unat pixel" and ?n = "unat pixels"
  have pn: "?p < ?n" "?n < 2 ^ 32" using assms(4) by (simp_all only: word_less_nat_alt unat_less_u32)
  have w0: "0 \<le> w" using assms(1) min_normal_pos by linarith
  let ?d = "rnd (rnd (of_nat ?p * w) / of_nat ?n)"
  note b = ieee.fraction_bounds [OF assms(1,3) pn]
  have i: "rnd (of_nat ?p * w) < 2 ^ 100" "0 \<le> rnd (of_nat ?p * w)"
    using scaled_extent_small [OF w0 assms(2)] pn w0 by (simp_all add: rnd_nonneg)
  have o: "?d < 2 ^ 100"
    using b(2) assms(2) power_strict_increasing [of 64 100 "2 :: rat"] by linarith
  have nz: "rat_of_nat ?n \<noteq> 0" using pn(1) by simp
  have "to_screen_axis (Fin x) (Fin w) pixel pixels = f64_round_to (x + ?d)"
    unfolding to_screen_axis_def f64_from_u32_def f64_mul.simps f64_round_to_small [OF i(2,1)]
      f64_div.simps if_not_P [OF nz] f64_round_to_small [OF b(1) o] f64_add.simps ..
  then show thesis using b by (rule that)
qed

lemma to_screen_axis_bounds:
  assumes "sane_extent w" "f64_valid w" "is_finite x" "f64_valid x" "pixel < pixels"
  shows "f64_le x (to_screen_axis x w pixel pixels)"
    and "f64_le (to_screen_axis x w pixel pixels) (f64_add x w)"
proof -
  obtain x' w' where xw: "x = Fin x'" "w = Fin w'" using assms(1,3)
    by (auto simp: sane_extent_def is_finite_iff split: f64.splits)
  obtain d where d: "to_screen_axis (Fin x') (Fin w') pixel pixels = f64_round_to (x' + d)" "0 \<le> d" "d \<le> w'"
    by (rule to_screen_axis_eval [of w' pixel pixels x'])
      (use assms xw in \<open>simp_all add: sane_extent_def f64_valid_def f64_round_to_FinD\<close>)
  have "f64_le (f64_round_to x') (f64_round_to (x' + d))" using d by (intro f64_round_to_mono) simp
  then show "f64_le x (to_screen_axis x w pixel pixels)"
    using assms(4) by (simp add: xw d f64_valid_def)
  show "f64_le (to_screen_axis x w pixel pixels) (f64_add x w)"
    unfolding xw d f64_add.simps using d by (intro f64_round_to_mono) simp
qed

definition sane_rect :: "screen_rect \<Rightarrow> bool" where
  "sane_rect r \<longleftrightarrow>
     is_finite (sr_x r) \<and> f64_valid (sr_x r) \<and> is_finite (sr_y r) \<and> f64_valid (sr_y r) \<and>
     sane_extent (sr_width r) \<and> f64_valid (sr_width r) \<and>
     sane_extent (sr_height r) \<and> f64_valid (sr_height r)"

lemma sane_extent_pos: "sane_extent w \<Longrightarrow> \<not> f64_le w (Fin 0)"
  using min_normal_pos by (cases w) (auto simp: sane_extent_def)

text \<open>
  Every pixel of an image maps to a logical point inside the rectangle the image shows, in spite
  of three roundings per axis.
\<close>

theorem to_screen_contained:
  assumes "sane_rect (sm_screen_bounds m)" "size_contains (sm_pixel_size m) px"
  shows "\<exists>pt. to_screen m px = Some pt \<and> rect_contains (sm_screen_bounds m) pt"
  using assms
  by (auto simp: to_screen_def Let_def rect_contains_def sane_rect_def size_contains_def
      sane_extent_pos to_screen_axis_bounds)

theorem to_screen_contained_witness:
  "\<exists>pt. to_screen \<lparr>sm_screen_bounds = \<lparr>sr_x = Fin 0, sr_y = Fin (-1080), sr_width = Fin 1920, sr_height = Fin 1080\<rparr>,
      sm_pixel_size = \<lparr>ps_width = 3840, ps_height = 2160\<rparr>\<rparr> \<lparr>px_x = 3839, px_y = 0\<rparr> = Some pt \<and>
    rect_contains \<lparr>sr_x = Fin 0, sr_y = Fin (-1080), sr_width = Fin 1920, sr_height = Fin 1080\<rparr> pt"
proof -
  have r: "rnd 1920 = 1920" "rnd 1080 = 1080" "rnd (- 1080) = - 1080"
    using rnd_of_int [of 1920] rnd_of_int [of 1080] rnd_of_int [of "- 1080"] by simp_all
  have n: "min_normal \<le> 1920" "min_normal \<le> 1080" using min_normal_le by simp_all
  show ?thesis
    using to_screen_contained [of "\<lparr>sm_screen_bounds = \<lparr>sr_x = Fin 0, sr_y = Fin (-1080),
      sr_width = Fin 1920, sr_height = Fin 1080\<rparr>, sm_pixel_size = \<lparr>ps_width = 3840, ps_height = 2160\<rparr>\<rparr>"
      "\<lparr>px_x = 3839, px_y = 0\<rparr>"] r n
    by (simp add: sane_rect_def sane_extent_def f64_valid_def f64_round_to_def is_finite_def size_contains_def)
qed

end
