(* ===== verification/Protocol.thy ===== *)
theory Protocol
  imports Geometry
begin

text \<open>
  The closed wire types of \<^verbatim>\<open>crates/protocol/src\<close>: identifiers, actions, observations,
  capabilities, errors, discovery, clipboard, sessions, commands and responses, with the
  functions the crate defines on them. Enum variants keep their Rust names with a short prefix
  where two enums share one; record fields carry a prefix naming the struct.
\<close>

section \<open>Identifiers (identifiers.rs)\<close>

datatype request_id = RequestId string
datatype session_id = SessionId string
datatype app_ref = AppRef string
datatype discovery_ref = DiscoveryRef string
datatype launch_ref = LaunchRef string
datatype window_ref = WindowRef string
datatype display_ref = DisplayRef string
datatype clipboard_ref = ClipboardRef string
datatype observation_id = ObservationId string
datatype element_ref = ElementRef string
datatype artifact_ref = ArtifactRef string

datatype authorization_token = AuthorizationToken (expose_token: string)
datatype sensitive_text = SensitiveText (expose: string)

section \<open>Actions and predicates (action.rs)\<close>

definition canonical_key :: "string \<Rightarrow> string" where
  "canonical_key key =
     (if key = ''cmd'' then ''command''
      else if key = ''ctrl'' then ''control''
      else if key = ''opt'' then ''option''
      else if key = ''esc'' then ''escape''
      else if key = ''return'' then ''enter''
      else if key = ''pageup'' then ''page_up''
      else if key = ''pagedown'' then ''page_down''
      else key)"

datatype action_kind =
    K_FocusWindow | K_SetWindowBounds | K_SetWindowMinimized | K_TerminateApplication
  | K_FocusElement | K_InvokeElement | K_ClickPoint | K_PressPoint | K_SetValue | K_SetRangeValue
  | K_ToggleElement | K_SelectElement | K_SetExpanded | K_MovePointer | K_TypeText | K_PressKeys
  | K_Scroll | K_Drag

datatype pointer_button = B_Left | B_Middle | B_Right

datatype delivery_preference = DP_Background | DP_Foreground

datatype action =
    FocusWindow
  | SetWindowBounds screen_rect
  | SetWindowMinimized bool
  | TerminateApplication
  | FocusElement element_ref
  | InvokeElement element_ref
  | ClickPoint normalized_point pointer_button u8 delivery_preference
  | PressPoint normalized_point pointer_button u32
  | SetValue element_ref sensitive_text
  | SetRangeValue element_ref f64
  | ToggleElement element_ref
  | SelectElement element_ref
  | SetExpanded element_ref bool
  | MovePointer normalized_point u32
  | TypeText sensitive_text
  | PressKeys "string list"
  | Scroll normalized_point f64 f64
  | Drag normalized_point normalized_point u32

fun kind :: "action \<Rightarrow> action_kind" where
  "kind FocusWindow = K_FocusWindow"
| "kind (SetWindowBounds _) = K_SetWindowBounds"
| "kind (SetWindowMinimized _) = K_SetWindowMinimized"
| "kind TerminateApplication = K_TerminateApplication"
| "kind (FocusElement _) = K_FocusElement"
| "kind (InvokeElement _) = K_InvokeElement"
| "kind (ClickPoint _ _ _ _) = K_ClickPoint"
| "kind (PressPoint _ _ _) = K_PressPoint"
| "kind (SetValue _ _) = K_SetValue"
| "kind (SetRangeValue _ _) = K_SetRangeValue"
| "kind (ToggleElement _) = K_ToggleElement"
| "kind (SelectElement _) = K_SelectElement"
| "kind (SetExpanded _ _) = K_SetExpanded"
| "kind (MovePointer _ _) = K_MovePointer"
| "kind (TypeText _) = K_TypeText"
| "kind (PressKeys _) = K_PressKeys"
| "kind (Scroll _ _ _) = K_Scroll"
| "kind (Drag _ _ _) = K_Drag"

fun requires_foreground :: "action \<Rightarrow> bool" where
  "requires_foreground FocusWindow = True"
| "requires_foreground (MovePointer _ _) = True"
| "requires_foreground (ClickPoint _ _ _ DP_Foreground) = True"
| "requires_foreground (PressPoint _ _ _) = True"
| "requires_foreground (TypeText _) = True"
| "requires_foreground (PressKeys _) = True"
| "requires_foreground (Scroll _ _ _) = True"
| "requires_foreground (Drag _ _ _) = True"
| "requires_foreground _ = False"

datatype element_state = ES_Enabled | ES_Focused | ES_Selected | ES_Checked | ES_Expanded

datatype state_predicate =
    WindowTitleContains string
  | ElementExists "string option" "string option"
  | ElementState "string option" "string option" element_state bool
  | BoundsContained screen_rect screen_rect

datatype delivery_mode = DM_Semantic | DM_System | DM_Background | DM_Foreground

datatype action_effect_status = Confirmed | Unverified

datatype action_evidence_kind = NativeReadback | DispatchAcceptance

fun is_supported_by :: "action_effect_status \<Rightarrow> action_evidence_kind \<Rightarrow> bool" where
  "is_supported_by Confirmed NativeReadback = True"
| "is_supported_by Unverified DispatchAcceptance = True"
| "is_supported_by _ _ = False"

datatype foreground_restoration_status =
    FR_NotRequested | FR_NotNeeded | FR_Restored | FR_SkippedOwnerChanged | FR_TargetUnavailable
  | FR_Failed

section \<open>Observations (observation.rs)\<close>

record application_summary =
  as_app_ref :: app_ref
  as_name :: string
  as_application_id :: string
  as_foreground :: bool

datatype window_state = WS_Normal | WS_Minimized | WS_Offscreen | WS_Unknown

record window_summary =
  ws_window_ref :: window_ref
  ws_app_ref :: app_ref
  ws_title :: string
  ws_screen_bounds :: screen_rect
  ws_state :: window_state
  ws_visible :: bool
  ws_foreground :: bool

record list_windows_input =
  lwi_session_id :: session_id
  lwi_app_ref :: "app_ref option"

record display_summary =
  dsum_display_ref :: display_ref
  dsum_screen_bounds :: screen_rect
  dsum_primary :: bool

record observe_display_input =
  odi_session_id :: session_id
  odi_display_ref :: display_ref

datatype accessibility_mode = AM_Disabled | AM_Interactive | AM_Full

record observe_window_input =
  owi_session_id :: session_id
  owi_window_ref :: window_ref
  owi_include_screenshot :: bool
  owi_accessibility :: accessibility_mode

record screenshot_artifact =
  sa_artifact_ref :: artifact_ref
  sa_path :: string
  sa_mime_type :: string
  sa_mapping :: screenshot_mapping
  sa_byte_length :: u64
  sa_sha256 :: string

record accessibility_range_value =
  arv_value :: f64
  arv_minimum :: f64
  arv_maximum :: f64
  arv_small_change :: "f64 option"
  arv_large_change :: "f64 option"
  arv_read_only :: bool

record accessibility_element =
  ae_element_ref :: element_ref
  ae_parent_ref :: "element_ref option"
  ae_role :: string
  ae_name :: string
  ae_value :: "string option"
  ae_range_value :: "accessibility_range_value option"
  ae_screen_bounds :: "screen_rect option"
  ae_enabled :: bool
  ae_focused :: bool
  ae_selected :: "bool option"
  ae_checked :: "bool option"
  ae_expanded :: "bool option"
  ae_actions :: "string list"

datatype truncation_reason = TR_NodeLimit | TR_DepthLimit | TR_ByteLimit | TR_Deadline | TR_ProviderFailure

record observation_truncation =
  ot_reason :: truncation_reason
  ot_emitted_elements :: u32

record window_observation =
  wo_observation_id :: observation_id
  wo_window_ref :: window_ref
  wo_captured_at :: string
  wo_window_screen_bounds :: screen_rect
  wo_screenshot :: "screenshot_artifact option"
  wo_elements :: "accessibility_element list"
  wo_elements_complete :: bool
  wo_elements_truncation :: "observation_truncation option"

record display_observation =
  dobs_observation_id :: observation_id
  dobs_display_ref :: display_ref
  dobs_captured_at :: string
  dobs_display_screen_bounds :: screen_rect
  dobs_screenshot :: screenshot_artifact

section \<open>Errors (error.rs)\<close>

datatype error_code =
    UserActive | ProtocolMismatch | Unauthorized | InvalidRequest | Busy | DeadlineExceeded
  | SessionUnavailable | StaleDiscovery | CapabilityDenied | ReferenceNotFound | StaleObservation
  | StaleClipboard | PermissionRequired | Unsupported | ForegroundRequired | TargetUnavailable
  | TargetUnresponsive | DriverFailure | Internal

datatype mutation_status = MS_NotApplicable | MS_NotDispatched | MS_Indeterminate

record cua_error =
  ce_code :: error_code
  ce_message :: string
  ce_retryable :: bool
  ce_recovery_action :: "string option"
  ce_mutation_status :: mutation_status

definition with_mutation_status :: "mutation_status \<Rightarrow> cua_error \<Rightarrow> cua_error" where
  "with_mutation_status status self = self\<lparr>ce_mutation_status := status\<rparr>"

section \<open>Capabilities (capability.rs)\<close>

datatype platform = P_Macos | P_Windows | P_Unsupported

datatype capture_mode = CM_ApplicationScene | CM_Window | CM_Display

datatype input_route = IR_Semantic | IR_System | IR_Background | IR_Foreground

datatype application_lifecycle_operation = Launch

datatype permission_state = PS_Granted | PS_Denied | PS_NotDetermined | PS_NotApplicable | PS_Unknown

record permission_status =
  perm_screen_capture :: permission_state
  perm_accessibility :: permission_state
  perm_input_control :: permission_state

record action_limits =
  max_session_ttl_seconds :: u32
  max_text_bytes :: u32
  max_keys :: u32
  max_scroll_delta :: u32
  max_pointer_duration_ms :: u32
  max_window_coordinate :: u32
  max_window_dimension :: u32
  max_range_value :: u64
  max_click_count :: u32

definition DEFAULT_ACTION_LIMITS :: action_limits where
  "DEFAULT_ACTION_LIMITS =
     \<lparr>max_session_ttl_seconds = 3600, max_text_bytes = 65536, max_keys = 8,
      max_scroll_delta = 100000, max_pointer_duration_ms = 10000, max_window_coordinate = 1000000,
      max_window_dimension = 100000, max_range_value = 1000000000000, max_click_count = 3\<rparr>"

datatype clipboard_operation = ReadText | WriteText

record driver_capabilities =
  dc_observe_after :: bool
  dc_action_limits :: action_limits
  dc_protocol_version :: string
  dc_runtime_version :: string
  dc_platform :: platform
  dc_primary_modifier :: string
  dc_capture_modes :: "capture_mode list"
  dc_accessibility_tree :: bool
  dc_input_routes :: "input_route list"
  dc_application_lifecycle :: "application_lifecycle_operation list"
  dc_clipboard :: "clipboard_operation list"
  dc_actions :: "action_kind list"

section \<open>Discovery and launch (discovery.rs)\<close>

datatype signature_status = SS_Verified | SS_Invalid | SS_Unsigned | SS_Unknown

datatype application_provenance =
    AP_Macos "string option" "string option" "string option" "string option"
  | AP_Windows string "string option" signature_status
  | AP_Unsupported "string option"

record discovered_application =
  da_discovery_ref :: discovery_ref
  da_name :: string
  da_application_id :: string
  da_foreground :: bool
  da_provenance :: application_provenance
  da_expires_at :: string

record discover_applications_output =
  dao_applications :: "discovered_application list"
  dao_complete :: bool

record launchable_application =
  la_launch_ref :: launch_ref
  la_name :: string
  la_application_id :: string
  la_provenance :: application_provenance
  la_expires_at :: string

record discover_launchable_applications_output =
  dlo_applications :: "launchable_application list"
  dlo_complete :: bool

record launch_application_input =
  lai_launch_ref :: launch_ref
  lai_allow_foreground_activation :: bool

record application_launch_output =
  alo_application :: discovered_application
  alo_delivery_mode :: delivery_mode
  alo_dispatched :: bool

section \<open>Clipboard (clipboard.rs)\<close>

record read_clipboard_input =
  rci_session_id :: session_id

record clipboard_snapshot =
  cs_clipboard_ref :: clipboard_ref
  cs_text :: "sensitive_text option"
  cs_byte_length :: u32

record write_clipboard_input =
  wci_session_id :: session_id
  wci_clipboard_ref :: clipboard_ref
  wci_text :: sensitive_text

record clipboard_write_output =
  cwo_clipboard_ref :: clipboard_ref
  cwo_delivery_mode :: delivery_mode
  cwo_dispatched :: bool
  cwo_effect_status :: action_effect_status
  cwo_evidence_kind :: action_evidence_kind

section \<open>Sessions (session.rs)\<close>

datatype permission_mode = ReadOnly | Bounded

record capability_manifest =
  cm_mode :: permission_mode
  cm_application_refs :: "discovery_ref list"
  cm_allowed_actions :: "action_kind list"
  cm_allow_foreground_input :: bool
  cm_restore_foreground_after_input :: bool
  cm_allow_display_capture :: bool
  cm_allow_clipboard_read :: bool
  cm_allow_clipboard_write :: bool
  cm_ttl_seconds :: u32

record open_session_output =
  oso_session_id :: session_id
  oso_expires_at :: string

section \<open>Commands and responses (command.rs)\<close>

record reconcile_mutation_input =
  rmi_request_id :: request_id
  rmi_wait_ms :: u32

record observe_after_options =
  oao_include_screenshot :: bool
  oao_accessibility :: accessibility_mode
  oao_application_scene :: bool

record perform_action_input =
  pai_observe_after :: "observe_after_options option"
  pai_session_id :: session_id
  pai_window_ref :: window_ref
  pai_observation_id :: observation_id
  pai_action :: action

record verify_state_input =
  vsi_session_id :: session_id
  vsi_window_ref :: window_ref
  vsi_predicate :: state_predicate

datatype command =
    GetCapabilities
  | GetPermissionStatus
  | DiscoverApplications
  | DiscoverLaunchableApplications
  | LaunchApplication launch_application_input
  | OpenSession capability_manifest
  | CloseSession session_id
  | ListApps session_id
  | ListWindows list_windows_input
  | ListDisplays session_id
  | ObserveWindow observe_window_input
  | ObserveApplicationScene observe_window_input
  | ObserveDisplay observe_display_input
  | ReadClipboard read_clipboard_input
  | WriteClipboard write_clipboard_input
  | PerformAction perform_action_input
  | ReconcileMutation reconcile_mutation_input
  | VerifyState verify_state_input

record action_output =
  ao_observation :: "window_observation option"
  ao_observation_error :: "cua_error option"
  ao_delivery_mode :: delivery_mode
  ao_dispatched :: bool
  ao_effect_status :: action_effect_status
  ao_evidence_kind :: action_evidence_kind
  ao_foreground_restoration :: foreground_restoration_status
  ao_observation_invalidated :: bool

record verification_output =
  vo_matched :: bool
  vo_evidence :: string

datatype mutation_admission = MA_Unknown | MA_Admitted

datatype mutation_disposition =
    MD_Unknown | MD_NotMutation | MD_Pending | MD_Succeeded | MD_NotDispatched | MD_Indeterminate

record mutation_reconciliation =
  mr_request_id :: request_id
  mr_runtime_epoch :: string
  mr_worker_epoch :: "string option"
  mr_admission :: mutation_admission
  mr_disposition :: mutation_disposition
  mr_dispatched :: "bool option"
  mr_effect_status :: "action_effect_status option"
  mr_evidence_kind :: "action_evidence_kind option"
  mr_error_code :: "error_code option"
  mr_fresh_observation_required :: bool

datatype command_result =
    Capabilities driver_capabilities
  | PermissionStatus permission_status
  | ApplicationsDiscovered discover_applications_output
  | LaunchableApplicationsDiscovered discover_launchable_applications_output
  | ApplicationLaunched application_launch_output
  | SessionOpened open_session_output
  | Acknowledged
  | Apps "application_summary list"
  | Windows "window_summary list"
  | Displays "display_summary list"
  | WindowObserved window_observation
  | DisplayObserved display_observation
  | ClipboardRead clipboard_snapshot
  | ClipboardWritten clipboard_write_output
  | ActionPerformed action_output
  | MutationReconciled mutation_reconciliation
  | StateVerified verification_output

record request_envelope =
  req_protocol_version :: string
  req_request_id :: request_id
  req_timeout_ms :: u32
  req_authorization :: authorization_token
  req_command :: command

datatype response_outcome = Success command_result | Error cua_error

record response_envelope =
  resp_protocol_version :: string
  resp_request_id :: request_id
  resp_outcome :: response_outcome

section \<open>Facts\<close>

lemma canonical_key_idem [simp]: "canonical_key (canonical_key k) = canonical_key k"
  by (simp add: canonical_key_def)

lemma with_mutation_status_simps [simp]:
  "ce_code (with_mutation_status s e) = ce_code e"
  "ce_message (with_mutation_status s e) = ce_message e"
  "ce_mutation_status (with_mutation_status s e) = s"
  by (simp_all add: with_mutation_status_def)

lemma is_supported_by_iff:
  "is_supported_by s k \<longleftrightarrow> (s = Confirmed \<longleftrightarrow> k = NativeReadback)"
  by (cases s; cases k) auto

end
