(* ===== verification/Tasks.thy ===== *)
theory Tasks
  imports Main
begin

text \<open>
  Asynchronous tasks over a shared state. A task is a tree of atomic sections: each section may
  block until a condition holds, then changes the state and says how the task continues. This is
  the meaning of the \<^verbatim>\<open>async\<close> functions of the runtime: what runs between two suspension points or
  under one lock is a section, and between two sections every other task may run.

  A pool of tasks runs by interleaving. The predicate \<open>safe\<close> is a rely/guarantee triple for one
  task: whatever the other tasks do within the guarantee \<open>G\<close>, every section of the task keeps the
  invariant \<open>I\<close> and its own guarantee, and the task returns only results that satisfy \<open>Q\<close>. The
  locale \<open>interleaving\<close> states what a guarantee must satisfy and concludes that a pool of safe
  tasks keeps the invariant in every reachable configuration.
\<close>

section \<open>Programs\<close>

datatype ('s, 'a) prog = Ret 'a | Step "'s \<Rightarrow> bool" "'s \<Rightarrow> ('s, 'a) prog \<times> 's"

primrec bindP :: "('s, 'a) prog \<Rightarrow> ('a \<Rightarrow> ('s, 'b) prog) \<Rightarrow> ('s, 'b) prog" where
  "bindP (Ret x) k = k x"
| "bindP (Step c f) k = Step c (\<lambda>s. map_prod (\<lambda>p. bindP p k) (\<lambda>s. s) (f s))"

text \<open>One atomic section, and one that waits for a condition.\<close>

definition blocking :: "('s \<Rightarrow> bool) \<Rightarrow> ('s \<Rightarrow> 'a \<times> 's) \<Rightarrow> ('s, 'a) prog" where
  "blocking c f = Step c (\<lambda>s. map_prod Ret (\<lambda>s. s) (f s))"

definition atomic :: "('s \<Rightarrow> 'a \<times> 's) \<Rightarrow> ('s, 'a) prog" where
  "atomic f = blocking (\<lambda>_. True) f"

text \<open>The \<^verbatim>\<open>?\<close> operator between sections.\<close>

definition bindE :: "('s, 'e + 'a) prog \<Rightarrow> ('a \<Rightarrow> ('s, 'e + 'b) prog) \<Rightarrow> ('s, 'e + 'b) prog" where
  "bindE p k = bindP p (\<lambda>r. case r of Inl e \<Rightarrow> Ret (Inl e) | Inr x \<Rightarrow> k x)"

definition lift_result :: "'e + 'a \<Rightarrow> ('a \<Rightarrow> ('s, 'e + 'b) prog) \<Rightarrow> ('s, 'e + 'b) prog" where
  "lift_result r k = (case r of Inl e \<Rightarrow> Ret (Inl e) | Inr x \<Rightarrow> k x)"

definition mapP :: "('a \<Rightarrow> 'b) \<Rightarrow> ('s, 'a) prog \<Rightarrow> ('s, 'b) prog" where
  "mapP f p = bindP p (\<lambda>x. Ret (f x))"

section \<open>Pools\<close>

type_synonym ('s, 'a) config = "(nat \<rightharpoonup> ('s, 'a) prog) \<times> 's"

inductive pool_step ::
  "(nat \<Rightarrow> ('s, 'a) prog \<Rightarrow> bool) \<Rightarrow> ('s \<Rightarrow> 's \<Rightarrow> bool) \<Rightarrow> ('s, 'a) config \<Rightarrow> ('s, 'a) config \<Rightarrow> bool"
  for spawn env where
  ps_run: "pool t = Some (Step c f) \<Longrightarrow> c s \<Longrightarrow> f s = (p', s') \<Longrightarrow>
    pool_step spawn env (pool, s) (pool(t \<mapsto> p'), s')"
| ps_spawn: "pool t = None \<Longrightarrow> spawn t p \<Longrightarrow> pool_step spawn env (pool, s) (pool(t \<mapsto> p), s)"
| ps_env: "env s s' \<Longrightarrow> pool_step spawn env (pool, s) (pool, s')"

section \<open>Running alone\<close>

text \<open>
  The result of a program whose sections run one after the other without interference. Where a
  section has to wait, \<open>rest\<close> is what one wait does to the state; \<open>None\<close> when that is not enough.
\<close>

primrec finish :: "('s \<Rightarrow> 's) \<Rightarrow> ('s, 'a) prog \<Rightarrow> 's \<Rightarrow> ('a \<times> 's) option" where
  "finish rest (Ret x) = (\<lambda>s. Some (x, s))"
| "finish rest (Step c f) =
     (\<lambda>s. let s1 = (if c s then s else rest s)
          in if c s1 then (case (map_prod (finish rest) (\<lambda>s. s) \<circ> f) s1 of (g, s') \<Rightarrow> g s') else None)"

lemma finish_Ret [simp]: "finish rest (Ret x) s = Some (x, s)"
  by simp

lemma finish_Step:
  "finish rest (Step c f) s =
     (let s1 = (if c s then s else rest s) in if c s1 then finish rest (fst (f s1)) (snd (f s1)) else None)"
  by (simp add: case_prod_beta Let_def)

declare finish.simps [simp del]

lemma finish_bindP [simp]:
  "finish rest (bindP p k) s = (case finish rest p s of None \<Rightarrow> None | Some (x, s') \<Rightarrow> finish rest (k x) s')"
proof (induction p arbitrary: s)
  case (Step c f)
  have "finish rest (bindP (fst (f s1)) k) (snd (f s1)) =
     (case finish rest (fst (f s1)) (snd (f s1)) of None \<Rightarrow> None | Some (x, s') \<Rightarrow> finish rest (k x) s')" for s1
    by (rule Step [OF rangeI]) (simp add: Basic_BNFs.fsts.simps)
  then show ?case by (simp add: finish_Step Let_def)
qed simp

lemma finish_blocking:
  "finish rest (blocking c f) s = (let s1 = (if c s then s else rest s) in if c s1 then Some (f s1) else None)"
  by (simp add: blocking_def finish_Step Let_def)

lemma finish_blocking_ready [simp]: "c s \<Longrightarrow> finish rest (blocking c f) s = Some (f s)"
  by (simp add: finish_blocking)

lemma finish_atomic [simp]: "finish rest (atomic f) s = Some (f s)"
  by (simp add: atomic_def)

lemma finish_bindE [simp]:
  "finish rest (bindE p k) s =
     (case finish rest p s of None \<Rightarrow> None
      | Some (r, s') \<Rightarrow> (case r of Inl e \<Rightarrow> Some (Inl e, s') | Inr x \<Rightarrow> finish rest (k x) s'))"
  by (simp add: bindE_def split: option.split sum.split)

lemma finish_lift_result [simp]:
  "finish rest (lift_result r k) s = (case r of Inl e \<Rightarrow> Some (Inl e, s) | Inr x \<Rightarrow> finish rest (k x) s)"
  by (simp add: lift_result_def split: sum.split)

lemma finish_mapP [simp]: "finish rest (mapP f p) s = map_option (map_prod f (\<lambda>s. s)) (finish rest p s)"
  by (simp add: mapP_def split: option.split)

lemma finish_if [simp]: "finish rest (if c then p else q) s = (if c then finish rest p s else finish rest q s)"
  by simp

text \<open>What a program does alone is one of the runs of a pool.\<close>

lemma finish_steps:
  assumes "\<And>s. env\<^sup>*\<^sup>* s (rest s)"
  shows "finish rest p s = Some (x, s') \<Longrightarrow> pool t = Some p \<Longrightarrow>
     (pool_step spawn env)\<^sup>*\<^sup>* (pool, s) (pool(t \<mapsto> Ret x), s')"
proof (induction p arbitrary: s pool)
  case (Ret y)
  then have "pool(t \<mapsto> Ret x) = pool" by (simp add: fun_upd_idem)
  then show ?case using Ret by simp
next
  case (Step c f)
  let ?s1 = "if c s then s else rest s"
  let ?p = "fst (f ?s1)" and ?s = "snd (f ?s1)"
  have c: "c ?s1" "finish rest ?p ?s = Some (x, s')" using Step(2) by (simp_all add: finish_Step Let_def split: if_splits)
  have e: "(pool_step spawn env)\<^sup>*\<^sup>* (pool, a) (pool, b)" if "env\<^sup>*\<^sup>* a b" for a b
    using that by (induction rule: rtranclp_induct) (auto intro: rtranclp.rtrancl_into_rtrancl ps_env)
  have "(pool_step spawn env)\<^sup>*\<^sup>* (pool, s) (pool, ?s1)" using e assms by simp
  moreover have "pool_step spawn env (pool, ?s1) (pool(t \<mapsto> ?p), ?s)"
    by (rule ps_run [of pool t c f]) (simp_all only: Step(3) c(1) prod.collapse)
  moreover have "(pool_step spawn env)\<^sup>*\<^sup>* (pool(t \<mapsto> ?p), ?s) ((pool(t \<mapsto> ?p))(t \<mapsto> Ret x), s')"
    by (rule Step(1) [OF rangeI _ c(2)]) (simp_all add: Basic_BNFs.fsts.simps)
  ultimately have "(pool_step spawn env)\<^sup>*\<^sup>* (pool, s) ((pool(t \<mapsto> ?p))(t \<mapsto> Ret x), s')"
    by (meson rtranclp.rtrancl_into_rtrancl rtranclp_trans)
  then show ?case by (simp only: fun_upd_upd)
qed

section \<open>Results\<close>

text \<open>What holds of every result of a program, whatever the states its sections run in.\<close>

inductive yields :: "('a \<Rightarrow> bool) \<Rightarrow> ('s, 'a) prog \<Rightarrow> bool" for Q where
  yields_Ret: "Q x \<Longrightarrow> yields Q (Ret x)"
| yields_Step: "(\<And>s. yields Q (fst (f s))) \<Longrightarrow> yields Q (Step c f)"

inductive_cases yields_RetE: "yields Q (Ret x)"
inductive_cases yields_StepE: "yields Q (Step c f)"

lemma yields_True: "yields (\<lambda>_. True) p"
proof (induction p)
  case (Step c f)
  show ?case by (rule yields_Step, rule Step [OF rangeI]) (simp add: Basic_BNFs.fsts.simps)
qed (rule yields_Ret, simp)

lemma yields_seq: "yields R p \<Longrightarrow> (\<And>x. R x \<Longrightarrow> yields Q (k x)) \<Longrightarrow> yields Q (bindP p k)"
  by (induction rule: yields.induct) (auto intro: yields_Step)

lemma yields_bindP: "(\<And>x. yields Q (k x)) \<Longrightarrow> yields Q (bindP p k)"
  by (rule yields_seq [OF yields_True])

lemma yields_bindE: "(\<And>e. Q (Inl e)) \<Longrightarrow> (\<And>x. yields Q (k x)) \<Longrightarrow> yields Q (bindE p k)"
  unfolding bindE_def by (rule yields_bindP) (auto split: sum.split intro: yields_Ret)

lemma yields_lift_result: "(\<And>e. Q (Inl e)) \<Longrightarrow> (\<And>x. yields Q (k x)) \<Longrightarrow> yields Q (lift_result r k)"
  unfolding lift_result_def by (auto split: sum.split intro: yields_Ret)

lemma yields_mapP: "yields (\<lambda>x. Q (f x)) p \<Longrightarrow> yields Q (mapP f p)"
  unfolding mapP_def by (erule yields_seq) (rule yields_Ret)

lemma yields_if: "(c \<Longrightarrow> yields Q p) \<Longrightarrow> (\<not> c \<Longrightarrow> yields Q q) \<Longrightarrow> yields Q (if c then p else q)"
  by simp

lemmas yields_intros = yields_Ret yields_bindP yields_bindE yields_lift_result yields_mapP yields_if

section \<open>Rely and guarantee\<close>

inductive safe ::
  "('s \<Rightarrow> bool) \<Rightarrow> (nat set \<Rightarrow> 's \<Rightarrow> 's \<Rightarrow> bool) \<Rightarrow> nat \<Rightarrow> ('a \<Rightarrow> 's \<Rightarrow> bool) \<Rightarrow> ('s, 'a) prog \<Rightarrow> 's \<Rightarrow> bool"
  for I G t Q where
  safe_Ret: "(\<And>s'. G (- {t}) s s' \<Longrightarrow> I s' \<Longrightarrow> Q x s') \<Longrightarrow> safe I G t Q (Ret x) s"
| safe_Step: "(\<And>s'. G (- {t}) s s' \<Longrightarrow> I s' \<Longrightarrow> c s' \<Longrightarrow>
      I (snd (f s')) \<and> G {t} s' (snd (f s')) \<and> safe I G t Q (fst (f s')) (snd (f s'))) \<Longrightarrow>
    safe I G t Q (Step c f) s"

inductive_cases safe_RetE: "safe I G t Q (Ret x) s"
inductive_cases safe_StepE: "safe I G t Q (Step c f) s"

lemma safe_RetD:
  assumes "safe I G t Q (Ret x) s" "G (- {t}) s s'" "I s'"
  shows "Q x s'"
proof (rule safe_RetE [OF assms(1)])
  assume h: "\<And>s'. G (- {t}) s s' \<Longrightarrow> I s' \<Longrightarrow> Q x s'"
  show "Q x s'" by (rule h [OF assms(2,3)])
qed

lemma safe_StepD:
  assumes "safe I G t Q (Step c f) s" "G (- {t}) s s'" "I s'" "c s'"
  shows "I (snd (f s')) \<and> G {t} s' (snd (f s')) \<and> safe I G t Q (fst (f s')) (snd (f s'))"
proof (rule safe_StepE [OF assms(1)])
  assume h: "\<And>s'. G (- {t}) s s' \<Longrightarrow> I s' \<Longrightarrow> c s' \<Longrightarrow>
    I (snd (f s')) \<and> G {t} s' (snd (f s')) \<and> safe I G t Q (fst (f s')) (snd (f s'))"
  show ?thesis by (rule h [OF assms(2-4)])
qed

locale interleaving =
  fixes I :: "'s \<Rightarrow> bool" and G :: "nat set \<Rightarrow> 's \<Rightarrow> 's \<Rightarrow> bool"
  assumes guar_refl: "G T s s"
    and guar_trans: "G T s s' \<Longrightarrow> G T s' s'' \<Longrightarrow> G T s s''"
    and guar_mono: "T \<subseteq> U \<Longrightarrow> G T s s' \<Longrightarrow> G U s s'"
begin

lemma safe_interfere: "safe I G t Q p s \<Longrightarrow> G (- {t}) s s' \<Longrightarrow> safe I G t Q p s'"
proof (cases p)
  case (Ret x)
  assume a: "safe I G t Q p s" "G (- {t}) s s'"
  show ?thesis unfolding Ret
    by (rule safe_Ret) (rule safe_RetD [OF a(1) [unfolded Ret] guar_trans [OF a(2)]])
next
  case (Step c f)
  assume a: "safe I G t Q p s" "G (- {t}) s s'"
  show ?thesis unfolding Step
    by (rule safe_Step) (rule safe_StepD [OF a(1) [unfolded Step] guar_trans [OF a(2)]])
qed

lemma safe_result: "safe I G t Q (Ret x) s \<Longrightarrow> I s \<Longrightarrow> Q x s"
  by (erule safe_RetD [where G = G and I = I]) (rule guar_refl)

lemma safe_seq:
  assumes "safe I G t Q p s"
    and "\<And>x s'. Q x s' \<Longrightarrow> I s' \<Longrightarrow> safe I G t R (k x) s'"
    and "I s"
  shows "safe I G t R (bindP p k) s"
  using assms(1,3)
proof (induction rule: safe.induct)
  case (safe_Ret s x)
  then show ?case using assms(2) guar_refl by simp
next
  case (safe_Step s c f)
  show ?case unfolding bindP.simps by (rule safe.safe_Step) (use safe_Step in simp)
qed

lemma safe_weaken:
  assumes "safe I G t Q p s" "\<And>x s. Q x s \<Longrightarrow> I s \<Longrightarrow> R x s"
  shows "safe I G t R p s"
  using assms(1)
proof (induction rule: safe.induct)
  case (safe_Ret s x)
  show ?case by (rule safe.safe_Ret) (rule assms(2) [OF safe_Ret])
next
  case (safe_Step s c f)
  show ?case by (rule safe.safe_Step) (use safe_Step in simp)
qed

text \<open>The rule for one section: \<open>P\<close> is what the task knows and the others keep.\<close>

lemma safe_blocking:
  assumes "P s" "\<And>s s'. P s \<Longrightarrow> G (- {t}) s s' \<Longrightarrow> I s' \<Longrightarrow> P s'"
    and "\<And>s. P s \<Longrightarrow> I s \<Longrightarrow> c s \<Longrightarrow> I (snd (f s)) \<and> G {t} s (snd (f s)) \<and> Q (fst (f s)) (snd (f s))"
    and "\<And>x s s'. Q x s \<Longrightarrow> G (- {t}) s s' \<Longrightarrow> I s' \<Longrightarrow> Q x s'"
  shows "safe I G t Q (blocking c f) s"
  unfolding blocking_def
proof (rule safe_Step)
  fix s' assume g: "G (- {t}) s s'" "I s'" "c s'"
  then have "P s'" using assms(1,2) by blast
  note h = assms(3) [OF this g(2,3)]
  have "safe I G t Q (Ret (fst (f s'))) (snd (f s'))"
    using h assms(4) by (iprover intro: safe_Ret)
  with h show "I (snd (map_prod Ret (\<lambda>s. s) (f s'))) \<and> G {t} s' (snd (map_prod Ret (\<lambda>s. s) (f s'))) \<and>
      safe I G t Q (fst (map_prod Ret (\<lambda>s. s) (f s'))) (snd (map_prod Ret (\<lambda>s. s) (f s')))"
    by (simp add: map_prod_def case_prod_beta)
qed

lemmas safe_atomic = safe_blocking [where c = "\<lambda>_. True", folded atomic_def]

text \<open>
  Tasks whose sections all run under one assertion \<open>P\<close> that the others keep, for example that the
  task holds a lock: each section keeps \<open>P\<close>.
\<close>

definition stable :: "nat \<Rightarrow> ('s \<Rightarrow> bool) \<Rightarrow> bool" where
  "stable t P \<longleftrightarrow> (\<forall>s s'. P s \<longrightarrow> G (- {t}) s s' \<longrightarrow> I s' \<longrightarrow> P s')"

lemma stableI: "(\<And>s s'. P s \<Longrightarrow> G (- {t}) s s' \<Longrightarrow> I s' \<Longrightarrow> P s') \<Longrightarrow> stable t P"
  by (simp add: stable_def)

lemma stableD: "stable t P \<Longrightarrow> P s \<Longrightarrow> G (- {t}) s s' \<Longrightarrow> I s' \<Longrightarrow> P s'"
  by (simp add: stable_def)

lemma stable_conj: "stable t P \<Longrightarrow> stable t Q \<Longrightarrow> stable t (\<lambda>s. P s \<and> Q s)"
  unfolding stable_def by blast

definition under :: "('s \<Rightarrow> bool) \<Rightarrow> nat \<Rightarrow> ('s, 'b) prog \<Rightarrow> bool" where
  "under P t p \<longleftrightarrow> (stable t P \<longrightarrow> (\<forall>s. I s \<longrightarrow> P s \<longrightarrow> safe I G t (\<lambda>_. P) p s))"

lemma underI: "(\<And>s. stable t P \<Longrightarrow> I s \<Longrightarrow> P s \<Longrightarrow> safe I G t (\<lambda>_. P) p s) \<Longrightarrow> under P t p"
  by (simp add: under_def)

lemma underD: "under P t p \<Longrightarrow> stable t P \<Longrightarrow> I s \<Longrightarrow> P s \<Longrightarrow> safe I G t (\<lambda>_. P) p s"
  by (simp add: under_def)

lemma under_Ret: "under P t (Ret x)"
  by (rule underI, rule safe_Ret) (rule stableD)

lemma under_bindP:
  assumes "under P t p" "\<And>x. under P t (k x)"
  shows "under P t (bindP p k)"
proof (rule underI)
  fix s assume st: "stable t P" "I s" "P s"
  show "safe I G t (\<lambda>_. P) (bindP p k) s"
    by (rule safe_seq [OF underD [OF assms(1) st]]) (use underD [OF assms(2) st(1)] st(2) in simp_all)
qed

lemma under_blocking:
  assumes "\<And>s. I s \<Longrightarrow> P s \<Longrightarrow> c s \<Longrightarrow> I (snd (f s)) \<and> G {t} s (snd (f s)) \<and> P (snd (f s))"
  shows "under P t (blocking c f)"
proof (rule underI)
  fix s assume st: "stable t P" "I s" "P s"
  show "safe I G t (\<lambda>_. P) (blocking c f) s"
    using assms by (intro safe_blocking [where P = P]) (simp_all add: st stableD [OF st(1)])
qed

lemma under_Step:
  assumes "\<And>s. I s \<Longrightarrow> P s \<Longrightarrow> c s \<Longrightarrow>
    I (snd (f s)) \<and> G {t} s (snd (f s)) \<and> P (snd (f s)) \<and> under P t (fst (f s))"
  shows "under P t (Step c f)"
proof (rule underI)
  fix s assume st: "stable t P" "I s" "P s"
  show "safe I G t (\<lambda>_. P) (Step c f) s"
  proof (rule safe_Step)
    fix s' assume g: "G (- {t}) s s'" "I s'" "c s'"
    note h = assms [OF g(2) stableD [OF st(1,3) g(1,2)] g(3)]
    then show "I (snd (f s')) \<and> G {t} s' (snd (f s')) \<and> safe I G t (\<lambda>_. P) (fst (f s')) (snd (f s'))"
      by (intro conjI underD [OF _ st(1)]) simp_all
  qed
qed

lemma under_atomic:
  assumes "\<And>s. I s \<Longrightarrow> P s \<Longrightarrow> I (snd (f s)) \<and> G {t} s (snd (f s)) \<and> P (snd (f s))"
  shows "under P t (atomic f)"
  unfolding atomic_def by (rule under_blocking) (rule assms)

lemma under_bindE: "under P t p \<Longrightarrow> (\<And>x. under P t (k x)) \<Longrightarrow> under P t (bindE p k)"
  unfolding bindE_def by (rule under_bindP) (auto split: sum.split intro: under_Ret)

lemma under_lift_result: "(\<And>x. r = Inr x \<Longrightarrow> under P t (k x)) \<Longrightarrow> under P t (lift_result r k)"
  unfolding lift_result_def by (auto split: sum.split intro: under_Ret)

lemma under_mapP: "under P t p \<Longrightarrow> under P t (mapP f p)"
  unfolding mapP_def by (rule under_bindP) (auto intro: under_Ret)

lemma under_if: "(c \<Longrightarrow> under P t p) \<Longrightarrow> (\<not> c \<Longrightarrow> under P t q) \<Longrightarrow> under P t (if c then p else q)"
  by simp

lemmas under_intros = under_Ret under_bindP under_bindE under_lift_result under_mapP under_if

text \<open>Triples: from every state with \<open>P\<close> the task is safe and ends with \<open>Q\<close>.\<close>

definition triple :: "nat \<Rightarrow> ('s \<Rightarrow> bool) \<Rightarrow> ('s, 'b) prog \<Rightarrow> ('b \<Rightarrow> 's \<Rightarrow> bool) \<Rightarrow> bool" where
  "triple t P p Q \<longleftrightarrow> (\<forall>s. I s \<longrightarrow> P s \<longrightarrow> safe I G t Q p s)"

lemma tripleI: "(\<And>s. I s \<Longrightarrow> P s \<Longrightarrow> safe I G t Q p s) \<Longrightarrow> triple t P p Q"
  by (simp add: triple_def)

lemma tripleD: "triple t P p Q \<Longrightarrow> I s \<Longrightarrow> P s \<Longrightarrow> safe I G t Q p s"
  by (simp add: triple_def)

lemma triple_Ret: "stable t (Q x) \<Longrightarrow> (\<And>s. I s \<Longrightarrow> P s \<Longrightarrow> Q x s) \<Longrightarrow> triple t P (Ret x) Q"
  by (rule tripleI, rule safe_Ret) (rule stableD)

lemma triple_bindP:
  assumes "triple t P p Q" "\<And>x. triple t (Q x) (k x) R"
  shows "triple t P (bindP p k) R"
proof (rule tripleI)
  fix s assume s: "I s" "P s"
  show "safe I G t R (bindP p k) s"
    by (rule safe_seq [OF tripleD [OF assms(1) s]]) (use tripleD [OF assms(2)] s(1) in simp_all)
qed

lemma triple_bindE:
  assumes "triple t P p (\<lambda>r s. case r of Inl e \<Rightarrow> R (Inl e) s | Inr x \<Rightarrow> Q x s)"
    and "\<And>x. triple t (Q x) (k x) R" and "\<And>e. stable t (R (Inl e))"
  shows "triple t P (bindE p k) R"
  unfolding bindE_def
proof (rule triple_bindP [OF assms(1)])
  fix r show "triple t (\<lambda>s. case r of Inl e \<Rightarrow> R (Inl e) s | Inr x \<Rightarrow> Q x s) (case r of Inl e \<Rightarrow> Ret (Inl e) | Inr x \<Rightarrow> k x) R"
    using assms(2,3) by (cases r) (auto intro: triple_Ret)
qed

lemma triple_lift_result:
  assumes "\<And>e. r = Inl e \<Longrightarrow> stable t (R (Inl e)) \<and> (\<forall>s. I s \<longrightarrow> P s \<longrightarrow> R (Inl e) s)"
    and "\<And>x. r = Inr x \<Longrightarrow> triple t P (k x) R"
  shows "triple t P (lift_result r k) R"
  using assms by (cases r) (auto simp: lift_result_def intro: triple_Ret)

lemma triple_if: "(c \<Longrightarrow> triple t P p Q) \<Longrightarrow> (\<not> c \<Longrightarrow> triple t P q Q) \<Longrightarrow> triple t P (if c then p else q) Q"
  by simp

lemma triple_blocking:
  assumes "stable t P" "\<And>x. stable t (Q x)"
    and "\<And>s. P s \<Longrightarrow> I s \<Longrightarrow> c s \<Longrightarrow> I (snd (f s)) \<and> G {t} s (snd (f s)) \<and> Q (fst (f s)) (snd (f s))"
  shows "triple t P (blocking c f) Q"
proof (rule tripleI)
  fix s assume s: "I s" "P s"
  show "safe I G t Q (blocking c f) s"
    by (rule safe_blocking [where P = P]) (use assms(3) s stableD [OF assms(1)] stableD [OF assms(2)] in simp_all)
qed

lemmas triple_atomic = triple_blocking [where c = "\<lambda>_. True", folded atomic_def, simplified]

lemma triple_weaken:
  assumes "triple t P' p Q'" "\<And>s. I s \<Longrightarrow> P s \<Longrightarrow> P' s" "\<And>x s. I s \<Longrightarrow> Q' x s \<Longrightarrow> Q x s"
  shows "triple t P p Q"
proof (rule tripleI)
  fix s assume s: "I s" "P s"
  show "safe I G t Q p s"
    by (rule safe_weaken [OF tripleD [OF assms(1) s(1) assms(2) [OF s]]]) (rule assms(3))
qed

lemma triple_under: "under P t p \<Longrightarrow> stable t P \<Longrightarrow> triple t P p (\<lambda>_. P)"
  by (rule tripleI) (rule underD)

lemma under_triple: "(stable t P \<Longrightarrow> triple t P p (\<lambda>_. P)) \<Longrightarrow> under P t p"
  by (simp add: under_def triple_def)

lemma triple_mapP: "triple t P p (\<lambda>x. Q (f x)) \<Longrightarrow> (\<And>x. stable t (Q x)) \<Longrightarrow> triple t P (mapP f p) Q"
  unfolding mapP_def by (erule triple_bindP) (auto intro: triple_Ret)

lemma safe_yields:
  assumes "safe I G t R p s" "yields Q p"
  shows "safe I G t (\<lambda>x s. R x s \<and> Q x) p s"
  using assms
proof (induction rule: safe.induct)
  case (safe_Ret s x)
  have "Q x" by (rule yields_RetE [OF safe_Ret(2)])
  then show ?case by (intro safe.safe_Ret conjI safe_Ret(1))
next
  case (safe_Step s c f)
  have y: "yields Q (fst (f s))" for s by (rule yields_StepE [OF safe_Step(2)]) simp
  show ?case by (rule safe.safe_Step) (use safe_Step(1) y in simp)
qed

lemma triple_yields: "triple t P p R \<Longrightarrow> yields Q p \<Longrightarrow> triple t P p (\<lambda>x s. R x s \<and> Q x)"
  unfolding triple_def using safe_yields by blast

text \<open>
  Every reachable configuration of safe tasks keeps the invariant. \<open>N t\<close> is what holds as long as
  no task has the number \<open>t\<close>.
\<close>

definition config_ok ::
  "(nat \<Rightarrow> 's \<Rightarrow> bool) \<Rightarrow> (nat \<Rightarrow> 'b \<Rightarrow> 's \<Rightarrow> bool) \<Rightarrow> ('s, 'b) config \<Rightarrow> bool" where
  "config_ok N Q cfg \<longleftrightarrow>
     I (snd cfg) \<and> (\<forall>t p. fst cfg t = Some p \<longrightarrow> safe I G t (Q t) p (snd cfg)) \<and>
     (\<forall>t. fst cfg t = None \<longrightarrow> N t (snd cfg))"

lemma config_ok_interfere:
  assumes "config_ok N Q (pool, s)" and st: "\<And>u. stable u (N u)"
    and "I s'" "\<And>u. u \<notin> T \<Longrightarrow> G (- {u}) s s'" "\<And>u. u \<in> T \<Longrightarrow> \<exists>p. pool' u = Some p \<and> safe I G u (Q u) p s'"
    and "\<And>u. u \<notin> T \<Longrightarrow> pool' u = pool u"
  shows "config_ok N Q (pool', s')"
  unfolding config_ok_def fst_conv snd_conv
proof (intro conjI allI impI)
  show "I s'" by (rule assms(3))
  show "safe I G u (Q u) p s'" if "pool' u = Some p" for u p
    using assms(1) assms(5,6) [of u] that safe_interfere [OF _ assms(4), of u "Q u" p]
    by (cases "u \<in> T") (auto simp: config_ok_def)
  show "N u s'" if "pool' u = None" for u
    using assms(1) assms(5,6) [of u] that stableD [OF st _ assms(4) assms(3), of u]
    by (cases "u \<in> T") (auto simp: config_ok_def)
qed

lemma pool_step_ok:
  assumes "pool_step spawn env cfg cfg'" "config_ok N Q cfg" and st: "\<And>u. stable u (N u)"
    and sp: "\<And>t p s. spawn t p \<Longrightarrow> I s \<Longrightarrow> N t s \<Longrightarrow> safe I G t (Q t) p s"
    and en: "\<And>s s'. env s s' \<Longrightarrow> I s \<Longrightarrow> I s' \<and> G {} s s'"
  shows "config_ok N Q cfg' \<and> G UNIV (snd cfg) (snd cfg')"
  using assms(1,2)
proof (induction rule: pool_step.induct)
  case (ps_run pool t c f s p' s')
  have "safe I G t (Q t) (Step c f) s" and Is: "I s" using ps_run by (auto simp: config_ok_def)
  then have h: "I s'" "G {t} s s'" "safe I G t (Q t) p' s'"
    using safe_StepD [of I G t "Q t" c f s s] guar_refl [of "- {t}" s] ps_run(2,3) by simp_all
  have "config_ok N Q (pool(t \<mapsto> p'), s')"
    by (rule config_ok_interfere [OF ps_run(4) st h(1), where T = "{t}"])
      (use h(3) guar_mono [OF _ h(2)] in auto)
  with guar_mono [OF _ h(2), of UNIV] show ?case by simp
next
  case (ps_spawn pool t p s)
  then show ?case using sp guar_refl by (auto simp: config_ok_def)
next
  case (ps_env s s' pool)
  have Is: "I s" using ps_env(2) by (simp add: config_ok_def)
  note h = en [OF ps_env(1) Is]
  have "config_ok N Q (pool, s')"
    by (rule config_ok_interfere [OF ps_env(2) st conjunct1 [OF h], where T = "{}"])
      (use guar_mono [OF empty_subsetI conjunct2 [OF h]] in auto)
  with h guar_mono [of "{}" UNIV s s'] show ?case by simp
qed

lemma reachable_ok:
  assumes "(pool_step spawn env)\<^sup>*\<^sup>* cfg cfg'" "config_ok N Q cfg" "\<And>u. stable u (N u)"
    and "\<And>t p s. spawn t p \<Longrightarrow> I s \<Longrightarrow> N t s \<Longrightarrow> safe I G t (Q t) p s"
    and "\<And>s s'. env s s' \<Longrightarrow> I s \<Longrightarrow> I s' \<and> G {} s s'"
  shows "config_ok N Q cfg' \<and> G UNIV (snd cfg) (snd cfg')"
  using assms(1,2)
proof (induction rule: rtranclp_induct)
  case base
  then show ?case using guar_refl by simp
next
  case (step y z)
  then show ?case using pool_step_ok [OF step(2) _ assms(3,4,5)] guar_trans by blast
qed

end

end
