(* ===== verification/HostEnvironment.thy ===== *)
theory HostEnvironment
  imports Protocol Tasks
begin

text \<open>
  The environments behind desktop workers (host/src/environment.rs): what a descriptor may claim,
  and the manager that keeps snapshots and clones of a provider within bounds.

  The provider is a parameter. Its calls change the machine world; the manager holds its lock only
  before and after such a call, so its operations are programs of several atomic sections.
  \<open>em_snapshotting\<close> and \<open>em_cloning\<close> record for the proofs which tasks hold a reservation. Parsing
  a timestamp is a parameter.
\<close>

section \<open>Descriptors\<close>

datatype environment_kind = EK_LocalUserDesktop | EK_RemoteDesktop | EK_Isolated

datatype network_policy = NP_NotEnforced | NP_DenyAll | NP_AllowHosts "string list" | NP_Unrestricted

record mount_policy =
  mp_mount_ref :: string
  mp_read_only :: bool

datatype filesystem_policy = FP_NotEnforced | FP_NoDirectAccess | FP_Mounts "mount_policy list"

datatype environment_capability = EC_NetworkPolicy | EC_FilesystemPolicy | EC_Snapshot | EC_Reset | EC_Clone

record environment_descriptor =
  ed_kind :: environment_kind
  ed_network :: network_policy
  ed_filesystem :: filesystem_policy
  ed_capabilities :: "environment_capability list"
  ed_base_image_sha256 :: "string option"

datatype environment_error = EE_Invalid string | EE_Unsupported | EE_Busy | EE_StaleSnapshot | EE_Provider string

definition local_user_desktop :: environment_descriptor where
  "local_user_desktop =
     \<lparr>ed_kind = EK_LocalUserDesktop, ed_network = NP_NotEnforced, ed_filesystem = FP_NotEnforced,
      ed_capabilities = [], ed_base_image_sha256 = None\<rparr>"

definition is_ascii_lowercase :: "char \<Rightarrow> bool" where
  "is_ascii_lowercase c \<longleftrightarrow> 97 \<le> byte_of c \<and> byte_of c \<le> 122"

definition is_ascii_digit :: "char \<Rightarrow> bool" where
  "is_ascii_digit c \<longleftrightarrow> 48 \<le> byte_of c \<and> byte_of c \<le> 57"

fun split_on :: "char \<Rightarrow> string \<Rightarrow> string list" where
  "split_on sep [] = [[]]"
| "split_on sep (c # cs) =
     (if c = sep then [] # split_on sep cs
      else case split_on sep cs of part # rest \<Rightarrow> (c # part) # rest | [] \<Rightarrow> [[c]])"

definition starts_with :: "char \<Rightarrow> string \<Rightarrow> bool" where
  "starts_with c s \<longleftrightarrow> s \<noteq> [] \<and> hd s = c"

definition ends_with :: "char \<Rightarrow> string \<Rightarrow> bool" where
  "ends_with c s \<longleftrightarrow> s \<noteq> [] \<and> List.last s = c"

definition bad_label :: "string \<Rightarrow> bool" where
  "bad_label label \<longleftrightarrow>
     label = [] \<or> 63 < length label \<or> starts_with CHR ''-'' label \<or> ends_with CHR ''-'' label \<or>
     \<not> list_all (\<lambda>b. is_ascii_lowercase b \<or> is_ascii_digit b \<or> b = CHR ''-'') label"

definition bad_host :: "string \<Rightarrow> bool" where
  "bad_host host \<longleftrightarrow>
     host = [] \<or> 253 < length host \<or> host \<noteq> to_ascii_lowercase host \<or> starts_with CHR ''.'' host \<or>
     ends_with CHR ''.'' host \<or> list_ex bad_label (split_on CHR ''.'' host)"

definition bad_mount :: "mount_policy \<Rightarrow> bool" where
  "bad_mount m \<longleftrightarrow> mp_mount_ref m = [] \<or> 128 < length (mp_mount_ref m) \<or> trim (mp_mount_ref m) \<noteq> mp_mount_ref m"

definition valid_sha256 :: "string \<Rightarrow> bool" where
  "valid_sha256 v \<longleftrightarrow> length v = 64 \<and> list_all (\<lambda>b. is_ascii_digit b \<or> (97 \<le> byte_of b \<and> byte_of b \<le> 102)) v"

definition validate_network :: "network_policy \<Rightarrow> environment_error + unit" where
  "validate_network n =
     (case n of
        NP_AllowHosts hosts \<Rightarrow>
          if hosts = [] \<or> 64 < length hosts
          then Inl (EE_Invalid ''network allowlist must contain between 1 and 64 hosts'')
          else if \<not> all_unique hosts \<or> list_ex bad_host hosts
          then Inl (EE_Invalid ''network allowlist hosts must be unique normalized DNS names'')
          else Inr ()
      | _ \<Rightarrow> Inr ())"

definition validate_filesystem :: "filesystem_policy \<Rightarrow> environment_error + unit" where
  "validate_filesystem f =
     (case f of
        FP_Mounts mounts \<Rightarrow>
          if mounts = [] \<or> 32 < length mounts
          then Inl (EE_Invalid ''filesystem policy must contain between 1 and 32 mounts'')
          else if \<not> all_unique (map mp_mount_ref mounts) \<or> list_ex bad_mount mounts
          then Inl (EE_Invalid ''mount references must be unique, normalized, and bounded'')
          else Inr ()
      | _ \<Rightarrow> Inr ())"

definition validate_base_image :: "environment_descriptor \<Rightarrow> environment_error + unit" where
  "validate_base_image self =
     (if ed_kind self = EK_Isolated
      then bindR (ok_or (EE_Invalid ''isolated environments require a base image digest'') (ed_base_image_sha256 self)) (\<lambda>digest.
           if \<not> valid_sha256 digest then Inl (EE_Invalid ''base image digest must be lowercase SHA-256 hex'')
           else Inr ())
      else Inr ())"

definition descriptor_validate :: "environment_descriptor \<Rightarrow> environment_error + unit" where
  "descriptor_validate self =
     (let has = List.member (ed_capabilities self)
      in if ed_kind self \<noteq> EK_Isolated \<and>
            (has EC_Snapshot \<or> has EC_Reset \<or> has EC_Clone \<or> ed_base_image_sha256 self \<noteq> None)
         then Inl (EE_Invalid ''only isolated environments may advertise image lifecycle'')
         else if has EC_NetworkPolicy = (ed_network self = NP_NotEnforced) \<or>
                 has EC_FilesystemPolicy = (ed_filesystem self = FP_NotEnforced)
         then Inl (EE_Invalid ''policy capability flags must match their enforcement modes'')
         else if \<not> all_unique (ed_capabilities self)
         then Inl (EE_Invalid ''environment capabilities contain duplicates'')
         else bindR (validate_network (ed_network self)) (\<lambda>_.
              bindR (validate_filesystem (ed_filesystem self)) (\<lambda>_.
              validate_base_image self)))"

section \<open>The manager\<close>

record machine_snapshot =
  ms_snapshot_ref :: string
  ms_source_worker_id :: string
  ms_source_worker_epoch :: string
  ms_base_image_sha256 :: string
  ms_created_at :: string

record provisioned_environment =
  pe_environment_ref :: string
  pe_generation :: string
  pe_snapshot_ref :: string
  pe_base_image_sha256 :: string

record 'w environment_provider =
  pv_descriptor :: environment_descriptor
  pv_snapshot :: "string \<Rightarrow> string \<Rightarrow> string \<Rightarrow> 'w \<Rightarrow> (environment_error + machine_snapshot) \<times> 'w"
  pv_reset :: "string \<Rightarrow> machine_snapshot \<Rightarrow> 'w \<Rightarrow> (environment_error + provisioned_environment) \<times> 'w"
  pv_clone_environment :: "machine_snapshot \<Rightarrow> 'w \<Rightarrow> (environment_error + provisioned_environment) \<times> 'w"

record environment_manager_config =
  emc_max_snapshots :: nat
  emc_max_clones :: nat
  emc_max_label_bytes :: nat

definition default_manager_config :: environment_manager_config where
  "default_manager_config = \<lparr>emc_max_snapshots = 32, emc_max_clones = 64, emc_max_label_bytes = 128\<rparr>"

record 'w environment_manager =
  em_snapshots :: "(string, machine_snapshot) hm"
  em_clones :: "(string, provisioned_environment) hm"
  em_pending_snapshots :: nat
  em_pending_clones :: nat
  em_world :: 'w
  em_snapshotting :: "nat list"
  em_cloning :: "nat list"

record 'w manager_env =
  me_provider :: "'w environment_provider"
  me_config :: environment_manager_config
  me_rfc3339 :: "string \<Rightarrow> bool"

definition environment_manager_new ::
  "'w manager_env \<Rightarrow> 'w \<Rightarrow> environment_error + 'w environment_manager" where
  "environment_manager_new env w =
     (let c = me_config env
      in if emc_max_snapshots c = 0 \<or> emc_max_clones c = 0 \<or> emc_max_label_bytes c = 0
         then Inl (EE_Invalid ''environment manager bounds must be non-zero'')
         else bindR (descriptor_validate (pv_descriptor (me_provider env))) (\<lambda>_.
              Inr \<lparr>em_snapshots = [], em_clones = [], em_pending_snapshots = 0, em_pending_clones = 0, em_world = w,
                   em_snapshotting = [], em_cloning = []\<rparr>))"

definition require_capability :: "environment_descriptor \<Rightarrow> environment_capability \<Rightarrow> environment_error + unit" where
  "require_capability d c = (if List.member (ed_capabilities d) c then Inr () else Inl EE_Unsupported)"

definition validate_opaque :: "string \<Rightarrow> string \<Rightarrow> nat \<Rightarrow> environment_error + unit" where
  "validate_opaque v label max_bytes =
     (if v = [] \<or> max_bytes < length v \<or> trim v \<noteq> v
      then Inl (EE_Invalid (label @ '' is empty, too long, or not normalized'')) else Inr ())"

definition validate_snapshot ::
  "(string \<Rightarrow> bool) \<Rightarrow> environment_descriptor \<Rightarrow> string \<Rightarrow> string \<Rightarrow> machine_snapshot \<Rightarrow> environment_error + unit" where
  "validate_snapshot rfc3339 d worker_id worker_epoch snapshot =
     bindR (validate_opaque (ms_snapshot_ref snapshot) ''snapshot reference'' 128) (\<lambda>_.
     if ms_source_worker_id snapshot \<noteq> worker_id \<or> ms_source_worker_epoch snapshot \<noteq> worker_epoch \<or>
        ed_base_image_sha256 d \<noteq> Some (ms_base_image_sha256 snapshot) \<or>
        \<not> valid_sha256 (ms_base_image_sha256 snapshot) \<or> \<not> rfc3339 (ms_created_at snapshot)
     then Inl (EE_Invalid ''provider snapshot identity does not match worker epoch and base image'')
     else Inr ())"

definition validate_provisioned ::
  "environment_descriptor \<Rightarrow> machine_snapshot \<Rightarrow> provisioned_environment \<Rightarrow> environment_error + unit" where
  "validate_provisioned d snapshot p =
     bindR (validate_opaque (pe_environment_ref p) ''environment reference'' 128) (\<lambda>_.
     bindR (validate_opaque (pe_generation p) ''environment generation'' 128) (\<lambda>_.
     if pe_snapshot_ref p \<noteq> ms_snapshot_ref snapshot \<or> pe_base_image_sha256 p \<noteq> ms_base_image_sha256 snapshot \<or>
        ed_base_image_sha256 d \<noteq> Some (pe_base_image_sha256 p)
     then Inl (EE_Invalid ''provider environment does not match the retained snapshot and base image'')
     else Inr ()))"

definition provider_call :: "('w \<Rightarrow> 'r \<times> 'w) \<Rightarrow> ('w environment_manager, 'r) prog" where
  "provider_call f = atomic (\<lambda>s. case f (em_world s) of (r, w) \<Rightarrow> (r, s\<lparr>em_world := w\<rparr>))"

text \<open>The sections of \<^verbatim>\<open>snapshot\<close> under the lock: the reservation and its end.\<close>

definition reserve_snapshot ::
  "'w manager_env \<Rightarrow> nat \<Rightarrow> 'w environment_manager \<Rightarrow> (environment_error + unit) \<times> 'w environment_manager" where
  "reserve_snapshot env t s =
     (if emc_max_snapshots (me_config env) \<le> hm_len (em_snapshots s) + em_pending_snapshots s then (Inl EE_Busy, s)
      else (Inr (), s\<lparr>em_pending_snapshots := em_pending_snapshots s + 1, em_snapshotting := t # em_snapshotting s\<rparr>))"

definition retain_snapshot ::
  "'w manager_env \<Rightarrow> nat \<Rightarrow> string \<Rightarrow> string \<Rightarrow> environment_error + machine_snapshot \<Rightarrow> 'w environment_manager \<Rightarrow>
   (environment_error + machine_snapshot) \<times> 'w environment_manager" where
  "retain_snapshot env t worker_id worker_epoch result s =
     (let s' = s\<lparr>em_pending_snapshots := em_pending_snapshots s - 1, em_snapshotting := remove1 t (em_snapshotting s)\<rparr>
      in case result of
           Inl e \<Rightarrow> (Inl e, s')
         | Inr snapshot \<Rightarrow>
             (case validate_snapshot (me_rfc3339 env) (pv_descriptor (me_provider env)) worker_id worker_epoch snapshot of
                Inl e \<Rightarrow> (Inl e, s')
              | Inr _ \<Rightarrow>
                  if hm_get (em_snapshots s) (ms_snapshot_ref snapshot) \<noteq> None
                  then (Inl (EE_Invalid ''provider reused a live snapshot reference''), s')
                  else (Inr snapshot, s'\<lparr>em_snapshots := hm_insert (ms_snapshot_ref snapshot) snapshot (em_snapshots s)\<rparr>)))"

definition manager_snapshot ::
  "'w manager_env \<Rightarrow> nat \<Rightarrow> string \<Rightarrow> string \<Rightarrow> string \<Rightarrow> ('w environment_manager, environment_error + machine_snapshot) prog" where
  "manager_snapshot env t worker_id worker_epoch label =
     lift_result (require_capability (pv_descriptor (me_provider env)) EC_Snapshot) (\<lambda>_.
     lift_result (validate_opaque worker_id ''worker identity'' 128) (\<lambda>_.
     lift_result (validate_opaque worker_epoch ''worker epoch'' 128) (\<lambda>_.
     lift_result (validate_opaque label ''snapshot label'' (emc_max_label_bytes (me_config env))) (\<lambda>_.
     bindE (atomic (reserve_snapshot env t)) (\<lambda>_.
     bindP (provider_call (pv_snapshot (me_provider env) worker_id worker_epoch label)) (\<lambda>result.
     atomic (retain_snapshot env t worker_id worker_epoch result)))))))"

definition retained_snapshot :: "string \<Rightarrow> ('w environment_manager, environment_error + machine_snapshot) prog" where
  "retained_snapshot snapshot_ref =
     lift_result (validate_opaque snapshot_ref ''snapshot reference'' 128) (\<lambda>_.
     atomic (\<lambda>s. (ok_or EE_StaleSnapshot (hm_get (em_snapshots s) snapshot_ref), s)))"

definition manager_reset ::
  "'w manager_env \<Rightarrow> string \<Rightarrow> string \<Rightarrow> ('w environment_manager, environment_error + provisioned_environment) prog" where
  "manager_reset env environment_ref snapshot_ref =
     lift_result (require_capability (pv_descriptor (me_provider env)) EC_Reset) (\<lambda>_.
     lift_result (validate_opaque environment_ref ''environment reference'' 128) (\<lambda>_.
     bindE (retained_snapshot snapshot_ref) (\<lambda>snapshot.
     bindE (provider_call (pv_reset (me_provider env) environment_ref snapshot)) (\<lambda>result.
     lift_result (validate_provisioned (pv_descriptor (me_provider env)) snapshot result) (\<lambda>_.
     if pe_environment_ref result \<noteq> environment_ref
     then Ret (Inl (EE_Invalid ''provider reset changed the target environment reference''))
     else Ret (Inr result))))))"

definition reserve_clone ::
  "'w manager_env \<Rightarrow> nat \<Rightarrow> 'w environment_manager \<Rightarrow> (environment_error + unit) \<times> 'w environment_manager" where
  "reserve_clone env t s =
     (if emc_max_clones (me_config env) \<le> hm_len (em_clones s) + em_pending_clones s then (Inl EE_Busy, s)
      else (Inr (), s\<lparr>em_pending_clones := em_pending_clones s + 1, em_cloning := t # em_cloning s\<rparr>))"

definition retain_clone ::
  "'w manager_env \<Rightarrow> nat \<Rightarrow> machine_snapshot \<Rightarrow> environment_error + provisioned_environment \<Rightarrow> 'w environment_manager \<Rightarrow>
   (environment_error + provisioned_environment) \<times> 'w environment_manager" where
  "retain_clone env t snapshot result s =
     (let s' = s\<lparr>em_pending_clones := em_pending_clones s - 1, em_cloning := remove1 t (em_cloning s)\<rparr>
      in case result of
           Inl e \<Rightarrow> (Inl e, s')
         | Inr c \<Rightarrow>
             (case validate_provisioned (pv_descriptor (me_provider env)) snapshot c of
                Inl e \<Rightarrow> (Inl e, s')
              | Inr _ \<Rightarrow>
                  if hm_get (em_clones s) (pe_environment_ref c) \<noteq> None
                  then (Inl (EE_Invalid ''provider reused a live clone environment reference''), s')
                  else (Inr c, s'\<lparr>em_clones := hm_insert (pe_environment_ref c) c (em_clones s)\<rparr>)))"

definition manager_clone_environment ::
  "'w manager_env \<Rightarrow> nat \<Rightarrow> string \<Rightarrow> ('w environment_manager, environment_error + provisioned_environment) prog" where
  "manager_clone_environment env t snapshot_ref =
     lift_result (require_capability (pv_descriptor (me_provider env)) EC_Clone) (\<lambda>_.
     bindE (retained_snapshot snapshot_ref) (\<lambda>snapshot.
     bindE (atomic (reserve_clone env t)) (\<lambda>_.
     bindP (provider_call (pv_clone_environment (me_provider env) snapshot)) (\<lambda>result.
     atomic (retain_clone env t snapshot result)))))"

definition release_clone :: "string \<Rightarrow> 'w environment_manager \<Rightarrow> bool \<times> 'w environment_manager" where
  "release_clone environment_ref s =
     (hm_get (em_clones s) environment_ref \<noteq> None, s\<lparr>em_clones := hm_remove environment_ref (em_clones s)\<rparr>)"

definition remove_snapshot ::
  "string \<Rightarrow> 'w environment_manager \<Rightarrow> (environment_error + bool) \<times> 'w environment_manager" where
  "remove_snapshot snapshot_ref s =
     (if list_ex (\<lambda>c. pe_snapshot_ref c = snapshot_ref) (hm_values (em_clones s)) then (Inl EE_Busy, s)
      else (Inr (hm_get (em_snapshots s) snapshot_ref \<noteq> None),
            s\<lparr>em_snapshots := hm_remove snapshot_ref (em_snapshots s)\<rparr>))"

text \<open>The provider of the local desktop supports no machine lifecycle.\<close>

definition local_desktop_environment :: "'w environment_provider" where
  "local_desktop_environment =
     \<lparr>pv_descriptor = local_user_desktop, pv_snapshot = (\<lambda>_ _ _ w. (Inl EE_Unsupported, w)),
      pv_reset = (\<lambda>_ _ w. (Inl EE_Unsupported, w)), pv_clone_environment = (\<lambda>_ w. (Inl EE_Unsupported, w))\<rparr>"

datatype manager_result =
    M_Snapshot "environment_error + machine_snapshot"
  | M_Environment "environment_error + provisioned_environment"
  | M_Released bool
  | M_Removed "environment_error + bool"

inductive manager_task :: "'w manager_env \<Rightarrow> nat \<Rightarrow> ('w environment_manager, manager_result) prog \<Rightarrow> bool" for env t where
  mt_snapshot: "manager_task env t (mapP M_Snapshot (manager_snapshot env t worker_id worker_epoch label))"
| mt_reset: "manager_task env t (mapP M_Environment (manager_reset env environment_ref snapshot_ref))"
| mt_clone: "manager_task env t (mapP M_Environment (manager_clone_environment env t snapshot_ref))"
| mt_release: "manager_task env t (mapP M_Released (atomic (release_clone environment_ref)))"
| mt_remove: "manager_task env t (mapP M_Removed (atomic (remove_snapshot snapshot_ref)))"

text \<open>Outside the tasks the machines change.\<close>

inductive manager_surroundings :: "'w environment_manager \<Rightarrow> 'w environment_manager \<Rightarrow> bool" where
  ms_world: "manager_surroundings s (s\<lparr>em_world := w\<rparr>)"

definition manager_reachable ::
  "'w manager_env \<Rightarrow> 'w environment_manager \<Rightarrow> ('w environment_manager, manager_result) config \<Rightarrow> bool" where
  "manager_reachable env s0 cfg \<longleftrightarrow>
     (pool_step (manager_task env) manager_surroundings)\<^sup>*\<^sup>* (Map.empty, s0) cfg"

section \<open>What a valid descriptor promises\<close>

lemma validate_network_ok:
  "validate_network n = Inr () \<longleftrightarrow>
     (\<forall>hosts. n = NP_AllowHosts hosts \<longrightarrow> hosts \<noteq> [] \<and> length hosts \<le> 64 \<and> distinct hosts \<and> list_all (\<lambda>h. \<not> bad_host h) hosts)"
  by (auto simp: validate_network_def list_ex_iff list_all_iff not_less split: network_policy.split)

lemma validate_filesystem_ok:
  "validate_filesystem f = Inr () \<longleftrightarrow>
     (\<forall>mounts. f = FP_Mounts mounts \<longrightarrow>
        mounts \<noteq> [] \<and> length mounts \<le> 32 \<and> distinct (map mp_mount_ref mounts) \<and> list_all (\<lambda>m. \<not> bad_mount m) mounts)"
  by (auto simp: validate_filesystem_def list_ex_iff list_all_iff not_less split: filesystem_policy.split)

lemma validate_base_image_ok:
  "validate_base_image d = Inr () \<longleftrightarrow> (ed_kind d = EK_Isolated \<longrightarrow> (\<exists>v. ed_base_image_sha256 d = Some v \<and> valid_sha256 v))"
  by (cases "ed_base_image_sha256 d") (auto simp: validate_base_image_def)

lemma bindR_unit: "bindR r (\<lambda>_. q) = Inr () \<longleftrightarrow> r = Inr () \<and> q = Inr ()" for r :: "'e + unit"
  by (cases r) auto

text \<open>The parts of a host name and its labels.\<close>

lemma split_on_join: "concat (map (\<lambda>p. p @ [sep]) (split_on sep s)) = s @ [sep]"
proof (induction s)
  case (Cons c s)
  then show ?case by (cases "split_on sep s") (auto split: list.split)
qed simp

lemma split_on_none: "p \<in> set (split_on sep s) \<Longrightarrow> sep \<notin> set p"
  by (induction s arbitrary: p) (auto split: list.splits if_splits)

section \<open>The invariant of the manager\<close>

definition snapshots_ok :: "environment_descriptor \<Rightarrow> (string, machine_snapshot) hm \<Rightarrow> bool" where
  "snapshots_ok d m \<longleftrightarrow>
     (\<forall>k sn. hm_get m k = Some sn \<longrightarrow> ms_snapshot_ref sn = k \<and> ed_base_image_sha256 d = Some (ms_base_image_sha256 sn))"

definition clones_ok :: "environment_descriptor \<Rightarrow> (string, provisioned_environment) hm \<Rightarrow> bool" where
  "clones_ok d m \<longleftrightarrow>
     (\<forall>k c. hm_get m k = Some c \<longrightarrow> pe_environment_ref c = k \<and> ed_base_image_sha256 d = Some (pe_base_image_sha256 c))"

definition capacity_ok :: "('k, 'v) hm \<Rightarrow> nat \<Rightarrow> nat list \<Rightarrow> nat \<Rightarrow> bool" where
  "capacity_ok m pending holders limit \<longleftrightarrow>
     hm_wf m \<and> distinct holders \<and> pending = length holders \<and> hm_len m + pending \<le> limit"

definition emok :: "'w manager_env \<Rightarrow> 'w environment_manager \<Rightarrow> bool" where
  "emok env s \<longleftrightarrow>
     capacity_ok (em_snapshots s) (em_pending_snapshots s) (em_snapshotting s) (emc_max_snapshots (me_config env)) \<and>
     capacity_ok (em_clones s) (em_pending_clones s) (em_cloning s) (emc_max_clones (me_config env)) \<and>
     snapshots_ok (pv_descriptor (me_provider env)) (em_snapshots s) \<and>
     clones_ok (pv_descriptor (me_provider env)) (em_clones s)"

definition emguar :: "'w manager_env \<Rightarrow> nat set \<Rightarrow> 'w environment_manager \<Rightarrow> 'w environment_manager \<Rightarrow> bool" where
  "emguar env T s s' \<longleftrightarrow>
     (\<forall>u. u \<notin> T \<longrightarrow> (u \<in> set (em_snapshotting s') \<longleftrightarrow> u \<in> set (em_snapshotting s)) \<and>
                   (u \<in> set (em_cloning s') \<longleftrightarrow> u \<in> set (em_cloning s)))"

interpretation em: interleaving "emok env" "emguar env" for env
  by unfold_locales (auto simp: emguar_def)

lemma capacity_reserve:
  assumes "capacity_ok m n hs limit" "hm_len m + n < limit" "t \<notin> set hs"
  shows "capacity_ok m (Suc n) (t # hs) limit"
  using assms by (simp add: capacity_ok_def)

lemma capacity_end:
  assumes "capacity_ok m n hs limit" "t \<in> set hs"
  shows "capacity_ok m (n - Suc 0) (remove1 t hs) limit"
    "hm_get m k = None \<Longrightarrow> capacity_ok (hm_insert k v m) (n - Suc 0) (remove1 t hs) limit"
proof -
  obtain l where "length hs = Suc l" using assms(2) by (cases hs) auto
  then show "capacity_ok m (n - Suc 0) (remove1 t hs) limit"
    "hm_get m k = None \<Longrightarrow> capacity_ok (hm_insert k v m) (n - Suc 0) (remove1 t hs) limit"
    using assms by (auto simp: capacity_ok_def length_remove1 hm.len_insert_new)
qed

lemma capacity_remove: "capacity_ok m n hs limit \<Longrightarrow> capacity_ok (hm_remove k m) n hs limit"
  using hm.len_remove_le [of m k] by (simp add: capacity_ok_def)

definition idle_task :: "nat \<Rightarrow> 'w environment_manager \<Rightarrow> bool" where
  "idle_task t s \<longleftrightarrow> t \<notin> set (em_snapshotting s) \<and> t \<notin> set (em_cloning s)"

definition snapshotting :: "nat \<Rightarrow> 'w environment_manager \<Rightarrow> bool" where
  "snapshotting t s \<longleftrightarrow> t \<in> set (em_snapshotting s) \<and> t \<notin> set (em_cloning s)"

definition cloning :: "nat \<Rightarrow> 'w environment_manager \<Rightarrow> bool" where
  "cloning t s \<longleftrightarrow> t \<in> set (em_cloning s) \<and> t \<notin> set (em_snapshotting s)"

lemma stable_holders: "em.stable env t (idle_task t)" "em.stable env t (snapshotting t)" "em.stable env t (cloning t)"
  by (auto intro!: em.stableI simp: emguar_def idle_task_def snapshotting_def cloning_def)

lemma reserve_snapshot_ok:
  assumes "emok env s" "idle_task t s"
  shows "emok env (snd (reserve_snapshot env t s)) \<and> emguar env {t} s (snd (reserve_snapshot env t s)) \<and>
    (case fst (reserve_snapshot env t s) of Inl e \<Rightarrow> idle_task t (snd (reserve_snapshot env t s))
       | Inr _ \<Rightarrow> snapshotting t (snd (reserve_snapshot env t s)))"
  using assms by (auto simp: reserve_snapshot_def emok_def emguar_def idle_task_def snapshotting_def not_le intro: capacity_reserve)

lemma reserve_clone_ok:
  assumes "emok env s" "idle_task t s"
  shows "emok env (snd (reserve_clone env t s)) \<and> emguar env {t} s (snd (reserve_clone env t s)) \<and>
    (case fst (reserve_clone env t s) of Inl e \<Rightarrow> idle_task t (snd (reserve_clone env t s))
       | Inr _ \<Rightarrow> cloning t (snd (reserve_clone env t s)))"
  using assms by (auto simp: reserve_clone_def emok_def emguar_def idle_task_def cloning_def not_le intro: capacity_reserve)

lemma holder_left: "capacity_ok m n hs limit \<Longrightarrow> t \<notin> set (remove1 t hs)"
  by (simp add: capacity_ok_def)

lemma filed_insert:
  "snapshots_ok d m \<Longrightarrow> ed_base_image_sha256 d = Some (ms_base_image_sha256 sn) \<Longrightarrow> snapshots_ok d (hm_insert (ms_snapshot_ref sn) sn m)"
  "clones_ok d n \<Longrightarrow> ed_base_image_sha256 d = Some (pe_base_image_sha256 c) \<Longrightarrow> clones_ok d (hm_insert (pe_environment_ref c) c n)"
  by (simp_all add: snapshots_ok_def clones_ok_def)

lemma validated_image:
  "validate_snapshot rfc d w e sn = Inr u \<Longrightarrow> ed_base_image_sha256 d = Some (ms_base_image_sha256 sn)"
  "validate_provisioned d sn c = Inr u \<Longrightarrow> ed_base_image_sha256 d = Some (pe_base_image_sha256 c)"
  by (simp_all add: validate_snapshot_def validate_provisioned_def bindR_eq_Inr early_return_Inr)

lemma retain_snapshot_ok:
  assumes ok: "emok env s" and t: "snapshotting t s"
    and s'_def: "s' = snd (retain_snapshot env t w e r s)"
  shows "emok env s' \<and> emguar env {t} s s' \<and> idle_task t s'"
proof -
  note c = capacity_end [of "em_snapshots s" "em_pending_snapshots s" "em_snapshotting s"]
  have "capacity_ok (em_snapshots s') (em_pending_snapshots s') (em_snapshotting s') (emc_max_snapshots (me_config env))"
    using ok t unfolding s'_def
    by (auto simp: retain_snapshot_def Let_def emok_def snapshotting_def c split: sum.split)
  moreover have "snapshots_ok (pv_descriptor (me_provider env)) (em_snapshots s')"
    using ok unfolding s'_def
    by (auto simp: retain_snapshot_def Let_def emok_def split: sum.split intro: filed_insert validated_image)
  moreover have "em_clones s' = em_clones s" "em_pending_clones s' = em_pending_clones s" "em_cloning s' = em_cloning s"
    "em_snapshotting s' = remove1 t (em_snapshotting s)"
    unfolding s'_def by (simp_all add: retain_snapshot_def Let_def split: sum.split)
  ultimately show ?thesis
    using ok t holder_left [of "em_snapshots s" _ "em_snapshotting s"]
    by (auto simp: emok_def emguar_def idle_task_def snapshotting_def in_set_remove1)
qed

lemma retain_clone_ok:
  assumes ok: "emok env s" and t: "cloning t s"
    and s'_def: "s' = snd (retain_clone env t snapshot r s)"
  shows "emok env s' \<and> emguar env {t} s s' \<and> idle_task t s'"
proof -
  note c = capacity_end [of "em_clones s" "em_pending_clones s" "em_cloning s"]
  have "capacity_ok (em_clones s') (em_pending_clones s') (em_cloning s') (emc_max_clones (me_config env))"
    using ok t unfolding s'_def
    by (auto simp: retain_clone_def Let_def emok_def cloning_def c split: sum.split)
  moreover have "clones_ok (pv_descriptor (me_provider env)) (em_clones s')"
    using ok unfolding s'_def
    by (auto simp: retain_clone_def Let_def emok_def split: sum.split intro: filed_insert validated_image)
  moreover have "em_snapshots s' = em_snapshots s" "em_pending_snapshots s' = em_pending_snapshots s"
    "em_snapshotting s' = em_snapshotting s" "em_cloning s' = remove1 t (em_cloning s)"
    unfolding s'_def by (simp_all add: retain_clone_def Let_def split: sum.split)
  ultimately show ?thesis
    using ok t holder_left [of "em_clones s" _ "em_cloning s"]
    by (auto simp: emok_def emguar_def idle_task_def cloning_def in_set_remove1)
qed

lemma provider_call_ok:
  assumes "em.stable env t P" "\<And>s w. P s \<Longrightarrow> P (s\<lparr>em_world := w\<rparr>)"
  shows "em.triple env t P (provider_call f) (\<lambda>_. P)"
  unfolding provider_call_def
  by (rule em.triple_atomic [OF assms(1,1)]) (auto simp: assms(2) emok_def emguar_def split: prod.split)

lemma reserve_triples:
  "em.triple env t (idle_task t) (atomic (reserve_snapshot env t)) (\<lambda>r s. case r of Inl e \<Rightarrow> idle_task t s | Inr _ \<Rightarrow> snapshotting t s)"
  "em.triple env t (idle_task t) (atomic (reserve_clone env t)) (\<lambda>r s. case r of Inl e \<Rightarrow> idle_task t s | Inr _ \<Rightarrow> cloning t s)"
proof -
  have "em.stable env t (\<lambda>s. case r of Inl e \<Rightarrow> idle_task t s | Inr _ \<Rightarrow> snapshotting t s)"
    "em.stable env t (\<lambda>s. case r of Inl e \<Rightarrow> idle_task t s | Inr _ \<Rightarrow> cloning t s)" for r :: "environment_error + unit"
    by (cases r; simp add: stable_holders)+
  then show "em.triple env t (idle_task t) (atomic (reserve_snapshot env t)) (\<lambda>r s. case r of Inl e \<Rightarrow> idle_task t s | Inr _ \<Rightarrow> snapshotting t s)"
    "em.triple env t (idle_task t) (atomic (reserve_clone env t)) (\<lambda>r s. case r of Inl e \<Rightarrow> idle_task t s | Inr _ \<Rightarrow> cloning t s)"
    by (intro em.triple_atomic stable_holders; simp add: reserve_snapshot_ok reserve_clone_ok)+
qed

lemma holders_world [simp]:
  "idle_task t (s\<lparr>em_world := w\<rparr>) = idle_task t s" "snapshotting t (s\<lparr>em_world := w\<rparr>) = snapshotting t s"
  "cloning t (s\<lparr>em_world := w\<rparr>) = cloning t s"
  by (simp_all add: idle_task_def snapshotting_def cloning_def)

lemma manager_snapshot_triple: "em.triple env t (idle_task t) (manager_snapshot env t w e label) (\<lambda>_. idle_task t)"
proof -
  have call: "em.triple env t (snapshotting t) (bindP (provider_call f) (\<lambda>r. atomic (retain_snapshot env t w e r))) (\<lambda>_. idle_task t)" for f
  proof (rule em.triple_bindP [OF provider_call_ok [OF stable_holders(2)]])
    show "em.triple env t (snapshotting t) (atomic (retain_snapshot env t w e r)) (\<lambda>_. idle_task t)" for r
      by (rule em.triple_atomic [OF stable_holders(2,1)]) (simp add: retain_snapshot_ok)
  qed simp
  show ?thesis
    unfolding manager_snapshot_def
    by (intro em.triple_lift_result em.triple_bindE [OF reserve_triples(1)] call) (simp_all add: stable_holders)
qed

lemma retained_triple: "em.triple env t (idle_task t) (retained_snapshot r) (\<lambda>_. idle_task t)"
  unfolding retained_snapshot_def
  by (intro em.triple_lift_result em.triple_atomic stable_holders) (simp_all add: stable_holders em.guar_refl)

lemma manager_clone_triple: "em.triple env t (idle_task t) (manager_clone_environment env t r) (\<lambda>_. idle_task t)"
proof -
  have call: "em.triple env t (cloning t) (bindP (provider_call f) (\<lambda>r. atomic (retain_clone env t snapshot r))) (\<lambda>_. idle_task t)" for f snapshot
  proof (rule em.triple_bindP [OF provider_call_ok [OF stable_holders(3)]])
    show "em.triple env t (cloning t) (atomic (retain_clone env t snapshot r)) (\<lambda>_. idle_task t)" for r
      by (rule em.triple_atomic [OF stable_holders(3,1)]) (simp add: retain_clone_ok)
  qed simp
  have ret: "em.triple env t (idle_task t) (retained_snapshot r) (\<lambda>x s. case x of Inl e \<Rightarrow> idle_task t s | Inr _ \<Rightarrow> idle_task t s)"
    using retained_triple [of env t r] by (simp add: sum.case_eq_if)
  show ?thesis
    unfolding manager_clone_environment_def
    by (intro em.triple_lift_result em.triple_bindE [OF ret] em.triple_bindE [OF reserve_triples(2)] call) (simp_all add: stable_holders)
qed

lemma manager_reset_triple: "em.triple env t (idle_task t) (manager_reset env a b) (\<lambda>_. idle_task t)"
proof -
  have ret: "em.triple env t (idle_task t) (retained_snapshot b) (\<lambda>x s. case x of Inl e \<Rightarrow> idle_task t s | Inr _ \<Rightarrow> idle_task t s)"
    using retained_triple [of env t b] by (simp add: sum.case_eq_if)
  have call: "em.triple env t (idle_task t) (provider_call f) (\<lambda>x s. case x of Inl e \<Rightarrow> idle_task t s | Inr _ \<Rightarrow> idle_task t s)"
    for f :: "'a \<Rightarrow> (environment_error + provisioned_environment) \<times> 'a"
    using provider_call_ok [OF stable_holders(1), of t env f] by (simp add: sum.case_eq_if)
  show ?thesis
    unfolding manager_reset_def
    by (intro em.triple_lift_result em.triple_bindE [OF ret] em.triple_bindE [OF call] em.triple_if em.triple_Ret)
      (simp_all add: stable_holders)
qed

lemma manager_task_triple:
  assumes "manager_task env t p"
  shows "em.triple env t (idle_task t) p (\<lambda>_. idle_task t)"
  using assms
proof (cases rule: manager_task.cases)
  case (mt_release r)
  have "em.triple env t (idle_task t) (atomic (release_clone r)) (\<lambda>_. idle_task t)"
    by (rule em.triple_atomic [OF stable_holders(1,1)])
      (auto simp: release_clone_def emok_def emguar_def idle_task_def clones_ok_def capacity_remove)
  then show ?thesis unfolding mt_release by (rule em.triple_mapP) (rule stable_holders)
next
  case (mt_remove r)
  have "em.triple env t (idle_task t) (atomic (remove_snapshot r)) (\<lambda>_. idle_task t)"
    by (rule em.triple_atomic [OF stable_holders(1,1)])
      (auto simp: remove_snapshot_def emok_def emguar_def idle_task_def snapshots_ok_def capacity_remove)
  then show ?thesis unfolding mt_remove by (rule em.triple_mapP) (rule stable_holders)
qed (auto intro!: em.triple_mapP manager_snapshot_triple manager_clone_triple manager_reset_triple stable_holders)

lemma manager_surroundings_ok: "manager_surroundings s s' \<Longrightarrow> emok env s \<Longrightarrow> emok env s' \<and> emguar env {} s s'"
  by (auto elim!: manager_surroundings.cases simp: emok_def emguar_def)

lemma manager_config:
  assumes "manager_reachable env s0 cfg" "environment_manager_new env w = Inr s0"
  shows "em.config_ok env idle_task (\<lambda>_ _ _. True) cfg"
proof -
  have "emok env s0 \<and> em_snapshotting s0 = [] \<and> em_cloning s0 = []"
    using assms(2) by (auto simp: environment_manager_new_def Let_def result_eqs emok_def capacity_ok_def hm_len_def
        snapshots_ok_def clones_ok_def split: if_splits)
  then have start: "em.config_ok env idle_task (\<lambda>_ _ _. True) (Map.empty, s0)"
    by (simp add: em.config_ok_def idle_task_def)
  have "em.triple env t (idle_task t) p (\<lambda>_ _. True)" if "manager_task env t p" for t p
    by (rule em.triple_weaken [OF manager_task_triple [OF that]]) simp_all
  from em.reachable_ok [OF assms(1) [unfolded manager_reachable_def] start stable_holders(1)
      em.tripleD [OF this] manager_surroundings_ok]
  show ?thesis by simp
qed

section \<open>Properties\<close>

text \<open>
  A descriptor is accepted exactly when it is truthful: only isolated environments claim
  an image life cycle, and they name a valid base image; the policy capabilities are claimed
  exactly when a policy is enforced; capabilities, hosts and mounts are unique and bounded; and
  every host is a normalized DNS name. Every rejection is an invalid-descriptor error.
\<close>

theorem descriptor_truthful:
  "(descriptor_validate d = Inr () \<longleftrightarrow>
      ((EC_Snapshot \<in> set (ed_capabilities d) \<or> EC_Reset \<in> set (ed_capabilities d) \<or> EC_Clone \<in> set (ed_capabilities d) \<or>
          ed_base_image_sha256 d \<noteq> None) \<longrightarrow> ed_kind d = EK_Isolated) \<and>
      (EC_NetworkPolicy \<in> set (ed_capabilities d) \<longleftrightarrow> ed_network d \<noteq> NP_NotEnforced) \<and>
      (EC_FilesystemPolicy \<in> set (ed_capabilities d) \<longleftrightarrow> ed_filesystem d \<noteq> FP_NotEnforced) \<and>
      distinct (ed_capabilities d) \<and> validate_network (ed_network d) = Inr () \<and>
      validate_filesystem (ed_filesystem d) = Inr () \<and>
      (ed_kind d = EK_Isolated \<longrightarrow> (\<exists>v. ed_base_image_sha256 d = Some v \<and> valid_sha256 v))) \<and>
   (\<forall>e. descriptor_validate d = Inl e \<longrightarrow> (\<exists>m. e = EE_Invalid m))"
proof -
  have err: "\<exists>m. e = EE_Invalid m" if "descriptor_validate d = Inl e" for e
    using that
    by (auto simp: descriptor_validate_def Let_def result_eqs validate_network_def validate_filesystem_def validate_base_image_def
        split: if_splits network_policy.splits filesystem_policy.splits)
  have "descriptor_validate d = Inr () \<longleftrightarrow> \<not> (ed_kind d \<noteq> EK_Isolated \<and>
            (List.member (ed_capabilities d) EC_Snapshot \<or> List.member (ed_capabilities d) EC_Reset \<or>
             List.member (ed_capabilities d) EC_Clone \<or> ed_base_image_sha256 d \<noteq> None)) \<and>
      \<not> (List.member (ed_capabilities d) EC_NetworkPolicy = (ed_network d = NP_NotEnforced) \<or>
         List.member (ed_capabilities d) EC_FilesystemPolicy = (ed_filesystem d = FP_NotEnforced)) \<and>
      distinct (ed_capabilities d) \<and> validate_network (ed_network d) = Inr () \<and>
      validate_filesystem (ed_filesystem d) = Inr () \<and> validate_base_image d = Inr ()"
    by (auto simp: descriptor_validate_def Let_def bindR_unit)
  then show ?thesis using err by (auto simp: validate_base_image_ok)
qed

text \<open>
  Claim C40. Snapshots and clones stay within their bounds under every interleaving, with the
  reservations of the calls in progress counted in; every retained snapshot and clone is filed
  under its own reference and belongs to the base image of the provider.
\<close>

theorem environment_manager_bounded:
  assumes "manager_reachable env s0 (pool, s)" "environment_manager_new env w = Inr s0"
  shows "hm_len (em_snapshots s) + em_pending_snapshots s \<le> emc_max_snapshots (me_config env) \<and>
    hm_len (em_clones s) + em_pending_clones s \<le> emc_max_clones (me_config env) \<and>
    snapshots_ok (pv_descriptor (me_provider env)) (em_snapshots s) \<and>
    clones_ok (pv_descriptor (me_provider env)) (em_clones s)"
  using manager_config [OF assms] by (simp add: em.config_ok_def emok_def capacity_ok_def)

theorem descriptor_truthful_witness: "descriptor_validate local_user_desktop = Inr ()"
  using descriptor_truthful [of local_user_desktop]
  by (simp add: local_user_desktop_def validate_network_def validate_filesystem_def)

section \<open>An example\<close>

text \<open>A provider of one image. A clone is requested, and the snapshot is removed while it is made.\<close>

definition hx_image :: string where "hx_image = replicate 64 CHR ''a''"

definition hx_descriptor :: environment_descriptor where
  "hx_descriptor =
     \<lparr>ed_kind = EK_Isolated, ed_network = NP_DenyAll, ed_filesystem = FP_NoDirectAccess,
      ed_capabilities = [EC_NetworkPolicy, EC_FilesystemPolicy, EC_Snapshot, EC_Reset, EC_Clone],
      ed_base_image_sha256 = Some hx_image\<rparr>"

definition hx_snapshot :: machine_snapshot where
  "hx_snapshot =
     \<lparr>ms_snapshot_ref = ''s'', ms_source_worker_id = ''w'', ms_source_worker_epoch = ''e'', ms_base_image_sha256 = hx_image,
      ms_created_at = ''t''\<rparr>"

definition hx_clone :: provisioned_environment where
  "hx_clone = \<lparr>pe_environment_ref = ''c'', pe_generation = ''g'', pe_snapshot_ref = ''s'', pe_base_image_sha256 = hx_image\<rparr>"

definition hx_env :: "unit manager_env" where
  "hx_env =
     \<lparr>me_provider = \<lparr>pv_descriptor = hx_descriptor, pv_snapshot = (\<lambda>_ _ _ w. (Inr hx_snapshot, w)),
        pv_reset = (\<lambda>_ _ w. (Inr hx_clone, w)), pv_clone_environment = (\<lambda>_ w. (Inr hx_clone, w))\<rparr>,
      me_config = default_manager_config, me_rfc3339 = (\<lambda>_. True)\<rparr>"

definition hx_start :: "unit environment_manager" where
  "hx_start =
     \<lparr>em_snapshots = [], em_clones = [], em_pending_snapshots = 0, em_pending_clones = 0, em_world = (),
      em_snapshotting = [], em_cloning = []\<rparr>"

definition hx_kept :: "unit environment_manager" where
  "hx_kept = hx_start\<lparr>em_snapshots := [(''s'', hx_snapshot)]\<rparr>"

lemma hx_facts [simp]:
  "validate_opaque ''s'' l 128 = Inr ()" "validate_opaque ''w'' l 128 = Inr ()" "validate_opaque ''e'' l 128 = Inr ()"
  "validate_opaque ''l'' l 128 = Inr ()" "validate_opaque ''c'' l 128 = Inr ()" "validate_opaque ''g'' l 128 = Inr ()"
  "valid_sha256 hx_image"
proof -
  have "trim ''s'' = ''s''" "trim ''w'' = ''w''" "trim ''e'' = ''e''" "trim ''l'' = ''l''" "trim ''c'' = ''c''" "trim ''g'' = ''g''"
    by code_simp+
  then show "validate_opaque ''s'' l 128 = Inr ()" "validate_opaque ''w'' l 128 = Inr ()" "validate_opaque ''e'' l 128 = Inr ()"
    "validate_opaque ''l'' l 128 = Inr ()" "validate_opaque ''c'' l 128 = Inr ()" "validate_opaque ''g'' l 128 = Inr ()"
    by (simp_all add: validate_opaque_def)
  show "valid_sha256 hx_image" by (simp add: valid_sha256_def hx_image_def byte_of_def list_all_iff is_ascii_digit_def)
qed

lemma hx_new: "environment_manager_new hx_env () = Inr hx_start"
  by (simp add: environment_manager_new_def hx_env_def default_manager_config_def descriptor_validate_def hx_descriptor_def
      hx_start_def validate_network_def validate_filesystem_def validate_base_image_def)

lemma hx_snapshot_run: "finish id (manager_snapshot hx_env 0 ''w'' ''e'' ''l'') hx_start = Some (Inr hx_snapshot, hx_kept)"
  by (simp add: manager_snapshot_def require_capability_def hx_env_def hx_descriptor_def default_manager_config_def
      reserve_snapshot_def provider_call_def retain_snapshot_def validate_snapshot_def hx_snapshot_def hx_start_def hx_kept_def
      hm_get_def hm_insert_def hm_len_def)

lemma hx_reachable: "manager_reachable hx_env hx_start ([0 \<mapsto> Ret (M_Snapshot (Inr hx_snapshot))], hx_kept)"
proof -
  let ?p = "mapP M_Snapshot (manager_snapshot hx_env 0 ''w'' ''e'' ''l'')"
  have "pool_step (manager_task hx_env) manager_surroundings (Map.empty, hx_start) ([0 \<mapsto> ?p], hx_start)"
    by (rule ps_spawn) (simp_all add: mt_snapshot)
  moreover have "(pool_step (manager_task hx_env) manager_surroundings)\<^sup>*\<^sup>* ([0 \<mapsto> ?p], hx_start) ([0 \<mapsto> ?p, 0 \<mapsto> Ret (M_Snapshot (Inr hx_snapshot))], hx_kept)"
    by (rule finish_steps [where rest = id and p = ?p]) (simp_all add: hx_snapshot_run)
  ultimately show ?thesis unfolding manager_reachable_def by (simp add: converse_rtranclp_into_rtranclp)
qed

theorem environment_manager_bounded_witness: "hm_len (em_snapshots hx_kept) + em_pending_snapshots hx_kept \<le> 32"
  using environment_manager_bounded [OF hx_reachable hx_new] by (simp add: hx_env_def default_manager_config_def)

text \<open>One section of a program.\<close>

definition advance :: "('s, 'a) prog \<Rightarrow> 's \<Rightarrow> (('s, 'a) prog \<times> 's) option" where
  "advance p s = (case p of Ret x \<Rightarrow> None | Step c f \<Rightarrow> if c s then Some (f s) else None)"

lemma pool_advances:
  assumes "(pool_step spawn env)\<^sup>*\<^sup>* cfg (pool, s)" "pool t = Some p" "advance p s = Some (p', s')"
  shows "(pool_step spawn env)\<^sup>*\<^sup>* cfg (pool(t \<mapsto> p'), s')"
  using assms(2,3) by (intro rtranclp.rtrancl_into_rtrancl [OF assms(1)], cases p)
    (auto simp: advance_def split: if_splits intro: ps_run)

lemma pool_starts:
  assumes "(pool_step spawn env)\<^sup>*\<^sup>* cfg (pool, s)" "pool t = None" "spawn t p"
  shows "(pool_step spawn env)\<^sup>*\<^sup>* cfg (pool(t \<mapsto> p), s)"
  using assms(2,3) by (intro rtranclp.rtrancl_into_rtrancl [OF assms(1)] ps_spawn)

definition hx_made :: "(unit environment_manager, manager_result) prog" where
  "hx_made = mapP M_Environment (atomic (retain_clone hx_env 1 hx_snapshot (Inr hx_clone)))"

definition hx_cloning :: "unit environment_manager" where
  "hx_cloning = hx_kept\<lparr>em_pending_clones := 1, em_cloning := [1]\<rparr>"

lemma hx_clone_started:
  "\<exists>pool. manager_reachable hx_env hx_start (pool, hx_cloning) \<and> pool 1 = Some hx_made \<and> pool 2 = None"
proof -
  let ?p = "\<lambda>k. mapP M_Environment k"
  let ?rest = "\<lambda>snapshot. bindP (provider_call (pv_clone_environment (me_provider hx_env) snapshot)) (\<lambda>result.
     atomic (retain_clone hx_env 1 snapshot result))"
  let ?k1 = "?p (manager_clone_environment hx_env 1 ''s'')"
  let ?k2 = "?p (bindE (atomic (reserve_clone hx_env 1)) (\<lambda>_. ?rest hx_snapshot))"
  let ?k3 = "?p (?rest hx_snapshot)"
  have a: "advance ?k1 hx_kept = Some (?k2, hx_kept)"
    by (simp add: advance_def manager_clone_environment_def require_capability_def hx_env_def hx_descriptor_def retained_snapshot_def
        mapP_def bindE_def lift_result_def atomic_def blocking_def hx_kept_def hx_start_def hm_get_def)
  have b: "advance ?k2 hx_kept = Some (?k3, hx_cloning)"
    by (simp add: advance_def mapP_def bindE_def atomic_def blocking_def reserve_clone_def hx_env_def default_manager_config_def
        hx_kept_def hx_start_def hx_cloning_def hm_len_def)
  have c: "advance ?k3 hx_cloning = Some (hx_made, hx_cloning)"
    by (simp add: advance_def mapP_def atomic_def blocking_def provider_call_def hx_env_def hx_made_def hx_cloning_def hx_kept_def hx_start_def)
  let ?pool = "[0 \<mapsto> Ret (M_Snapshot (Inr hx_snapshot))] :: nat \<rightharpoonup> (unit environment_manager, manager_result) prog"
  have "manager_reachable hx_env hx_start (?pool(1 \<mapsto> ?k1), hx_kept)"
    using hx_reachable unfolding manager_reachable_def by (rule pool_starts) (simp_all add: mt_clone)
  then have "manager_reachable hx_env hx_start ((?pool(1 \<mapsto> ?k1))(1 \<mapsto> ?k2), hx_kept)"
    unfolding manager_reachable_def by (rule pool_advances [OF _ _ a]) simp
  then have "manager_reachable hx_env hx_start ((?pool(1 \<mapsto> ?k1))(1 \<mapsto> ?k2, 1 \<mapsto> ?k3), hx_cloning)"
    unfolding manager_reachable_def by (rule pool_advances [OF _ _ b]) simp
  then have "manager_reachable hx_env hx_start ((?pool(1 \<mapsto> ?k1))(1 \<mapsto> ?k2, 1 \<mapsto> ?k3, 1 \<mapsto> hx_made), hx_cloning)"
    unfolding manager_reachable_def by (rule pool_advances [OF _ _ c]) simp
  then show ?thesis by (intro exI conjI) (assumption, simp_all)
qed

text \<open>
  The manager refuses to remove a snapshot that a retained clone names, but a clone that is being
  made is not retained yet: the removal in between succeeds, and afterwards a retained clone names a
  snapshot that is gone.
\<close>

lemma clone_of_removed_snapshot:
  "\<exists>pool s. manager_reachable hx_env hx_start (pool, s) \<and> hm_get (em_clones s) ''c'' = Some hx_clone \<and>
     hm_get (em_snapshots s) (pe_snapshot_ref hx_clone) = None"
proof -
  obtain pool where r: "manager_reachable hx_env hx_start (pool, hx_cloning)" and p: "pool 1 = Some hx_made" "pool 2 = None"
    using hx_clone_started by blast
  let ?rm = "mapP M_Removed (atomic (remove_snapshot ''s''))"
  let ?gone = "hx_cloning\<lparr>em_snapshots := []\<rparr>"
  let ?ended = "hx_start\<lparr>em_clones := [(''c'', hx_clone)]\<rparr>"
  have a: "advance ?rm hx_cloning = Some (Ret (M_Removed (Inr True)), ?gone)"
    by (simp add: advance_def mapP_def atomic_def blocking_def remove_snapshot_def hx_cloning_def hx_kept_def hx_start_def
        hm_values_def hm_get_def hm_remove_def)
  have b: "advance hx_made ?gone = Some (Ret (M_Environment (Inr hx_clone)), ?ended)"
    by (simp add: advance_def hx_made_def mapP_def atomic_def blocking_def retain_clone_def validate_provisioned_def hx_env_def
        hx_clone_def hx_snapshot_def hx_descriptor_def hx_cloning_def hx_kept_def hx_start_def hm_get_def hm_insert_def)
  have "manager_reachable hx_env hx_start (pool(2 \<mapsto> ?rm), hx_cloning)"
    using r unfolding manager_reachable_def by (rule pool_starts) (simp_all add: p(2) mt_remove)
  then have "manager_reachable hx_env hx_start ((pool(2 \<mapsto> ?rm))(2 \<mapsto> Ret (M_Removed (Inr True))), ?gone)"
    unfolding manager_reachable_def by (rule pool_advances [OF _ _ a]) simp
  then have "manager_reachable hx_env hx_start
      ((pool(2 \<mapsto> ?rm))(2 \<mapsto> Ret (M_Removed (Inr True)), 1 \<mapsto> Ret (M_Environment (Inr hx_clone))), ?ended)"
    unfolding manager_reachable_def by (rule pool_advances [OF _ _ b]) (use p(1) in simp)
  then show ?thesis by (intro exI conjI) (assumption, simp_all add: hx_start_def hm_get_def)
qed

end
