(* ===== verification/Guard.thy ===== *)
theory Guard
  imports Protocol
begin

text \<open>
  Driver errors (\<^verbatim>\<open>crates/runtime/src/error.rs\<close>), user-input activity
  (\<^verbatim>\<open>crates/runtime/src/activity.rs\<close>) and the revocable action guard
  (\<^verbatim>\<open>DriverActionGuard\<close> in \<^verbatim>\<open>crates/runtime/src/driver.rs\<close>).

  The guards of one session share three cells: the interruption latch, the closed flag and the
  activity record behind its mutex. A guard adds its expiry, the time of the observation it acts
  on and its dispatch lease; the clones of a guard share the lease. \<open>guard_world\<close> holds the cells
  of one session and the live leases, and \<open>guard_step\<close> interleaves every operation on them: each
  step is one critical section of the mutex or one atomic access.
\<close>

section \<open>Errors (error.rs)\<close>

datatype driver_error_kind =
    DE_UserActive | DE_SessionUnavailable | DE_Busy | DE_PermissionRequired | DE_Unsupported
  | DE_TargetUnavailable | DE_TargetUnresponsive | DE_ForegroundRequired | DE_StaleObservation
  | DE_StaleClipboard | DE_Platform

record driver_error =
  de_kind :: driver_error_kind
  de_message :: string
  de_retryable :: bool
  de_recovery_action :: "string option"
  de_mutation_status :: mutation_status

definition driver_error_new :: "driver_error_kind \<Rightarrow> string \<Rightarrow> driver_error" where
  "driver_error_new k message =
     \<lparr>de_kind = k, de_message = message, de_retryable = False, de_recovery_action = None,
      de_mutation_status = MS_NotApplicable\<rparr>"

definition retryable :: "string \<Rightarrow> driver_error \<Rightarrow> driver_error" where
  "retryable recovery_action self =
     self\<lparr>de_retryable := True, de_recovery_action := Some recovery_action\<rparr>"

definition mutation_not_dispatched :: "driver_error \<Rightarrow> driver_error" where
  "mutation_not_dispatched self = self\<lparr>de_mutation_status := MS_NotDispatched\<rparr>"

definition mutation_indeterminate :: "driver_error \<Rightarrow> driver_error" where
  "mutation_indeterminate self = self\<lparr>de_mutation_status := MS_Indeterminate\<rparr>"

fun driver_error_code :: "driver_error_kind \<Rightarrow> error_code" where
  "driver_error_code DE_UserActive = UserActive"
| "driver_error_code DE_SessionUnavailable = SessionUnavailable"
| "driver_error_code DE_Busy = Busy"
| "driver_error_code DE_PermissionRequired = PermissionRequired"
| "driver_error_code DE_Unsupported = Unsupported"
| "driver_error_code DE_TargetUnavailable = TargetUnavailable"
| "driver_error_code DE_TargetUnresponsive = TargetUnresponsive"
| "driver_error_code DE_ForegroundRequired = ForegroundRequired"
| "driver_error_code DE_StaleObservation = StaleObservation"
| "driver_error_code DE_StaleClipboard = StaleClipboard"
| "driver_error_code DE_Platform = DriverFailure"

definition cua_error_from :: "driver_error \<Rightarrow> cua_error" where
  "cua_error_from v =
     \<lparr>ce_code = driver_error_code (de_kind v), ce_message = de_message v,
      ce_retryable = de_retryable v, ce_recovery_action = de_recovery_action v,
      ce_mutation_status = de_mutation_status v\<rparr>"

definition public_error :: "error_code \<Rightarrow> string \<Rightarrow> bool \<Rightarrow> string option \<Rightarrow> cua_error" where
  "public_error code message may_retry recovery_action =
     \<lparr>ce_code = code, ce_message = message, ce_retryable = may_retry,
      ce_recovery_action = recovery_action, ce_mutation_status = MS_NotApplicable\<rparr>"

section \<open>Activity (activity.rs)\<close>

definition INPUT_QUIET_PERIOD :: duration where
  "INPUT_QUIET_PERIOD = from_secs 2"

definition INPUT_WAIT_LIMIT :: duration where
  "INPUT_WAIT_LIMIT = from_secs 5"

record input_activity =
  last_input :: "instant option"
  input_held :: bool
  active_dispatches :: nat

definition new_activity :: input_activity where
  "new_activity = \<lparr>last_input = None, input_held = False, active_dispatches = 0\<rparr>"

text \<open>\<open>now - seen\<close> is \<^verbatim>\<open>last.elapsed()\<close>; both subtractions saturate at zero.\<close>

definition remaining_quiet :: "duration \<Rightarrow> instant \<Rightarrow> input_activity \<Rightarrow> duration" where
  "remaining_quiet quiet_period now self =
     (if input_held self then quiet_period
      else case last_input self of None \<Rightarrow> 0 | Some seen \<Rightarrow> quiet_period - (now - seen))"

definition stale_input_error :: driver_error where
  "stale_input_error =
     mutation_not_dispatched (retryable ''observe_window''
       (driver_error_new DE_StaleObservation
         ''user input changed the desktop after this observation; observe again within the existing session''))"

definition activity_check_observation ::
  "instant option \<Rightarrow> input_activity \<Rightarrow> driver_error + unit" where
  "activity_check_observation observed_at self =
     (case (observed_at, last_input self) of
        (Some observed, Some seen) \<Rightarrow> if observed \<le> seen then Inl stale_input_error else Inr ()
      | _ \<Rightarrow> Inr ())"

section \<open>The guard (driver.rs)\<close>

record session_cells =
  interruption :: u8
  closed :: bool
  activity :: input_activity

record guard =
  g_expires_at :: instant
  g_observed_at :: "instant option"
  g_lease :: nat

record guard_world =
  cells :: session_cells
  leases :: "(nat, bool) hm"

definition guard_new :: "instant \<Rightarrow> nat \<Rightarrow> guard" where
  "guard_new expires_at lease = \<lparr>g_expires_at = expires_at, g_observed_at = None, g_lease = lease\<rparr>"

definition compare_exchange_interruption :: "u8 \<Rightarrow> session_cells \<Rightarrow> session_cells" where
  "compare_exchange_interruption v c = (if interruption c = 0 then c\<lparr>interruption := v\<rparr> else c)"

definition user_took_over :: "session_cells \<Rightarrow> session_cells" where
  "user_took_over c = compare_exchange_interruption 1 c"

definition activity_monitor_failed :: "session_cells \<Rightarrow> session_cells" where
  "activity_monitor_failed c = compare_exchange_interruption 2 c"

definition record_user_input_state :: "instant \<Rightarrow> bool \<Rightarrow> session_cells \<Rightarrow> session_cells" where
  "record_user_input_state now held c =
     (let c' = c\<lparr>activity := (activity c)\<lparr>last_input := Some now, input_held := held\<rparr>\<rparr>
      in if active_dispatches (activity c') \<noteq> 0 then user_took_over c' else c')"

definition record_user_input :: "instant \<Rightarrow> session_cells \<Rightarrow> session_cells" where
  "record_user_input now c = record_user_input_state now False c"

definition record_input_released :: "session_cells \<Rightarrow> session_cells" where
  "record_input_released c = c\<lparr>activity := (activity c)\<lparr>input_held := False\<rparr>\<rparr>"

definition guard_check_observation :: "guard \<Rightarrow> session_cells \<Rightarrow> driver_error + unit" where
  "guard_check_observation g c = activity_check_observation (g_observed_at g) (activity c)"

definition authority_closed_error :: driver_error where
  "authority_closed_error =
     driver_error_new DE_SessionUnavailable ''action authority was closed or expired''"

definition interruption_error :: "u8 \<Rightarrow> driver_error" where
  "interruption_error i =
     (if i = 1
      then driver_error_new DE_UserActive
        ''user input took over this session; host authorization is required to resume''
      else driver_error_new DE_Platform
        ''user activity monitoring lost coverage; this session cannot resume'')
     \<lparr>de_recovery_action := Some ''request_new_bounded_session''\<rparr>"

definition with_dispatch :: "bool \<Rightarrow> driver_error \<Rightarrow> driver_error" where
  "with_dispatch dispatched e =
     (if dispatched then mutation_indeterminate e else mutation_not_dispatched e)"

definition check :: "instant \<Rightarrow> bool \<Rightarrow> guard \<Rightarrow> session_cells \<Rightarrow> driver_error + unit" where
  "check now dispatched g c =
     (if closed c \<or> g_expires_at g \<le> now then Inl (with_dispatch dispatched authority_closed_error)
      else if interruption c \<noteq> 0
      then Inl (with_dispatch dispatched (interruption_error (interruption c)))
      else Inr ())"

definition input_resumed_error :: driver_error where
  "input_resumed_error =
     mutation_not_dispatched (retryable ''wait_for_idle_then_observe''
       (driver_error_new DE_Busy
         ''user input resumed before dispatch; wait for idle and observe again''))"

text \<open>The flag a lease holds; a guard whose lease is unknown was never dispatched.\<close>

definition was_dispatched :: "guard \<Rightarrow> guard_world \<Rightarrow> bool" where
  "was_dispatched g gw = (hm_get (leases gw) (g_lease g) = Some True)"

definition begin_dispatch ::
  "instant \<Rightarrow> guard \<Rightarrow> guard_world \<Rightarrow> (driver_error + unit) \<times> guard_world" where
  "begin_dispatch now g gw =
     (let c = cells gw; dispatched = was_dispatched g gw
      in case check now dispatched g c of
           Inl e \<Rightarrow> (Inl e, gw)
         | Inr _ \<Rightarrow>
             if dispatched then (Inr (), gw)
             else case activity_check_observation (g_observed_at g) (activity c) of
               Inl e \<Rightarrow> (Inl e, gw)
             | Inr _ \<Rightarrow>
                 if remaining_quiet INPUT_QUIET_PERIOD now (activity c) \<noteq> 0
                 then (Inl input_resumed_error, gw)
                 else (Inr (), gw\<lparr>cells := c\<lparr>activity := (activity c)
                          \<lparr>active_dispatches := active_dispatches (activity c) + 1\<rparr>\<rparr>,
                        leases := hm_insert (g_lease g) True (leases gw)\<rparr>))"

text \<open>Creating a guard creates its lease; dropping the last clone runs \<^verbatim>\<open>DispatchLease::drop\<close>.\<close>

definition new_lease :: "nat \<Rightarrow> guard_world \<Rightarrow> guard_world" where
  "new_lease l gw = gw\<lparr>leases := hm_insert l False (leases gw)\<rparr>"

definition drop_lease :: "nat \<Rightarrow> guard_world \<Rightarrow> guard_world" where
  "drop_lease l gw =
     (let c = cells gw
      in gw\<lparr>cells := (if hm_get (leases gw) l = Some True
               then c\<lparr>activity := (activity c)\<lparr>active_dispatches := active_dispatches (activity c) - 1\<rparr>\<rparr>
               else c),
            leases := hm_remove l (leases gw)\<rparr>)"

definition wait_busy_error :: driver_error where
  "wait_busy_error =
     mutation_not_dispatched (retryable ''wait_for_idle_then_observe''
       (driver_error_new DE_Busy
         ''user input is still active; wait for idle and obtain a fresh observation''))"

text \<open>
  The waiting loop. Between two rounds the task sleeps and other tasks run: \<open>sleep d now s\<close> is the
  lateness of the timer and the state the task finds when it wakes up; \<open>view\<close> reads the cells of
  the session and \<open>flag\<close> the dispatch flag of the guard from that state.
\<close>

function wait_loop ::
  "('s \<Rightarrow> session_cells) \<Rightarrow> ('s \<Rightarrow> bool) \<Rightarrow> (duration \<Rightarrow> instant \<Rightarrow> 's \<Rightarrow> duration \<times> 's) \<Rightarrow> guard \<Rightarrow>
   duration \<Rightarrow> instant \<Rightarrow> instant \<Rightarrow> 's \<Rightarrow> (driver_error + unit) \<times> instant \<times> 's" where
  "wait_loop view flag sleep g quiet_period deadline now s =
     (case check now (flag s) g (view s) of
        Inl e \<Rightarrow> (Inl e, now, s)
      | Inr _ \<Rightarrow>
          let remaining = remaining_quiet quiet_period now (activity (view s))
          in if remaining = 0 then (Inr (), now, s)
             else if deadline \<le> now then (Inl wait_busy_error, now, s)
             else let d = min remaining (from_millis 25); (late, s') = sleep d now s
               in wait_loop view flag sleep g quiet_period deadline (now + d + late) s')"
  by pat_completeness auto
termination
  by (relation "measure (\<lambda>(_, _, _, _, _, deadline, now, _). deadline - now)")
    (auto simp: from_millis_def)

declare wait_loop.simps [simp del]

definition wait_for_idle ::
  "('s \<Rightarrow> session_cells) \<Rightarrow> ('s \<Rightarrow> bool) \<Rightarrow> (duration \<Rightarrow> instant \<Rightarrow> 's \<Rightarrow> duration \<times> 's) \<Rightarrow> guard \<Rightarrow>
   duration \<Rightarrow> duration \<Rightarrow> instant \<Rightarrow> 's \<Rightarrow> (driver_error + unit) \<times> instant \<times> 's" where
  "wait_for_idle view flag sleep g quiet_period limit now s =
     wait_loop view flag sleep g quiet_period (now + limit) now s"

definition wait_until_idle ::
  "('s \<Rightarrow> session_cells) \<Rightarrow> ('s \<Rightarrow> bool) \<Rightarrow> (duration \<Rightarrow> instant \<Rightarrow> 's \<Rightarrow> duration \<times> 's) \<Rightarrow> guard \<Rightarrow>
   instant \<Rightarrow> 's \<Rightarrow> (driver_error + unit) \<times> instant \<times> 's" where
  "wait_until_idle view flag sleep g now s =
     wait_for_idle view flag sleep g INPUT_QUIET_PERIOD INPUT_WAIT_LIMIT now s"

section \<open>Interleaving\<close>

inductive guard_step :: "instant \<times> guard_world \<Rightarrow> instant \<times> guard_world \<Rightarrow> bool" where
  gs_tick: "now \<le> later \<Longrightarrow> guard_step (now, gw) (later, gw)"
| gs_input: "guard_step (now, gw) (now, gw\<lparr>cells := record_user_input_state now held (cells gw)\<rparr>)"
| gs_released: "guard_step (now, gw) (now, gw\<lparr>cells := record_input_released (cells gw)\<rparr>)"
| gs_takeover: "guard_step (now, gw) (now, gw\<lparr>cells := user_took_over (cells gw)\<rparr>)"
| gs_monitor: "guard_step (now, gw) (now, gw\<lparr>cells := activity_monitor_failed (cells gw)\<rparr>)"
| gs_close: "guard_step (now, gw) (now, gw\<lparr>cells := (cells gw)\<lparr>closed := True\<rparr>\<rparr>)"
| gs_guard: "hm_get (leases gw) l = None \<Longrightarrow> guard_step (now, gw) (now, new_lease l gw)"
| gs_dispatch: "hm_get (leases gw) (g_lease g) \<noteq> None \<Longrightarrow>
    guard_step (now, gw) (now, snd (begin_dispatch now g gw))"
| gs_drop: "guard_step (now, gw) (now, drop_lease l gw)"

definition new_cells :: session_cells where
  "new_cells = \<lparr>interruption = 0, closed = False, activity = new_activity\<rparr>"

definition new_guard_world :: guard_world where
  "new_guard_world = \<lparr>cells = new_cells, leases = []\<rparr>"

definition dispatched_leases :: "guard_world \<Rightarrow> nat" where
  "dispatched_leases gw = length (filter snd (leases gw))"

definition guard_inv :: "guard_world \<Rightarrow> bool" where
  "guard_inv gw \<longleftrightarrow> hm_wf (leases gw) \<and> active_dispatches (activity (cells gw)) = dispatched_leases gw"

section \<open>Errors carry a known disposition\<close>

lemma driver_error_simps [simp]:
  "de_kind (driver_error_new k m) = k"
  "de_mutation_status (driver_error_new k m) = MS_NotApplicable"
  "de_kind (retryable r e) = de_kind e"
  "de_mutation_status (retryable r e) = de_mutation_status e"
  "de_kind (mutation_not_dispatched e) = de_kind e"
  "de_mutation_status (mutation_not_dispatched e) = MS_NotDispatched"
  "de_kind (mutation_indeterminate e) = de_kind e"
  "de_mutation_status (mutation_indeterminate e) = MS_Indeterminate"
  by (simp_all add: driver_error_new_def retryable_def mutation_not_dispatched_def
      mutation_indeterminate_def)

lemma cua_error_from_simps [simp]:
  "ce_code (cua_error_from e) = driver_error_code (de_kind e)"
  "ce_mutation_status (cua_error_from e) = de_mutation_status e"
  by (simp_all add: cua_error_from_def)

lemma public_error_simps [simp]:
  "ce_code (public_error c m r a) = c"
  "ce_mutation_status (public_error c m r a) = MS_NotApplicable"
  by (simp_all add: public_error_def)

lemma with_dispatch_simps [simp]:
  "de_kind (with_dispatch d e) = de_kind e"
  "de_mutation_status (with_dispatch d e) = (if d then MS_Indeterminate else MS_NotDispatched)"
  by (simp_all add: with_dispatch_def)

lemma guard_errors [simp]:
  "de_kind stale_input_error = DE_StaleObservation"
  "de_mutation_status stale_input_error = MS_NotDispatched"
  "de_kind input_resumed_error = DE_Busy"
  "de_mutation_status input_resumed_error = MS_NotDispatched"
  "de_kind wait_busy_error = DE_Busy"
  "de_mutation_status wait_busy_error = MS_NotDispatched"
  "de_kind authority_closed_error = DE_SessionUnavailable"
  "de_kind (interruption_error i) = (if i = 1 then DE_UserActive else DE_Platform)"
  by (simp_all add: stale_input_error_def input_resumed_error_def wait_busy_error_def
      authority_closed_error_def interruption_error_def)

section \<open>What a successful check means\<close>

definition authority :: "instant \<Rightarrow> guard \<Rightarrow> session_cells \<Rightarrow> bool" where
  "authority now g c \<longleftrightarrow> \<not> closed c \<and> now < g_expires_at g \<and> interruption c = 0"

definition quiet :: "instant \<Rightarrow> input_activity \<Rightarrow> bool" where
  "quiet now a \<longleftrightarrow> \<not> input_held a \<and>
     (case last_input a of None \<Rightarrow> True | Some seen \<Rightarrow> seen + INPUT_QUIET_PERIOD \<le> now)"

definition newer_than_input :: "instant option \<Rightarrow> input_activity \<Rightarrow> bool" where
  "newer_than_input observed_at a =
     (case (observed_at, last_input a) of (Some obs, Some seen) \<Rightarrow> seen < obs | _ \<Rightarrow> True)"

lemma check_Inr_iff: "check now d g c = Inr u \<longleftrightarrow> authority now g c"
  by (auto simp: check_def authority_def)

lemma check_not_NotApplicable: "check now d g c = Inl e \<Longrightarrow>
    de_mutation_status e = (if d then MS_Indeterminate else MS_NotDispatched)"
  by (auto simp: check_def split: if_splits)

lemma quiet_period_pos [simp]: "0 < INPUT_QUIET_PERIOD"
  by (simp add: INPUT_QUIET_PERIOD_def from_secs_def)

lemma remaining_quiet_0_iff:
  "remaining_quiet INPUT_QUIET_PERIOD now a = 0 \<longleftrightarrow> quiet now a"
proof -
  have "INPUT_QUIET_PERIOD - (now - t) = 0 \<longleftrightarrow> t + INPUT_QUIET_PERIOD \<le> now" for t
    using quiet_period_pos by arith
  then show ?thesis
    using quiet_period_pos by (simp add: remaining_quiet_def quiet_def split: option.split)
qed

lemma activity_check_observation_iff:
  "activity_check_observation o' a = Inr u \<longleftrightarrow> newer_than_input o' a"
  by (auto simp: activity_check_observation_def newer_than_input_def split: option.splits if_splits)

lemma begin_dispatch_ok_iff:
  "fst (begin_dispatch now g gw) = Inr () \<longleftrightarrow>
     authority now g (cells gw) \<and>
     (was_dispatched g gw \<or>
      newer_than_input (g_observed_at g) (activity (cells gw)) \<and> quiet now (activity (cells gw)))"
  using check_Inr_iff [of now "was_dispatched g gw" g "cells gw" "()"]
    activity_check_observation_iff [of "g_observed_at g" "activity (cells gw)" "()"]
    remaining_quiet_0_iff [of now "activity (cells gw)"]
  by (cases "check now (was_dispatched g gw) g (cells gw)";
      cases "activity_check_observation (g_observed_at g) (activity (cells gw))")
    (auto simp: begin_dispatch_def Let_def)

lemma begin_dispatch_error_no_effect:
  "fst (begin_dispatch now g gw) = Inl e \<Longrightarrow> snd (begin_dispatch now g gw) = gw"
  by (auto simp: begin_dispatch_def Let_def split: sum.splits if_splits)

lemma begin_dispatch_interruption [simp]:
  "interruption (cells (snd (begin_dispatch now g gw))) = interruption (cells gw)"
  "closed (cells (snd (begin_dispatch now g gw))) = closed (cells gw)"
  by (auto simp: begin_dispatch_def Let_def split: sum.splits)

lemma cell_ops_simps [simp]:
  "closed (record_user_input_state now h c) = closed c"
  "closed (record_input_released c) = closed c"
  "interruption (record_input_released c) = interruption c"
  "closed (user_took_over c) = closed c"
  "closed (activity_monitor_failed c) = closed c"
  "closed (compare_exchange_interruption v c) = closed c"
  "activity (compare_exchange_interruption v c) = activity c"
  "activity (user_took_over c) = activity c"
  "activity (activity_monitor_failed c) = activity c"
  "activity (record_user_input_state now h c) = (activity c)\<lparr>last_input := Some now, input_held := h\<rparr>"
  "activity (record_input_released c) = (activity c)\<lparr>input_held := False\<rparr>"
  by (simp_all add: record_user_input_state_def record_input_released_def user_took_over_def
      activity_monitor_failed_def compare_exchange_interruption_def Let_def)

lemma interruption_latched:
  assumes "interruption c \<noteq> 0"
  shows "interruption (user_took_over c) = interruption c"
    "interruption (activity_monitor_failed c) = interruption c"
    "interruption (record_user_input_state now h c) = interruption c"
  using assms
  by (simp_all add: user_took_over_def activity_monitor_failed_def record_user_input_state_def
      compare_exchange_interruption_def Let_def)

section \<open>Dispatch counting\<close>

lemma length_filter_update_new:
  "map_of m k = None \<Longrightarrow>
    length (filter snd (AList.update k v m)) = length (filter snd m) + (if v then 1 else 0)"
  by (induction m) (auto split: if_splits)

lemma length_filter_update_True:
  "distinct (map fst m) \<Longrightarrow> map_of m k = Some False \<Longrightarrow>
    length (filter snd (AList.update k True m)) = Suc (length (filter snd m))"
  by (induction m) auto

lemma delete_absent: "map_of m k = None \<Longrightarrow> AList.delete k m = m"
  by (induction m) (auto split: if_splits)

lemma length_filter_delete:
  "distinct (map fst m) \<Longrightarrow> map_of m k = Some v \<Longrightarrow>
    length (filter snd (AList.delete k m)) = length (filter snd m) - (if v then 1 else 0)"
proof (induction m)
  case (Cons p m)
  show ?case
  proof (cases "fst p = k")
    case True
    with Cons.prems have "AList.delete k m = m"
      by (intro delete_absent) (auto simp: map_of_eq_None_iff)
    with True Cons.prems show ?thesis by (cases p) simp
  next
    case False
    with Cons.prems(2) have m: "map_of m k = Some v" by (cases p) simp
    with Cons have IH: "length (filter snd (AList.delete k m)) = length (filter snd m) - (if v then 1 else 0)"
      by simp
    have "v \<Longrightarrow> 0 < length (filter snd m)"
      using map_of_SomeD [OF m] by (metis filter_empty_conv length_greater_0_conv snd_conv)
    with IH False show ?thesis by (cases p) auto
  qed
qed simp

lemma guard_inv_new_lease: "guard_inv gw \<Longrightarrow> hm_get (leases gw) l = None \<Longrightarrow> guard_inv (new_lease l gw)"
  by (simp add: guard_inv_def new_lease_def dispatched_leases_def hm_get_def hm_insert_def
      hm_wf_def distinct_update length_filter_update_new)

lemma guard_inv_drop_lease: "guard_inv gw \<Longrightarrow> guard_inv (drop_lease l gw)"
  by (cases "hm_get (leases gw) l")
    (auto simp: guard_inv_def drop_lease_def Let_def dispatched_leases_def hm_get_def hm_remove_def
      hm_wf_def distinct_delete delete_absent length_filter_delete)

lemma guard_inv_begin_dispatch:
  assumes "guard_inv gw" "hm_get (leases gw) (g_lease g) \<noteq> None"
  shows "guard_inv (snd (begin_dispatch now g gw))"
proof (cases "was_dispatched g gw")
  case True
  with assms show ?thesis by (auto simp: begin_dispatch_def Let_def split: sum.splits)
next
  case False
  with assms(2) have "hm_get (leases gw) (g_lease g) = Some False"
    by (auto simp: was_dispatched_def)
  with assms False show ?thesis
    by (auto simp: begin_dispatch_def Let_def guard_inv_def dispatched_leases_def hm_get_def
        hm_insert_def hm_wf_def distinct_update length_filter_update_True split: sum.splits)
qed

lemma guard_inv_step:
  "guard_step s t \<Longrightarrow> guard_inv (snd s) \<Longrightarrow> guard_inv (snd t)"
proof (induction rule: guard_step.induct)
  case gs_dispatch
  then show ?case by (simp add: guard_inv_begin_dispatch)
next
  case gs_guard
  then show ?case by (simp add: guard_inv_new_lease)
next
  case gs_drop
  then show ?case by (simp add: guard_inv_drop_lease)
qed (simp_all add: guard_inv_def dispatched_leases_def)

lemma guard_step_latched:
  "guard_step s t \<Longrightarrow> interruption (cells (snd s)) \<noteq> 0 \<Longrightarrow>
    interruption (cells (snd t)) = interruption (cells (snd s))"
  by (induction rule: guard_step.induct)
    (auto simp: interruption_latched new_lease_def drop_lease_def Let_def)

lemma guard_steps_latched:
  "guard_step\<^sup>*\<^sup>* s t \<Longrightarrow> interruption (cells (snd s)) \<noteq> 0 \<Longrightarrow>
    interruption (cells (snd t)) = interruption (cells (snd s))"
  by (induction rule: rtranclp_induct) (simp_all add: guard_step_latched)

section \<open>Properties\<close>

text \<open>
  Claim C12. \<^verbatim>\<open>begin_dispatch\<close> admits a native mutation exactly when the session is open, unexpired
  and uninterrupted and, for the first dispatch of an action, the observation is newer than the
  last user input and the desktop has been quiet for two seconds with nothing held. A refusal
  changes nothing and says whether part of the action was already dispatched.
\<close>

theorem dispatch_gate:
  "case begin_dispatch now g gw of
     (Inr _, gw') \<Rightarrow> authority now g (cells gw) \<and> was_dispatched g gw' \<and>
       (was_dispatched g gw \<or>
        newer_than_input (g_observed_at g) (activity (cells gw)) \<and> quiet now (activity (cells gw)))
   | (Inl e, gw') \<Rightarrow> gw' = gw \<and>
       \<not> (authority now g (cells gw) \<and>
          (was_dispatched g gw \<or>
           newer_than_input (g_observed_at g) (activity (cells gw)) \<and> quiet now (activity (cells gw)))) \<and>
       de_mutation_status e = (if was_dispatched g gw then MS_Indeterminate else MS_NotDispatched)"
proof (cases "begin_dispatch now g gw")
  case (Pair r gw')
  show ?thesis
  proof (cases r)
    case (Inl e)
    have "de_mutation_status e = (if was_dispatched g gw then MS_Indeterminate else MS_NotDispatched)"
      using Pair Inl
      by (auto simp: begin_dispatch_def Let_def check_not_NotApplicable activity_check_observation_def
          split: sum.splits if_splits option.splits)
    with Pair Inl begin_dispatch_ok_iff [of now g gw] begin_dispatch_error_no_effect [of now g gw e]
    show ?thesis by simp
  next
    case (Inr u)
    have "was_dispatched g gw'"
      using Pair Inr
      by (auto simp: begin_dispatch_def Let_def was_dispatched_def split: sum.splits if_splits)
    with Pair Inr begin_dispatch_ok_iff [of now g gw] show ?thesis by simp
  qed
qed

lemma guard_inv_steps:
  "guard_step\<^sup>*\<^sup>* s t \<Longrightarrow> guard_inv (snd s) \<Longrightarrow> guard_inv (snd t)"
  by (induction rule: rtranclp_induct) (simp_all add: guard_inv_step)

lemma guard_inv_new: "guard_inv new_guard_world"
  by (simp add: guard_inv_def new_guard_world_def new_cells_def new_activity_def dispatched_leases_def)

text \<open>
  Whatever the interleaving of guards, inputs, closures and drops, the number of active
  dispatches is the number of live leases that were dispatched, so the decrement when a lease is
  dropped never underflows and input is attributed to a dispatch exactly while one is running.
\<close>

theorem active_dispatches_exact:
  assumes "guard_step\<^sup>*\<^sup>* (start, new_guard_world) (now, gw)"
  shows "active_dispatches (activity (cells gw)) = dispatched_leases gw"
  using guard_inv_steps [OF assms] guard_inv_new by (simp add: guard_inv_def)

lemma guard_step_new_lease_example:
  "guard_step\<^sup>*\<^sup>* (0, new_guard_world)
     (0, snd (begin_dispatch 0 \<lparr>g_expires_at = 9, g_observed_at = None, g_lease = 4\<rparr> (new_lease 4 new_guard_world)))"
proof -
  let ?g = "\<lparr>g_expires_at = 9, g_observed_at = None, g_lease = 4\<rparr>"
  have "guard_step (0, new_guard_world) (0, new_lease 4 new_guard_world)"
    by (rule gs_guard) (simp add: new_guard_world_def)
  moreover have "guard_step (0, new_lease 4 new_guard_world)
      (0, snd (begin_dispatch 0 ?g (new_lease 4 new_guard_world)))"
    by (rule gs_dispatch) (simp add: new_lease_def)
  ultimately show ?thesis by (rule converse_rtranclp_into_rtranclp [OF _ r_into_rtranclp])
qed

lemmas example_simps = new_guard_world_def new_cells_def new_activity_def new_lease_def
  begin_dispatch_def check_def was_dispatched_def activity_check_observation_def
  remaining_quiet_def Let_def

theorem active_dispatches_exact_witness:
  "active_dispatches (activity (cells (snd (begin_dispatch 0
     \<lparr>g_expires_at = 9, g_observed_at = None, g_lease = 4\<rparr> (new_lease 4 new_guard_world))))) = 1"
  unfolding active_dispatches_exact [OF guard_step_new_lease_example]
  by (simp add: dispatched_leases_def example_simps hm_insert_def hm_get_def)

text \<open>
  Claim C14. User input that arrives while an action of the session is being dispatched ends the
  authority of the whole session: in every state reached afterwards, by any interleaving, no guard
  of the session can begin or continue a dispatch, and the refusal names the cause.
\<close>

theorem takeover_is_final:
  assumes "guard_step\<^sup>*\<^sup>* (start, new_guard_world) (now, gw)"
    and "hm_get (leases gw) l = Some True"
    and "guard_step\<^sup>*\<^sup>* (now, gw\<lparr>cells := record_user_input_state now held (cells gw)\<rparr>) (later, gw')"
  shows "\<exists>e. begin_dispatch later g gw' = (Inl e, gw') \<and>
    de_kind e \<in> {DE_SessionUnavailable, DE_UserActive, DE_Platform}"
proof -
  have inv: "guard_inv gw" using guard_inv_steps [OF assms(1)] guard_inv_new by simp
  have "(l, True) \<in> set (leases gw)" using assms(2) by (rule hm_get_in_set)
  then have "dispatched_leases gw \<noteq> 0" by (force simp: dispatched_leases_def filter_empty_conv)
  with inv have "interruption (record_user_input_state now held (cells gw)) \<noteq> 0"
    by (auto simp: guard_inv_def record_user_input_state_def user_took_over_def
        compare_exchange_interruption_def Let_def)
  with guard_steps_latched [OF assms(3)] have "interruption (cells gw') \<noteq> 0" by simp
  then show ?thesis by (auto simp: begin_dispatch_def check_def Let_def)
qed

theorem takeover_is_final_witness:
  "let gw = snd (begin_dispatch 0 \<lparr>g_expires_at = 9, g_observed_at = None, g_lease = 4\<rparr>
       (new_lease 4 new_guard_world));
     gw' = gw\<lparr>cells := record_user_input_state 0 True (cells gw)\<rparr>
   in \<exists>e. begin_dispatch 0 \<lparr>g_expires_at = 9, g_observed_at = None, g_lease = 4\<rparr> gw' = (Inl e, gw') \<and>
     de_kind e \<in> {DE_SessionUnavailable, DE_UserActive, DE_Platform}"
  unfolding Let_def
  by (rule takeover_is_final [OF guard_step_new_lease_example, of 4 True 0])
    (simp_all add: example_simps)

text \<open>How the waiting loop may end: with authority and quiet, or with the reason it gave up.\<close>

definition wait_outcome ::
  "('s \<Rightarrow> session_cells) \<Rightarrow> ('s \<Rightarrow> bool) \<Rightarrow> guard \<Rightarrow> duration \<Rightarrow> instant \<Rightarrow>
   (driver_error + unit) \<times> instant \<times> 's \<Rightarrow> bool" where
  "wait_outcome view flag g quiet_period deadline out =
     (case out of (r, now, s) \<Rightarrow>
        case r of
          Inr _ \<Rightarrow> authority now g (view s) \<and> remaining_quiet quiet_period now (activity (view s)) = 0
        | Inl e \<Rightarrow> check now (flag s) g (view s) = Inl e \<or>
            e = wait_busy_error \<and> deadline \<le> now \<and>
            remaining_quiet quiet_period now (activity (view s)) \<noteq> 0)"

lemma wait_loop_outcome:
  "wait_outcome view flag g quiet_period deadline
     (wait_loop view flag sleep g quiet_period deadline now s)"
proof (induction view flag sleep g quiet_period deadline now s rule: wait_loop.induct)
  case (1 view flag sleep g quiet_period deadline now s)
  then show ?case
    using check_Inr_iff [of now "flag s" g "view s"]
    by (subst wait_loop.simps)
      (auto simp: wait_outcome_def Let_def split: sum.split prod.split)
qed

lemma wait_loop_time:
  assumes "\<And>d n s. fst (sleep d n s) \<le> late"
  shows "case wait_loop view flag sleep g quiet_period deadline now s of
     (r, now', s') \<Rightarrow> now \<le> now' \<and> now' \<le> max now (deadline + from_millis 25 + late)"
  using assms
proof (induction view flag sleep g quiet_period deadline now s rule: wait_loop.induct)
  case (1 view flag sleep g quiet_period deadline now s)
  have late: "fst (sleep d n t) \<le> late" for d n t by (rule "1.prems")
  let ?rem = "remaining_quiet quiet_period now (activity (view s))"
  let ?d = "min ?rem (from_millis 25)"
  let ?w = "sleep ?d now s"
  show ?case
  proof (cases "(\<exists>u. check now (flag s) g (view s) = Inr u) \<and> ?rem \<noteq> 0 \<and> now < deadline")
    case True
    then obtain u where u: "check now (flag s) g (view s) = Inr u" and c: "?rem \<noteq> 0" "\<not> deadline \<le> now"
      by auto
    have "case wait_loop view flag sleep g quiet_period deadline (now + ?d + fst ?w) (snd ?w) of
        (r, now', s') \<Rightarrow> now + ?d + fst ?w \<le> now' \<and>
          now' \<le> max (now + ?d + fst ?w) (deadline + from_millis 25 + late)"
      using "1.IH" [OF u refl c refl refl prod.collapse] late by simp
    moreover have "now + ?d + fst ?w \<le> deadline + from_millis 25 + late"
      using c(2) late [of ?d now s] min.cobounded2 [of ?rem "from_millis 25"] by linarith
    moreover have "wait_loop view flag sleep g quiet_period deadline now s =
        wait_loop view flag sleep g quiet_period deadline (now + ?d + fst ?w) (snd ?w)"
      using u c by (subst wait_loop.simps) (simp add: Let_def case_prod_beta)
    ultimately show ?thesis by (auto split: prod.splits)
  next
    case False
    then show ?thesis
      by (subst wait_loop.simps) (auto simp: Let_def split: sum.splits)
  qed
qed

text \<open>
  Waiting for an idle desktop always ends: however the other tasks interleave, with
  timers at most \<open>late\<close> late it returns within the five-second limit plus one polling interval. It
  succeeds only in a state where the guard still has its authority and two seconds of quiet have
  passed; otherwise it reports the failed authority check of that moment, or that input continued
  to the limit.
\<close>

theorem wait_until_idle_returns:
  assumes "\<And>d n s. fst (sleep d n s) \<le> late"
  shows "case wait_until_idle view flag sleep g now s of
     (r, now', s') \<Rightarrow> now \<le> now' \<and> now' \<le> now + INPUT_WAIT_LIMIT + from_millis 25 + late \<and>
       (case r of
          Inr _ \<Rightarrow> authority now' g (view s') \<and> quiet now' (activity (view s'))
        | Inl e \<Rightarrow> check now' (flag s') g (view s') = Inl e \<or>
            e = wait_busy_error \<and> now + INPUT_WAIT_LIMIT \<le> now' \<and> \<not> quiet now' (activity (view s')))"
  using wait_loop_time [where sleep = sleep and late = late and view = view and flag = flag and g = g
      and quiet_period = INPUT_QUIET_PERIOD and deadline = "now + INPUT_WAIT_LIMIT" and now = now
      and s = s, OF assms]
    wait_loop_outcome [of view flag g INPUT_QUIET_PERIOD "now + INPUT_WAIT_LIMIT" sleep now s]
  by (simp add: wait_until_idle_def wait_for_idle_def wait_outcome_def remaining_quiet_0_iff
      split: prod.splits sum.splits)

theorem wait_until_idle_returns_witness:
  "case wait_until_idle id (\<lambda>_. False) (\<lambda>d n c. (3, record_user_input n c))
       \<lparr>g_expires_at = 1000000000000, g_observed_at = None, g_lease = 0\<rparr> 0
       (record_user_input 0 new_cells) of
     (r, now', s') \<Rightarrow> (0 :: nat) \<le> now' \<and> now' \<le> 0 + INPUT_WAIT_LIMIT + from_millis 25 + 3 \<and>
       (case r of
          Inr _ \<Rightarrow> authority now' \<lparr>g_expires_at = 1000000000000, g_observed_at = None, g_lease = 0\<rparr> (id s') \<and>
            quiet now' (activity (id s'))
        | Inl e \<Rightarrow> check now' False \<lparr>g_expires_at = 1000000000000, g_observed_at = None, g_lease = 0\<rparr> (id s') = Inl e \<or>
            e = wait_busy_error \<and> 0 + INPUT_WAIT_LIMIT \<le> now' \<and> \<not> quiet now' (activity (id s')))"
  by (rule wait_until_idle_returns) simp

end
