(* ===== verification/Driver.thy ===== *)
theory Driver
  imports Guard
begin

text \<open>
  The driver boundary of \<^verbatim>\<open>crates/runtime/src/driver.rs\<close>: the types that cross it and the
  \<^verbatim>\<open>DesktopDriver\<close> trait. The runtime owns its driver as a trait object, so the trait is a record of
  functions over an unspecified desktop state \<open>'w\<close>; every theorem about the runtime holds for
  every such record. The provided methods of the trait are the \<open>default_\<dots>\<close> definitions.
\<close>

section \<open>Types crossing the boundary\<close>

record driver_application =
  dapp_key :: string
  dapp_process_generation :: string
  dapp_identity :: string
  dapp_name :: string
  dapp_application_id :: string
  dapp_foreground :: bool
  dapp_provenance :: application_provenance

record driver_launchable_application =
  dla_key :: string
  dla_launch_target :: string
  dla_identity :: string
  dla_name :: string
  dla_application_id :: string
  dla_provenance :: application_provenance

definition matches_identity ::
  "driver_launchable_application \<Rightarrow> driver_launchable_application \<Rightarrow> bool" where
  "matches_identity self current \<longleftrightarrow>
     dla_key self = dla_key current \<and> dla_launch_target self = dla_launch_target current \<and>
     dla_identity self = dla_identity current \<and>
     dla_application_id self = dla_application_id current \<and>
     dla_provenance self = dla_provenance current"

record driver_launch_output =
  dlo_application :: driver_application
  dlo_delivery_mode :: delivery_mode

definition matches_generation :: "driver_application \<Rightarrow> driver_application \<Rightarrow> bool" where
  "matches_generation self current \<longleftrightarrow>
     dapp_key self = dapp_key current \<and>
     dapp_process_generation self = dapp_process_generation current \<and>
     dapp_identity self = dapp_identity current \<and>
     dapp_application_id self = dapp_application_id current"

record driver_window =
  dw_key :: string
  dw_application :: driver_application
  dw_title :: string
  dw_screen_bounds :: screen_rect
  dw_state :: window_state
  dw_visible :: bool
  dw_foreground :: bool

record driver_display =
  dd_key :: string
  dd_screen_bounds :: screen_rect
  dd_primary :: bool

record rgba_image =
  img_width :: u32
  img_height :: u32
  img_pixels :: "u8 list"

record driver_element =
  del_key :: string
  del_parent_key :: "string option"
  del_role :: string
  del_name :: string
  del_value :: "string option"
  del_range_value :: "accessibility_range_value option"
  del_screen_bounds :: "screen_rect option"
  del_enabled :: bool
  del_focused :: bool
  del_selected :: "bool option"
  del_checked :: "bool option"
  del_expanded :: "bool option"
  del_actions :: "string list"

record driver_observation =
  dob_window_key :: string
  dob_window_screen_bounds :: screen_rect
  dob_screenshot :: "rgba_image option"
  dob_screenshot_screen_bounds :: "screen_rect option"
  dob_elements :: "driver_element list"
  dob_elements_complete :: bool
  dob_elements_truncation :: "observation_truncation option"
  dob_fingerprint :: string

datatype driver_action =
    D_FocusWindow
  | D_SetWindowBounds screen_rect
  | D_SetWindowMinimized bool
  | D_TerminateApplication
  | D_FocusElement string
  | D_InvokeElement string
  | D_ClickPoint screen_point pointer_button u8 delivery_preference
  | D_PressPoint screen_point pointer_button u32
  | D_SetValue string sensitive_text
  | D_SetRangeValue string f64
  | D_ToggleElement string
  | D_SelectElement string
  | D_SetExpanded string bool
  | D_MovePointer screen_point u32
  | D_TypeText sensitive_text
  | D_PressKeys "string list"
  | D_Scroll screen_point f64 f64
  | D_Drag screen_point screen_point u32

fun supports_foreground_restoration :: "driver_action \<Rightarrow> bool" where
  "supports_foreground_restoration (D_ClickPoint _ _ _ DP_Foreground) = True"
| "supports_foreground_restoration (D_PressPoint _ _ _) = True"
| "supports_foreground_restoration (D_MovePointer _ _) = True"
| "supports_foreground_restoration (D_TypeText _) = True"
| "supports_foreground_restoration (D_PressKeys _) = True"
| "supports_foreground_restoration (D_Scroll _ _ _) = True"
| "supports_foreground_restoration (D_Drag _ _ _) = True"
| "supports_foreground_restoration _ = False"

record driver_action_output =
  dao_delivery_mode :: delivery_mode
  dao_effect_status :: action_effect_status
  dao_evidence_kind :: action_evidence_kind
  dao_foreground_restoration :: foreground_restoration_status

definition confirmed_output :: "delivery_mode \<Rightarrow> driver_action_output" where
  "confirmed_output mode =
     \<lparr>dao_delivery_mode = mode, dao_effect_status = Confirmed, dao_evidence_kind = NativeReadback,
      dao_foreground_restoration = FR_NotRequested\<rparr>"

definition unverified_output :: "delivery_mode \<Rightarrow> driver_action_output" where
  "unverified_output mode =
     \<lparr>dao_delivery_mode = mode, dao_effect_status = Unverified,
      dao_evidence_kind = DispatchAcceptance, dao_foreground_restoration = FR_NotRequested\<rparr>"

definition with_foreground_restoration ::
  "foreground_restoration_status \<Rightarrow> driver_action_output \<Rightarrow> driver_action_output" where
  "with_foreground_restoration status self = self\<lparr>dao_foreground_restoration := status\<rparr>"

definition evidence_is_coherent :: "driver_action_output \<Rightarrow> bool" where
  "evidence_is_coherent self = is_supported_by (dao_effect_status self) (dao_evidence_kind self)"

record driver_verification =
  dv_matched :: bool
  dv_evidence :: string

record driver_clipboard_snapshot =
  dcs_change_marker :: string
  dcs_text :: "sensitive_text option"

record driver_clipboard_write_output =
  dcw_change_marker :: string
  dcw_effect_status :: action_effect_status
  dcw_evidence_kind :: action_evidence_kind

section \<open>The trait\<close>

type_synonym ('a, 'w) driver_call = "'w \<Rightarrow> (driver_error + 'a) \<times> 'w"

record 'w desktop_driver =
  session_started_guarded :: "session_id \<Rightarrow> guard \<Rightarrow> bool \<Rightarrow> (unit, 'w) driver_call"
  session_closed :: "session_id \<Rightarrow> 'w \<Rightarrow> 'w"
  settle_window :: "driver_window \<Rightarrow> bool \<Rightarrow> (unit, 'w) driver_call"
  observe_window_scoped ::
    "session_id \<Rightarrow> driver_window \<Rightarrow> bool \<Rightarrow> accessibility_mode \<Rightarrow> (driver_observation, 'w) driver_call"
  observe_application_scene_scoped ::
    "session_id \<Rightarrow> driver_window \<Rightarrow> bool \<Rightarrow> accessibility_mode \<Rightarrow> (driver_observation, 'w) driver_call"
  capabilities :: "(driver_capabilities, 'w) driver_call"
  permission_status_call :: "(permission_status, 'w) driver_call"
  list_applications :: "(driver_application list, 'w) driver_call"
  list_launchable_applications :: "(driver_launchable_application list, 'w) driver_call"
  launch_application_call ::
    "driver_launchable_application \<Rightarrow> bool \<Rightarrow> (driver_launch_output, 'w) driver_call"
  list_windows_call :: "string list \<Rightarrow> (driver_window list, 'w) driver_call"
  list_displays_call :: "(driver_display list, 'w) driver_call"
  observe_display_call :: "driver_display \<Rightarrow> (rgba_image \<times> screen_rect, 'w) driver_call"
  read_clipboard_call :: "nat \<Rightarrow> (driver_clipboard_snapshot, 'w) driver_call"
  write_clipboard_call ::
    "string \<Rightarrow> sensitive_text \<Rightarrow> nat \<Rightarrow> (driver_clipboard_write_output, 'w) driver_call"
  observation_is_current :: "driver_window \<Rightarrow> string \<Rightarrow> (bool, 'w) driver_call"
  perform_action_scoped ::
    "driver_window \<Rightarrow> driver_action \<Rightarrow> bool \<Rightarrow> bool \<Rightarrow> guard \<Rightarrow> (driver_action_output, 'w) driver_call"
  verify_state_call :: "driver_window \<Rightarrow> state_predicate \<Rightarrow> (driver_verification, 'w) driver_call"

section \<open>Provided methods\<close>

definition default_settle_window :: "driver_window \<Rightarrow> bool \<Rightarrow> (unit, 'w) driver_call" where
  "default_settle_window window application_scene w = (Inr (), w)"

definition default_observe_application_scene_scoped ::
  "session_id \<Rightarrow> driver_window \<Rightarrow> bool \<Rightarrow> accessibility_mode \<Rightarrow> (driver_observation, 'w) driver_call" where
  "default_observe_application_scene_scoped sid window include_screenshot accessibility w =
     (Inl (driver_error_new DE_Unsupported ''application scene capture is unavailable''), w)"

definition default_list_launchable_applications ::
  "(driver_launchable_application list, 'w) driver_call" where
  "default_list_launchable_applications w = (Inr [], w)"

definition default_launch_application ::
  "driver_launchable_application \<Rightarrow> bool \<Rightarrow> (driver_launch_output, 'w) driver_call" where
  "default_launch_application application allow_foreground_activation w =
     (Inl (mutation_not_dispatched
        (driver_error_new DE_Unsupported ''installed application launch is unsupported'')), w)"

definition default_list_displays :: "(driver_display list, 'w) driver_call" where
  "default_list_displays w = (Inr [], w)"

definition default_observe_display :: "driver_display \<Rightarrow> (rgba_image \<times> screen_rect, 'w) driver_call" where
  "default_observe_display display w =
     (Inl (driver_error_new DE_Unsupported ''physical display capture is unsupported''), w)"

definition default_read_clipboard :: "nat \<Rightarrow> (driver_clipboard_snapshot, 'w) driver_call" where
  "default_read_clipboard max_bytes w =
     (Inl (driver_error_new DE_Unsupported ''plain-text clipboard reads are unsupported''), w)"

definition default_write_clipboard ::
  "string \<Rightarrow> sensitive_text \<Rightarrow> nat \<Rightarrow> (driver_clipboard_write_output, 'w) driver_call" where
  "default_write_clipboard expected_change_marker txt max_bytes w =
     (Inl (mutation_not_dispatched
        (driver_error_new DE_Unsupported ''plain-text clipboard writes are unsupported'')), w)"

text \<open>\<open>look\<close> reads the guard's clock, dispatch flag and cells; \<open>perform\<close> is the required method.\<close>

definition default_perform_action_scoped ::
  "('w \<Rightarrow> instant \<times> bool \<times> session_cells) \<Rightarrow>
   (driver_window \<Rightarrow> driver_action \<Rightarrow> bool \<Rightarrow> bool \<Rightarrow> (driver_action_output, 'w) driver_call) \<Rightarrow>
   driver_window \<Rightarrow> driver_action \<Rightarrow> bool \<Rightarrow> bool \<Rightarrow> guard \<Rightarrow> (driver_action_output, 'w) driver_call" where
  "default_perform_action_scoped look perform window act allow_foreground restore_foreground g w =
     (case look w of (now, dispatched, c) \<Rightarrow>
        case check now dispatched g c of
          Inl e \<Rightarrow> (Inl e, w)
        | Inr _ \<Rightarrow> perform window act allow_foreground restore_foreground w)"

section \<open>Facts\<close>

lemma matches_generation_refl [simp]: "matches_generation a a"
  by (simp add: matches_generation_def)

lemma matches_identity_refl [simp]: "matches_identity a a"
  by (simp add: matches_identity_def)

lemma matches_generation_key: "matches_generation a b \<Longrightarrow> dapp_key a = dapp_key b"
  by (simp add: matches_generation_def)

lemma provided_outputs_coherent [simp]:
  "evidence_is_coherent (confirmed_output m)"
  "evidence_is_coherent (unverified_output m)"
  "evidence_is_coherent (with_foreground_restoration s out) = evidence_is_coherent out"
  by (simp_all add: evidence_is_coherent_def confirmed_output_def unverified_output_def
      with_foreground_restoration_def)

end
