(* ===== verification/Validation.thy ===== *)
theory Validation
  imports Driver
begin

text \<open>
  Closed validation of manifests, clipboard text and actions, from
  \<^verbatim>\<open>crates/runtime/src/validation.rs\<close>. The limits are read from the protocol's default action
  limits as in the source.
\<close>

section \<open>Limits\<close>

definition MAX_ALLOWED_APPLICATIONS :: nat where "MAX_ALLOWED_APPLICATIONS = 128"
definition MAX_DISCOVERY_REF_BYTES :: nat where "MAX_DISCOVERY_REF_BYTES = 256"
definition MAX_APPLICATION_ALLOWLIST_BYTES :: nat where "MAX_APPLICATION_ALLOWLIST_BYTES = 32 * 1024"
definition MAX_ACTIONS :: nat where "MAX_ACTIONS = 32"

definition MAX_TEXT_BYTES :: nat where
  "MAX_TEXT_BYTES = unat (max_text_bytes DEFAULT_ACTION_LIMITS)"

definition MAX_KEYS :: nat where
  "MAX_KEYS = unat (max_keys DEFAULT_ACTION_LIMITS)"

definition MAX_CLICK_COUNT :: u32 where
  "MAX_CLICK_COUNT = max_click_count DEFAULT_ACTION_LIMITS"

definition MAX_SCROLL_DELTA :: f64 where
  "MAX_SCROLL_DELTA = f64_from_u32 (max_scroll_delta DEFAULT_ACTION_LIMITS)"

definition MAX_DRAG_DURATION_MS :: u32 where
  "MAX_DRAG_DURATION_MS = max_pointer_duration_ms DEFAULT_ACTION_LIMITS"

definition MAX_WINDOW_COORDINATE :: f64 where
  "MAX_WINDOW_COORDINATE = f64_from_u32 (max_window_coordinate DEFAULT_ACTION_LIMITS)"

definition MAX_WINDOW_DIMENSION :: f64 where
  "MAX_WINDOW_DIMENSION = f64_from_u32 (max_window_dimension DEFAULT_ACTION_LIMITS)"

text \<open>A \<^verbatim>\<open>u64 as f64\<close> cast rounds.\<close>

definition MAX_RANGE_VALUE :: f64 where
  "MAX_RANGE_VALUE = f64_round_to (of_nat (unat (max_range_value DEFAULT_ACTION_LIMITS)))"

section \<open>Manifests\<close>

definition invalid :: "string \<Rightarrow> cua_error" where
  "invalid message = public_error InvalidRequest message False None"

fun discovery_ref_str :: "discovery_ref \<Rightarrow> string" where
  "discovery_ref_str (DiscoveryRef s) = s"

text \<open>\<^verbatim>\<open>try_fold\<close> with \<^verbatim>\<open>checked_add\<close>: the total length, unless it overflows.\<close>

fun allowlist_bytes :: "nat \<Rightarrow> discovery_ref list \<Rightarrow> nat option" where
  "allowlist_bytes acc [] = Some acc"
| "allowlist_bytes acc (v # vs) =
     (case checked_add_usize acc (length (discovery_ref_str v)) of
        None \<Rightarrow> None
      | Some t \<Rightarrow> allowlist_bytes t vs)"

definition validate_manifest :: "capability_manifest \<Rightarrow> u32 \<Rightarrow> cua_error + unit" where
  "validate_manifest manifest max_ttl_seconds =
     (let refs = cm_application_refs manifest; strs = map discovery_ref_str refs
      in if cm_ttl_seconds manifest = 0 \<or> max_ttl_seconds < cm_ttl_seconds manifest
         then Inl (invalid ''session ttl is outside the supported range'')
      else if (\<not> cm_allow_display_capture manifest \<and> \<not> cm_allow_clipboard_read manifest \<and>
            \<not> cm_allow_clipboard_write manifest \<and> refs = []) \<or> MAX_ALLOWED_APPLICATIONS < length refs
         then Inl (invalid ''application reference allowlist is empty without display-capture or clipboard authority, or is too large'')
      else bindR (ok_or (invalid ''application allowlist is too large'') (allowlist_bytes 0 refs)) (\<lambda>bytes.
         if MAX_APPLICATION_ALLOWLIST_BYTES < bytes \<or> list_ex (\<lambda>v. MAX_DISCOVERY_REF_BYTES < length v) strs
         then Inl (invalid ''application allowlist is too large'')
      else if MAX_ACTIONS < length (cm_allowed_actions manifest)
         then Inl (invalid ''action allowlist is too large'')
      else if list_ex (\<lambda>v. trim v = [] \<or> v \<noteq> trim v) strs
         then Inl (invalid ''discovery references must be non-empty and normalized'')
      else if \<not> all_unique refs
         then Inl (invalid ''application allowlist contains duplicates'')
      else if \<not> all_unique (cm_allowed_actions manifest)
         then Inl (invalid ''action allowlist contains duplicates'')
      else if cm_mode manifest = ReadOnly \<and>
            (cm_allowed_actions manifest \<noteq> [] \<or> cm_allow_foreground_input manifest \<or>
             cm_allow_clipboard_write manifest \<or> cm_restore_foreground_after_input manifest)
         then Inl (invalid ''read-only sessions cannot authorize actions or foreground input'')
      else if cm_restore_foreground_after_input manifest \<and> \<not> cm_allow_foreground_input manifest
         then Inl (invalid ''foreground restoration requires foreground input authority'')
      else if cm_allow_clipboard_write manifest \<and> \<not> cm_allow_clipboard_read manifest
         then Inl (invalid ''clipboard writes require clipboard-read authority for a fresh change guard'')
      else Inr ()))"

section \<open>Text and points\<close>

definition contains_nul :: "string \<Rightarrow> bool" where
  "contains_nul s = list_ex (\<lambda>c. byte_of c = 0) s"

definition validate_clipboard_text :: "sensitive_text \<Rightarrow> nat \<Rightarrow> cua_error + unit" where
  "validate_clipboard_text txt max_bytes =
     (if max_bytes < length (expose txt) \<or> contains_nul (expose txt)
      then Inl (invalid ''clipboard text is too large or contains an embedded NUL'')
      else Inr ())"

definition validate_text :: "string \<Rightarrow> cua_error + unit" where
  "validate_text s =
     (if MAX_TEXT_BYTES < length s \<or> contains_nul s
      then Inl (invalid ''text input is too large or contains NUL'')
      else Inr ())"

definition validate_screenshot_point ::
  "normalized_point \<Rightarrow> screenshot_mapping option \<Rightarrow> cua_error + unit" where
  "validate_screenshot_point point mapping =
     bindR (ok_or (invalid ''pixel actions require a screenshot in the guarded observation'') mapping)
       (\<lambda>m. if to_pixel point (sm_pixel_size m) = None
            then Inl (invalid ''point lies outside the guarded screenshot'')
            else Inr ())"

section \<open>Keys\<close>

definition SUPPORTED_KEYS :: "string list" where
  "SUPPORTED_KEYS =
     [''mod'', ''win'', ''meta'', ''command'', ''control'', ''alt'', ''option'', ''shift'', ''enter'',
      ''return'', ''tab'', ''space'', ''backspace'', ''delete'', ''escape'', ''left'', ''right'', ''up'',
      ''down'', ''home'', ''end'', ''page_up'', ''page_down'',
      ''f1'', ''f2'', ''f3'', ''f4'', ''f5'', ''f6'', ''f7'', ''f8'', ''f9'', ''f10'', ''f11'', ''f12'',
      ''a'', ''b'', ''c'', ''d'', ''e'', ''f'', ''g'', ''h'', ''i'', ''j'', ''k'', ''l'', ''m'',
      ''n'', ''o'', ''p'', ''q'', ''r'', ''s'', ''t'', ''u'', ''v'', ''w'', ''x'', ''y'', ''z'',
      ''0'', ''1'', ''2'', ''3'', ''4'', ''5'', ''6'', ''7'', ''8'', ''9'']"

definition is_supported_key :: "string \<Rightarrow> bool" where
  "is_supported_key key \<longleftrightarrow>
     (length key = 1 \<and> is_ascii_punctuation (hd key)) \<or>
     List.member SUPPORTED_KEYS (canonical_key key)"

definition bad_key :: "string \<Rightarrow> bool" where
  "bad_key key \<longleftrightarrow>
     trim key = [] \<or> key \<noteq> trim key \<or> key \<noteq> to_ascii_lowercase key \<or> \<not> is_supported_key key"

section \<open>Actions\<close>

fun validate_action :: "action \<Rightarrow> screenshot_mapping option \<Rightarrow> cua_error + unit" where
  "validate_action FocusWindow mapping = Inr ()"
| "validate_action (SetWindowMinimized _) mapping = Inr ()"
| "validate_action TerminateApplication mapping = Inr ()"
| "validate_action (FocusElement _) mapping = Inr ()"
| "validate_action (InvokeElement _) mapping = Inr ()"
| "validate_action (ToggleElement _) mapping = Inr ()"
| "validate_action (SelectElement _) mapping = Inr ()"
| "validate_action (SetExpanded _ _) mapping = Inr ()"
| "validate_action (SetWindowBounds b) mapping =
     (if \<not> is_finite (sr_x b) \<or> \<not> is_finite (sr_y b) \<or> \<not> is_finite (sr_width b) \<or>
         \<not> is_finite (sr_height b) \<or>
         f64_lt MAX_WINDOW_COORDINATE (f64_abs (sr_x b)) \<or>
         f64_lt MAX_WINDOW_COORDINATE (f64_abs (sr_y b)) \<or>
         \<not> f64_in_range (Fin 1) MAX_WINDOW_DIMENSION (sr_width b) \<or>
         \<not> f64_in_range (Fin 1) MAX_WINDOW_DIMENSION (sr_height b)
      then Inl (invalid ''window bounds are outside the supported range'')
      else Inr ())"
| "validate_action (ClickPoint point _ count _) mapping =
     (if \<not> (1 \<le> unat count \<and> unat count \<le> unat MAX_CLICK_COUNT)
      then Inl (invalid ''click count must be between one and three'')
      else validate_screenshot_point point mapping)"
| "validate_action (PressPoint point _ duration_ms) mapping =
     (if MAX_DRAG_DURATION_MS < duration_ms
      then Inl (invalid ''pointer hold duration is outside the supported range'')
      else validate_screenshot_point point mapping)"
| "validate_action (SetValue _ v) mapping = validate_text (expose v)"
| "validate_action (SetRangeValue _ v) mapping =
     (if \<not> is_finite v \<or> f64_lt MAX_RANGE_VALUE (f64_abs v)
      then Inl (invalid ''numeric range value is outside the supported range'')
      else Inr ())"
| "validate_action (TypeText txt) mapping = validate_text (expose txt)"
| "validate_action (PressKeys keys) mapping =
     (if keys = [] \<or> MAX_KEYS < length keys \<or> list_ex bad_key keys
      then Inl (invalid ''key chord is empty, too large, unsupported, or not normalized'')
      else Inr ())"
| "validate_action (MovePointer point duration_ms) mapping =
     (if MAX_DRAG_DURATION_MS < duration_ms
      then Inl (invalid ''pointer movement duration is outside the supported range'')
      else validate_screenshot_point point mapping)"
| "validate_action (Scroll point delta_x delta_y) mapping =
     (if \<not> is_finite delta_x \<or> \<not> is_finite delta_y \<or>
         f64_lt MAX_SCROLL_DELTA (f64_abs delta_x) \<or> f64_lt MAX_SCROLL_DELTA (f64_abs delta_y)
      then Inl (invalid ''scroll delta is outside the supported range'')
      else validate_screenshot_point point mapping)"
| "validate_action (Drag start finish duration_ms) mapping =
     (if duration_ms = 0 \<or> MAX_DRAG_DURATION_MS < duration_ms
      then Inl (invalid ''drag duration is outside the supported range'')
      else bindR (validate_screenshot_point start mapping)
        (\<lambda>_. validate_screenshot_point finish mapping))"

section \<open>Facts\<close>

lemma invalid_simps [simp]:
  "ce_code (invalid m) = InvalidRequest"
  "ce_mutation_status (invalid m) = MS_NotApplicable"
  by (simp_all add: invalid_def)

lemma limits_values [simp]:
  "MAX_TEXT_BYTES = 65536" "MAX_KEYS = 8" "unat MAX_CLICK_COUNT = 3" "unat MAX_DRAG_DURATION_MS = 10000"
  "MAX_SCROLL_DELTA = Fin 100000" "MAX_WINDOW_COORDINATE = Fin 1000000"
  "MAX_WINDOW_DIMENSION = Fin 100000"
  by (simp_all add: MAX_TEXT_BYTES_def MAX_KEYS_def MAX_CLICK_COUNT_def MAX_DRAG_DURATION_MS_def
      MAX_SCROLL_DELTA_def MAX_WINDOW_COORDINATE_def MAX_WINDOW_DIMENSION_def DEFAULT_ACTION_LIMITS_def
      f64_from_u32_def)

text \<open>The source's remark that the range limit is exactly representable holds.\<close>

lemma MAX_RANGE_VALUE_exact [simp]: "MAX_RANGE_VALUE = Fin 1000000000000"
proof -
  have r: "rnd 1000000000000 = 1000000000000" using rnd_of_int [of 1000000000000] by simp
  have "f64_round_to 1000000000000 = Fin 1000000000000"
    using f64_round_to_small [of 1000000000000] r by simp
  then show ?thesis by (simp add: MAX_RANGE_VALUE_def DEFAULT_ACTION_LIMITS_def)
qed

lemma allowlist_bytes_Some:
  "allowlist_bytes acc refs = Some n \<Longrightarrow>
    n = acc + sum_list (map (\<lambda>v. length (discovery_ref_str v)) refs)"
  by (induction refs arbitrary: acc)
    (fastforce simp: checked_add_usize_def split: option.splits if_splits)+

lemma allowlist_bytes_total:
  "acc + sum_list (map (\<lambda>v. length (discovery_ref_str v)) refs) < 2 ^ 64 \<Longrightarrow>
    allowlist_bytes acc refs = Some (acc + sum_list (map (\<lambda>v. length (discovery_ref_str v)) refs))"
  by (induction refs arbitrary: acc) (auto simp: checked_add_usize_def)

section \<open>What a manifest may grant\<close>

definition well_formed_ref :: "discovery_ref \<Rightarrow> bool" where
  "well_formed_ref r \<longleftrightarrow>
     (let s = discovery_ref_str r in s \<noteq> [] \<and> trim s = s \<and> length s \<le> 256)"

definition manifest_ok :: "capability_manifest \<Rightarrow> u32 \<Rightarrow> bool" where
  "manifest_ok m max_ttl \<longleftrightarrow>
     0 < cm_ttl_seconds m \<and> cm_ttl_seconds m \<le> max_ttl \<and>
     (cm_application_refs m \<noteq> [] \<or> cm_allow_display_capture m \<or> cm_allow_clipboard_read m) \<and>
     length (cm_application_refs m) \<le> 128 \<and>
     sum_list (map (\<lambda>v. length (discovery_ref_str v)) (cm_application_refs m)) \<le> 32768 \<and>
     (\<forall>r \<in> set (cm_application_refs m). well_formed_ref r) \<and>
     distinct (cm_application_refs m) \<and>
     length (cm_allowed_actions m) \<le> 32 \<and> distinct (cm_allowed_actions m) \<and>
     (cm_mode m = ReadOnly \<longrightarrow> cm_allowed_actions m = [] \<and> \<not> cm_allow_foreground_input m \<and>
        \<not> cm_allow_clipboard_write m) \<and>
     (cm_restore_foreground_after_input m \<longrightarrow> cm_allow_foreground_input m) \<and>
     (cm_allow_clipboard_write m \<longrightarrow> cm_allow_clipboard_read m)"

lemma list_ex_strs [simp]:
  "list_ex P (map discovery_ref_str refs) \<longleftrightarrow> (\<exists>r \<in> set refs. P (discovery_ref_str r))"
  by (simp add: list_ex_iff)

lemma well_formed_refs_iff:
  "(\<forall>r \<in> set refs. well_formed_ref r) \<longleftrightarrow>
     \<not> (\<exists>r \<in> set refs. 256 < length (discovery_ref_str r)) \<and>
     \<not> (\<exists>r \<in> set refs. trim (discovery_ref_str r) = [] \<or> discovery_ref_str r \<noteq> trim (discovery_ref_str r))"
  by (auto simp: well_formed_ref_def Let_def not_less)

lemma validate_manifest_Inr_iff: "validate_manifest m max_ttl = Inr () \<longleftrightarrow> manifest_ok m max_ttl"
proof (cases "allowlist_bytes 0 (cm_application_refs m)")
  case None
  then have "\<not> sum_list (map (\<lambda>v. length (discovery_ref_str v)) (cm_application_refs m)) < 2 ^ 64"
    using allowlist_bytes_total [of 0] by fastforce
  then have "\<not> manifest_ok m max_ttl" by (simp add: manifest_ok_def)
  with None show ?thesis by (simp add: validate_manifest_def Let_def)
next
  case (Some n)
  then have n: "n = sum_list (map (\<lambda>v. length (discovery_ref_str v)) (cm_application_refs m))"
    using allowlist_bytes_Some by fastforce
  show ?thesis
    unfolding validate_manifest_def manifest_ok_def well_formed_refs_iff Let_def n [symmetric] Some
      ok_or_simps bindR_simps early_return_Inr list_ex_strs all_unique_distinct
      MAX_ALLOWED_APPLICATIONS_def MAX_DISCOVERY_REF_BYTES_def MAX_APPLICATION_ALLOWLIST_BYTES_def
      MAX_ACTIONS_def
    by (rule iffI; elim conjE; intro conjI; (assumption | simp add: not_less word_neq_0_conv; fail | blast | simp only: not_less de_Morgan_disj; blast)?)
qed

lemma validate_manifest_Inl: "validate_manifest m max_ttl = Inl e \<Longrightarrow> ce_code e = InvalidRequest"
  unfolding validate_manifest_def Let_def early_return_Inl bindR_eq_Inl
  by (elim disjE conjE exE) (simp_all add: early_return_Inl)

text \<open>
  A manifest is accepted exactly when it is well formed: a time to live within the
  runtime's limit, at least one grant, bounded and duplicate-free lists of normalized references
  and actions, no mutation authority for a read-only session, no foreground restoration without
  foreground input and no clipboard write without clipboard read. Every rejection is an
  invalid-request error.
\<close>

theorem validate_manifest_exact:
  "case validate_manifest m max_ttl of
     Inr _ \<Rightarrow> manifest_ok m max_ttl
   | Inl e \<Rightarrow> \<not> manifest_ok m max_ttl \<and> ce_code e = InvalidRequest"
  using validate_manifest_Inr_iff [of m max_ttl] validate_manifest_Inl [of m max_ttl]
  by (cases "validate_manifest m max_ttl") simp_all

end
