(* ===== verification/Policy.thy ===== *)
theory Policy
  imports Validation
begin

text \<open>
  The immutable managed/user dispatch policy of \<^verbatim>\<open>crates/runtime/src/policy.rs\<close>: closed rules,
  validated layers, the two-layer stack and its authorization of commands. Loading a file takes
  the file's metadata and bytes as arguments; the JSON decoder and the SHA-256 digest are
  third-party code and enter as parameters.
\<close>

section \<open>Operations\<close>

datatype policy_operation =
    PO_GetCapabilities | PO_GetPermissionStatus | PO_DiscoverApplications
  | PO_DiscoverLaunchableApplications | PO_LaunchApplication | PO_OpenSession | PO_CloseSession
  | PO_ListApps | PO_ListWindows | PO_ListDisplays | PO_ObserveWindow | PO_ObserveApplicationScene
  | PO_ObserveDisplay | PO_ReadClipboard | PO_WriteClipboard | PO_PerformAction
  | PO_ReconcileMutation | PO_VerifyState

fun policy_operation_of :: "command \<Rightarrow> policy_operation" where
  "policy_operation_of GetCapabilities = PO_GetCapabilities"
| "policy_operation_of GetPermissionStatus = PO_GetPermissionStatus"
| "policy_operation_of DiscoverApplications = PO_DiscoverApplications"
| "policy_operation_of DiscoverLaunchableApplications = PO_DiscoverLaunchableApplications"
| "policy_operation_of (LaunchApplication _) = PO_LaunchApplication"
| "policy_operation_of (OpenSession _) = PO_OpenSession"
| "policy_operation_of (CloseSession _) = PO_CloseSession"
| "policy_operation_of (ListApps _) = PO_ListApps"
| "policy_operation_of (ListWindows _) = PO_ListWindows"
| "policy_operation_of (ListDisplays _) = PO_ListDisplays"
| "policy_operation_of (ObserveWindow _) = PO_ObserveWindow"
| "policy_operation_of (ObserveApplicationScene _) = PO_ObserveApplicationScene"
| "policy_operation_of (ObserveDisplay _) = PO_ObserveDisplay"
| "policy_operation_of (ReadClipboard _) = PO_ReadClipboard"
| "policy_operation_of (WriteClipboard _) = PO_WriteClipboard"
| "policy_operation_of (PerformAction _) = PO_PerformAction"
| "policy_operation_of (ReconcileMutation _) = PO_ReconcileMutation"
| "policy_operation_of (VerifyState _) = PO_VerifyState"

section \<open>Rules\<close>

datatype policy_load_error = PL_Io string | PL_Json string | PL_Invalid string | PL_UnsafeFile string

record policy_action_rule =
  par_action :: action_kind
  par_max_text_bytes :: "nat option"
  par_max_keys :: "nat option"
  par_max_click_count :: "u8 option"
  par_max_duration_ms :: "u32 option"
  par_max_abs_scroll_delta :: "f64 option"
  par_deliveries :: "delivery_preference list"

definition fields_are_relevant :: "policy_action_rule \<Rightarrow> bool" where
  "fields_are_relevant self =
     (let no_text = par_max_text_bytes self = None; no_keys = par_max_keys self = None;
          no_click = par_max_click_count self = None; no_duration = par_max_duration_ms self = None;
          no_scroll = par_max_abs_scroll_delta self = None; no_delivery = par_deliveries self = []
      in case par_action self of
           K_ClickPoint \<Rightarrow> no_text \<and> no_keys \<and> no_duration \<and> no_scroll
         | K_PressPoint \<Rightarrow> no_text \<and> no_keys \<and> no_click \<and> no_scroll \<and> no_delivery
         | K_MovePointer \<Rightarrow> no_text \<and> no_keys \<and> no_click \<and> no_scroll \<and> no_delivery
         | K_Drag \<Rightarrow> no_text \<and> no_keys \<and> no_click \<and> no_scroll \<and> no_delivery
         | K_TypeText \<Rightarrow> no_keys \<and> no_click \<and> no_duration \<and> no_scroll \<and> no_delivery
         | K_SetValue \<Rightarrow> no_keys \<and> no_click \<and> no_duration \<and> no_scroll \<and> no_delivery
         | K_PressKeys \<Rightarrow> no_text \<and> no_click \<and> no_duration \<and> no_scroll \<and> no_delivery
         | K_Scroll \<Rightarrow> no_text \<and> no_keys \<and> no_click \<and> no_duration \<and> no_delivery
         | _ \<Rightarrow> no_text \<and> no_keys \<and> no_click \<and> no_duration \<and> no_scroll \<and> no_delivery)"

definition bad_scroll_bound :: "f64 option \<Rightarrow> bool" where
  "bad_scroll_bound b =
     (case b of None \<Rightarrow> False | Some v \<Rightarrow> \<not> is_finite v \<or> f64_le v (Fin 0))"

definition rule_validate :: "policy_action_rule \<Rightarrow> policy_load_error + unit" where
  "rule_validate self =
     (if par_max_text_bytes self = Some 0 \<or> par_max_keys self = Some 0 \<or>
         par_max_click_count self = Some 0 \<or> par_max_duration_ms self = Some 0 \<or>
         bad_scroll_bound (par_max_abs_scroll_delta self)
      then Inl (PL_Invalid ''action-rule bounds must be finite and non-zero'')
      else if \<not> all_unique (par_deliveries self)
      then Inl (PL_Invalid ''action rule contains duplicate delivery values'')
      else if \<not> fields_are_relevant self
      then Inl (PL_Invalid ''action rule contains a constraint that does not apply to its action'')
      else Inr ())"

definition is_none_or :: "('a \<Rightarrow> bool) \<Rightarrow> 'a option \<Rightarrow> bool" where
  "is_none_or P b = (case b of None \<Rightarrow> True | Some v \<Rightarrow> P v)"

definition rule_matches :: "policy_action_rule \<Rightarrow> action \<Rightarrow> bool" where
  "rule_matches self act =
     (if kind act \<noteq> par_action self then False
      else case act of
          ClickPoint _ _ count delivery \<Rightarrow>
            is_none_or (\<lambda>m. count \<le> m) (par_max_click_count self) \<and>
            (par_deliveries self = [] \<or> List.member (par_deliveries self) delivery)
        | PressPoint _ _ duration_ms \<Rightarrow> is_none_or (\<lambda>m. duration_ms \<le> m) (par_max_duration_ms self)
        | MovePointer _ duration_ms \<Rightarrow> is_none_or (\<lambda>m. duration_ms \<le> m) (par_max_duration_ms self)
        | Drag _ _ duration_ms \<Rightarrow> is_none_or (\<lambda>m. duration_ms \<le> m) (par_max_duration_ms self)
        | TypeText txt \<Rightarrow> is_none_or (\<lambda>m. length (expose txt) \<le> m) (par_max_text_bytes self)
        | SetValue _ v \<Rightarrow> is_none_or (\<lambda>m. length (expose v) \<le> m) (par_max_text_bytes self)
        | PressKeys keys \<Rightarrow> is_none_or (\<lambda>m. length keys \<le> m) (par_max_keys self)
        | Scroll _ delta_x delta_y \<Rightarrow>
            is_none_or (\<lambda>m. f64_le (f64_abs delta_x) m \<and> f64_le (f64_abs delta_y) m)
              (par_max_abs_scroll_delta self)
        | _ \<Rightarrow> True)"

section \<open>Layers\<close>

record policy_allow =
  allow_operations :: "policy_operation list"
  allow_actions :: "action_kind list"
  allow_action_rules :: "policy_action_rule list"

record policy_deny =
  deny_operations :: "policy_operation list"
  deny_actions :: "action_kind list"

record runtime_policy_layer =
  layer_schema_version :: u32
  layer_allow :: policy_allow
  layer_deny :: policy_deny

definition POLICY_SCHEMA_VERSION :: u32 where "POLICY_SCHEMA_VERSION = 1"
definition MAX_POLICY_BYTES :: nat where "MAX_POLICY_BYTES = 256 * 1024"
definition MAX_POLICY_ENTRIES :: nat where "MAX_POLICY_ENTRIES = 128"

definition require_unique :: "'a list \<Rightarrow> string \<Rightarrow> policy_load_error + unit" where
  "require_unique values label =
     (if all_unique values then Inr () else Inl (PL_Invalid (''policy contains duplicate '' @ label)))"

fun rules_validate :: "policy_action_rule list \<Rightarrow> policy_load_error + unit" where
  "rules_validate [] = Inr ()"
| "rules_validate (rule # rules) = bindR (rule_validate rule) (\<lambda>_. rules_validate rules)"

definition layer_entries :: "runtime_policy_layer \<Rightarrow> nat" where
  "layer_entries self =
     length (allow_operations (layer_allow self)) + length (allow_actions (layer_allow self)) +
     length (allow_action_rules (layer_allow self)) + length (deny_operations (layer_deny self)) +
     length (deny_actions (layer_deny self))"

definition layer_validate :: "runtime_policy_layer \<Rightarrow> policy_load_error + unit" where
  "layer_validate self =
     (if layer_schema_version self \<noteq> POLICY_SCHEMA_VERSION
      then Inl (PL_Invalid ''unsupported policy schema_version'')
      else if MAX_POLICY_ENTRIES < layer_entries self
      then Inl (PL_Invalid ''policy contains more than 128 entries'')
      else bindR (require_unique (allow_operations (layer_allow self)) ''allow operations'') (\<lambda>_.
           bindR (require_unique (allow_actions (layer_allow self)) ''allow actions'') (\<lambda>_.
           bindR (require_unique (deny_operations (layer_deny self)) ''deny operations'') (\<lambda>_.
           bindR (require_unique (deny_actions (layer_deny self)) ''deny actions'') (\<lambda>_.
           rules_validate (allow_action_rules (layer_allow self)))))))"

definition authorizes_operation :: "runtime_policy_layer \<Rightarrow> policy_operation \<Rightarrow> bool" where
  "authorizes_operation self operation \<longleftrightarrow>
     \<not> List.member (deny_operations (layer_deny self)) operation \<and>
     List.member (allow_operations (layer_allow self)) operation"

definition authorizes_action_kind :: "runtime_policy_layer \<Rightarrow> action_kind \<Rightarrow> bool" where
  "authorizes_action_kind self k \<longleftrightarrow>
     \<not> List.member (deny_actions (layer_deny self)) k \<and>
     (List.member (allow_actions (layer_allow self)) k \<or>
      list_ex (\<lambda>rule. par_action rule = k) (allow_action_rules (layer_allow self)))"

definition authorizes_action :: "runtime_policy_layer \<Rightarrow> action \<Rightarrow> bool" where
  "authorizes_action self act =
     (if List.member (deny_actions (layer_deny self)) (kind act) then False
      else List.member (allow_actions (layer_allow self)) (kind act) \<or>
        list_ex (\<lambda>rule. rule_matches rule act) (allow_action_rules (layer_allow self)))"

definition layer_authorize :: "runtime_policy_layer \<Rightarrow> command \<Rightarrow> bool" where
  "layer_authorize self cmd =
     (let operation = policy_operation_of cmd
      in if List.member (deny_operations (layer_deny self)) operation \<or>
           \<not> List.member (allow_operations (layer_allow self)) operation
         then False
         else case cmd of
             PerformAction input \<Rightarrow> authorizes_action self (pai_action input)
           | OpenSession manifest \<Rightarrow>
               list_all (authorizes_action_kind self) (cm_allowed_actions manifest) \<and>
               (\<not> cm_allow_clipboard_read manifest \<or> authorizes_operation self PO_ReadClipboard) \<and>
               (\<not> cm_allow_clipboard_write manifest \<or> authorizes_operation self PO_WriteClipboard)
           | _ \<Rightarrow> True)"

section \<open>The stack\<close>

record loaded_policy =
  lp_layer :: runtime_policy_layer
  lp_sha256 :: string

record runtime_policy_stack =
  stack_managed :: "loaded_policy option"
  stack_user :: "loaded_policy option"

record runtime_policy_summary =
  summary_managed_sha256 :: "string option"
  summary_user_sha256 :: "string option"

definition transpose :: "('e + 'a) option \<Rightarrow> 'e + 'a option" where
  "transpose v = (case v of None \<Rightarrow> Inr None | Some r \<Rightarrow> bindR r (\<lambda>x. Inr (Some x)))"

text \<open>\<open>encode\<close> is the JSON encoder, which may fail; \<open>digest\<close> the hexadecimal SHA-256.\<close>

definition from_layer ::
  "(runtime_policy_layer \<Rightarrow> policy_load_error + string) \<Rightarrow> (string \<Rightarrow> string) \<Rightarrow> runtime_policy_layer \<Rightarrow>
   policy_load_error + loaded_policy" where
  "from_layer encode digest layer =
     bindR (layer_validate layer) (\<lambda>_.
     bindR (encode layer) (\<lambda>canonical.
     Inr \<lparr>lp_layer = layer, lp_sha256 = digest canonical\<rparr>))"

definition from_layers ::
  "(runtime_policy_layer \<Rightarrow> policy_load_error + string) \<Rightarrow> (string \<Rightarrow> string) \<Rightarrow>
   runtime_policy_layer option \<Rightarrow> runtime_policy_layer option \<Rightarrow> policy_load_error + runtime_policy_stack" where
  "from_layers encode digest managed user =
     bindR (transpose (map_option (from_layer encode digest) managed)) (\<lambda>m.
     bindR (transpose (map_option (from_layer encode digest) user)) (\<lambda>u.
     Inr \<lparr>stack_managed = m, stack_user = u\<rparr>))"

text \<open>What \<^verbatim>\<open>symlink_metadata\<close> and \<^verbatim>\<open>read\<close> report for a configured path.\<close>

record file_view =
  fv_metadata :: "string + unit"
  fv_is_symlink :: bool
  fv_is_file :: bool
  fv_len :: nat
  fv_mode :: u32
  fv_bytes :: "string + string"

definition load_policy ::
  "(string \<Rightarrow> policy_load_error + runtime_policy_layer) \<Rightarrow> (string \<Rightarrow> string) \<Rightarrow> file_view \<Rightarrow>
   policy_load_error + loaded_policy" where
  "load_policy decode digest file =
     bindR (map_err PL_Io (fv_metadata file)) (\<lambda>_.
     if fv_is_symlink file \<or> \<not> fv_is_file file
     then Inl (PL_UnsafeFile ''configured path must be a regular file'')
     else if fv_len file = 0 \<or> MAX_POLICY_BYTES < fv_len file
     then Inl (PL_UnsafeFile ''configured file must contain between 1 byte and 256 KiB'')
     else if Bit_Operations.and (fv_mode file) 18 \<noteq> 0
     then Inl (PL_UnsafeFile ''configured file must not be group- or world-writable'')
     else bindR (map_err PL_Io (fv_bytes file)) (\<lambda>bytes.
          bindR (decode bytes) (\<lambda>layer.
          bindR (layer_validate layer) (\<lambda>_.
          Inr \<lparr>lp_layer = layer, lp_sha256 = digest bytes\<rparr>))))"

definition from_files ::
  "(string \<Rightarrow> policy_load_error + runtime_policy_layer) \<Rightarrow> (string \<Rightarrow> string) \<Rightarrow>
   file_view option \<Rightarrow> file_view option \<Rightarrow> policy_load_error + runtime_policy_stack" where
  "from_files decode digest managed user =
     bindR (transpose (map_option (load_policy decode digest) managed)) (\<lambda>m.
     bindR (transpose (map_option (load_policy decode digest) user)) (\<lambda>u.
     Inr \<lparr>stack_managed = m, stack_user = u\<rparr>))"

definition policy_summary :: "runtime_policy_stack \<Rightarrow> runtime_policy_summary" where
  "policy_summary self =
     \<lparr>summary_managed_sha256 = map_option lp_sha256 (stack_managed self),
      summary_user_sha256 = map_option lp_sha256 (stack_user self)\<rparr>"

fun is_runtime_mutation :: "command \<Rightarrow> bool" where
  "is_runtime_mutation (LaunchApplication _) = True"
| "is_runtime_mutation (WriteClipboard _) = True"
| "is_runtime_mutation (PerformAction _) = True"
| "is_runtime_mutation _ = False"

definition policy_denied_error :: cua_error where
  "policy_denied_error =
     public_error CapabilityDenied ''runtime policy denied the requested operation'' False
       (Some ''request_host_policy'')"

definition stack_layers :: "runtime_policy_stack \<Rightarrow> runtime_policy_layer list" where
  "stack_layers self =
     (case stack_managed self of None \<Rightarrow> [] | Some p \<Rightarrow> [lp_layer p]) @
     (case stack_user self of None \<Rightarrow> [] | Some p \<Rightarrow> [lp_layer p])"

definition policy_authorize :: "runtime_policy_stack \<Rightarrow> command \<Rightarrow> cua_error + unit" where
  "policy_authorize self cmd =
     (if list_all (\<lambda>layer. layer_authorize layer cmd) (stack_layers self) then Inr ()
      else Inl (if is_runtime_mutation cmd then with_mutation_status MS_NotDispatched policy_denied_error
                else policy_denied_error))"

section \<open>Facts\<close>

lemma policy_denied_error_simps [simp]:
  "ce_code policy_denied_error = CapabilityDenied"
  "ce_mutation_status policy_denied_error = MS_NotApplicable"
  by (simp_all add: policy_denied_error_def)

lemma policy_authorize_Inr_iff:
  "policy_authorize p cmd = Inr () \<longleftrightarrow> (\<forall>layer \<in> set (stack_layers p). layer_authorize layer cmd)"
  by (simp add: policy_authorize_def list_all_iff)

lemma policy_authorize_Inl:
  "policy_authorize p cmd = Inl e \<Longrightarrow> ce_code e = CapabilityDenied \<and>
    ce_mutation_status e = (if is_runtime_mutation cmd then MS_NotDispatched else MS_NotApplicable)"
  by (auto simp: policy_authorize_def split: if_splits)

lemma rule_matches_kind: "rule_matches r act \<Longrightarrow> par_action r = kind act"
  by (simp add: rule_matches_def split: if_splits)

lemma authorizes_action_kind_of:
  "authorizes_action layer act \<Longrightarrow> authorizes_action_kind layer (kind act)"
  by (auto simp: authorizes_action_def authorizes_action_kind_def list_ex_iff
      dest: rule_matches_kind split: if_splits)

lemma layer_authorize_operation:
  "layer_authorize layer cmd \<Longrightarrow> authorizes_operation layer (policy_operation_of cmd)"
  by (auto simp: layer_authorize_def authorizes_operation_def Let_def split: if_splits)

lemma layer_authorize_action:
  "layer_authorize layer (PerformAction input) \<Longrightarrow> authorizes_action layer (pai_action input)"
  by (auto simp: layer_authorize_def Let_def split: if_splits)

section \<open>A concrete layer\<close>

definition example_layer :: runtime_policy_layer where
  "example_layer =
     \<lparr>layer_schema_version = 1,
      layer_allow = \<lparr>allow_operations = [PO_OpenSession, PO_PerformAction, PO_ReadClipboard],
        allow_actions = [K_FocusWindow], allow_action_rules = []\<rparr>,
      layer_deny = \<lparr>deny_operations = [], deny_actions = [K_Drag]\<rparr>\<rparr>"

definition example_manifest :: capability_manifest where
  "example_manifest =
     \<lparr>cm_mode = Bounded, cm_application_refs = [DiscoveryRef ''d''], cm_allowed_actions = [K_FocusWindow],
      cm_allow_foreground_input = True, cm_restore_foreground_after_input = False,
      cm_allow_display_capture = False, cm_allow_clipboard_read = True,
      cm_allow_clipboard_write = False, cm_ttl_seconds = 60\<rparr>"

section \<open>Properties\<close>





text \<open>
  A session never promises an action or clipboard access that the policy would refuse
  outright: if the policy lets a manifest open a session, every layer admits the kind of each
  action the manifest allows and the clipboard operations it asks for; and an action that the
  policy admits is always of a kind such a manifest may list.
\<close>

theorem policy_session_consistent:
  "(policy_authorize p (OpenSession m) = Inr () \<longrightarrow>
     (\<forall>layer \<in> set (stack_layers p).
        (\<forall>k \<in> set (cm_allowed_actions m). authorizes_action_kind layer k) \<and>
        (cm_allow_clipboard_read m \<longrightarrow> authorizes_operation layer PO_ReadClipboard) \<and>
        (cm_allow_clipboard_write m \<longrightarrow> authorizes_operation layer PO_WriteClipboard))) \<and>
   (policy_authorize p (PerformAction input) = Inr () \<longrightarrow>
     (\<forall>layer \<in> set (stack_layers p). authorizes_action_kind layer (kind (pai_action input))))"
  by (auto simp: policy_authorize_Inr_iff layer_authorize_def Let_def list_all_iff
      intro: authorizes_action_kind_of split: if_splits)

theorem policy_session_consistent_witness:
  "authorizes_action_kind example_layer K_FocusWindow"
proof -
  let ?p = "\<lparr>stack_managed = Some \<lparr>lp_layer = example_layer, lp_sha256 = []\<rparr>, stack_user = None\<rparr>"
  have "policy_authorize ?p (OpenSession example_manifest) = Inr ()"
    by (simp add: policy_authorize_def stack_layers_def layer_authorize_def example_layer_def
        example_manifest_def authorizes_action_kind_def authorizes_operation_def)
  then show ?thesis
    using policy_session_consistent [of ?p example_manifest]
    by (simp add: stack_layers_def example_manifest_def)
qed




end
