(* ===== verification/Sessions.thy ===== *)
theory Sessions
  imports Policy "HOL-Library.Multiset"
begin

text \<open>
  Session state and the projection between driver keys and public references, from
  \<^verbatim>\<open>crates/runtime/src/session.rs\<close>. A public reference is a prefix and a random UUID; the
  generator is third-party code, so it is a parameter \<open>uuid\<close> read at a counter that every use
  advances, and the theorems that need it assume that it does not repeat (\<open>inj uuid\<close>).
\<close>

section \<open>State\<close>

datatype observation_status = OS_Valid | OS_InFlight | OS_Invalid

record observation_record =
  obs_application_scene :: bool
  obs_id :: observation_id
  obs_window_ref :: window_ref
  obs_screenshot_mapping :: "screenshot_mapping option"
  obs_fingerprint :: string
  obs_created_at :: instant
  obs_status :: observation_status
  obs_elements :: "(element_ref, driver_element) hm"

record clipboard_record =
  cb_id :: clipboard_ref
  cb_change_marker :: string

record session_state =
  applications :: "(app_ref, driver_application) hm"
  application_refs :: "(string, app_ref) hm"
  windows :: "(window_ref, driver_window) hm"
  window_refs :: "(string, window_ref) hm"
  displays :: "(display_ref, driver_display) hm"
  display_refs :: "(string, display_ref) hm"
  observations :: "(observation_id, observation_record) hm"
  clipboard :: "clipboard_record option"

definition new_session_state :: session_state where
  "new_session_state =
     \<lparr>applications = [], application_refs = [], windows = [], window_refs = [], displays = [],
      display_refs = [], observations = [], clipboard = None\<rparr>"

text \<open>\<open>s_guard\<close> holds the interruption latch, the closed flag, the activity and the live leases.\<close>

record session =
  s_guard :: guard_world
  s_id :: session_id
  s_manifest :: capability_manifest
  s_allowed_applications :: "driver_application list"
  s_expires_at :: instant
  s_state :: session_state

definition action_guard :: "session \<Rightarrow> nat \<Rightarrow> guard" where
  "action_guard self lease = guard_new (s_expires_at self) lease"

definition session_is_closed :: "session \<Rightarrow> bool" where
  "session_is_closed self = closed (cells (s_guard self))"

text \<open>\<^verbatim>\<open>Session::close\<close>: the second component says whether the driver is notified.\<close>

definition session_close :: "session \<Rightarrow> session \<times> bool" where
  "session_close self =
     (self\<lparr>s_guard := (s_guard self)\<lparr>cells := (cells (s_guard self))\<lparr>closed := True\<rparr>\<rparr>\<rparr>,
      \<not> session_is_closed self)"

definition allows_application :: "session \<Rightarrow> driver_application \<Rightarrow> bool" where
  "allows_application self application =
     list_ex (\<lambda>allowed. matches_generation allowed application) (s_allowed_applications self)"

section \<open>References\<close>

type_synonym uuid_source = "nat \<Rightarrow> string"

definition project_application ::
  "uuid_source \<Rightarrow> driver_application \<Rightarrow> nat \<Rightarrow> session_state \<Rightarrow> app_ref \<times> nat \<times> session_state" where
  "project_application uuid application n self =
     (case hm_get (application_refs self) (dapp_key application) of
        Some existing \<Rightarrow>
          (existing, n, self\<lparr>applications := hm_insert existing application (applications self)\<rparr>)
      | None \<Rightarrow>
          let app_ref = AppRef (''app_'' @ uuid n)
          in (app_ref, n + 1,
              self\<lparr>application_refs := hm_insert (dapp_key application) app_ref (application_refs self),
                   applications := hm_insert app_ref application (applications self)\<rparr>))"

definition project_window ::
  "uuid_source \<Rightarrow> driver_window \<Rightarrow> nat \<Rightarrow> session_state \<Rightarrow> window_ref \<times> nat \<times> session_state" where
  "project_window uuid window n self =
     (case hm_get (window_refs self) (dw_key window) of
        Some existing \<Rightarrow> (existing, n, self\<lparr>windows := hm_insert existing window (windows self)\<rparr>)
      | None \<Rightarrow>
          let window_ref = WindowRef (''window_'' @ uuid n)
          in (window_ref, n + 1,
              self\<lparr>window_refs := hm_insert (dw_key window) window_ref (window_refs self),
                   windows := hm_insert window_ref window (windows self)\<rparr>))"

definition project_display ::
  "uuid_source \<Rightarrow> driver_display \<Rightarrow> nat \<Rightarrow> session_state \<Rightarrow> display_ref \<times> nat \<times> session_state" where
  "project_display uuid display n self =
     (case hm_get (display_refs self) (dd_key display) of
        Some existing \<Rightarrow> (existing, n, self\<lparr>displays := hm_insert existing display (displays self)\<rparr>)
      | None \<Rightarrow>
          let display_ref = DisplayRef (''display_'' @ uuid n)
          in (display_ref, n + 1,
              self\<lparr>display_refs := hm_insert (dd_key display) display_ref (display_refs self),
                   displays := hm_insert display_ref display (displays self)\<rparr>))"

section \<open>Observations\<close>

definition set_invalid :: "observation_record \<Rightarrow> observation_record" where
  "set_invalid r = r\<lparr>obs_status := OS_Invalid\<rparr>"

definition invalidate_window_observations :: "window_ref \<Rightarrow> session_state \<Rightarrow> session_state" where
  "invalidate_window_observations wref self =
     self\<lparr>observations :=
       hm_map (\<lambda>r. if obs_window_ref r = wref then set_invalid r else r) (observations self)\<rparr>"

definition invalidate_application_observations ::
  "driver_application \<Rightarrow> session_state \<Rightarrow> session_state" where
  "invalidate_application_observations application self =
     (let affected = map fst (filter (\<lambda>(_, w). matches_generation (dw_application w) application)
                       (windows self))
      in self\<lparr>observations :=
           hm_map (\<lambda>r. if List.member affected (obs_window_ref r) then set_invalid r else r)
             (observations self)\<rparr>)"

definition trim_observations :: "nat \<Rightarrow> session_state \<Rightarrow> session_state" where
  "trim_observations limit self =
     (let len = hm_len (observations self)
      in if len < limit then self
         else let remove_count = (len - limit) + 1;
                  ordered = sort_key snd (map (\<lambda>(oid, r). (oid, obs_created_at r)) (observations self))
              in self\<lparr>observations :=
                   fold (\<lambda>(oid, _). hm_remove oid) (take remove_count ordered) (observations self)\<rparr>)"

fun assign_refs ::
  "uuid_source \<Rightarrow> driver_element list \<Rightarrow> nat \<Rightarrow> (string, element_ref) hm \<Rightarrow> (string, element_ref) hm \<times> nat" where
  "assign_refs uuid [] n m = (m, n)"
| "assign_refs uuid (e # es) n m =
     assign_refs uuid es (n + 1) (hm_insert (del_key e) (ElementRef (''element_'' @ uuid n)) m)"

definition project_element ::
  "(string, element_ref) hm \<Rightarrow> element_ref \<Rightarrow> driver_element \<Rightarrow> accessibility_element" where
  "project_element refs_by_key eref e =
     \<lparr>ae_element_ref = eref,
      ae_parent_ref = (case del_parent_key e of None \<Rightarrow> None | Some k \<Rightarrow> hm_get refs_by_key k),
      ae_role = del_role e, ae_name = del_name e, ae_value = del_value e,
      ae_range_value = del_range_value e, ae_screen_bounds = del_screen_bounds e,
      ae_enabled = del_enabled e, ae_focused = del_focused e, ae_selected = del_selected e,
      ae_checked = del_checked e, ae_expanded = del_expanded e, ae_actions = del_actions e\<rparr>"

text \<open>\<open>None\<close> is the panic of \<^verbatim>\<open>expect("every selected element has a projected reference")\<close>.\<close>

fun project_elements ::
  "(string, element_ref) hm \<Rightarrow> driver_element list \<Rightarrow> (element_ref, driver_element) hm \<Rightarrow>
   ((element_ref, driver_element) hm \<times> accessibility_element list) option" where
  "project_elements refs_by_key [] internal = Some (internal, [])"
| "project_elements refs_by_key (e # es) internal =
     (case hm_get refs_by_key (del_key e) of
        None \<Rightarrow> None
      | Some eref \<Rightarrow>
          (case project_elements refs_by_key es (hm_insert eref e internal) of
             None \<Rightarrow> None
           | Some (internal', public) \<Rightarrow> Some (internal', project_element refs_by_key eref e # public)))"

definition project_observation ::
  "uuid_source \<Rightarrow> instant \<Rightarrow> driver_observation \<Rightarrow> window_ref \<Rightarrow> screenshot_mapping option \<Rightarrow> nat \<Rightarrow> nat \<Rightarrow>
   (observation_record \<times> accessibility_element list \<times> nat) option" where
  "project_observation uuid now observation wref mapping max_elements n =
     (let oid = ObservationId (''observation_'' @ uuid n);
          selected = take max_elements (dob_elements observation);
          (refs_by_key, n') = assign_refs uuid selected (n + 1) []
      in case project_elements refs_by_key selected [] of
           None \<Rightarrow> None
         | Some (internal, public) \<Rightarrow>
             Some (\<lparr>obs_application_scene = False, obs_id = oid, obs_window_ref = wref,
                    obs_screenshot_mapping = mapping, obs_fingerprint = dob_fingerprint observation,
                    obs_created_at = now, obs_status = OS_Valid, obs_elements = internal\<rparr>,
                   public, n'))"

section \<open>Clipboard\<close>

definition project_clipboard ::
  "uuid_source \<Rightarrow> string \<Rightarrow> nat \<Rightarrow> session_state \<Rightarrow> clipboard_ref \<times> nat \<times> session_state" where
  "project_clipboard uuid change_marker n self =
     (let cref = ClipboardRef (''clipboard_'' @ uuid n)
      in (cref, n + 1, self\<lparr>clipboard := Some \<lparr>cb_id = cref, cb_change_marker = change_marker\<rparr>\<rparr>))"

definition take_clipboard_marker ::
  "clipboard_ref \<Rightarrow> session_state \<Rightarrow> string option \<times> session_state" where
  "take_clipboard_marker cref self =
     (case clipboard self of
        Some record \<Rightarrow>
          if cb_id record = cref then (Some (cb_change_marker record), self\<lparr>clipboard := None\<rparr>)
          else (None, self)
      | None \<Rightarrow> (None, self))"

section \<open>Resolving an action\<close>

definition stale_observation :: cua_error where
  "stale_observation =
     public_error StaleObservation ''observation is expired, invalidated, or no longer current'' True
       (Some ''observe_window'')"

definition scene_delivery_error :: cua_error where
  "scene_delivery_error =
     public_error Unsupported
       ''application scene clicks require the foreground route; use an exact-window observation for background delivery''
       False (Some ''observe_window'')"

fun is_background_click :: "action \<Rightarrow> bool" where
  "is_background_click (ClickPoint _ _ _ DP_Background) = True"
| "is_background_click _ = False"

definition validate_scene_delivery :: "action \<Rightarrow> observation_record \<Rightarrow> cua_error + unit" where
  "validate_scene_delivery act observation =
     (if obs_application_scene observation \<and> is_background_click act then Inl scene_delivery_error
      else Inr ())"

definition no_range_error :: cua_error where
  "no_range_error =
     public_error InvalidRequest ''element does not expose a numeric range value'' False
       (Some ''observe_window'')"

definition range_bounds_error :: cua_error where
  "range_bounds_error =
     public_error InvalidRequest
       ''numeric range value is disabled, read-only, or outside the observed bounds'' False
       (Some ''fix_request'')"

definition unresolved_point_error :: cua_error where
  "unresolved_point_error =
     public_error InvalidRequest ''point cannot be resolved through the guarded screenshot mapping''
       False None"

definition resolve_range_value ::
  "element_ref \<Rightarrow> f64 \<Rightarrow> observation_record \<Rightarrow> cua_error + driver_action" where
  "resolve_range_value eref v observation =
     bindR (ok_or stale_observation (hm_get (obs_elements observation) eref)) (\<lambda>element.
     bindR (ok_or no_range_error (del_range_value element)) (\<lambda>range.
     if \<not> del_enabled element \<or> arv_read_only range \<or> f64_lt v (arv_minimum range) \<or>
        f64_lt (arv_maximum range) v
     then Inl range_bounds_error
     else Inr (D_SetRangeValue (del_key element) v)))"

definition resolve_screenshot_point ::
  "normalized_point \<Rightarrow> observation_record \<Rightarrow> cua_error + screen_point" where
  "resolve_screenshot_point point observation =
     ok_or unresolved_point_error
       (case obs_screenshot_mapping observation of
          None \<Rightarrow> None
        | Some mapping \<Rightarrow>
            (case to_pixel point (sm_pixel_size mapping) of
               None \<Rightarrow> None
             | Some pixel \<Rightarrow> to_screen mapping pixel))"

definition element_key :: "observation_record \<Rightarrow> element_ref \<Rightarrow> cua_error + string" where
  "element_key observation eref =
     bindR (ok_or stale_observation (hm_get (obs_elements observation) eref)) (\<lambda>e. Inr (del_key e))"

fun resolve_action_body :: "action \<Rightarrow> observation_record \<Rightarrow> cua_error + driver_action" where
  "resolve_action_body FocusWindow ob = Inr D_FocusWindow"
| "resolve_action_body (SetWindowBounds b) ob = Inr (D_SetWindowBounds b)"
| "resolve_action_body (SetWindowMinimized b) ob = Inr (D_SetWindowMinimized b)"
| "resolve_action_body TerminateApplication ob = Inr D_TerminateApplication"
| "resolve_action_body (FocusElement e) ob = bindR (element_key ob e) (\<lambda>k. Inr (D_FocusElement k))"
| "resolve_action_body (InvokeElement e) ob = bindR (element_key ob e) (\<lambda>k. Inr (D_InvokeElement k))"
| "resolve_action_body (ClickPoint p b c d) ob =
     bindR (resolve_screenshot_point p ob) (\<lambda>q. Inr (D_ClickPoint q b c d))"
| "resolve_action_body (PressPoint p b d) ob =
     bindR (resolve_screenshot_point p ob) (\<lambda>q. Inr (D_PressPoint q b d))"
| "resolve_action_body (SetValue e v) ob = bindR (element_key ob e) (\<lambda>k. Inr (D_SetValue k v))"
| "resolve_action_body (SetRangeValue e v) ob = resolve_range_value e v ob"
| "resolve_action_body (ToggleElement e) ob = bindR (element_key ob e) (\<lambda>k. Inr (D_ToggleElement k))"
| "resolve_action_body (SelectElement e) ob = bindR (element_key ob e) (\<lambda>k. Inr (D_SelectElement k))"
| "resolve_action_body (SetExpanded e b) ob = bindR (element_key ob e) (\<lambda>k. Inr (D_SetExpanded k b))"
| "resolve_action_body (MovePointer p d) ob =
     bindR (resolve_screenshot_point p ob) (\<lambda>q. Inr (D_MovePointer q d))"
| "resolve_action_body (TypeText t) ob = Inr (D_TypeText t)"
| "resolve_action_body (PressKeys ks) ob = Inr (D_PressKeys ks)"
| "resolve_action_body (Scroll p dx dy) ob =
     bindR (resolve_screenshot_point p ob) (\<lambda>q. Inr (D_Scroll q dx dy))"
| "resolve_action_body (Drag p q d) ob =
     bindR (resolve_screenshot_point p ob) (\<lambda>p'.
     bindR (resolve_screenshot_point q ob) (\<lambda>q'. Inr (D_Drag p' q' d)))"

definition resolve_action :: "action \<Rightarrow> observation_record \<Rightarrow> cua_error + driver_action" where
  "resolve_action act observation =
     bindR (validate_scene_delivery act observation) (\<lambda>_. resolve_action_body act observation)"

section \<open>Reference tables\<close>

text \<open>
  A table of references: the forward map resolves a reference, the backward map finds the one a
  driver key already has. They are inverse to each other, and every reference was minted before
  the counter reached \<open>n\<close>.
\<close>

definition table_ok ::
  "('v \<Rightarrow> string) \<Rightarrow> (nat \<Rightarrow> 'r) \<Rightarrow> nat \<Rightarrow> ('r, 'v) hm \<Rightarrow> (string, 'r) hm \<Rightarrow> bool" where
  "table_ok key mint n fwd bwd \<longleftrightarrow>
     hm_wf fwd \<and> hm_wf bwd \<and>
     (\<forall>r v. hm_get fwd r = Some v \<longrightarrow> hm_get bwd (key v) = Some r \<and> (\<exists>i < n. r = mint i)) \<and>
     (\<forall>k r. hm_get bwd k = Some r \<longrightarrow> (\<exists>v. hm_get fwd r = Some v \<and> key v = k))"

lemma table_okI:
  assumes "hm_wf fwd" "hm_wf bwd"
    and "\<And>r v. hm_get fwd r = Some v \<Longrightarrow> hm_get bwd (key v) = Some r"
    and "\<And>r v. hm_get fwd r = Some v \<Longrightarrow> \<exists>i < n. r = mint i"
    and "\<And>k r. hm_get bwd k = Some r \<Longrightarrow> \<exists>v. hm_get fwd r = Some v \<and> key v = k"
  shows "table_ok key mint n fwd bwd"
  using assms unfolding table_ok_def by blast

lemma table_okD:
  assumes "table_ok key mint n fwd bwd"
  shows "hm_wf fwd" "hm_wf bwd"
    and "hm_get fwd r = Some v \<Longrightarrow> hm_get bwd (key v) = Some r"
    and "hm_get fwd r = Some v \<Longrightarrow> \<exists>i < n. r = mint i"
    and "hm_get bwd k = Some r \<Longrightarrow> \<exists>v. hm_get fwd r = Some v \<and> key v = k"
  using assms unfolding table_ok_def by blast+

lemma table_ok_update:
  assumes "table_ok key mint n fwd bwd" "hm_get bwd (key v) = Some r"
  shows "table_ok key mint n (hm_insert r v fwd) bwd"
proof (rule table_okI)
  note ok = table_okD [OF assms(1)]
  show "hm_wf (hm_insert r v fwd)" "hm_wf bwd" using ok(1,2) by simp_all
  obtain u where u: "hm_get fwd r = Some u" "key u = key v" using ok(5) [OF assms(2)] by blast
  show "hm_get bwd (key v') = Some r'" if "hm_get (hm_insert r v fwd) r' = Some v'" for r' v'
    using that assms(2) ok(3) by (simp split: if_splits)
  show "\<exists>i < n. r' = mint i" if "hm_get (hm_insert r v fwd) r' = Some v'" for r' v'
    using that ok(4) [of r' v'] ok(4) [OF u(1)] by (cases "r' = r") simp_all
  show "\<exists>v'. hm_get (hm_insert r v fwd) r' = Some v' \<and> key v' = k" if "hm_get bwd k = Some r'" for k r'
    using ok(5) [OF that] u by (cases "r' = r") auto
qed

lemma table_ok_extend:
  assumes "table_ok key mint n fwd bwd" "hm_get bwd (key v) = None" "inj mint"
  shows "table_ok key mint (n + 1) (hm_insert (mint n) v fwd) (hm_insert (key v) (mint n) bwd)"
proof (rule table_okI)
  note ok = table_okD [OF assms(1)]
  have new: "r \<noteq> mint n" if "hm_get fwd r = Some v'" for r v'
    using ok(4) [OF that] assms(3) by (auto simp: inj_eq)
  have newk: "key v' \<noteq> key v" if "hm_get fwd r = Some v'" for r v'
    using ok(3) [OF that] assms(2) by auto
  show "hm_wf (hm_insert (mint n) v fwd)" "hm_wf (hm_insert (key v) (mint n) bwd)" using ok(1,2) by simp_all
  show "hm_get (hm_insert (key v) (mint n) bwd) (key v') = Some r'"
    if "hm_get (hm_insert (mint n) v fwd) r' = Some v'" for r' v'
    using that ok(3) [of r' v'] newk [of r' v'] by (simp split: if_splits)
  show "\<exists>i < n + 1. r' = mint i" if "hm_get (hm_insert (mint n) v fwd) r' = Some v'" for r' v'
  proof (cases "r' = mint n")
    case False
    with that ok(4) [of r' v'] obtain i where "i < n" "r' = mint i" by auto
    then show ?thesis by (intro exI [of _ i]) simp
  qed auto
  show "\<exists>v'. hm_get (hm_insert (mint n) v fwd) r' = Some v' \<and> key v' = k"
    if "hm_get (hm_insert (key v) (mint n) bwd) k = Some r'" for k r'
  proof (cases "k = key v")
    case False
    with that ok(5) [of k r'] obtain v' where "hm_get fwd r' = Some v'" "key v' = k" by auto
    with new show ?thesis by (intro exI [of _ v']) auto
  qed (use that in simp)
qed

locale reference_table =
  fixes key :: "'v \<Rightarrow> string"
    and fwd :: "'s \<Rightarrow> ('r, 'v) hm"
    and bwd :: "'s \<Rightarrow> (string, 'r) hm"
    and project :: "'v \<Rightarrow> nat \<Rightarrow> 's \<Rightarrow> 'r \<times> nat \<times> 's"
    and mint :: "nat \<Rightarrow> 'r"
  assumes project_known: "hm_get (bwd s) (key v) = Some r \<Longrightarrow>
      \<exists>s'. project v n s = (r, n, s') \<and> fwd s' = hm_insert r v (fwd s) \<and> bwd s' = bwd s"
    and project_fresh: "hm_get (bwd s) (key v) = None \<Longrightarrow>
      \<exists>s'. project v n s = (mint n, n + 1, s') \<and> fwd s' = hm_insert (mint n) v (fwd s) \<and>
        bwd s' = hm_insert (key v) (mint n) (bwd s)"
begin

lemma project_lookup:
  assumes "project v n s = (r, n', s')"
  shows "hm_get (fwd s') r = Some v"
proof (cases "hm_get (bwd s) (key v)")
  case None
  from project_fresh [OF this, of n] assms show ?thesis by auto
next
  case (Some r0)
  from project_known [OF this, of n] assms show ?thesis by auto
qed

lemma project_keeps_ok:
  assumes ok: "table_ok key mint n (fwd s) (bwd s)" and "inj mint"
    and p: "project v n s = (r, n', s')"
  shows "table_ok key mint n' (fwd s') (bwd s')"
proof (cases "hm_get (bwd s) (key v)")
  case None
  from project_fresh [OF None, of n] p table_ok_extend [OF ok None \<open>inj mint\<close>] show ?thesis by auto
next
  case (Some r0)
  from project_known [OF Some, of n] p table_ok_update [OF ok Some] show ?thesis by auto
qed

text \<open>A reference keeps the identity of what it names.\<close>

lemma project_stable:
  assumes ok: "table_ok key mint n (fwd s) (bwd s)" and "inj mint"
    and p: "project v n s = (r, n', s')" and get: "hm_get (fwd s) r0 = Some w"
  shows "\<exists>w'. hm_get (fwd s') r0 = Some w' \<and> key w' = key w \<and> (key w \<noteq> key v \<longrightarrow> w' = w)"
proof (cases "hm_get (bwd s) (key v)")
  case None
  with p project_fresh [OF None, of n] have s': "fwd s' = hm_insert (mint n) v (fwd s)" by auto
  from table_okD(4) [OF ok get] obtain i where "i < n" "r0 = mint i" by blast
  with \<open>inj mint\<close> have "r0 \<noteq> mint n" by (simp add: inj_eq)
  with s' get show ?thesis by simp
next
  case (Some r1)
  with p project_known [OF Some, of n] have s': "fwd s' = hm_insert r1 v (fwd s)" by auto
  from table_okD(5) [OF ok Some] obtain u where "hm_get (fwd s) r1 = Some u" "key u = key v" by blast
  with get s' show ?thesis by auto
qed

text \<open>Two keys never share a reference.\<close>

lemma project_injective:
  assumes ok: "table_ok key mint n (fwd s) (bwd s)" and "inj mint"
    and p: "project v n s = (r, n', s')" and q: "project w n' s' = (r', n'', s'')"
  shows "r = r' \<longleftrightarrow> key v = key w"
proof -
  note ok' = project_keeps_ok [OF ok \<open>inj mint\<close> p]
  note look = project_lookup [OF p]
  show ?thesis
  proof
    assume "r = r'"
    with project_stable [OF ok' \<open>inj mint\<close> q look] project_lookup [OF q] show "key v = key w" by auto
  next
    assume "key v = key w"
    with table_okD(3) [OF ok' look] have "hm_get (bwd s') (key w) = Some r" by simp
    with q project_known [of s' w r n'] show "r = r'" by auto
  qed
qed

end

interpretation app_table: reference_table dapp_key applications application_refs
  "project_application uuid" "\<lambda>n. AppRef (''app_'' @ uuid n)" for uuid
  by unfold_locales (simp_all add: project_application_def Let_def)

interpretation window_table: reference_table dw_key windows window_refs
  "project_window uuid" "\<lambda>n. WindowRef (''window_'' @ uuid n)" for uuid
  by unfold_locales (simp_all add: project_window_def Let_def)

interpretation display_table: reference_table dd_key displays display_refs
  "project_display uuid" "\<lambda>n. DisplayRef (''display_'' @ uuid n)" for uuid
  by unfold_locales (simp_all add: project_display_def Let_def)

abbreviation window_table_ok :: "uuid_source \<Rightarrow> nat \<Rightarrow> session_state \<Rightarrow> bool" where
  "window_table_ok uuid n st \<equiv>
     table_ok dw_key (\<lambda>i. WindowRef (''window_'' @ uuid i)) n (windows st) (window_refs st)"

lemma inj_mint: "inj uuid \<Longrightarrow> inj (\<lambda>i. WindowRef (''window_'' @ uuid i))"
  by (auto simp: inj_def)

text \<open>
  A window reference issued by a session names the same native window for ever: listing
  windows again refreshes the record behind the reference but never its driver key, the listed
  window resolves through the reference that listing returned, and two windows with different
  keys never share a reference.
\<close>

theorem window_refs_stable:
  assumes "inj uuid" "window_table_ok uuid n st"
    and "project_window uuid w n st = (r, n', st')"
  shows "window_table_ok uuid n' st' \<and> hm_get (windows st') r = Some w \<and>
    (\<forall>r0 w0. hm_get (windows st) r0 = Some w0 \<longrightarrow>
       (\<exists>w1. hm_get (windows st') r0 = Some w1 \<and> dw_key w1 = dw_key w0 \<and> (r0 = r \<longleftrightarrow> dw_key w0 = dw_key w)))"
proof -
  note inj = inj_mint [OF assms(1)]
  note ok' = window_table.project_keeps_ok [OF assms(2) inj assms(3)]
  note look = window_table.project_lookup [OF assms(3)]
  have "\<exists>w1. hm_get (windows st') r0 = Some w1 \<and> dw_key w1 = dw_key w0 \<and> (r0 = r \<longleftrightarrow> dw_key w0 = dw_key w)"
    if get: "hm_get (windows st) r0 = Some w0" for r0 w0
  proof -
    from window_table.project_stable [OF assms(2) inj assms(3) get]
    obtain w1 where w1: "hm_get (windows st') r0 = Some w1" "dw_key w1 = dw_key w0" by blast
    moreover have "dw_key w1 = dw_key w \<longrightarrow> r0 = r"
      using table_okD(3) [OF ok' w1(1)] table_okD(3) [OF ok' look] by auto
    moreover have "r0 = r \<longrightarrow> dw_key w1 = dw_key w" using w1 look by auto
    ultimately show ?thesis by auto
  qed
  with ok' look show ?thesis by blast
qed

theorem window_refs_stable_witness:
  "let uuid = (\<lambda>n. replicate n CHR ''a''); w = \<lparr>dw_key = ''k'', dw_application = undefined, dw_title = [],
       dw_screen_bounds = undefined, dw_state = WS_Normal, dw_visible = True, dw_foreground = False\<rparr>;
     (r, n', st') = project_window uuid w 0 new_session_state
   in window_table_ok uuid n' st' \<and> hm_get (windows st') r = Some w"
proof -
  let ?uuid = "\<lambda>n. replicate n CHR ''a''"
  have inj: "inj ?uuid" by (rule injI) (metis length_replicate)
  have ok: "window_table_ok ?uuid 0 new_session_state" by (simp add: table_ok_def new_session_state_def)
  show ?thesis unfolding Let_def
    using window_refs_stable [OF inj ok] by (auto split: prod.split)
qed

section \<open>Observation records\<close>

lemma hm_wf_fold_remove: "hm_wf m \<Longrightarrow> hm_wf (fold (\<lambda>(k, _). hm_remove k) ks m)"
  by (induction ks arbitrary: m) auto

lemma hm_get_fold_remove:
  "hm_get (fold (\<lambda>(k, _). hm_remove k) ks m) k = (if k \<in> fst ` set ks then None else hm_get m k)"
  by (induction ks arbitrary: m) auto

lemma hm_len_fold_remove:
  assumes "hm_wf m" "distinct (map fst ks)" "\<And>k. k \<in> fst ` set ks \<Longrightarrow> hm_get m k \<noteq> None"
  shows "hm_len (fold (\<lambda>(k, _). hm_remove k) ks m) + length ks = hm_len m"
  using assms
proof (induction ks arbitrary: m)
  case (Cons p ks)
  have "Suc (hm_len (hm_remove (fst p) m)) = hm_len m"
    using Cons.prems by (intro hm.len_remove) auto
  moreover have "hm_len (fold (\<lambda>(k, _). hm_remove k) ks (hm_remove (fst p) m)) + length ks =
      hm_len (hm_remove (fst p) m)"
    using Cons.prems by (intro Cons.IH) (simp_all, metis image_eqI)
  ultimately show ?case by (cases p) simp
qed simp

definition created_order :: "(observation_id, observation_record) hm \<Rightarrow> (observation_id \<times> instant) list" where
  "created_order m = sort_key snd (map (\<lambda>(oid, r). (oid, obs_created_at r)) m)"

lemma created_order_facts:
  assumes "hm_wf m"
  shows "distinct (map fst (created_order m))" "length (created_order m) = hm_len m"
    "sorted (map snd (created_order m))"
    "(oid, c) \<in> set (created_order m) \<longleftrightarrow> (\<exists>r. hm_get m oid = Some r \<and> c = obs_created_at r)"
proof -
  have "mset (map fst (created_order m)) = mset (map fst m)"
    unfolding created_order_def mset_map mset_sort by (simp add: image_mset.compositionality comp_def case_prod_beta)
  then have "distinct (map fst (created_order m)) = distinct (map fst m)" by (rule mset_eq_imp_distinct_iff)
  with assms show "distinct (map fst (created_order m))" by (simp add: hm_wf_def)
  show "length (created_order m) = hm_len m" by (simp add: created_order_def hm_len_def)
  show "sorted (map snd (created_order m))" by (simp add: created_order_def)
  show "(oid, c) \<in> set (created_order m) \<longleftrightarrow> (\<exists>r. hm_get m oid = Some r \<and> c = obs_created_at r)"
    unfolding hm_get_iff_in_set [OF assms] by (auto simp: created_order_def image_iff Bex_def)
qed

lemma trim_observations_eq:
  "trim_observations limit st =
     (if hm_len (observations st) < limit then st
      else st\<lparr>observations := fold (\<lambda>(oid, _). hm_remove oid)
        (take (hm_len (observations st) - limit + 1) (created_order (observations st))) (observations st)\<rparr>)"
  by (simp add: trim_observations_def Let_def created_order_def)

lemma trim_observations_wf:
  "hm_wf (observations st) \<Longrightarrow> hm_wf (observations (trim_observations limit st))"
  by (simp add: trim_observations_eq hm_wf_fold_remove)

lemma trim_observations_get:
  "hm_get (observations (trim_observations limit st)) oid = Some r \<Longrightarrow> hm_get (observations st) oid = Some r"
  by (simp add: trim_observations_eq hm_get_fold_remove split: if_splits)

lemma trim_observations_len:
  assumes "hm_wf (observations st)" "0 < limit"
  shows "hm_len (observations (trim_observations limit st)) =
    min (hm_len (observations st)) (limit - 1)"
proof (cases "hm_len (observations st) < limit")
  case False
  let ?m = "observations st"
  let ?ks = "take (hm_len ?m - limit + 1) (created_order ?m)"
  have "hm_get ?m k \<noteq> None" if "k \<in> fst ` set ?ks" for k
    using that created_order_facts(4) [OF assms(1)] by (auto dest!: in_set_takeD)
  moreover have "distinct (map fst ?ks)"
    using created_order_facts(1) [OF assms(1)] by (simp add: take_map [symmetric])
  ultimately have "hm_len (fold (\<lambda>(k, _). hm_remove k) ?ks ?m) + length ?ks = hm_len ?m"
    using assms(1) by (intro hm_len_fold_remove) auto
  moreover have "length ?ks = hm_len ?m - limit + 1"
    using False assms(2) by (simp add: created_order_facts(2) [OF assms(1)])
  ultimately show ?thesis using False assms(2) by (simp add: trim_observations_eq)
qed (use assms in \<open>simp add: trim_observations_eq\<close>)

lemma trim_observations_oldest:
  assumes wf: "hm_wf (observations st)"
    and kept: "hm_get (observations (trim_observations limit st)) k = Some rk"
    and gone: "hm_get (observations st) d = Some rd" "hm_get (observations (trim_observations limit st)) d = None"
  shows "obs_created_at rd \<le> obs_created_at rk"
proof -
  let ?m = "observations st"
  let ?o = "created_order ?m" and ?c = "hm_len (observations st) - limit + 1"
  have big: "\<not> hm_len ?m < limit" using gone by (auto simp: trim_observations_eq)
  have d: "d \<in> fst ` set (take ?c ?o)"
    using gone big by (simp add: trim_observations_eq hm_get_fold_remove split: if_splits)
  have k: "k \<notin> fst ` set (take ?c ?o)" "hm_get ?m k = Some rk"
    using kept big by (simp_all add: trim_observations_eq hm_get_fold_remove split: if_splits)
  from d obtain c where c: "(d, c) \<in> set (take ?c ?o)" by auto
  then have cd: "c = obs_created_at rd"
    using created_order_facts(4) [OF wf, of d c] gone(1) by (auto dest: in_set_takeD)
  have "(k, obs_created_at rk) \<in> set ?o" using created_order_facts(4) [OF wf] k(2) by blast
  moreover have "(k, obs_created_at rk) \<notin> set (take ?c ?o)" using k(1) by force
  moreover have "set ?o = set (take ?c ?o) \<union> set (drop ?c ?o)"
    unfolding set_append [symmetric] by simp
  ultimately have "(k, obs_created_at rk) \<in> set (drop ?c ?o)" by blast
  then have kd: "obs_created_at rk \<in> set (map snd (drop ?c ?o))" by force
  have "sorted (map snd (take ?c ?o) @ map snd (drop ?c ?o))"
    unfolding map_append [symmetric] using created_order_facts(3) [OF wf] by simp
  moreover have "c \<in> set (map snd (take ?c ?o))" using c by force
  ultimately show ?thesis using kd cd unfolding sorted_append by blast
qed

text \<open>
  Trimming observations makes room for exactly one more under the limit, never removes
  more than it must, and evicts oldest first: a record that is kept is at least as new as every
  record that was dropped.
\<close>

theorem trim_observations_exact:
  assumes "hm_wf (observations st)" "0 < limit"
  shows "hm_len (observations (trim_observations limit st)) = min (hm_len (observations st)) (limit - 1) \<and>
    (\<forall>k rk d rd. hm_get (observations (trim_observations limit st)) k = Some rk \<longrightarrow>
       hm_get (observations st) d = Some rd \<longrightarrow>
       hm_get (observations (trim_observations limit st)) d = None \<longrightarrow>
       obs_created_at rd \<le> obs_created_at rk)"
  using trim_observations_len [OF assms] trim_observations_oldest [OF assms(1)] by blast

definition example_state :: session_state where
  "example_state = new_session_state
     \<lparr>observations := [(ObservationId ''a'', undefined), (ObservationId ''b'', undefined)]\<rparr>"

theorem trim_observations_exact_witness:
  "hm_len (observations (trim_observations 2 example_state)) = 1"
proof -
  have "hm_wf (observations example_state)" "hm_len (observations example_state) = 2"
    by (simp_all add: example_state_def hm_wf_def hm_len_def)
  then show ?thesis using trim_observations_exact [THEN conjunct1, of example_state 2] by simp
qed

section \<open>Projecting an observation\<close>


lemma assign_refs_covers:
  "k \<in> del_key ` set es \<or> hm_get m k \<noteq> None \<Longrightarrow> hm_get (fst (assign_refs uuid es n m)) k \<noteq> None"
  by (induction es arbitrary: n m) auto

lemma assign_refs_counter: "snd (assign_refs uuid es n m) = n + length es"
  by (induction es arbitrary: n m) auto


lemma project_elements_total:
  "(\<And>e. e \<in> set es \<Longrightarrow> hm_get refs (del_key e) \<noteq> None) \<Longrightarrow>
    \<exists>internal' public. project_elements refs es internal = Some (internal', public)"
proof (induction es arbitrary: internal)
  case (Cons e es)
  from Cons.prems [of e] obtain r where "hm_get refs (del_key e) = Some r" by auto
  moreover from Cons.IH [of "hm_insert r e internal"] Cons.prems
  obtain internal' public where "project_elements refs es (hm_insert r e internal) = Some (internal', public)"
    by auto
  ultimately show ?case by simp
qed simp




lemma project_observation_total:
  "\<exists>record public n'. project_observation uuid now ob wref mapping max_elements n = Some (record, public, n') \<and>
     n < n' \<and> obs_id record = ObservationId (''observation_'' @ uuid n) \<and> obs_status record = OS_Valid \<and>
     obs_window_ref record = wref \<and> obs_created_at record = now"
proof -
  let ?es = "take max_elements (dob_elements ob)"
  obtain internal public where
    "project_elements (fst (assign_refs uuid ?es (n + 1) [])) ?es [] = Some (internal, public)"
    using project_elements_total [of ?es "fst (assign_refs uuid ?es (n + 1) [])" "[]"]
      assign_refs_covers by blast
  then show ?thesis
    by (simp add: project_observation_def Let_def case_prod_beta assign_refs_counter)
qed


definition example_element :: "string \<Rightarrow> driver_element" where
  "example_element k =
     \<lparr>del_key = k, del_parent_key = None, del_role = ''button'', del_name = ''ok'', del_value = None,
      del_range_value = None, del_screen_bounds = None, del_enabled = True, del_focused = False,
      del_selected = None, del_checked = None, del_expanded = None, del_actions = []\<rparr>"

definition example_record :: observation_record where
  "example_record =
     \<lparr>obs_application_scene = False, obs_id = ObservationId ''o'', obs_window_ref = WindowRef ''w'',
      obs_screenshot_mapping = None, obs_fingerprint = [], obs_created_at = 0, obs_status = OS_Valid,
      obs_elements = [(ElementRef ''r'', example_element ''k'')]\<rparr>"



section \<open>Resolving actions\<close>

fun driver_action_kind :: "driver_action \<Rightarrow> action_kind" where
  "driver_action_kind D_FocusWindow = K_FocusWindow"
| "driver_action_kind (D_SetWindowBounds _) = K_SetWindowBounds"
| "driver_action_kind (D_SetWindowMinimized _) = K_SetWindowMinimized"
| "driver_action_kind D_TerminateApplication = K_TerminateApplication"
| "driver_action_kind (D_FocusElement _) = K_FocusElement"
| "driver_action_kind (D_InvokeElement _) = K_InvokeElement"
| "driver_action_kind (D_ClickPoint _ _ _ _) = K_ClickPoint"
| "driver_action_kind (D_PressPoint _ _ _) = K_PressPoint"
| "driver_action_kind (D_SetValue _ _) = K_SetValue"
| "driver_action_kind (D_SetRangeValue _ _) = K_SetRangeValue"
| "driver_action_kind (D_ToggleElement _) = K_ToggleElement"
| "driver_action_kind (D_SelectElement _) = K_SelectElement"
| "driver_action_kind (D_SetExpanded _ _) = K_SetExpanded"
| "driver_action_kind (D_MovePointer _ _) = K_MovePointer"
| "driver_action_kind (D_TypeText _) = K_TypeText"
| "driver_action_kind (D_PressKeys _) = K_PressKeys"
| "driver_action_kind (D_Scroll _ _ _) = K_Scroll"
| "driver_action_kind (D_Drag _ _ _) = K_Drag"

text \<open>The native keys and the screen points an action touches.\<close>

fun touched_keys :: "driver_action \<Rightarrow> string list" where
  "touched_keys (D_FocusElement k) = [k]"
| "touched_keys (D_InvokeElement k) = [k]"
| "touched_keys (D_SetValue k _) = [k]"
| "touched_keys (D_SetRangeValue k _) = [k]"
| "touched_keys (D_ToggleElement k) = [k]"
| "touched_keys (D_SelectElement k) = [k]"
| "touched_keys (D_SetExpanded k _) = [k]"
| "touched_keys _ = []"

fun touched_points :: "driver_action \<Rightarrow> screen_point list" where
  "touched_points (D_ClickPoint p _ _ _) = [p]"
| "touched_points (D_PressPoint p _ _) = [p]"
| "touched_points (D_MovePointer p _) = [p]"
| "touched_points (D_Scroll p _ _) = [p]"
| "touched_points (D_Drag p q _) = [p, q]"
| "touched_points _ = []"

definition inside_screenshot :: "observation_record \<Rightarrow> screen_point \<Rightarrow> bool" where
  "inside_screenshot ob p =
     (case obs_screenshot_mapping ob of
        None \<Rightarrow> False
      | Some m \<Rightarrow> sane_rect (sm_screen_bounds m) \<longrightarrow> rect_contains (sm_screen_bounds m) p)"

lemma to_screen_inside:
  assumes "sane_rect (sm_screen_bounds m)" "to_screen m px = Some p"
  shows "rect_contains (sm_screen_bounds m) p"
proof -
  have "size_contains (sm_pixel_size m) px"
    using assms(2) by (auto simp: to_screen_def Let_def split: if_splits)
  with assms show ?thesis
    by (auto simp: to_screen_def Let_def rect_contains_def sane_rect_def size_contains_def
        sane_extent_pos to_screen_axis_bounds split: if_splits)
qed

lemma resolve_screenshot_point_inside:
  "resolve_screenshot_point pt ob = Inr p \<Longrightarrow> inside_screenshot ob p"
  by (auto simp: resolve_screenshot_point_def inside_screenshot_def to_screen_inside split: option.splits)

lemma element_key_known: "element_key ob r = Inr k \<Longrightarrow> \<exists>r e. hm_get (obs_elements ob) r = Some e \<and> k = del_key e"
  by (auto simp: element_key_def bindR_eq_Inr)

lemma resolve_range_value_known:
  "resolve_range_value r v ob = Inr da \<Longrightarrow>
    \<exists>r e. hm_get (obs_elements ob) r = Some e \<and> da = D_SetRangeValue (del_key e) v"
  by (auto simp: resolve_range_value_def bindR_eq_Inr early_return_Inr)

lemmas resolve_facts = resolve_screenshot_point_inside element_key_known resolve_range_value_known

text \<open>
  Claim C30. What the driver is asked to do is what the client asked for, on what the client saw:
  a resolved action has the requested kind, every native key it touches belongs to an element of
  the guarded observation, every point lies inside the screen area of its screenshot, and an
  application-scene observation never yields a background click.
\<close>

theorem resolve_action_faithful:
  assumes "resolve_action act ob = Inr da"
  shows "driver_action_kind da = kind act \<and>
    (\<forall>k \<in> set (touched_keys da). \<exists>r e. hm_get (obs_elements ob) r = Some e \<and> del_key e = k) \<and>
    (\<forall>p \<in> set (touched_points da). inside_screenshot ob p) \<and>
    (obs_application_scene ob \<longrightarrow> \<not> is_background_click act) \<and>
    (supports_foreground_restoration da \<longrightarrow> requires_foreground act)"
proof -
  have body: "resolve_action_body act ob = Inr da" and scene: "obs_application_scene ob \<longrightarrow> \<not> is_background_click act"
    using assms by (auto simp: resolve_action_def validate_scene_delivery_def bindR_eq_Inr split: if_splits)
  have "driver_action_kind da = kind act \<and>
    (\<forall>k \<in> set (touched_keys da). \<exists>r e. hm_get (obs_elements ob) r = Some e \<and> del_key e = k) \<and>
    (\<forall>p \<in> set (touched_points da). inside_screenshot ob p)"
    using body by (cases act) (auto simp: bindR_eq_Inr dest!: resolve_facts; blast)+
  moreover have "supports_foreground_restoration da \<longrightarrow> requires_foreground act"
  proof (cases act)
    case (ClickPoint p b c d)
    with body show ?thesis by (cases d) (auto simp: bindR_eq_Inr)
  qed (use body in \<open>auto simp: bindR_eq_Inr dest!: resolve_range_value_known\<close>)
  ultimately show ?thesis using scene by blast
qed

theorem resolve_action_faithful_witness:
  "driver_action_kind (D_InvokeElement ''k'') = K_InvokeElement \<and>
   (\<exists>r e. hm_get (obs_elements example_record) r = Some e \<and> del_key e = ''k'')"
  using resolve_action_faithful [of "InvokeElement (ElementRef ''r'')" example_record "D_InvokeElement ''k''"]
  by (simp add: resolve_action_def validate_scene_delivery_def element_key_def example_record_def
      example_element_def hm_get_def)

end
