(* ===== verification/Artifacts.thy ===== *)
theory Artifacts
  imports Sessions "HOL-Library.Sublist"
begin

text \<open>
  Transient screenshot storage, from \<^verbatim>\<open>crates/runtime/src/artifact_store.rs\<close>: conversion of a
  captured image, bounded per-session retention, verified reads and takes, and the lock protocol
  that lets a new runtime generation remove dead ones.

  The file system is a finite map from paths to entries. The PNG encoder, the SHA-256 digest and
  the resolution of symbolic links are code outside the repository and enter as parameters. An
  I/O call that may fail takes its outcome from a record of faults, so every error path of the
  source is a branch.
\<close>

section \<open>Paths and files\<close>

type_synonym path = "string list"
type_synonym bytes = "u8 list"

datatype fs_entry = Regular bytes | Symlink path | Directory

type_synonym files = "(path, fs_entry) hm"

definition path_to_string :: "path \<Rightarrow> string" where
  "path_to_string p = concat (map (\<lambda>c. CHR ''/'' # c) p)"

fun split_slash :: "string \<Rightarrow> string list" where
  "split_slash [] = [[]]"
| "split_slash (c # cs) =
     (if c = CHR ''/'' then [] # split_slash cs
      else case split_slash cs of [] \<Rightarrow> [[c]] | h # t \<Rightarrow> (c # h) # t)"

definition path_from_string :: "string \<Rightarrow> path" where
  "path_from_string s = filter (\<lambda>c. c \<noteq> []) (split_slash s)"

fun session_id_str :: "session_id \<Rightarrow> string" where
  "session_id_str (SessionId s) = s"

fun artifact_ref_str :: "artifact_ref \<Rightarrow> string" where
  "artifact_ref_str (ArtifactRef s) = s"

definition remove_tree :: "path \<Rightarrow> files \<Rightarrow> files" where
  "remove_tree dir = hm_retain (\<lambda>p _. \<not> prefix dir p)"

text \<open>Outcomes of the I/O calls; \<open>io_write\<close> is the number of bytes written before a failure.\<close>

record io_faults =
  io_create_dir :: bool
  io_chmod :: bool
  io_open :: bool
  io_write :: "nat option"
  io_remove :: bool
  io_read :: bool

definition no_faults :: io_faults where
  "no_faults = \<lparr>io_create_dir = True, io_chmod = True, io_open = True, io_write = None,
     io_remove = True, io_read = True\<rparr>"

section \<open>Image conversion\<close>

definition u64_mul :: "nat \<Rightarrow> nat \<Rightarrow> nat" where
  "u64_mul a b = (a * b) mod 2 ^ 64"

definition u64_add :: "nat \<Rightarrow> nat \<Rightarrow> nat" where
  "u64_add a b = (a + b) mod 2 ^ 64"

definition checked_mul_u64 :: "nat \<Rightarrow> nat \<Rightarrow> nat option" where
  "checked_mul_u64 a b = (if a * b < 2 ^ 64 then Some (a * b) else None)"

definition source_coordinate :: "nat \<Rightarrow> nat \<Rightarrow> nat \<Rightarrow> nat" where
  "source_coordinate v source_len output_len = u64_mul v source_len div output_len"

definition pixel_offset :: "rgba_image \<Rightarrow> pixel_size \<Rightarrow> nat \<Rightarrow> nat \<Rightarrow> nat" where
  "pixel_offset img out x y =
     (let source_y = source_coordinate y (unat (img_height img)) (unat (ps_height out));
          source_x = source_coordinate x (unat (img_width img)) (unat (ps_width out))
      in u64_mul (u64_add (u64_mul source_y (unat (img_width img))) source_x) 4)"

definition blend_channel :: "u8 \<Rightarrow> u8 \<Rightarrow> u8" where
  "blend_channel alpha channel =
     of_nat ((unat channel * unat alpha + 255 * (255 - unat alpha) + 127) div 255)"

text \<open>\<open>None\<close> is the panic of a slice index out of range.\<close>

definition rgb_pixel :: "bytes \<Rightarrow> nat \<Rightarrow> bytes option" where
  "rgb_pixel pixels offset =
     (if offset + 4 \<le> length pixels
      then Some (map (blend_channel (pixels ! (offset + 3))) (take 3 (drop offset pixels)))
      else None)"

definition rgb_row :: "rgba_image \<Rightarrow> pixel_size \<Rightarrow> nat \<Rightarrow> bytes option" where
  "rgb_row img out y =
     map_option concat
       (those (map (\<lambda>x. rgb_pixel (img_pixels img) (pixel_offset img out x y)) [0..<unat (ps_width out)]))"

definition rgb_pixels :: "rgba_image \<Rightarrow> pixel_size \<Rightarrow> bytes option" where
  "rgb_pixels img out = map_option concat (those (map (rgb_row img out) [0..<unat (ps_height out)]))"

section \<open>The store\<close>

record artifact_store =
  ast_root :: path
  ast_max_image_pixels :: u64
  ast_max_image_edge :: u32
  ast_max_artifacts_per_session :: nat
  ast_artifacts :: "(session_id, path list) hm"
  ast_files :: files

datatype png_failure = PngHeader | PngData

definition io_error :: cua_error where
  "io_error =
     public_error Internal ''transient artifact storage is unavailable'' True
       (Some ''retry_after_storage_recovery'')"

definition invalid_image :: "string \<Rightarrow> cua_error" where
  "invalid_image message = public_error DriverFailure message False None"

definition io_check :: "bool \<Rightarrow> cua_error + unit" where
  "io_check ok = (if ok then Inr () else Inl io_error)"

definition png_error :: "png_failure \<Rightarrow> cua_error" where
  "png_error f =
     (case f of PngHeader \<Rightarrow> invalid_image ''failed to initialize PNG encoder''
      | PngData \<Rightarrow> invalid_image ''failed to encode PNG image'')"

definition session_queue :: "artifact_store \<Rightarrow> session_id \<Rightarrow> path list" where
  "session_queue self sid = (case hm_get (ast_artifacts self) sid of None \<Rightarrow> [] | Some q \<Rightarrow> q)"

definition register_artifact ::
  "io_faults \<Rightarrow> session_id \<Rightarrow> path \<Rightarrow> artifact_store \<Rightarrow> (cua_error + unit) \<times> artifact_store" where
  "register_artifact io sid path self =
     (let q = session_queue self sid @ [path];
          evicted = (if ast_max_artifacts_per_session self < length q then Some (hd q) else None);
          q' = (if evicted = None then q else tl q);
          self' = self\<lparr>ast_artifacts := hm_insert sid q' (ast_artifacts self)\<rparr>
      in case evicted of
           None \<Rightarrow> (Inr (), self')
         | Some old \<Rightarrow>
             if io_remove io \<and> hm_get (ast_files self') old \<noteq> None
             then (Inr (), self'\<lparr>ast_files := hm_remove old (ast_files self')\<rparr>)
             else (Inl io_error, self'))"

definition image_pixel_count :: "artifact_store \<Rightarrow> rgba_image \<Rightarrow> cua_error + unit" where
  "image_pixel_count self img =
     bindR (ok_or (invalid_image ''image dimensions overflow'')
              (checked_mul_u64 (unat (img_width img)) (unat (img_height img)))) (\<lambda>pixel_count.
     if img_width img = 0 \<or> img_height img = 0 \<or> unat (ast_max_image_pixels self) < pixel_count
     then Inl (invalid_image ''image dimensions are outside the supported range'')
     else bindR (ok_or (invalid_image ''image buffer length overflows this platform'')
                   (checked_mul_u64 pixel_count 4)) (\<lambda>expected_bytes.
     if length (img_pixels img) \<noteq> expected_bytes
     then Inl (invalid_image ''image buffer length does not match RGBA dimensions'')
     else Inr ()))"

definition encode_image ::
  "(u32 \<Rightarrow> u32 \<Rightarrow> bytes \<Rightarrow> png_failure + bytes) \<Rightarrow> artifact_store \<Rightarrow> rgba_image \<Rightarrow> cua_error + (pixel_size \<times> bytes)" where
  "encode_image png self img =
     bindR (ok_or (invalid_image ''invalid image budget'')
       (fit_long_edge \<lparr>ps_width = img_width img, ps_height = img_height img\<rparr> (ast_max_image_edge self))) (\<lambda>out.
     bindR (ok_or (invalid_image ''panic: slice index out of range'') (rgb_pixels img out)) (\<lambda>rgb.
     bindR (map_err png_error (png (ps_width out) (ps_height out) rgb)) (\<lambda>png_bytes.
     Inr (out, png_bytes))))"

text \<open>Creating and writing the file: \<^verbatim>\<open>create_new\<close> refuses an existing path.\<close>

definition write_new_file :: "io_faults \<Rightarrow> path \<Rightarrow> bytes \<Rightarrow> files \<Rightarrow> (cua_error + unit) \<times> files" where
  "write_new_file io path content fs =
     (if \<not> io_open io \<or> hm_get fs path \<noteq> None then (Inl io_error, fs)
      else case io_write io of
          None \<Rightarrow> (Inr (), hm_insert path (Regular content) fs)
        | Some k \<Rightarrow> (Inl io_error, hm_insert path (Regular (take k content)) fs))"

definition artifact_path :: "artifact_store \<Rightarrow> session_id \<Rightarrow> artifact_ref \<Rightarrow> path" where
  "artifact_path self sid aref =
     ast_root self @ [session_id_str sid, artifact_ref_str aref @ ''.png'']"

definition store_image ::
  "(bytes \<Rightarrow> string) \<Rightarrow> io_faults \<Rightarrow> session_id \<Rightarrow> artifact_ref \<Rightarrow> screen_rect \<Rightarrow> pixel_size \<Rightarrow> bytes \<Rightarrow>
   artifact_store \<Rightarrow> (cua_error + screenshot_artifact) \<times> artifact_store" where
  "store_image sha io sid aref bounds out png_bytes self =
     (let path = artifact_path self sid aref
      in case write_new_file io path png_bytes (ast_files self) of
           (Inl e, fs) \<Rightarrow> (Inl e, self\<lparr>ast_files := fs\<rparr>)
         | (Inr _, fs) \<Rightarrow>
             (case register_artifact io sid path (self\<lparr>ast_files := fs\<rparr>) of
                (Inl e, self') \<Rightarrow> (Inl e, self')
              | (Inr _, self') \<Rightarrow>
                  (Inr \<lparr>sa_artifact_ref = aref, sa_path = path_to_string path,
                        sa_mime_type = ''image/png'',
                        sa_mapping = \<lparr>sm_screen_bounds = bounds, sm_pixel_size = out\<rparr>,
                        sa_byte_length = of_nat (length png_bytes), sa_sha256 = sha png_bytes\<rparr>,
                   self')))"

definition write_image ::
  "(u32 \<Rightarrow> u32 \<Rightarrow> bytes \<Rightarrow> png_failure + bytes) \<Rightarrow> (bytes \<Rightarrow> string) \<Rightarrow> uuid_source \<Rightarrow> io_faults \<Rightarrow>
   session_id \<Rightarrow> rgba_image \<Rightarrow> screen_rect \<Rightarrow> nat \<Rightarrow> artifact_store \<Rightarrow>
   (cua_error + screenshot_artifact) \<times> nat \<times> artifact_store" where
  "write_image png sha uuid io sid img bounds n self =
     (case image_pixel_count self img of
        Inl e \<Rightarrow> (Inl e, n, self)
      | Inr _ \<Rightarrow>
          let aref = ArtifactRef (''artifact_'' @ uuid n)
          in case bindR (io_check (io_create_dir io)) (\<lambda>_. bindR (io_check (io_chmod io))
                    (\<lambda>_. encode_image png self img)) of
               Inl e \<Rightarrow> (Inl e, n + 1, self)
             | Inr (out, png_bytes) \<Rightarrow>
                 (case store_image sha io sid aref bounds out png_bytes self of
                    (r, self') \<Rightarrow> (r, n + 1, self')))"

definition remove_session :: "io_faults \<Rightarrow> session_id \<Rightarrow> artifact_store \<Rightarrow> artifact_store" where
  "remove_session io sid self =
     (let self' = self\<lparr>ast_artifacts := hm_remove sid (ast_artifacts self)\<rparr>;
          path = ast_root self @ [session_id_str sid]
      in if butlast path = ast_root self \<and> io_remove io
         then self'\<lparr>ast_files := remove_tree path (ast_files self')\<rparr>
         else self')"

definition is_registered :: "artifact_store \<Rightarrow> path \<Rightarrow> bool" where
  "is_registered self path = list_ex (\<lambda>q. List.member q path) (hm_values (ast_artifacts self))"

definition read_artifact ::
  "(files \<Rightarrow> path \<Rightarrow> path option) \<Rightarrow> (bytes \<Rightarrow> string) \<Rightarrow> io_faults \<Rightarrow> artifact_store \<Rightarrow> screenshot_artifact \<Rightarrow>
   u64 \<Rightarrow> cua_error + bytes" where
  "read_artifact canon sha io self artifact max_bytes =
     (if max_bytes = 0 \<or> sa_mime_type artifact \<noteq> ''image/png'' \<or> sa_byte_length artifact = 0 \<or>
         max_bytes < sa_byte_length artifact
      then Inl (invalid_image ''screenshot artifact is outside the read bound'')
      else let path = path_from_string (sa_path artifact)
      in case hm_get (ast_files self) path of
           None \<Rightarrow> Inl io_error
         | Some (Symlink _) \<Rightarrow> Inl (invalid_image ''screenshot artifact identity changed'')
         | Some Directory \<Rightarrow> Inl (invalid_image ''screenshot artifact identity changed'')
         | Some (Regular content) \<Rightarrow>
             if length content \<noteq> unat (sa_byte_length artifact) \<or> path = [] \<or>
                last path \<noteq> artifact_ref_str (sa_artifact_ref artifact) @ ''.png''
             then Inl (invalid_image ''screenshot artifact identity changed'')
             else bindR (ok_or io_error (canon (ast_files self) path)) (\<lambda>canonical.
               if \<not> prefix (ast_root self) canonical \<or> \<not> is_registered self canonical
               then Inl (invalid_image ''screenshot artifact is not runtime-owned'')
               else case (hm_get (ast_files self) canonical, io_read io) of
                   (Some (Regular b), True) \<Rightarrow>
                     if length b \<noteq> unat (sa_byte_length artifact) \<or> sha b \<noteq> sa_sha256 artifact
                     then Inl (invalid_image ''screenshot artifact digest changed'')
                     else Inr b
                 | _ \<Rightarrow> Inl io_error))"

definition unregister_path :: "path \<Rightarrow> (session_id, path list) hm \<Rightarrow> (session_id, path list) hm" where
  "unregister_path path m =
     hm_retain (\<lambda>_ q. q \<noteq> []) (hm_map (filter (\<lambda>candidate. candidate \<noteq> path)) m)"

definition take_artifact ::
  "(files \<Rightarrow> path \<Rightarrow> path option) \<Rightarrow> (bytes \<Rightarrow> string) \<Rightarrow> io_faults \<Rightarrow> artifact_store \<Rightarrow> screenshot_artifact \<Rightarrow>
   u64 \<Rightarrow> (cua_error + bytes) \<times> artifact_store" where
  "take_artifact canon sha io self artifact max_bytes =
     (case bindR (read_artifact canon sha io self artifact max_bytes) (\<lambda>content.
           bindR (ok_or io_error (canon (ast_files self) (path_from_string (sa_path artifact)))) (\<lambda>path.
           if \<not> prefix (ast_root self) path
           then Inl (invalid_image ''screenshot artifact is not runtime-owned'')
           else bindR (io_check (io_remove io)) (\<lambda>_. Inr (content, path)))) of
        Inl e \<Rightarrow> (Inl e, self)
      | Inr (content, path) \<Rightarrow>
          (Inr content,
           self\<lparr>ast_files := hm_remove path (ast_files self),
                ast_artifacts := unregister_path path (ast_artifacts self)\<rparr>))"

section \<open>Generations\<close>

text \<open>
  An entry of the base directory: whether it is a directory, whether it has a \<^verbatim>\<open>.lease\<close> file and
  whether a live runtime holds the lock on it.
\<close>

record generation_entry =
  ge_name :: string
  ge_is_dir :: bool
  ge_has_lease :: bool
  ge_locked :: bool

definition is_stale_generation :: "generation_entry \<Rightarrow> bool" where
  "is_stale_generation e \<longleftrightarrow>
     ge_is_dir e \<and> prefix ''runtime_'' (ge_name e) \<and> ge_has_lease e \<and> \<not> ge_locked e"

fun reap_stale_generations ::
  "(generation_entry \<Rightarrow> bool) \<Rightarrow> generation_entry list \<Rightarrow> (cua_error + unit) \<times> generation_entry list" where
  "reap_stale_generations remove_ok [] = (Inr (), [])"
| "reap_stale_generations remove_ok (e # es) =
     (if is_stale_generation e
      then if remove_ok e then reap_stale_generations remove_ok es else (Inl io_error, e # es)
      else case reap_stale_generations remove_ok es of (r, es') \<Rightarrow> (r, e # es'))"

definition prepare_generation ::
  "uuid_source \<Rightarrow> (generation_entry \<Rightarrow> bool) \<Rightarrow> io_faults \<Rightarrow> nat \<Rightarrow> generation_entry list \<Rightarrow>
   (cua_error + string) \<times> nat \<times> generation_entry list" where
  "prepare_generation uuid remove_ok io n es =
     (case reap_stale_generations remove_ok es of
        (Inl e, es') \<Rightarrow> (Inl e, n, es')
      | (Inr _, es') \<Rightarrow>
          let name = ''runtime_'' @ uuid n
          in if \<not> io_create_dir io \<or> name \<in> ge_name ` set es' then (Inl io_error, n + 1, es')
             else if \<not> io_chmod io \<or> \<not> io_open io
             then (Inl io_error, n + 1,
                   \<lparr>ge_name = name, ge_is_dir = True, ge_has_lease = False, ge_locked = False\<rparr> # es')
             else (Inr name, n + 1,
                   \<lparr>ge_name = name, ge_is_dir = True, ge_has_lease = True, ge_locked = True\<rparr> # es'))"

definition real_directory_error :: cua_error where
  "real_directory_error =
     public_error InvalidRequest ''artifact root must be a real directory'' False None"

definition artifact_store_new ::
  "uuid_source \<Rightarrow> (generation_entry \<Rightarrow> bool) \<Rightarrow> io_faults \<Rightarrow> (path \<times> fs_entry) option \<Rightarrow> u64 \<Rightarrow> nat \<Rightarrow> u32 \<Rightarrow>
   nat \<Rightarrow> generation_entry list \<Rightarrow> (cua_error + artifact_store) \<times> nat \<times> generation_entry list" where
  "artifact_store_new uuid remove_ok io requested max_image_pixels max_artifacts max_image_edge n es =
     (case requested of
        None \<Rightarrow> (Inl io_error, n, es)
      | Some (base, entry) \<Rightarrow>
          if entry \<noteq> Directory then (Inl real_directory_error, n, es)
          else if \<not> io_chmod io then (Inl io_error, n, es)
          else (case prepare_generation uuid remove_ok io n es of
                  (Inl e, n', es') \<Rightarrow> (Inl e, n', es')
                | (Inr name, n', es') \<Rightarrow>
                    (Inr \<lparr>ast_root = base @ [name], ast_max_image_pixels = max_image_pixels,
                          ast_max_image_edge = max_image_edge,
                          ast_max_artifacts_per_session = max_artifacts, ast_artifacts = [],
                          ast_files = []\<rparr>, n', es')))"

text \<open>Dropping the store releases its lease and removes its generation directory, best effort.\<close>

definition drop_store :: "io_faults \<Rightarrow> artifact_store \<Rightarrow> artifact_store" where
  "drop_store io self =
     (if io_remove io then self\<lparr>ast_files := remove_tree (ast_root self) (ast_files self)\<rparr> else self)"

section \<open>Image conversion is total and in bounds\<close>

lemma those_map_Some: "(\<And>x. x \<in> set xs \<Longrightarrow> f x = Some (g x)) \<Longrightarrow> those (map f xs) = Some (map g xs)"
  by (induction xs) auto

lemma source_coordinate_less:
  assumes "v < out" "0 < len" "len < 2 ^ 32" "out < 2 ^ 32"
  shows "source_coordinate v len out < len"
proof -
  have "v * len < 2 ^ 32 * 2 ^ 32" using assms by (intro mult_strict_mono) simp_all
  then have e: "u64_mul v len = v * len" by (simp add: u64_mul_def)
  have "v * len < len * out" using assms by (simp add: mult.commute)
  then show ?thesis unfolding source_coordinate_def e by (simp add: less_mult_imp_div_less)
qed

lemma pixel_offset_in_bounds:
  assumes "x < unat (ps_width out)" "y < unat (ps_height out)"
    and "img_width img \<noteq> 0" "img_height img \<noteq> 0"
    and "unat (img_width img) * unat (img_height img) * 4 < 2 ^ 64"
  shows "pixel_offset img out x y + 4 \<le> unat (img_width img) * unat (img_height img) * 4"
proof -
  let ?w = "unat (img_width img)" and ?h = "unat (img_height img)"
  let ?sy = "source_coordinate y ?h (unat (ps_height out))" and ?sx = "source_coordinate x ?w (unat (ps_width out))"
  have sx: "?sx < ?w" and sy: "?sy < ?h"
    using assms by (intro source_coordinate_less unat_less_u32; simp add: unat_gt_0)+
  have "?sy * ?w + ?w \<le> ?h * ?w" using sy by (metis add.commute mult_Suc mult_le_mono1 Suc_leI)
  then have b: "?sy * ?w + ?sx + 1 \<le> ?w * ?h" using sx by (simp add: mult.commute)
  then have "(?sy * ?w + ?sx) * 4 < 2 ^ 64" using assms(5) by (simp add: algebra_simps)
  then have lt: "?sy * ?w < 2 ^ 64" "?sy * ?w + ?sx < 2 ^ 64" "(?sy * ?w + ?sx) * 4 < 2 ^ 64"
    by simp_all
  have "pixel_offset img out x y = (?sy * ?w + ?sx) * 4"
    unfolding pixel_offset_def Let_def u64_mul_def u64_add_def using lt by simp
  with b show ?thesis by simp
qed

lemma blend_channel_value:
  "unat (blend_channel alpha channel) = (unat channel * unat alpha + 255 * (255 - unat alpha) + 127) div 255"
proof -
  have a: "unat alpha \<le> 255" and c: "unat channel \<le> 255"
    using unsigned_less [of alpha, where ?'a = nat] unsigned_less [of channel, where ?'a = nat] by simp_all
  have "unat channel * unat alpha \<le> 255 * unat alpha" using c by (intro mult_right_mono) simp_all
  then have "unat channel * unat alpha + 255 * (255 - unat alpha) \<le> 255 * 255" using a by linarith
  then have "(unat channel * unat alpha + 255 * (255 - unat alpha) + 127) div 255 < 256"
    by (simp add: div_less_iff_less_mult)
  then show ?thesis unfolding blend_channel_def by (simp add: unat_of_nat take_bit_nat_eq_self)
qed

definition rgb_at :: "rgba_image \<Rightarrow> pixel_size \<Rightarrow> nat \<Rightarrow> nat \<Rightarrow> bytes" where
  "rgb_at img out x y =
     (let offset = pixel_offset img out x y
      in map (blend_channel (img_pixels img ! (offset + 3))) (take 3 (drop offset (img_pixels img))))"

definition full_buffer :: "rgba_image \<Rightarrow> bool" where
  "full_buffer img \<longleftrightarrow> img_width img \<noteq> 0 \<and> img_height img \<noteq> 0 \<and>
     length (img_pixels img) = unat (img_width img) * unat (img_height img) * 4 \<and>
     length (img_pixels img) < 2 ^ 64"

lemma image_pixel_count_ok:
  "image_pixel_count self img = Inr () \<Longrightarrow> full_buffer img \<and>
     unat (img_width img) * unat (img_height img) \<le> unat (ast_max_image_pixels self)"
  by (auto simp: image_pixel_count_def bindR_eq_Inr early_return_Inr checked_mul_u64_def full_buffer_def
      not_less split: if_splits)

lemma rgb_row_eval:
  assumes "full_buffer img" "y < unat (ps_height out)"
  shows "rgb_row img out y = Some (concat (map (\<lambda>x. rgb_at img out x y) [0..<unat (ps_width out)]))"
proof -
  have "rgb_pixel (img_pixels img) (pixel_offset img out x y) = Some (rgb_at img out x y)"
    if "x < unat (ps_width out)" for x
    using pixel_offset_in_bounds [OF that assms(2), of img] assms(1)
    by (simp add: rgb_pixel_def rgb_at_def Let_def full_buffer_def mult.commute)
  then show ?thesis unfolding rgb_row_def by (subst those_map_Some [where g = "\<lambda>x. rgb_at img out x y"]) auto
qed

lemma length_rgb_at:
  assumes "full_buffer img" "x < unat (ps_width out)" "y < unat (ps_height out)"
  shows "length (rgb_at img out x y) = 3"
  using pixel_offset_in_bounds [OF assms(2,3), of img] assms(1)
  by (simp add: rgb_at_def Let_def full_buffer_def mult.commute)

lemma rgb_pixels_eval:
  assumes "full_buffer img"
  shows "rgb_pixels img out = Some (concat (map (\<lambda>y. concat (map (\<lambda>x. rgb_at img out x y)
    [0..<unat (ps_width out)])) [0..<unat (ps_height out)]))"
  unfolding rgb_pixels_def
  by (subst those_map_Some [where g = "\<lambda>y. concat (map (\<lambda>x. rgb_at img out x y) [0..<unat (ps_width out)])"])
    (auto simp: rgb_row_eval [OF assms])

lemma length_concat_const: "(\<And>x. x \<in> set xs \<Longrightarrow> length (f x) = k) \<Longrightarrow> length (concat (map f xs)) = length xs * k"
  by (induction xs) auto

text \<open>
  Converting a captured image never reads outside its buffer: for every image that
  passes the size checks of \<^verbatim>\<open>write_image\<close> and every output size, the conversion returns exactly
  three bytes per output pixel in row order, blended over white without leaving the byte range;
  an opaque pixel keeps its colour.
\<close>

theorem rgb_pixels_total:
  assumes "image_pixel_count store img = Inr ()"
  shows "\<exists>rgb. rgb_pixels img out = Some rgb \<and>
    length rgb = unat (ps_height out) * (unat (ps_width out) * 3) \<and>
    blend_channel 255 c = c \<and> blend_channel 0 c = 255"
proof -
  have fb: "full_buffer img" using image_pixel_count_ok [OF assms] by simp
  have len: "length (concat (map (\<lambda>x. rgb_at img out x y) [0..<unat (ps_width out)])) = unat (ps_width out) * 3"
    if "y < unat (ps_height out)" for y
    by (subst length_concat_const [where k = 3]) (auto simp: length_rgb_at fb that)
  have c: "unat c \<le> 255" using unsigned_less [of c, where ?'a = nat] by simp
  have "unat (blend_channel 255 c) = unat c" "unat (blend_channel 0 c) = 255"
    unfolding blend_channel_value using c by simp_all
  then have "blend_channel 255 c = c" "blend_channel 0 c = 255" by (simp_all add: word_unat_eq_iff)
  moreover have "length (concat (map (\<lambda>y. concat (map (\<lambda>x. rgb_at img out x y)
      [0..<unat (ps_width out)])) [0..<unat (ps_height out)])) = unat (ps_height out) * (unat (ps_width out) * 3)"
    by (subst length_concat_const [where k = "unat (ps_width out) * 3"]) (auto simp: len simp del: length_concat)
  ultimately show ?thesis unfolding rgb_pixels_eval [OF fb] by blast
qed

section \<open>Paths\<close>

definition plain_component :: "string \<Rightarrow> bool" where
  "plain_component c \<longleftrightarrow> c \<noteq> [] \<and> CHR ''/'' \<notin> set c"

lemma split_slash_ne [simp]: "split_slash s \<noteq> []"
  by (induction s) (auto split: list.splits)

lemma split_slash_component:
  "CHR ''/'' \<notin> set c \<Longrightarrow> split_slash (c @ s) = (c @ hd (split_slash s)) # tl (split_slash s)"
  by (induction c) auto

lemma path_round_trip:
  "list_all plain_component p \<Longrightarrow> path_from_string (path_to_string p) = p"
proof (induction p)
  case (Cons c p)
  then have c: "CHR ''/'' \<notin> set c" "c \<noteq> []" by (simp_all add: plain_component_def)
  have "split_slash (path_to_string p) = [] # tl (split_slash (path_to_string p))"
    by (cases p) (simp_all add: path_to_string_def)
  then have hd: "hd (split_slash (path_to_string p)) = []" by (metis list.sel(1))
  then have tl: "filter (\<lambda>c. c \<noteq> []) (tl (split_slash (path_to_string p))) = p"
    using Cons by (cases "split_slash (path_to_string p)") (auto simp: path_from_string_def)
  have "path_to_string (c # p) = CHR ''/'' # c @ path_to_string p" by (simp add: path_to_string_def)
  then show ?case using c hd tl by (simp add: path_from_string_def split_slash_component)
qed (simp add: path_from_string_def path_to_string_def)

section \<open>The store keeps its bounds\<close>

definition session_dir :: "artifact_store \<Rightarrow> session_id \<Rightarrow> path" where
  "session_dir self sid = ast_root self @ [session_id_str sid]"

definition store_ok :: "artifact_store \<Rightarrow> bool" where
  "store_ok self \<longleftrightarrow>
     hm_wf (ast_artifacts self) \<and> hm_wf (ast_files self) \<and> 0 < ast_max_artifacts_per_session self \<and>
     (\<forall>sid q. hm_get (ast_artifacts self) sid = Some q \<longrightarrow>
        length q \<le> ast_max_artifacts_per_session self \<and> (\<forall>p \<in> set q. prefix (session_dir self sid) p))"

lemma store_okD:
  assumes "store_ok self"
  shows "hm_wf (ast_artifacts self)" "hm_wf (ast_files self)" "0 < ast_max_artifacts_per_session self"
    and "hm_get (ast_artifacts self) sid = Some q \<Longrightarrow> length q \<le> ast_max_artifacts_per_session self"
    and "hm_get (ast_artifacts self) sid = Some q \<Longrightarrow> p \<in> set q \<Longrightarrow> prefix (session_dir self sid) p"
  using assms unfolding store_ok_def by blast+

lemma store_okI:
  assumes "hm_wf (ast_artifacts self)" "hm_wf (ast_files self)" "0 < ast_max_artifacts_per_session self"
    and "\<And>sid q. hm_get (ast_artifacts self) sid = Some q \<Longrightarrow> length q \<le> ast_max_artifacts_per_session self"
    and "\<And>sid q p. hm_get (ast_artifacts self) sid = Some q \<Longrightarrow> p \<in> set q \<Longrightarrow> prefix (session_dir self sid) p"
  shows "store_ok self"
  using assms unfolding store_ok_def by blast

lemma store_ok_queue:
  assumes "store_ok self"
  shows "length (session_queue self sid) \<le> ast_max_artifacts_per_session self"
    and "p \<in> set (session_queue self sid) \<Longrightarrow> prefix (session_dir self sid) p"
  using assms by (auto simp: session_queue_def split: option.splits intro: store_okD(4,5) dest: sym)

definition next_queue :: "artifact_store \<Rightarrow> session_id \<Rightarrow> path \<Rightarrow> path list" where
  "next_queue self sid path =
     (let q = session_queue self sid @ [path]
      in if ast_max_artifacts_per_session self < length q then tl q else q)"

lemma register_artifact_index:
  "ast_artifacts (snd (register_artifact io sid path self)) =
     hm_insert sid (next_queue self sid path) (ast_artifacts self)"
  "ast_root (snd (register_artifact io sid path self)) = ast_root self"
  "ast_max_artifacts_per_session (snd (register_artifact io sid path self)) = ast_max_artifacts_per_session self"
  by (auto simp: register_artifact_def Let_def next_queue_def)

lemma register_artifact_files:
  "hm_wf (ast_files self) \<Longrightarrow> hm_wf (ast_files (snd (register_artifact io sid path self)))"
  "hm_get (ast_files (snd (register_artifact io sid path self))) p \<in> {hm_get (ast_files self) p, None}"
  by (auto simp: register_artifact_def Let_def)

lemma register_artifact_ok:
  assumes "store_ok self" "prefix (session_dir self sid) path"
  shows "store_ok (snd (register_artifact io sid path self))"
proof -
  let ?s = "snd (register_artifact io sid path self)"
  note ok = store_okD [OF assms(1)] and q = store_ok_queue [OF assms(1), where sid = sid]
  have dir: "session_dir ?s = session_dir self" by (simp add: session_dir_def fun_eq_iff register_artifact_index)
  have len: "length (next_queue self sid path) \<le> ast_max_artifacts_per_session self"
    using q(1) by (simp add: next_queue_def Let_def)
  have mem: "prefix (session_dir self sid) p" if "p \<in> set (next_queue self sid path)" for p
    using that q(2) assms(2) by (cases "session_queue self sid") (auto simp: next_queue_def Let_def split: if_splits)
  show ?thesis
  proof (rule store_okI)
    show "length r \<le> ast_max_artifacts_per_session ?s" if "hm_get (ast_artifacts ?s) s = Some r" for s r
      using that ok(4) [of s r] len by (simp add: register_artifact_index split: if_splits)
    show "prefix (session_dir ?s s) p" if "hm_get (ast_artifacts ?s) s = Some r" "p \<in> set r" for s r p
      using that ok(5) [of s r p] mem by (simp add: register_artifact_index dir split: if_splits)
  qed (use ok in \<open>simp_all add: register_artifact_index register_artifact_files\<close>)
qed

lemma artifact_path_in_dir: "prefix (session_dir self sid) (artifact_path self sid aref)"
  by (simp add: session_dir_def artifact_path_def)

lemma write_new_file_wf: "hm_wf fs \<Longrightarrow> hm_wf (snd (write_new_file io path b fs))"
  by (auto simp: write_new_file_def split: option.splits)

lemma store_ok_files: "store_ok self \<Longrightarrow> hm_wf fs \<Longrightarrow> store_ok (self\<lparr>ast_files := fs\<rparr>)"
  by (simp add: store_ok_def session_dir_def)

lemma store_image_ok:
  assumes "store_ok self"
  shows "store_ok (snd (store_image sha io sid aref bounds out b self))"
proof -
  let ?p = "artifact_path self sid aref"
  obtain r fs where w: "write_new_file io ?p b (ast_files self) = (r, fs)" by fastforce
  have ok: "store_ok (self\<lparr>ast_files := fs\<rparr>)"
    using store_ok_files [OF assms] write_new_file_wf [OF store_okD(2) [OF assms], of io ?p b] w by simp
  have "prefix (session_dir (self\<lparr>ast_files := fs\<rparr>) sid) ?p"
    using artifact_path_in_dir [of self sid aref] by (simp add: session_dir_def)
  from register_artifact_ok [OF ok this, of io] ok show ?thesis
    using w by (auto simp: store_image_def Let_def split: sum.splits prod.splits)
qed

lemma store_image_okD:
  "store_image sha io sid aref bounds out b self = (r, self') \<Longrightarrow> store_ok self \<Longrightarrow> store_ok self'"
  using store_image_ok [of self sha io sid aref bounds out b] by simp

lemma write_image_ok:
  "store_ok self \<Longrightarrow> store_ok (snd (snd (write_image png sha uuid io sid img bounds n self)))"
  by (auto simp: write_image_def Let_def store_image_okD split: sum.splits prod.splits)

lemma remove_session_ok: "store_ok self \<Longrightarrow> store_ok (remove_session io sid self)"
  by (auto simp: remove_session_def Let_def store_ok_def session_dir_def remove_tree_def split: if_splits)

lemma unregister_path_get:
  assumes "hm_wf m" "hm_get (unregister_path path m) sid = Some q"
  shows "\<exists>q0. hm_get m sid = Some q0 \<and> q = filter (\<lambda>c. c \<noteq> path) q0"
  using assms by (auto simp: unregister_path_def hm_get_retain split: option.splits if_splits)

lemma take_artifact_ok:
  assumes "store_ok self"
  shows "store_ok (snd (take_artifact canon sha io self artifact max_bytes))"
proof -
  note ok = store_okD [OF assms]
  have "store_ok (self\<lparr>ast_files := hm_remove p (ast_files self),
      ast_artifacts := unregister_path p (ast_artifacts self)\<rparr>)" (is "store_ok ?s") for p
  proof (rule store_okI)
    show "hm_wf (ast_artifacts ?s)" using ok(1) by (simp add: unregister_path_def)
    show "length q \<le> ast_max_artifacts_per_session ?s" if "hm_get (ast_artifacts ?s) s = Some q" for s q
      using unregister_path_get [OF ok(1), of p s q] that ok(4) [of s]
      by (auto intro: order_trans [OF length_filter_le])
    show "prefix (session_dir ?s s) r" if "hm_get (ast_artifacts ?s) s = Some q" "r \<in> set q" for s q r
      using unregister_path_get [OF ok(1), of p s q] that ok(5) [of s] by (auto simp: session_dir_def)
  qed (use ok in simp_all)
  with assms show ?thesis by (auto simp: take_artifact_def split: sum.splits)
qed

inductive store_step :: "artifact_store \<Rightarrow> artifact_store \<Rightarrow> bool" where
  ss_write: "store_step s (snd (snd (write_image png sha uuid io sid img bounds n s)))"
| ss_take: "store_step s (snd (take_artifact canon sha io s artifact max_bytes))"
| ss_remove: "store_step s (remove_session io sid s)"

lemma store_step_ok: "store_step s s' \<Longrightarrow> store_ok s \<Longrightarrow> store_ok s'"
  by (induction rule: store_step.induct) (simp_all add: write_image_ok take_artifact_ok remove_session_ok)

lemma store_steps_ok: "store_step\<^sup>*\<^sup>* s s' \<Longrightarrow> store_ok s \<Longrightarrow> store_ok s'"
  by (induction rule: rtranclp_induct) (auto dest: store_step_ok)

lemma write_image_limit [simp]:
  "ast_max_artifacts_per_session (snd (snd (write_image png sha uuid io sid img bounds n s))) = ast_max_artifacts_per_session s"
  "ast_root (snd (snd (write_image png sha uuid io sid img bounds n s))) = ast_root s"
  by (auto simp: write_image_def store_image_def register_artifact_def Let_def split: sum.splits prod.splits if_splits)

lemma take_artifact_limit [simp]:
  "ast_max_artifacts_per_session (snd (take_artifact canon sha io s artifact m)) = ast_max_artifacts_per_session s"
  "ast_root (snd (take_artifact canon sha io s artifact m)) = ast_root s"
  by (auto simp: take_artifact_def split: sum.splits)

lemma remove_session_limit [simp]:
  "ast_max_artifacts_per_session (remove_session io sid s) = ast_max_artifacts_per_session s"
  "ast_root (remove_session io sid s) = ast_root s"
  by (auto simp: remove_session_def Let_def)

lemma store_steps_limit:
  "store_step\<^sup>*\<^sup>* s s' \<Longrightarrow>
     ast_max_artifacts_per_session s' = ast_max_artifacts_per_session s \<and> ast_root s' = ast_root s"
  by (induction rule: rtranclp_induct) (auto elim!: store_step.cases)

lemma artifact_store_new_ok:
  "artifact_store_new uuid remove_ok io requested px limit edge n es = (Inr s, n', es') \<Longrightarrow> 0 < limit \<Longrightarrow>
     store_ok s \<and> ast_max_artifacts_per_session s = limit"
  by (auto simp: artifact_store_new_def store_ok_def split: option.splits if_splits sum.splits prod.splits)

text \<open>
  Claim C37. Screenshot retention is bounded and partitioned: from a freshly opened store,
  whatever sequence of writes, takes and session removals runs, with I/O faults at any point, no
  session ever has more registered artifacts than configured, and every registered path of a
  session lies in that session's own directory under the store's generation.
\<close>

theorem artifact_retention:
  assumes "artifact_store_new uuid remove_ok io requested px limit edge n es = (Inr s0, n', es')"
    and "0 < limit" "store_step\<^sup>*\<^sup>* s0 s" "hm_get (ast_artifacts s) sid = Some q"
  shows "length q \<le> limit \<and> list_all (prefix (ast_root s0 @ [session_id_str sid])) q"
proof -
  have "store_ok s" using assms artifact_store_new_ok store_steps_ok by blast
  moreover have "ast_max_artifacts_per_session s = limit" "ast_root s = ast_root s0"
    using artifact_store_new_ok [OF assms(1,2)] store_steps_limit [OF assms(3)] by auto
  ultimately show ?thesis using store_okD(4,5) [OF _ assms(4)] by (auto simp: list_all_iff session_dir_def)
qed

section \<open>Writing, reading and taking\<close>

definition canonical_is_identity :: "(files \<Rightarrow> path \<Rightarrow> path option) \<Rightarrow> bool" where
  "canonical_is_identity canon \<longleftrightarrow>
     (\<forall>fs p. (\<exists>content. hm_get fs p = Some (Regular content)) \<longrightarrow> canon fs p = Some p)"

lemma in_hm_values: "hm_get m k = Some v \<Longrightarrow> v \<in> set (hm_values m)"
  by (auto simp: hm_values_def dest: hm_get_in_set intro: image_eqI [rotated])

lemma write_new_file_Inr:
  "write_new_file io p b fs = (Inr u, fs') \<Longrightarrow> hm_get fs p = None \<and> fs' = hm_insert p (Regular b) fs"
  by (auto simp: write_new_file_def split: if_splits option.splits)

lemma register_artifact_Inr:
  assumes "register_artifact io sid path self = (Inr u, self')" "store_ok self"
    and "path \<notin> set (session_queue self sid)"
  shows "hm_get (ast_files self') path = hm_get (ast_files self) path \<and> is_registered self' path \<and>
    ast_root self' = ast_root self"
proof -
  let ?q = "session_queue self sid"
  have ne: "?q \<noteq> [] \<and> hd (?q @ [path]) \<noteq> path" if "ast_max_artifacts_per_session self < length (?q @ [path])"
    using that store_okD(3) [OF assms(2)] assms(3) by (cases ?q) auto
  have mem: "path \<in> set (next_queue self sid path)"
    using ne by (cases ?q) (auto simp: next_queue_def Let_def)
  have idx: "ast_artifacts self' = hm_insert sid (next_queue self sid path) (ast_artifacts self)"
    "ast_root self' = ast_root self"
    using register_artifact_index [of io sid path self] assms(1) by simp_all
  then have "is_registered self' path"
    using mem in_hm_values [of "ast_artifacts self'" sid "next_queue self sid path"]
    by (auto simp: is_registered_def list_ex_iff)
  moreover have "hm_get (ast_files self') path = hm_get (ast_files self) path"
    using assms(1) ne by (auto simp: register_artifact_def Let_def split: if_splits)
  ultimately show ?thesis using idx by simp
qed

lemma store_image_Inr:
  assumes "store_image sha io sid aref bounds out b self = (Inr a, self')" "store_ok self"
    and "artifact_path self sid aref \<notin> set (session_queue self sid)"
  shows "hm_get (ast_files self') (artifact_path self sid aref) = Some (Regular b)"
    and "is_registered self' (artifact_path self sid aref)" and "ast_root self' = ast_root self"
    and "sa_path a = path_to_string (artifact_path self sid aref)" "sa_artifact_ref a = aref"
    and "sa_mime_type a = ''image/png''" "sa_byte_length a = of_nat (length b)" "sa_sha256 a = sha b"
    and "sm_pixel_size (sa_mapping a) = out" "sm_screen_bounds (sa_mapping a) = bounds"
proof -
  let ?p = "artifact_path self sid aref"
  obtain u fs where w: "write_new_file io ?p b (ast_files self) = (Inr u, fs)"
    using assms(1) by (auto simp: store_image_def Let_def split: sum.splits prod.splits)
  let ?s = "self\<lparr>ast_files := fs\<rparr>"
  obtain u' where r: "register_artifact io sid ?p ?s = (Inr u', self')"
    using assms(1) w by (auto simp: store_image_def Let_def split: sum.splits prod.splits)
  have "store_ok ?s" using store_ok_files assms(2) write_new_file_wf [OF store_okD(2)] w by (metis snd_conv)
  from register_artifact_Inr [OF r this] assms(3) write_new_file_Inr [OF w]
  show "hm_get (ast_files self') ?p = Some (Regular b)" "is_registered self' ?p" "ast_root self' = ast_root self"
    by (auto simp: session_queue_def)
qed (use assms(1) in \<open>auto simp: store_image_def Let_def split: sum.splits prod.splits\<close>)

lemma read_artifact_intro:
  assumes "hm_get (ast_files s) p = Some (Regular b)" "is_registered s p" "prefix (ast_root s) p"
    and "path_from_string (sa_path a) = p" "canonical_is_identity canon" "io_read io"
    and "sa_mime_type a = ''image/png''" "unat (sa_byte_length a) = length b" "b \<noteq> []"
    and "sa_byte_length a \<le> m" "sa_sha256 a = sha b" "p \<noteq> []"
    and "last p = artifact_ref_str (sa_artifact_ref a) @ ''.png''"
  shows "read_artifact canon sha io s a m = Inr b"
proof -
  have c: "canon (ast_files s) p = Some p" using assms(1,5) by (auto simp: canonical_is_identity_def)
  have nz: "sa_byte_length a \<noteq> 0" "m \<noteq> 0" "\<not> m < sa_byte_length a"
    using assms(8,9,10) by (auto simp: not_less)
  show ?thesis unfolding read_artifact_def Let_def using assms(1-4,6-13) c nz by simp
qed

text \<open>
  Claim C38. A returned screenshot is a readable screenshot: when a write succeeds, reading the
  returned artifact yields the encoded bytes whatever the retention limit evicted, and the
  artifact records their length, their digest, the size they were encoded at and the captured screen bounds.
\<close>

theorem write_then_read:
  assumes "write_image png sha uuid io sid img bounds n s = (Inr a, n', s')" "store_ok s"
    and "canonical_is_identity canon" "io_read io'"
    and "list_all plain_component (artifact_path s sid (ArtifactRef (''artifact_'' @ uuid n)))"
    and "artifact_path s sid (ArtifactRef (''artifact_'' @ uuid n)) \<notin> set (session_queue s sid)"
    and "length b < 2 ^ 64" "b \<noteq> []" "of_nat (length b) \<le> m"
    and "encode_image png s img = Inr (out, b)"
  shows "read_artifact canon sha io' s' a m = Inr b \<and> sa_sha256 a = sha b \<and>
    sm_pixel_size (sa_mapping a) = out \<and> sm_screen_bounds (sa_mapping a) = bounds"
proof -
  let ?aref = "ArtifactRef (''artifact_'' @ uuid n)"
  have st: "store_image sha io sid ?aref bounds out b s = (Inr a, s')"
    using assms(1,10) by (auto simp: write_image_def Let_def bindR_eq_Inr io_check_def split: sum.splits prod.splits if_splits)
  note i = store_image_Inr [OF st assms(2,6)]
  have "read_artifact canon sha io' s' a m = Inr b"
    using assms(3,4,7-9) path_round_trip [OF assms(5)] i
    by (intro read_artifact_intro [where p = "artifact_path s sid ?aref"])
      (simp_all add: unat_of_nat take_bit_nat_eq_self, simp_all add: artifact_path_def)
  then show ?thesis using i by simp
qed

text \<open>
  Taking a screenshot consumes it: a successful take returns bytes with the digest and
  length the artifact records, within the caller's bound, and afterwards the same artifact can
  neither be read nor taken again.
\<close>

theorem take_consumes:
  assumes "take_artifact canon sha io s a m = (Inr b, s')" "canonical_is_identity canon"
  shows "sha b = sa_sha256 a \<and> length b = unat (sa_byte_length a) \<and> sa_byte_length a \<le> m \<and>
    read_artifact canon sha io' s' a m' \<in> range Inl \<and>
    take_artifact canon sha io' s' a m' \<in> range (\<lambda>e. (Inl e, s'))"
proof -
  have rd: "read_artifact canon sha io s a m = Inr b"
    and s': "\<exists>p. canon (ast_files s) (path_from_string (sa_path a)) = Some p \<and>
      ast_files s' = hm_remove p (ast_files s)"
    using assms(1) by (auto simp: take_artifact_def bindR_eq_Inr bindR_eq_Inl split: sum.splits if_splits)
  from rd have reg: "\<exists>c. hm_get (ast_files s) (path_from_string (sa_path a)) = Some (Regular c)"
    by (auto simp: read_artifact_def Let_def split: if_splits option.splits fs_entry.splits)
  with assms(2) s' have "hm_get (ast_files s') (path_from_string (sa_path a)) = None"
    by (auto simp: canonical_is_identity_def)
  then have e: "\<exists>e. read_artifact canon sha io' s' a m' = Inl e" by (auto simp: read_artifact_def Let_def)
  have "sha b = sa_sha256 a \<and> length b = unat (sa_byte_length a) \<and> sa_byte_length a \<le> m"
    using rd by (auto simp: read_artifact_def Let_def bindR_eq_Inr not_less
      split: if_splits option.splits fs_entry.splits bool.splits)
  with e show ?thesis by (auto simp: take_artifact_def)
qed

section \<open>Dead generations\<close>

text \<open>
  Starting a runtime never removes a live generation's artifacts: reaping keeps every
  entry whose lease is locked, every foreign entry and their order, even when a removal fails
  midway; when it succeeds no stale generation is left, and the new generation it then creates
  holds its own lock.
\<close>

theorem reap_keeps_live_generations:
  "filter (\<lambda>e. \<not> is_stale_generation e) (snd (reap_stale_generations ok es)) =
     filter (\<lambda>e. \<not> is_stale_generation e) es \<and>
   (fst (reap_stale_generations ok es) = Inr () \<longrightarrow>
     list_all (\<lambda>e. \<not> is_stale_generation e) (snd (reap_stale_generations ok es))) \<and>
   (prepare_generation uuid ok io n es = (Inr name, n', es') \<longrightarrow>
     es' \<noteq> [] \<and> \<not> is_stale_generation (hd es') \<and> ge_name (hd es') = name \<and>
     tl es' = snd (reap_stale_generations ok es))"
proof -
  have "filter (\<lambda>e. \<not> is_stale_generation e) (snd (reap_stale_generations ok es)) =
     filter (\<lambda>e. \<not> is_stale_generation e) es"
    by (induction es) (auto split: prod.splits)
  moreover have "fst (reap_stale_generations ok es) = Inr () \<longrightarrow>
     list_all (\<lambda>e. \<not> is_stale_generation e) (snd (reap_stale_generations ok es))"
    by (induction es) (auto split: prod.splits)
  moreover have "prepare_generation uuid ok io n es = (Inr name, n', es') \<longrightarrow>
     es' \<noteq> [] \<and> \<not> is_stale_generation (hd es') \<and> ge_name (hd es') = name \<and>
     tl es' = snd (reap_stale_generations ok es)"
    by (auto simp: prepare_generation_def Let_def is_stale_generation_def split: sum.splits prod.splits if_splits)
  ultimately show ?thesis by blast
qed

section \<open>Concrete instances\<close>

definition one_pixel :: rgba_image where
  "one_pixel = \<lparr>img_width = 1, img_height = 1, img_pixels = [1, 2, 3, 255]\<rparr>"

definition small_store :: artifact_store where
  "small_store = \<lparr>ast_root = [''b'', ''runtime_u''], ast_max_image_pixels = 4, ast_max_image_edge = 4,
     ast_max_artifacts_per_session = 1, ast_artifacts = [], ast_files = []\<rparr>"

definition small_bounds :: screen_rect where
  "small_bounds = \<lparr>sr_x = Fin 0, sr_y = Fin 0, sr_width = Fin 1, sr_height = Fin 1\<rparr>"

definition small_path :: path where
  "small_path = [''b'', ''runtime_u'', ''s'', ''artifact_u.png'']"

definition full_store :: artifact_store where
  "full_store = small_store\<lparr>ast_artifacts := [(SessionId ''s'', [small_path])],
     ast_files := [(small_path, Regular [1, 2, 3])]\<rparr>"

definition small_artifact :: screenshot_artifact where
  "small_artifact = \<lparr>sa_artifact_ref = ArtifactRef ''artifact_u'', sa_path = path_to_string small_path,
     sa_mime_type = ''image/png'',
     sa_mapping = \<lparr>sm_screen_bounds = small_bounds, sm_pixel_size = \<lparr>ps_width = 1, ps_height = 1\<rparr>\<rparr>,
     sa_byte_length = 3, sa_sha256 = ''d''\<rparr>"

definition plain_png :: "u32 \<Rightarrow> u32 \<Rightarrow> bytes \<Rightarrow> png_failure + bytes" where
  "plain_png w h b = Inr b"

lemma one_pixel_count: "image_pixel_count small_store one_pixel = Inr ()"
  by (simp add: image_pixel_count_def small_store_def one_pixel_def checked_mul_u64_def)

theorem rgb_pixels_total_witness:
  "\<exists>rgb. rgb_pixels one_pixel \<lparr>ps_width = 2, ps_height = 5\<rparr> = Some rgb \<and>
    length rgb = 5 * (2 * 3) \<and> blend_channel 255 7 = 7 \<and> blend_channel 0 7 = 255"
  using rgb_pixels_total [OF one_pixel_count, of "\<lparr>ps_width = 2, ps_height = 5\<rparr>" 7] by simp

lemma small_encode: "encode_image plain_png small_store one_pixel = Inr (\<lparr>ps_width = 1, ps_height = 1\<rparr>, [1, 2, 3])"
proof -
  have "rgb_pixels one_pixel \<lparr>ps_width = 1, ps_height = 1\<rparr> = Some [1, 2, 3]"
    by (simp add: rgb_pixels_def rgb_row_def rgb_pixel_def one_pixel_def pixel_offset_def source_coordinate_def
        u64_mul_def u64_add_def blend_channel_def)
  then show ?thesis
    by (simp add: encode_image_def small_store_def one_pixel_def plain_png_def fit_long_edge_def)
qed

lemma small_write:
  "write_image plain_png (\<lambda>_. ''d'') (\<lambda>_. ''u'') no_faults (SessionId ''s'') one_pixel small_bounds 0 small_store =
     (Inr small_artifact, 1, full_store)"
  by (simp add: write_image_def one_pixel_count small_encode no_faults_def io_check_def)
    (simp add: store_image_def write_new_file_def register_artifact_def session_queue_def artifact_path_def
      small_artifact_def full_store_def small_store_def small_path_def hm_get_def hm_insert_def Let_def)

lemma small_store_new:
  "artifact_store_new (\<lambda>_. ''u'') (\<lambda>_. True) no_faults (Some ([''b''], Directory)) 4 1 4 0 [] =
     (Inr small_store, 1,
      [\<lparr>ge_name = ''runtime_u'', ge_is_dir = True, ge_has_lease = True, ge_locked = True\<rparr>])"
  by code_simp

lemma small_step: "store_step\<^sup>*\<^sup>* small_store full_store"
  using ss_write [of small_store plain_png "\<lambda>_. ''d''" "\<lambda>_. ''u''" no_faults "SessionId ''s''" one_pixel small_bounds 0]
  by (auto simp: small_write)

theorem artifact_retention_witness:
  "length [small_path] \<le> 1 \<and> list_all (prefix [''b'', ''runtime_u'', ''s'']) [small_path]"
  using artifact_retention [OF small_store_new _ small_step, of "SessionId ''s''" "[small_path]"]
  by (simp add: full_store_def small_store_def hm_get_def)

lemma small_store_ok: "store_ok small_store"
  by (simp add: store_ok_def small_store_def)

lemma small_canonical: "canonical_is_identity (\<lambda>_. Some)"
  by (simp add: canonical_is_identity_def)

theorem write_then_read_witness:
  "read_artifact (\<lambda>_. Some) (\<lambda>_. ''d'') no_faults full_store small_artifact 10 = Inr [1, 2, 3]"
proof -
  have "list_all plain_component (artifact_path small_store (SessionId ''s'') (ArtifactRef (''artifact_'' @ ''u'')))"
    by code_simp
  moreover have "session_queue small_store (SessionId ''s'') = []" by code_simp
  ultimately show ?thesis
    using write_then_read [OF small_write small_store_ok small_canonical, of no_faults "[1, 2, 3]" 10] small_encode
    by (simp add: no_faults_def)
qed

theorem take_consumes_witness:
  "read_artifact (\<lambda>_. Some) (\<lambda>_. ''d'') no_faults small_store small_artifact 10 \<in> range Inl"
proof -
  have p: "path_from_string (path_to_string small_path) = small_path" by code_simp
  have "take_artifact (\<lambda>_. Some) (\<lambda>_. ''d'') no_faults full_store small_artifact 10 = (Inr [1, 2, 3], small_store)"
    by (simp add: take_artifact_def read_artifact_def small_artifact_def p)
      (simp add: full_store_def small_store_def small_path_def hm_get_def hm_remove_def is_registered_def
        hm_values_def no_faults_def io_check_def unregister_path_def hm_map_def hm_retain_def)
  from take_consumes [OF this small_canonical, of no_faults 10] show ?thesis by blast
qed

theorem reap_keeps_live_generations_witness:
  "prepare_generation (\<lambda>_. ''u'') (\<lambda>_. True) no_faults 0 [] =
     (Inr ''runtime_u'', 1, [\<lparr>ge_name = ''runtime_u'', ge_is_dir = True, ge_has_lease = True, ge_locked = True\<rparr>]) \<and>
   \<not> is_stale_generation \<lparr>ge_name = ''runtime_u'', ge_is_dir = True, ge_has_lease = True, ge_locked = True\<rparr>"
proof -
  have p: "prepare_generation (\<lambda>_. ''u'') (\<lambda>_. True) no_faults 0 [] =
     (Inr ''runtime_u'', 1, [\<lparr>ge_name = ''runtime_u'', ge_is_dir = True, ge_has_lease = True, ge_locked = True\<rparr>])"
    by code_simp
  then show ?thesis
    using reap_keeps_live_generations [of "\<lambda>_. True" "[]" "\<lambda>_. ''u''" no_faults 0 "''runtime_u''" 1
      "[\<lparr>ge_name = ''runtime_u'', ge_is_dir = True, ge_has_lease = True, ge_locked = True\<rparr>]"] by simp
qed

end
