(* ===== verification/HostRegistry.thy ===== *)
theory HostRegistry
  imports HostEnvironment Artifacts
begin

text \<open>
  The registry of desktop workers (host/src/registry.rs): bounded registration, placement of finite
  leases on the least loaded matching worker, and affinity of a lease to the epoch of its worker.

  Every operation runs under the lock of the registry, so it is a function of the state and of the
  time at which it runs. Identifiers come from a source of fresh names \<open>uuid\<close>, numbered in the
  order of their use; the rendering of the wall clock is a parameter. A worker is a record of its
  operations over a state \<open>'s\<close> of its own; the number of the task that calls it is passed along.
\<close>

section \<open>Types\<close>

datatype worker_id = WorkerId (worker_id_str: string)
datatype worker_epoch = WorkerEpoch (worker_epoch_str: string)
datatype worker_lease_id = WorkerLeaseId (worker_lease_id_str: string)

record 's desktop_worker =
  dk_platform :: platform
  dk_environment :: environment_descriptor
  dk_dispatch :: "nat \<Rightarrow> request_id \<Rightarrow> u32 \<Rightarrow> command \<Rightarrow> ('s, response_envelope) prog"
  dk_read_artifact :: "screenshot_artifact \<Rightarrow> u64 \<Rightarrow> ('s, cua_error + bytes) prog"

record worker_descriptor =
  wd_worker_id :: worker_id
  wd_epoch :: worker_epoch
  wd_platform :: platform
  wd_environment :: environment_descriptor
  wd_max_leases :: nat
  wd_active_leases :: nat

record worker_requirements =
  wr_platform :: "platform option"
  wr_environment_kind :: "environment_kind option"
  wr_capabilities :: "environment_capability list"
  wr_worker_id :: "worker_id option"

record worker_lease =
  wl_lease_id :: worker_lease_id
  wl_worker_id :: worker_id
  wl_worker_epoch :: worker_epoch
  wl_expires_at :: string

record worker_registry_config =
  wrc_max_workers :: nat
  wrc_max_leases :: nat
  wrc_max_lease_ttl :: duration

definition default_registry_config :: worker_registry_config where
  "default_registry_config = \<lparr>wrc_max_workers = 32, wrc_max_leases = 128, wrc_max_lease_ttl = from_secs (60 * 60)\<rparr>"

record 's worker_entry =
  we_descriptor :: worker_descriptor
  we_endpoint :: "'s desktop_worker"

record lease_entry =
  le_lease :: worker_lease
  le_expires_at :: instant

record 's registry_state =
  rs_workers :: "(worker_id, 's worker_entry) hm"
  rs_leases :: "(worker_lease_id, lease_entry) hm"
  rs_next :: nat

record registry_env =
  re_config :: worker_registry_config
  re_uuid :: "nat \<Rightarrow> string"
  re_wall :: "instant \<Rightarrow> nat \<Rightarrow> string option"

datatype worker_error =
    WE_Invalid string
  | WE_Busy
  | WE_StaleLease
  | WE_Environment environment_error
  | WE_Internal

section \<open>Operations\<close>

definition is_none_or :: "('a \<Rightarrow> bool) \<Rightarrow> 'a option \<Rightarrow> bool" where
  "is_none_or P v = (case v of None \<Rightarrow> True | Some x \<Rightarrow> P x)"

definition requirements_match :: "worker_requirements \<Rightarrow> worker_descriptor \<Rightarrow> bool" where
  "requirements_match self d \<longleftrightarrow>
     is_none_or (\<lambda>v. v = wd_platform d) (wr_platform self) \<and>
     is_none_or (\<lambda>v. v = ed_kind (wd_environment d)) (wr_environment_kind self) \<and>
     list_all (List.member (ed_capabilities (wd_environment d))) (wr_capabilities self) \<and>
     is_none_or (\<lambda>v. v = wd_worker_id d) (wr_worker_id self)"

definition registry_new :: "worker_registry_config \<Rightarrow> worker_error + 's registry_state" where
  "registry_new config =
     (if wrc_max_workers config = 0 \<or> wrc_max_leases config = 0 \<or> wrc_max_lease_ttl config = 0
      then Inl (WE_Invalid ''worker registry bounds must be non-zero'')
      else Inr \<lparr>rs_workers = [], rs_leases = [], rs_next = 0\<rparr>)"

definition random_id :: "registry_env \<Rightarrow> string \<Rightarrow> nat \<Rightarrow> string" where
  "random_id env pre n = pre @ ''_'' @ re_uuid env n"

definition set_active :: "(nat \<Rightarrow> nat) \<Rightarrow> 's worker_entry \<Rightarrow> 's worker_entry" where
  "set_active f e = e\<lparr>we_descriptor := (we_descriptor e)\<lparr>wd_active_leases := f (wd_active_leases (we_descriptor e))\<rparr>\<rparr>"

definition decrement_worker :: "worker_id \<Rightarrow> 's registry_state \<Rightarrow> 's registry_state" where
  "decrement_worker w s = s\<lparr>rs_workers := hm_modify w (set_active (\<lambda>n. n - 1)) (rs_workers s)\<rparr>"

definition drop_lease_entry :: "worker_lease_id \<Rightarrow> worker_id \<Rightarrow> 's registry_state \<Rightarrow> 's registry_state" where
  "drop_lease_entry l w s = decrement_worker w (s\<lparr>rs_leases := hm_remove l (rs_leases s)\<rparr>)"

definition expired_leases :: "instant \<Rightarrow> 's registry_state \<Rightarrow> (worker_lease_id \<times> worker_id) list" where
  "expired_leases now s =
     map (\<lambda>(l, e). (l, wl_worker_id (le_lease e))) (filter (\<lambda>(_, e). le_expires_at e \<le> now) (rs_leases s))"

definition purge_leases :: "instant \<Rightarrow> 's registry_state \<Rightarrow> 's registry_state" where
  "purge_leases now s = fold (\<lambda>(l, w). drop_lease_entry l w) (expired_leases now s) s"

definition register ::
  "registry_env \<Rightarrow> instant \<Rightarrow> 's desktop_worker \<Rightarrow> nat \<Rightarrow> 's registry_state \<Rightarrow>
   (worker_error + worker_descriptor) \<times> 's registry_state" where
  "register env now endpoint max_leases s =
     (if max_leases = 0 \<or> wrc_max_leases (re_config env) < max_leases
      then (Inl (WE_Invalid ''worker lease capacity is outside registry bounds''), s)
      else case descriptor_validate (dk_environment endpoint) of
        Inl e \<Rightarrow> (Inl (WE_Environment e), s)
      | Inr _ \<Rightarrow>
          let s = purge_leases now s
          in if wrc_max_workers (re_config env) \<le> hm_len (rs_workers s) then (Inl WE_Busy, s)
             else let n = rs_next s;
                      d = \<lparr>wd_worker_id = WorkerId (random_id env ''worker'' n),
                           wd_epoch = WorkerEpoch (random_id env ''epoch'' (n + 1)),
                           wd_platform = dk_platform endpoint, wd_environment = dk_environment endpoint,
                           wd_max_leases = max_leases, wd_active_leases = 0\<rparr>
                  in (Inr d, s\<lparr>rs_workers := hm_insert (wd_worker_id d) \<lparr>we_descriptor = d, we_endpoint = endpoint\<rparr> (rs_workers s),
                               rs_next := n + 2\<rparr>))"

definition unregister :: "worker_id \<Rightarrow> 's registry_state \<Rightarrow> bool \<times> 's registry_state" where
  "unregister w s =
     (let removed = hm_get (rs_workers s) w \<noteq> None; s' = s\<lparr>rs_workers := hm_remove w (rs_workers s)\<rparr>
      in (removed,
          if removed then s'\<lparr>rs_leases := hm_retain (\<lambda>_ e. wl_worker_id (le_lease e) \<noteq> w) (rs_leases s)\<rparr> else s'))"

definition i64_max :: nat where "i64_max = 2 ^ 63 - 1"

definition wall_expiry :: "registry_env \<Rightarrow> instant \<Rightarrow> duration \<Rightarrow> worker_error + string" where
  "wall_expiry env now ttl =
     (if i64_max < as_secs ttl then Inl (WE_Invalid ''worker lease TTL does not fit wall-clock projection'')
      else ok_or WE_Internal (re_wall env now (as_secs ttl)))"

text \<open>\<^verbatim>\<open>Iterator::min_by\<close>: the first of the least elements.\<close>

fun min_by :: "('a \<Rightarrow> 'k::linorder) \<Rightarrow> 'a list \<Rightarrow> 'a option" where
  "min_by f [] = None"
| "min_by f (x # xs) = (case min_by f xs of None \<Rightarrow> Some x | Some y \<Rightarrow> if f y < f x then Some y else Some x)"

definition placement_key :: "'s worker_entry \<Rightarrow> nat \<times> string" where
  "placement_key e = (wd_active_leases (we_descriptor e), worker_id_str (wd_worker_id (we_descriptor e)))"

definition placeable :: "worker_requirements \<Rightarrow> 's worker_entry \<Rightarrow> bool" where
  "placeable requirements e \<longleftrightarrow>
     requirements_match requirements (we_descriptor e) \<and>
     wd_active_leases (we_descriptor e) < wd_max_leases (we_descriptor e)"

definition acquire ::
  "registry_env \<Rightarrow> instant \<Rightarrow> worker_requirements \<Rightarrow> duration \<Rightarrow> 's registry_state \<Rightarrow>
   (worker_error + worker_lease) \<times> 's registry_state" where
  "acquire env now requirements ttl s =
     (if ttl = 0 \<or> wrc_max_lease_ttl (re_config env) < ttl
      then (Inl (WE_Invalid ''worker lease TTL is outside registry bounds''), s)
      else let s = purge_leases now s
           in if wrc_max_leases (re_config env) \<le> hm_len (rs_leases s) then (Inl WE_Busy, s)
              else case min_by placement_key (filter (placeable requirements) (hm_values (rs_workers s))) of
                None \<Rightarrow> (Inl WE_Busy, s)
              | Some e \<Rightarrow>
                  (case wall_expiry env now ttl of
                     Inl err \<Rightarrow> (Inl err, s\<lparr>rs_next := rs_next s + 1\<rparr>)
                   | Inr wall \<Rightarrow>
                       let w = wd_worker_id (we_descriptor e);
                           lease = \<lparr>wl_lease_id = WorkerLeaseId (random_id env ''lease'' (rs_next s)), wl_worker_id = w,
                                    wl_worker_epoch = wd_epoch (we_descriptor e), wl_expires_at = wall\<rparr>;
                           s' = s\<lparr>rs_next := rs_next s + 1\<rparr>
                       in if hm_get (rs_workers s) w = None then (Inl WE_Internal, s')
                          else (Inr lease,
                                s'\<lparr>rs_workers := hm_modify w (set_active (\<lambda>n. n + 1)) (rs_workers s),
                                   rs_leases := hm_insert (wl_lease_id lease)
                                      \<lparr>le_lease = lease, le_expires_at = now + ttl\<rparr> (rs_leases s)\<rparr>)))"

definition release :: "worker_lease_id \<Rightarrow> 's registry_state \<Rightarrow> bool \<times> 's registry_state" where
  "release l s =
     (case hm_get (rs_leases s) l of
        None \<Rightarrow> (False, s\<lparr>rs_leases := hm_remove l (rs_leases s)\<rparr>)
      | Some e \<Rightarrow> (True, drop_lease_entry l (wl_worker_id (le_lease e)) s))"

definition list_workers :: "instant \<Rightarrow> 's registry_state \<Rightarrow> worker_descriptor list \<times> 's registry_state" where
  "list_workers now s =
     (let s = purge_leases now s
      in (sort_key (\<lambda>d. worker_id_str (wd_worker_id d)) (map we_descriptor (hm_values (rs_workers s))), s))"

definition resolve ::
  "instant \<Rightarrow> worker_lease_id \<Rightarrow> worker_epoch \<Rightarrow> 's registry_state \<Rightarrow>
   (worker_error + worker_lease \<times> 's desktop_worker) \<times> 's registry_state" where
  "resolve now l expected s =
     (let s = purge_leases now s
      in (bindR (ok_or WE_StaleLease (hm_get (rs_leases s) l)) (\<lambda>e.
          let lease = le_lease e
          in if wl_worker_epoch lease \<noteq> expected then Inl WE_StaleLease
             else case hm_get (rs_workers s) (wl_worker_id lease) of
               None \<Rightarrow> Inl WE_StaleLease
             | Some worker \<Rightarrow>
                 if wd_epoch (we_descriptor worker) \<noteq> wl_worker_epoch lease then Inl WE_StaleLease
                 else Inr (lease, we_endpoint worker)), s))"

text \<open>One operation at a time, at times that never go back.\<close>

datatype 's registry_op =
    Op_Register "'s desktop_worker" nat
  | Op_Unregister worker_id
  | Op_Acquire worker_requirements duration
  | Op_Release worker_lease_id
  | Op_List
  | Op_Resolve worker_lease_id worker_epoch

fun registry_apply :: "registry_env \<Rightarrow> instant \<Rightarrow> 's registry_op \<Rightarrow> 's registry_state \<Rightarrow> 's registry_state" where
  "registry_apply env now (Op_Register endpoint n) s = snd (register env now endpoint n s)"
| "registry_apply env now (Op_Unregister w) s = snd (unregister w s)"
| "registry_apply env now (Op_Acquire r ttl) s = snd (acquire env now r ttl s)"
| "registry_apply env now (Op_Release l) s = snd (release l s)"
| "registry_apply env now Op_List s = snd (list_workers now s)"
| "registry_apply env now (Op_Resolve l e) s = snd (resolve now l e s)"

inductive registry_step :: "registry_env \<Rightarrow> instant \<times> 's registry_state \<Rightarrow> instant \<times> 's registry_state \<Rightarrow> bool" for env where
  registry_op: "now \<le> later \<Longrightarrow> registry_step env (now, s) (later, registry_apply env later op s)"

section \<open>The invariant\<close>

definition held :: "'s registry_state \<Rightarrow> worker_id \<Rightarrow> worker_lease_id set" where
  "held s w = {l. \<exists>e. hm_get (rs_leases s) l = Some e \<and> wl_worker_id (le_lease e) = w}"

definition issued :: "(string \<Rightarrow> 'a) \<Rightarrow> string \<Rightarrow> registry_env \<Rightarrow> nat \<Rightarrow> 'a set" where
  "issued mk pre env n = (\<lambda>i. mk (random_id env pre i)) ` {..<n}"

definition worker_ok :: "registry_env \<Rightarrow> 's registry_state \<Rightarrow> worker_id \<Rightarrow> 's worker_entry \<Rightarrow> bool" where
  "worker_ok env s w e \<longleftrightarrow>
     (let d = we_descriptor e
      in wd_worker_id d = w \<and> wd_active_leases d = card (held s w) \<and> wd_active_leases d \<le> wd_max_leases d \<and>
         wd_max_leases d \<le> wrc_max_leases (re_config env) \<and> wd_environment d = dk_environment (we_endpoint e) \<and>
         descriptor_validate (wd_environment d) = Inr ())"

definition lease_ok :: "'s registry_state \<Rightarrow> worker_lease_id \<Rightarrow> lease_entry \<Rightarrow> bool" where
  "lease_ok s l e \<longleftrightarrow>
     wl_lease_id (le_lease e) = l \<and>
     (\<exists>w. hm_get (rs_workers s) (wl_worker_id (le_lease e)) = Some w \<and>
          wd_epoch (we_descriptor w) = wl_worker_epoch (le_lease e))"

definition regok :: "registry_env \<Rightarrow> 's registry_state \<Rightarrow> bool" where
  "regok env s \<longleftrightarrow>
     hm_wf (rs_workers s) \<and> hm_wf (rs_leases s) \<and>
     hm_len (rs_workers s) \<le> wrc_max_workers (re_config env) \<and> hm_len (rs_leases s) \<le> wrc_max_leases (re_config env) \<and>
     (\<forall>w e. hm_get (rs_workers s) w = Some e \<longrightarrow> worker_ok env s w e) \<and>
     (\<forall>l e. hm_get (rs_leases s) l = Some e \<longrightarrow> lease_ok s l e) \<and>
     dom (hm_get (rs_workers s)) \<subseteq> issued WorkerId ''worker'' env (rs_next s) \<and>
     dom (hm_get (rs_leases s)) \<subseteq> issued WorkerLeaseId ''lease'' env (rs_next s)"

lemma regokD:
  assumes "regok env s"
  shows "hm_wf (rs_workers s)" "hm_wf (rs_leases s)"
    "hm_len (rs_workers s) \<le> wrc_max_workers (re_config env)" "hm_len (rs_leases s) \<le> wrc_max_leases (re_config env)"
    "hm_get (rs_workers s) w = Some we \<Longrightarrow> worker_ok env s w we" "hm_get (rs_leases s) l = Some le \<Longrightarrow> lease_ok s l le"
    "dom (hm_get (rs_workers s)) \<subseteq> issued WorkerId ''worker'' env (rs_next s)"
    "dom (hm_get (rs_leases s)) \<subseteq> issued WorkerLeaseId ''lease'' env (rs_next s)"
  using assms by (simp_all add: regok_def)

lemma dom_modify [simp]: "dom (hm_get (hm_modify k f m)) = dom (hm_get m)"
  by (auto simp: dom_def)

lemma len_modify [simp]: "hm_len (hm_modify k f m) = hm_len m"
  by (simp add: hm_len_def hm_modify_def)

lemma regokI:
  assumes "hm_wf (rs_workers s)" "hm_wf (rs_leases s)"
    "hm_len (rs_workers s) \<le> wrc_max_workers (re_config env)" "hm_len (rs_leases s) \<le> wrc_max_leases (re_config env)"
    "\<And>w we. hm_get (rs_workers s) w = Some we \<Longrightarrow> worker_ok env s w we" "\<And>l le. hm_get (rs_leases s) l = Some le \<Longrightarrow> lease_ok s l le"
    "dom (hm_get (rs_workers s)) \<subseteq> issued WorkerId ''worker'' env (rs_next s)"
    "dom (hm_get (rs_leases s)) \<subseteq> issued WorkerLeaseId ''lease'' env (rs_next s)"
  shows "regok env s"
  using assms by (simp add: regok_def)

lemma finite_held: "finite (held s w)"
proof (rule finite_subset)
  show "held s w \<subseteq> fst ` set (rs_leases s)" unfolding held_def by (force dest: hm_get_in_set)
qed simp

lemma ids_issued_mono: "m \<le> n \<Longrightarrow> issued mk pre env m \<subseteq> issued mk pre env n"
  unfolding issued_def by auto

lemma issued_fresh:
  assumes "inj (re_uuid env)" "inj mk"
  shows "mk (random_id env pre n) \<notin> issued mk pre env n"
  using assms by (auto simp: issued_def random_id_def inj_def)

lemma inj_ids: "inj WorkerId" "inj WorkerLeaseId"
  by (simp_all add: inj_def)

section \<open>Leaving leases\<close>

lemma held_drop: "held (drop_lease_entry l w s) v = held s v - {l}"
  by (auto simp: held_def drop_lease_entry_def decrement_worker_def)

lemma drop_lease_ok:
  assumes ok: "regok env s" and e: "hm_get (rs_leases s) l = Some e"
  shows "regok env (drop_lease_entry l (wl_worker_id (le_lease e)) s)"
proof -
  let ?w = "wl_worker_id (le_lease e)" and ?s = "drop_lease_entry l (wl_worker_id (le_lease e)) s"
  have st: "rs_workers ?s = hm_modify ?w (set_active (\<lambda>n. n - 1)) (rs_workers s)" "rs_leases ?s = hm_remove l (rs_leases s)" "rs_next ?s = rs_next s"
    by (simp_all add: drop_lease_entry_def decrement_worker_def)
  note D = regokD [OF ok]
  have in_held: "l \<in> held s ?w" "\<And>v. v \<noteq> ?w \<Longrightarrow> l \<notin> held s v" using e by (auto simp: held_def)
  have "worker_ok env ?s v f" if f: "hm_get (rs_workers ?s) v = Some f" for v f
  proof (cases "v = ?w")
    case True
    then obtain g where g: "hm_get (rs_workers s) ?w = Some g" "f = set_active (\<lambda>n. n - 1) g" using f by (auto simp: st)
    have "card (held s ?w - {l}) = card (held s ?w) - 1" by (rule card_Diff_singleton [OF in_held(1)])
    then show ?thesis using D(5) [OF g(1)] True g(2) by (auto simp: worker_ok_def Let_def held_drop set_active_def)
  next
    case False
    then have "hm_get (rs_workers s) v = Some f" "held ?s v = held s v" using f in_held(2) by (simp_all add: st held_drop)
    then show ?thesis using D(5) by (simp add: worker_ok_def)
  qed
  moreover have "lease_ok ?s k f" if "hm_get (rs_leases ?s) k = Some f" for k f
  proof -
    have "hm_get (rs_leases s) k = Some f" using that by (simp add: st split: if_splits)
    then have "lease_ok s k f" by (rule D(6))
    then show ?thesis by (auto simp: lease_ok_def st set_active_def)
  qed
  ultimately show ?thesis
  proof (intro regokI)
    show "hm_len (rs_workers ?s) \<le> wrc_max_workers (re_config env)" using D(3) by (simp add: st)
    show "hm_len (rs_leases ?s) \<le> wrc_max_leases (re_config env)"
      unfolding st by (rule order_trans [OF hm.len_remove_le [OF D(2)] D(4)])
    show "dom (hm_get (rs_workers ?s)) \<subseteq> issued WorkerId ''worker'' env (rs_next ?s)"
      using D(7) by (simp add: st)
    show "dom (hm_get (rs_leases ?s)) \<subseteq> issued WorkerLeaseId ''lease'' env (rs_next ?s)"
      using D(8) by (auto simp: st split: if_splits)
  qed (simp_all add: st D(1,2))
qed

lemma drop_lease_get:
  "hm_get (rs_leases (drop_lease_entry l w s)) k = (if k = l then None else hm_get (rs_leases s) k)"
  "map_option we_endpoint (hm_get (rs_workers (drop_lease_entry l w s)) v) = map_option we_endpoint (hm_get (rs_workers s) v)"
  "rs_next (drop_lease_entry l w s) = rs_next s"
  by (auto simp: drop_lease_entry_def decrement_worker_def set_active_def option.map_comp comp_def)

lemma drop_leases_fold:
  assumes "regok env s" "distinct (map fst xs)"
    and "\<And>l w. (l, w) \<in> set xs \<Longrightarrow> \<exists>e. hm_get (rs_leases s) l = Some e \<and> wl_worker_id (le_lease e) = w"
  defines "s' \<equiv> fold (\<lambda>(l, w). drop_lease_entry l w) xs s"
  shows "regok env s' \<and> rs_next s' = rs_next s \<and>
    (\<forall>k. hm_get (rs_leases s') k = (if k \<in> fst ` set xs then None else hm_get (rs_leases s) k)) \<and>
    (\<forall>v. map_option we_endpoint (hm_get (rs_workers s') v) = map_option we_endpoint (hm_get (rs_workers s) v))"
  using assms(1-3) unfolding s'_def
proof (induction xs arbitrary: s)
  case (Cons x xs)
  obtain l w where x: "x = (l, w)" by (cases x)
  obtain e where e: "hm_get (rs_leases s) l = Some e" "wl_worker_id (le_lease e) = w" using Cons.prems(3) x by auto
  let ?s = "drop_lease_entry l w s"
  have ok: "regok env ?s" using drop_lease_ok [OF Cons.prems(1) e(1)] e(2) by simp
  have "\<exists>e. hm_get (rs_leases ?s) k = Some e \<and> wl_worker_id (le_lease e) = v" if kv: "(k, v) \<in> set xs" for k v
  proof -
    have "k \<noteq> l" using Cons.prems(2) x kv by force
    then show ?thesis using Cons.prems(3) [of k v] kv by (simp add: drop_lease_get)
  qed
  from Cons.IH [OF ok _ this] Cons.prems(2) show ?case by (simp add: x drop_lease_get)
qed simp

definition live :: "instant \<Rightarrow> 's registry_state \<Rightarrow> worker_lease_id \<Rightarrow> lease_entry option" where
  "live now s l = (case hm_get (rs_leases s) l of None \<Rightarrow> None | Some e \<Rightarrow> if now < le_expires_at e then Some e else None)"

lemma purge_leases_ok:
  assumes "regok env s"
  shows "regok env (purge_leases now s)" "rs_next (purge_leases now s) = rs_next s"
    "hm_get (rs_leases (purge_leases now s)) k = live now s k"
    "map_option we_endpoint (hm_get (rs_workers (purge_leases now s)) v) = map_option we_endpoint (hm_get (rs_workers s) v)"
proof -
  note wf = regokD(2) [OF assms]
  have d: "distinct (map fst (expired_leases now s))"
    using wf by (simp add: expired_leases_def hm_wf_def comp_def case_prod_beta distinct_map_filter)
  have m: "\<exists>e. hm_get (rs_leases s) l = Some e \<and> wl_worker_id (le_lease e) = w" if "(l, w) \<in> set (expired_leases now s)" for l w
    using that wf by (auto simp: expired_leases_def hm_get_iff_in_set)
  have "k \<in> fst ` set (expired_leases now s) \<longleftrightarrow> (\<exists>e. hm_get (rs_leases s) k = Some e \<and> le_expires_at e \<le> now)"
    using wf by (force simp: expired_leases_def hm_get_iff_in_set image_iff)
  then show "regok env (purge_leases now s)" "rs_next (purge_leases now s) = rs_next s"
    "hm_get (rs_leases (purge_leases now s)) k = live now s k"
    "map_option we_endpoint (hm_get (rs_workers (purge_leases now s)) v) = map_option we_endpoint (hm_get (rs_workers s) v)"
    using drop_leases_fold [OF assms d m] unfolding purge_leases_def live_def by (auto split: option.split)
qed

section \<open>Every operation\<close>

lemma register_ok:
  assumes ok: "regok env s" and inj: "inj (re_uuid env)"
  shows "regok env (snd (register env now endpoint n s))"
proof -
  define p where "p = purge_leases now s"
  have P: "regok env p" unfolding p_def by (rule purge_leases_ok [OF ok])
  note D = regokD [OF P]
  let ?w = "WorkerId (random_id env ''worker'' (rs_next p))"
  let ?d = "\<lparr>wd_worker_id = ?w, wd_epoch = WorkerEpoch (random_id env ''epoch'' (rs_next p + 1)), wd_platform = dk_platform endpoint,
    wd_environment = dk_environment endpoint, wd_max_leases = n, wd_active_leases = 0\<rparr>"
  let ?s = "p\<lparr>rs_workers := hm_insert ?w \<lparr>we_descriptor = ?d, we_endpoint = endpoint\<rparr> (rs_workers p), rs_next := rs_next p + 2\<rparr>"
  have "regok env ?s" if room: "hm_len (rs_workers p) < wrc_max_workers (re_config env)" and n: "n \<le> wrc_max_leases (re_config env)"
    and v: "descriptor_validate (dk_environment endpoint) = Inr ()"
  proof -
    have new: "hm_get (rs_workers p) ?w = None"
      using issued_fresh [OF inj inj_ids(1), of "''worker''" "rs_next p"] D(7) by blast
    have "held p ?w = {}"
    proof (rule ccontr)
      assume "held p ?w \<noteq> {}"
      then obtain l e where "hm_get (rs_leases p) l = Some e" "wl_worker_id (le_lease e) = ?w" by (auto simp: held_def)
      then show False using D(6) [of l e] new by (auto simp: lease_ok_def)
    qed
    moreover have "held ?s v = held p v" for v by (simp add: held_def)
    ultimately have "worker_ok env ?s v f" if "hm_get (rs_workers ?s) v = Some f" for v f
      using D(5) [of v f] that n v by (auto simp: worker_ok_def Let_def split: if_splits)
    moreover have "lease_ok ?s l e" if "hm_get (rs_leases ?s) l = Some e" for l e
      using D(6) [of l e] that new by (auto simp: lease_ok_def)
    moreover have "dom (hm_get (rs_workers ?s)) \<subseteq> issued WorkerId ''worker'' env (rs_next ?s)"
      using D(7) ids_issued_mono [of "rs_next p" "rs_next p + 2" WorkerId "''worker''" env]
      by (auto simp: issued_def dom_def split: if_splits)
    moreover have "dom (hm_get (rs_leases ?s)) \<subseteq> issued WorkerLeaseId ''lease'' env (rs_next ?s)"
      using D(8) ids_issued_mono [of "rs_next p" "rs_next p + 2" WorkerLeaseId "''lease''" env] by auto
    ultimately show ?thesis
      unfolding regok_def using D(1-4) room hm.len_insert_new [OF D(1) new] by simp
  qed
  then show ?thesis
    using ok P unfolding register_def Let_def p_def [symmetric]
    by (auto split: sum.split simp: not_less not_le)
qed

lemma unregister_ok:
  assumes ok: "regok env s"
  shows "regok env (snd (unregister w s))"
proof (cases "hm_get (rs_workers s) w")
  case None
  then have "hm_remove w (rs_workers s) = rs_workers s"
    by (simp add: hm_remove_def hm_get_None_iff delete_id)
  then show ?thesis using None ok by (simp add: unregister_def)
next
  case (Some e)
  note D = regokD [OF ok]
  let ?s = "s\<lparr>rs_workers := hm_remove w (rs_workers s), rs_leases := hm_retain (\<lambda>_ e. wl_worker_id (le_lease e) \<noteq> w) (rs_leases s)\<rparr>"
  have get: "hm_get (rs_leases ?s) l = Some f \<longleftrightarrow> hm_get (rs_leases s) l = Some f \<and> wl_worker_id (le_lease f) \<noteq> w" for l f
    by (auto simp: hm_get_retain [OF D(2)] split: option.splits)
  have "held ?s v = held s v" if "v \<noteq> w" for v using that unfolding held_def get by auto
  then have "worker_ok env ?s v f" if "hm_get (rs_workers ?s) v = Some f" for v f
    using D(5) [of v f] that by (auto simp: worker_ok_def Let_def split: if_splits)
  moreover have "lease_ok ?s l f" if "hm_get (rs_leases ?s) l = Some f" for l f
    using D(6) [of l f] that unfolding get by (auto simp: lease_ok_def)
  ultimately have "regok env ?s"
  proof (intro regokI)
    show "hm_len (rs_workers ?s) \<le> wrc_max_workers (re_config env)"
      using order_trans [OF hm.len_remove_le [OF D(1)] D(3)] by simp
    show "hm_len (rs_leases ?s) \<le> wrc_max_leases (re_config env)"
      using order_trans [OF hm.len_retain_le [OF D(2)] D(4)] by simp
    show "dom (hm_get (rs_workers ?s)) \<subseteq> issued WorkerId ''worker'' env (rs_next ?s)"
      using D(7) by (auto split: if_splits)
    show "dom (hm_get (rs_leases ?s)) \<subseteq> issued WorkerLeaseId ''lease'' env (rs_next ?s)"
      using D(8) get by (simp add: subset_iff dom_def) blast
  qed (simp_all add: D(1,2))
  then show ?thesis using Some by (simp add: unregister_def)
qed

lemma min_by_None: "min_by f xs = None \<longleftrightarrow> xs = []"
  by (cases xs) (auto split: option.split)

lemma min_by_SomeD: "min_by f xs = Some x \<Longrightarrow> x \<in> set xs \<and> (\<forall>y \<in> set xs. f x \<le> f y)"
proof (induction xs arbitrary: x)
  case (Cons a xs)
  show ?case
  proof (cases "min_by f xs")
    case None
    then show ?thesis using Cons.prems by (simp add: min_by_None)
  next
    case (Some y)
    then show ?thesis using Cons.prems Cons.IH [OF Some] by (force split: if_splits)
  qed
qed simp

text \<open>The state an acquisition leaves when the worker \<open>e\<close> was selected.\<close>

definition grant :: "worker_lease \<Rightarrow> instant \<Rightarrow> 's registry_state \<Rightarrow> 's registry_state" where
  "grant lease expires s =
     s\<lparr>rs_next := rs_next s + 1,
       rs_workers := hm_modify (wl_worker_id lease) (set_active (\<lambda>n. n + 1)) (rs_workers s),
       rs_leases := hm_insert (wl_lease_id lease) \<lparr>le_lease = lease, le_expires_at = expires\<rparr> (rs_leases s)\<rparr>"

lemma grant_ok:
  assumes ok: "regok env s" and inj: "inj (re_uuid env)"
    and e: "hm_get (rs_workers s) (wl_worker_id lease) = Some e" "wd_epoch (we_descriptor e) = wl_worker_epoch lease"
      "wd_active_leases (we_descriptor e) < wd_max_leases (we_descriptor e)"
    and l: "wl_lease_id lease = WorkerLeaseId (random_id env ''lease'' (rs_next s))"
    and room: "hm_len (rs_leases s) < wrc_max_leases (re_config env)"
  shows "regok env (grant lease expires s)"
proof -
  let ?s = "grant lease expires s" and ?w = "wl_worker_id lease" and ?l = "wl_lease_id lease"
  note D = regokD [OF ok]
  have new: "hm_get (rs_leases s) ?l = None"
    using issued_fresh [OF inj inj_ids(2), of "''lease''" "rs_next s"] D(8) unfolding l by blast
  have h: "held ?s v = (if v = ?w then insert ?l (held s v) else held s v)" for v
    using new by (auto simp: held_def grant_def)
  have c: "card (insert ?l (held s ?w)) = Suc (card (held s ?w))"
    using new by (intro card_insert_disjoint finite_held) (simp add: held_def)
  show ?thesis
  proof (rule regokI)
    fix v f assume f: "hm_get (rs_workers ?s) v = Some f"
    show "worker_ok env ?s v f"
    proof (cases "v = ?w")
      case True
      then have "f = set_active (\<lambda>n. n + 1) e" using f e(1) by (simp add: grant_def)
      then show ?thesis using D(5) [OF e(1)] e(3) c True by (auto simp: worker_ok_def Let_def h set_active_def)
    next
      case False
      then have "hm_get (rs_workers s) v = Some f" using f by (simp add: grant_def)
      from D(5) [OF this] show ?thesis using False by (simp add: worker_ok_def h)
    qed
  next
    fix k f assume f: "hm_get (rs_leases ?s) k = Some f"
    have old: "lease_ok ?s k g" if "lease_ok s k g" for k g
      using that by (auto simp: lease_ok_def grant_def set_active_def)
    show "lease_ok ?s k f"
    proof (cases "k = ?l")
      case True
      then have "f = \<lparr>le_lease = lease, le_expires_at = expires\<rparr>" using f by (simp add: grant_def)
      then show ?thesis using True e by (simp add: lease_ok_def grant_def set_active_def)
    next
      case False
      then show ?thesis using f D(6) [of k f] old by (simp add: grant_def)
    qed
  next
    have "dom (hm_get (rs_leases ?s)) = insert ?l (dom (hm_get (rs_leases s)))"
      using hm.dom_insert_at [OF D(2)] by (simp add: grant_def)
    then show "dom (hm_get (rs_leases ?s)) \<subseteq> issued WorkerLeaseId ''lease'' env (rs_next ?s)"
      using D(8) ids_issued_mono [of "rs_next s" "rs_next s + 1" WorkerLeaseId "''lease''" env] l
      by (auto simp: grant_def issued_def)
    show "dom (hm_get (rs_workers ?s)) \<subseteq> issued WorkerId ''worker'' env (rs_next ?s)"
      using D(7) ids_issued_mono [of "rs_next s" "rs_next s + 1" WorkerId "''worker''" env] by (auto simp: grant_def)
  qed (use D(1-4) room hm.len_insert_new [OF D(2) new] in \<open>simp_all add: grant_def\<close>)
qed

lemma next_ok: "regok env s \<Longrightarrow> regok env (s\<lparr>rs_next := rs_next s + 1\<rparr>)"
  using ids_issued_mono [of "rs_next s" "rs_next s + 1" WorkerId "''worker''" env]
    ids_issued_mono [of "rs_next s" "rs_next s + 1" WorkerLeaseId "''lease''" env]
    regokD(7,8)
  by (intro regokI) (auto simp: worker_ok_def lease_ok_def held_def dest: regokD)

lemma selected_entry:
  assumes P: "regok env p" and sel: "min_by placement_key (filter (placeable requirements) (hm_values (rs_workers p))) = Some e"
  shows "hm_get (rs_workers p) (wd_worker_id (we_descriptor e)) = Some e" "placeable requirements e"
    "\<And>v f. hm_get (rs_workers p) v = Some f \<Longrightarrow> placeable requirements f \<Longrightarrow> placement_key e \<le> placement_key f"
proof -
  have e: "e \<in> set (hm_values (rs_workers p))" "placeable requirements e"
    "\<And>f. f \<in> set (hm_values (rs_workers p)) \<Longrightarrow> placeable requirements f \<Longrightarrow> placement_key e \<le> placement_key f"
    using min_by_SomeD [OF sel] by auto
  then obtain w where "(w, e) \<in> set (rs_workers p)" by (auto simp: hm_values_def)
  then have w: "hm_get (rs_workers p) w = Some e" using regokD(1) [OF P] by (simp add: hm_get_iff_in_set)
  then show "hm_get (rs_workers p) (wd_worker_id (we_descriptor e)) = Some e"
    using regokD(5) [OF P w] by (simp add: worker_ok_def Let_def)
  show "placeable requirements e" by (rule e(2))
  show "placement_key e \<le> placement_key f" if "hm_get (rs_workers p) v = Some f" "placeable requirements f" for v f
    using e(3) [of f] that hm_get_in_set [OF that(1)] by (force simp: hm_values_def)
qed

text \<open>What an acquisition does, by cases.\<close>

lemma acquire_cases:
  assumes ok: "regok env s" and p_def: "p = purge_leases now s"
  shows "acquire env now requirements ttl s =
    (if ttl = 0 \<or> wrc_max_lease_ttl (re_config env) < ttl
     then (Inl (WE_Invalid ''worker lease TTL is outside registry bounds''), s)
     else if wrc_max_leases (re_config env) \<le> hm_len (rs_leases p) then (Inl WE_Busy, p)
     else case min_by placement_key (filter (placeable requirements) (hm_values (rs_workers p))) of
            None \<Rightarrow> (Inl WE_Busy, p)
          | Some e \<Rightarrow>
              (case wall_expiry env now ttl of
                 Inl err \<Rightarrow> (Inl err, p\<lparr>rs_next := rs_next p + 1\<rparr>)
               | Inr wall \<Rightarrow>
                   let lease = \<lparr>wl_lease_id = WorkerLeaseId (random_id env ''lease'' (rs_next p)),
                                wl_worker_id = wd_worker_id (we_descriptor e),
                                wl_worker_epoch = wd_epoch (we_descriptor e), wl_expires_at = wall\<rparr>
                   in (Inr lease, grant lease (now + ttl) p)))"
proof -
  have P: "regok env p" unfolding p_def by (rule purge_leases_ok [OF ok])
  show ?thesis
    unfolding acquire_def Let_def p_def [symmetric]
    by (auto simp: grant_def selected_entry(1) [OF P] split: option.split sum.split)
qed

lemma acquire_ok:
  assumes ok: "regok env s" and inj: "inj (re_uuid env)"
  shows "regok env (snd (acquire env now requirements ttl s))"
proof -
  define p where "p = purge_leases now s"
  have P: "regok env p" unfolding p_def by (rule purge_leases_ok [OF ok])
  have "regok env (grant \<lparr>wl_lease_id = WorkerLeaseId (random_id env ''lease'' (rs_next p)),
      wl_worker_id = wd_worker_id (we_descriptor e), wl_worker_epoch = wd_epoch (we_descriptor e), wl_expires_at = wall\<rparr> t p)"
    if "min_by placement_key (filter (placeable requirements) (hm_values (rs_workers p))) = Some e"
      "hm_len (rs_leases p) < wrc_max_leases (re_config env)" for e wall t
    using grant_ok [OF P inj] selected_entry(1,2) [OF P that(1)] that(2) by (simp add: placeable_def)
  then show ?thesis
    unfolding acquire_cases [OF ok p_def] Let_def
    using ok P next_ok [OF P] by (auto simp: not_le split: option.split sum.split)
qed

lemma registry_apply_ok:
  assumes "regok env s" "inj (re_uuid env)"
  shows "regok env (registry_apply env now op s)"
proof (cases op)
  case (Op_Release l)
  show ?thesis
  proof (cases "hm_get (rs_leases s) l")
    case None
    then have "hm_remove l (rs_leases s) = rs_leases s" by (simp add: hm_remove_def hm_get_None_iff delete_id)
    then show ?thesis using assms(1) None Op_Release by (simp add: release_def)
  next
    case (Some e)
    then show ?thesis using drop_lease_ok [OF assms(1) Some] Op_Release by (simp add: release_def)
  qed
qed (simp_all add: assms register_ok unregister_ok acquire_ok list_workers_def resolve_def Let_def purge_leases_ok)

lemma registry_reachable_ok:
  assumes "(registry_step env)\<^sup>*\<^sup>* (t0, s0) (now, s)" "registry_new (re_config env) = Inr s0" "inj (re_uuid env)"
  shows "regok env s"
  using assms(1)
proof (induction "(now, s)" arbitrary: now s rule: rtranclp_induct)
  case base
  then show ?case using assms(2) by (auto simp: registry_new_def regok_def hm_len_def split: if_splits)
next
  case (step y)
  obtain n r where y: "y = (n, r)" by (cases y)
  then show ?case using step(3) [OF y] step(2) registry_apply_ok [OF _ assms(3)] by (auto elim: registry_step.cases)
qed

section \<open>Old leases\<close>

lemma live_purge: "regok env s \<Longrightarrow> hm_get (rs_leases (purge_leases now s)) l = Some e \<Longrightarrow> hm_get (rs_leases s) l = Some e"
  by (simp add: purge_leases_ok(3) live_def split: option.splits if_splits)

lemma old_lease:
  assumes ok: "regok env s" and inj: "inj (re_uuid env)" and l: "l \<in> issued WorkerLeaseId ''lease'' env (rs_next s)"
  shows "rs_next s \<le> rs_next (registry_apply env now op s)"
    "hm_get (rs_leases (registry_apply env now op s)) l = Some e \<Longrightarrow> hm_get (rs_leases s) l = Some e"
proof -
  note P = purge_leases_ok(1,2) [OF ok, of now] and before = live_purge [OF ok, of now l e]
  have new: "l \<noteq> WorkerLeaseId (random_id env ''lease'' (rs_next s))"
    using issued_fresh [OF inj inj_ids(2), of "''lease''" "rs_next s"] l by auto
  have reg: "rs_next s \<le> rs_next (snd (register env now endpoint n s))"
    "hm_get (rs_leases (snd (register env now endpoint n s))) l = Some e \<Longrightarrow> hm_get (rs_leases s) l = Some e" for endpoint n
    using before P(2) by (auto simp: register_def Let_def split: if_splits sum.splits)
  have acq: "rs_next s \<le> rs_next (snd (acquire env now r ttl s))"
    "hm_get (rs_leases (snd (acquire env now r ttl s))) l = Some e \<Longrightarrow> hm_get (rs_leases s) l = Some e" for r ttl
    using before P(2) new unfolding acquire_cases [OF ok refl]
    by (auto simp: Let_def grant_def split: if_splits sum.splits option.splits)
  have rel: "rs_next (snd (release k s)) = rs_next s"
    "hm_get (rs_leases (snd (release k s))) l = Some e \<Longrightarrow> hm_get (rs_leases s) l = Some e" for k
    by (auto simp: release_def drop_lease_get split: option.splits if_splits)
  have unr: "rs_next (snd (unregister w s)) = rs_next s"
    "hm_get (rs_leases (snd (unregister w s))) l = Some e \<Longrightarrow> hm_get (rs_leases s) l = Some e" for w
    by (auto simp: unregister_def Let_def hm_get_retain [OF regokD(2) [OF ok]] split: option.splits if_splits)
  show "rs_next s \<le> rs_next (registry_apply env now op s)"
    using reg(1) acq(1) rel(1) unr(1) P(2) by (cases op) (simp_all add: list_workers_def resolve_def Let_def)
  show "hm_get (rs_leases (registry_apply env now op s)) l = Some e \<Longrightarrow> hm_get (rs_leases s) l = Some e"
    using reg(2) acq(2) rel(2) unr(2) before by (cases op) (simp_all add: list_workers_def resolve_def Let_def)
qed

lemma dead_stays_dead:
  assumes "(registry_step env)\<^sup>*\<^sup>* (now, s) (later, s')" "regok env s" "inj (re_uuid env)"
    and "l \<in> issued WorkerLeaseId ''lease'' env (rs_next s)" "live now s l = None"
  shows "regok env s' \<and> l \<in> issued WorkerLeaseId ''lease'' env (rs_next s') \<and> live later s' l = None"
  using assms(1)
proof (induction "(later, s')" arbitrary: later s' rule: rtranclp_induct)
  case base
  then show ?case using assms by simp
next
  case (step y)
  obtain n r where y: "y = (n, r)" by (cases y)
  obtain op where op: "n \<le> later" "s' = registry_apply env later op r"
    using step(2) y by (auto elim: registry_step.cases)
  have IH: "regok env r" "l \<in> issued WorkerLeaseId ''lease'' env (rs_next r)" "live n r l = None" using step(3) [OF y] by simp_all
  note old = old_lease [OF IH(1) assms(3) IH(2), of later op]
  have "regok env s'" unfolding op(2) by (rule registry_apply_ok [OF IH(1) assms(3)])
  moreover have "l \<in> issued WorkerLeaseId ''lease'' env (rs_next s')" unfolding op(2) by (rule subsetD [OF ids_issued_mono [OF old(1)] IH(2)])
  moreover have "live later s' l = None"
  proof (cases "hm_get (rs_leases s') l")
    case (Some e)
    then have "hm_get (rs_leases r) l = Some e" using old(2) op(2) by simp
    then have "le_expires_at e \<le> later" using IH(3) op(1) by (simp add: live_def split: if_splits)
    then show ?thesis using Some by (simp add: live_def)
  qed (simp add: live_def)
  ultimately show ?case by simp
qed

lemma resolve_live:
  assumes "regok env s"
  shows "fst (resolve now l expected s) =
    (case live now s l of
       None \<Rightarrow> Inl WE_StaleLease
     | Some e \<Rightarrow>
         if wl_worker_epoch (le_lease e) \<noteq> expected then Inl WE_StaleLease
         else case hm_get (rs_workers s) (wl_worker_id (le_lease e)) of
           None \<Rightarrow> Inl WE_StaleLease
         | Some w \<Rightarrow> Inr (le_lease e, we_endpoint w))"
proof (cases "live now s l")
  case None
  then show ?thesis using purge_leases_ok(3) [OF assms, of now l] by (simp add: resolve_def Let_def)
next
  case (Some e)
  let ?p = "purge_leases now s"
  have g: "hm_get (rs_leases ?p) l = Some e" using purge_leases_ok(3) [OF assms, of now l] Some by simp
  from regokD(6) [OF purge_leases_ok(1) [OF assms] g] obtain w where
    w: "hm_get (rs_workers ?p) (wl_worker_id (le_lease e)) = Some w" "wd_epoch (we_descriptor w) = wl_worker_epoch (le_lease e)"
    by (auto simp: lease_ok_def)
  then obtain w' where "hm_get (rs_workers s) (wl_worker_id (le_lease e)) = Some w'" "we_endpoint w' = we_endpoint w"
    using purge_leases_ok(4) [OF assms, of now "wl_worker_id (le_lease e)"]
    by (cases "hm_get (rs_workers s) (wl_worker_id (le_lease e))") auto
  then show ?thesis using g w Some by (simp add: resolve_def Let_def)
qed

section \<open>An example\<close>

text \<open>A worker that answers every command with one observation.\<close>

definition desk_observation :: window_observation where
  "desk_observation =
     \<lparr>wo_observation_id = ObservationId ''o'', wo_window_ref = WindowRef ''w'', wo_captured_at = ''now'',
      wo_window_screen_bounds = sm_screen_bounds (sa_mapping small_artifact), wo_screenshot = Some small_artifact,
      wo_elements = [], wo_elements_complete = True, wo_elements_truncation = None\<rparr>"

definition desk :: "unit desktop_worker" where
  "desk =
     \<lparr>dk_platform = P_Macos, dk_environment = local_user_desktop,
      dk_dispatch = (\<lambda>_ request_id _ _. Ret \<lparr>resp_protocol_version = ''nexus.cua.v1'', resp_request_id = request_id,
         resp_outcome = Success (WindowObserved desk_observation)\<rparr>),
      dk_read_artifact = (\<lambda>_ _. Ret (Inr [1, 2, 3]))\<rparr>"

definition desk_env :: registry_env where
  "desk_env = \<lparr>re_config = \<lparr>wrc_max_workers = 1, wrc_max_leases = 2, wrc_max_lease_ttl = 1000\<rparr>,
     re_uuid = (\<lambda>n. replicate n CHR ''u''), re_wall = (\<lambda>_ _. Some ''later'')\<rparr>"

definition any_worker :: worker_requirements where
  "any_worker = \<lparr>wr_platform = None, wr_environment_kind = None, wr_capabilities = [], wr_worker_id = None\<rparr>"

definition desk_lease :: worker_lease where
  "desk_lease = \<lparr>wl_lease_id = WorkerLeaseId ''lease_uu'', wl_worker_id = WorkerId ''worker_'',
     wl_worker_epoch = WorkerEpoch ''epoch_u'', wl_expires_at = ''later''\<rparr>"

definition desk_worker :: "nat \<Rightarrow> unit worker_entry" where
  "desk_worker n = \<lparr>we_descriptor = \<lparr>wd_worker_id = WorkerId ''worker_'', wd_epoch = WorkerEpoch ''epoch_u'',
     wd_platform = P_Macos, wd_environment = local_user_desktop, wd_max_leases = 2, wd_active_leases = n\<rparr>, we_endpoint = desk\<rparr>"

definition desk_idle :: "unit registry_state" where
  "desk_idle = \<lparr>rs_workers = [(WorkerId ''worker_'', desk_worker 0)], rs_leases = [], rs_next = 2\<rparr>"

definition desk_leased :: "unit registry_state" where
  "desk_leased = \<lparr>rs_workers = [(WorkerId ''worker_'', desk_worker 1)],
     rs_leases = [(WorkerLeaseId ''lease_uu'', \<lparr>le_lease = desk_lease, le_expires_at = 105\<rparr>)], rs_next = 3\<rparr>"

lemma desk_env_ok: "inj (re_uuid desk_env)"
  by (auto simp: desk_env_def inj_def dest: arg_cong [of _ _ length])

lemma desk_descriptor_ok: "descriptor_validate local_user_desktop = Inr ()"
  by (simp add: local_user_desktop_def descriptor_validate_def validate_network_def validate_filesystem_def validate_base_image_def)

lemma desk_new: "registry_new (re_config desk_env) = Inr \<lparr>rs_workers = [], rs_leases = [], rs_next = 0\<rparr>"
  by (simp add: registry_new_def desk_env_def)

lemma desk_register: "registry_apply desk_env 0 (Op_Register desk 2) \<lparr>rs_workers = [], rs_leases = [], rs_next = 0\<rparr> = desk_idle"
  by (simp add: register_def desk_env_def desk_idle_def desk_worker_def desk_def desk_descriptor_ok Let_def purge_leases_def
      expired_leases_def hm_len_def random_id_def hm_insert_def)

lemma desk_acquire: "acquire desk_env 5 any_worker 100 desk_idle = (Inr desk_lease, desk_leased)"
  by (simp add: acquire_def desk_env_def desk_idle_def desk_leased_def desk_lease_def desk_worker_def any_worker_def Let_def
      purge_leases_def expired_leases_def hm_len_def random_id_def hm_insert_def hm_values_def hm_modify_def hm_get_def
      placeable_def requirements_match_def is_none_or_def wall_expiry_def i64_max_def as_secs_def set_active_def numeral_2_eq_2)

lemma desk_expired: "registry_apply desk_env 200 Op_List desk_leased = desk_idle\<lparr>rs_next := 3\<rparr>"
  by (simp add: list_workers_def desk_idle_def desk_leased_def desk_lease_def desk_worker_def Let_def purge_leases_def
      expired_leases_def drop_lease_entry_def decrement_worker_def hm_remove_def hm_modify_def set_active_def)

lemma desk_runs:
  "(registry_step desk_env)\<^sup>*\<^sup>* (0, \<lparr>rs_workers = [], rs_leases = [], rs_next = 0\<rparr>) (0, desk_idle)"
  "(registry_step desk_env)\<^sup>*\<^sup>* (0, \<lparr>rs_workers = [], rs_leases = [], rs_next = 0\<rparr>) (5, desk_leased)"
  "(registry_step desk_env)\<^sup>*\<^sup>* (0, \<lparr>rs_workers = [], rs_leases = [], rs_next = 0\<rparr>) (200, desk_idle\<lparr>rs_next := 3\<rparr>)"
proof -
  have a: "registry_step desk_env (0, \<lparr>rs_workers = [], rs_leases = [], rs_next = 0\<rparr>) (0, desk_idle)"
    using registry_op [of 0 0 desk_env "\<lparr>rs_workers = [], rs_leases = [], rs_next = 0\<rparr>" "Op_Register desk 2"] by (simp only: desk_register order_refl)
  have b: "registry_step desk_env (0, desk_idle) (5, desk_leased)"
    using registry_op [of 0 5 desk_env desk_idle "Op_Acquire any_worker 100"] by (simp add: desk_acquire)
  have c: "registry_step desk_env (5, desk_leased) (200, desk_idle\<lparr>rs_next := 3\<rparr>)"
    using registry_op [of 5 200 desk_env desk_leased Op_List] by (simp only: desk_expired numeral_le_iff semiring_norm)
  show 1: "(registry_step desk_env)\<^sup>*\<^sup>* (0, \<lparr>rs_workers = [], rs_leases = [], rs_next = 0\<rparr>) (0, desk_idle)"
    by (rule r_into_rtranclp) (rule a)
  show 2: "(registry_step desk_env)\<^sup>*\<^sup>* (0, \<lparr>rs_workers = [], rs_leases = [], rs_next = 0\<rparr>) (5, desk_leased)"
    by (rule rtranclp.rtrancl_into_rtrancl, rule 1, rule b)
  show "(registry_step desk_env)\<^sup>*\<^sup>* (0, \<lparr>rs_workers = [], rs_leases = [], rs_next = 0\<rparr>) (200, desk_idle\<lparr>rs_next := 3\<rparr>)"
    by (rule rtranclp.rtrancl_into_rtrancl, rule 2, rule c)
qed

section \<open>Properties\<close>

text \<open>
  Claim C24. The registry is exact and bounded after every sequence of operations: it holds at most
  the configured numbers of workers and leases; the active count of every worker is exactly the
  number of leases that name it and within its capacity; every lease names a registered worker of
  the same epoch; and every registered environment has a valid descriptor.
\<close>

theorem registry_exact:
  assumes "(registry_step env)\<^sup>*\<^sup>* (t0, s0) (now, s)" "registry_new (re_config env) = Inr s0" "inj (re_uuid env)"
  shows "hm_len (rs_workers s) \<le> wrc_max_workers (re_config env) \<and> hm_len (rs_leases s) \<le> wrc_max_leases (re_config env) \<and>
    (\<forall>w e. hm_get (rs_workers s) w = Some e \<longrightarrow>
       wd_active_leases (we_descriptor e) = card (held s w) \<and> card (held s w) \<le> wd_max_leases (we_descriptor e) \<and>
       descriptor_validate (wd_environment (we_descriptor e)) = Inr ()) \<and>
    (\<forall>l e. hm_get (rs_leases s) l = Some e \<longrightarrow>
       (\<exists>w. hm_get (rs_workers s) (wl_worker_id (le_lease e)) = Some w \<and>
            wd_epoch (we_descriptor w) = wl_worker_epoch (le_lease e)))"
proof -
  note D = regokD [OF registry_reachable_ok [OF assms]]
  have "wd_active_leases (we_descriptor e) = card (held s w)" "card (held s w) \<le> wd_max_leases (we_descriptor e)"
    "descriptor_validate (wd_environment (we_descriptor e)) = Inr ()" if "hm_get (rs_workers s) w = Some e" for w e
    using D(5) [OF that] unfolding worker_ok_def Let_def by auto
  moreover have "\<exists>w. hm_get (rs_workers s) (wl_worker_id (le_lease e)) = Some w \<and>
      wd_epoch (we_descriptor w) = wl_worker_epoch (le_lease e)" if "hm_get (rs_leases s) l = Some e" for l e
    using D(6) [OF that] by (simp add: lease_ok_def)
  ultimately show ?thesis using D(3,4) by simp
qed

theorem registry_exact_witness:
  "card (held desk_leased (WorkerId ''worker_'')) = 1 \<and> hm_len (rs_leases desk_leased) \<le> 2"
proof -
  note h = registry_exact [OF desk_runs(2) desk_new desk_env_ok]
  have "hm_get (rs_workers desk_leased) (WorkerId ''worker_'') = Some (desk_worker 1)"
    by (simp add: desk_leased_def hm_get_def)
  with h have "wd_active_leases (we_descriptor (desk_worker 1)) = card (held desk_leased (WorkerId ''worker_''))" by blast
  then show ?thesis using h by (simp add: desk_worker_def desk_env_def)
qed

text \<open>
  Claim C23. A placement is right: a granted lease is on a matching worker with free capacity, none
  of which has fewer leases, and resolves to exactly that worker until its time has passed; the
  registry is busy exactly when the total of live leases is at its bound or no matching worker has
  free capacity.
\<close>

theorem acquire_places:
  assumes r: "(registry_step env)\<^sup>*\<^sup>* (t0, s0) (t, s)" "registry_new (re_config env) = Inr s0" "inj (re_uuid env)"
    and a: "acquire env now requirements ttl s = (result, s')" and ttl: "0 < ttl" "ttl \<le> wrc_max_lease_ttl (re_config env)"
  shows "(result = Inl WE_Busy \<longleftrightarrow>
      wrc_max_leases (re_config env) \<le> hm_len (rs_leases (purge_leases now s)) \<or>
      (\<forall>v f. hm_get (rs_workers (purge_leases now s)) v = Some f \<longrightarrow> \<not> placeable requirements f)) \<and>
    (\<forall>lease. result = Inr lease \<longrightarrow>
       (\<exists>e. hm_get (rs_workers (purge_leases now s)) (wl_worker_id lease) = Some e \<and> placeable requirements e \<and>
          (\<forall>v f. hm_get (rs_workers (purge_leases now s)) v = Some f \<longrightarrow> placeable requirements f \<longrightarrow>
             wd_active_leases (we_descriptor e) \<le> wd_active_leases (we_descriptor f)) \<and>
          (\<forall>later. fst (resolve later (wl_lease_id lease) (wl_worker_epoch lease) s') =
             (if later < now + ttl then Inr (lease, we_endpoint e) else Inl WE_StaleLease))))"
proof -
  have ok: "regok env s" by (rule registry_reachable_ok [OF r])
  define p where "p = purge_leases now s"
  have P: "regok env p" unfolding p_def by (rule purge_leases_ok [OF ok])
  have s': "regok env s'" using acquire_ok [OF ok r(3), of now requirements ttl] a by simp
  let ?sel = "min_by placement_key (filter (placeable requirements) (hm_values (rs_workers p)))"
  have none: "?sel = None \<longleftrightarrow> (\<forall>v f. hm_get (rs_workers p) v = Some f \<longrightarrow> \<not> placeable requirements f)"
    using regokD(1) [OF P] by (auto simp: min_by_None filter_empty_conv hm_values_def hm_get_iff_in_set)
  note eq = acquire_cases [OF ok p_def, of requirements ttl, unfolded a]
  have wall: "wall_expiry env now ttl \<noteq> Inl WE_Busy" by (simp add: wall_expiry_def ok_or_def split: option.split)
  have busy: "result = Inl WE_Busy \<longleftrightarrow> wrc_max_leases (re_config env) \<le> hm_len (rs_leases p) \<or> ?sel = None"
    using eq ttl wall by (auto simp: Let_def split: if_splits option.splits sum.splits)
  have "\<exists>e. hm_get (rs_workers p) (wl_worker_id lease) = Some e \<and> placeable requirements e \<and>
      (\<forall>v f. hm_get (rs_workers p) v = Some f \<longrightarrow> placeable requirements f \<longrightarrow>
         wd_active_leases (we_descriptor e) \<le> wd_active_leases (we_descriptor f)) \<and>
      (\<forall>later. fst (resolve later (wl_lease_id lease) (wl_worker_epoch lease) s') =
         (if later < now + ttl then Inr (lease, we_endpoint e) else Inl WE_StaleLease))"
    if res: "result = Inr lease" for lease
  proof -
    obtain e where e: "?sel = Some e" and lease: "wl_worker_id lease = wd_worker_id (we_descriptor e)" "s' = grant lease (now + ttl) p"
      using eq ttl res by (auto simp: Let_def split: if_splits option.splits sum.splits)
    note sel = selected_entry [OF P e]
    have "wd_active_leases (we_descriptor e) \<le> wd_active_leases (we_descriptor f)"
      if "hm_get (rs_workers p) v = Some f" "placeable requirements f" for v f
      using sel(3) [OF that] by (auto simp: placement_key_def less_eq_prod_def)
    moreover have "fst (resolve later (wl_lease_id lease) (wl_worker_epoch lease) s') =
         (if later < now + ttl then Inr (lease, we_endpoint e) else Inl WE_StaleLease)" for later
      using sel(1) unfolding resolve_live [OF s'] unfolding lease(2) by (simp add: live_def grant_def lease(1) set_active_def)
    ultimately show ?thesis using sel(1,2) lease(1) by (intro exI [of _ e]) simp
  qed
  then show ?thesis unfolding p_def [symmetric] using busy none by simp
qed

theorem acquire_places_witness:
  "fst (resolve 104 (WorkerLeaseId ''lease_uu'') (WorkerEpoch ''epoch_u'') desk_leased) = Inr (desk_lease, desk) \<and>
   fst (resolve 105 (WorkerLeaseId ''lease_uu'') (WorkerEpoch ''epoch_u'') desk_leased) = Inl WE_StaleLease"
proof -
  note h = acquire_places [OF desk_runs(1) desk_new desk_env_ok desk_acquire]
  from h obtain e where e: "hm_get (rs_workers (purge_leases 5 desk_idle)) (wl_worker_id desk_lease) = Some e"
    "\<And>later. fst (resolve later (wl_lease_id desk_lease) (wl_worker_epoch desk_lease) desk_leased) =
             (if later < 5 + 100 then Inr (desk_lease, we_endpoint e) else Inl WE_StaleLease)"
    by (auto simp: desk_env_def)
  have "e = desk_worker 0"
    using e(1) by (simp add: desk_idle_def desk_lease_def purge_leases_def expired_leases_def hm_get_def)
  then show ?thesis using e(2) [of 104] e(2) [of 105] by (simp add: desk_lease_def desk_worker_def)
qed

text \<open>
  A lease ends for good: once a lease is released, has expired or lost its worker, no
  later sequence of operations makes it resolve again, under whatever epoch.
\<close>

theorem lease_never_revived:
  assumes r: "(registry_step env)\<^sup>*\<^sup>* (t0, s0) (now, s)" "registry_new (re_config env) = Inr s0" "inj (re_uuid env)"
    and l: "l \<in> issued WorkerLeaseId ''lease'' env (rs_next s)" "live now s l = None"
    and later: "(registry_step env)\<^sup>*\<^sup>* (now, s) (later, s')"
  shows "fst (resolve later l expected s') = Inl WE_StaleLease"
proof -
  have d: "regok env s'" "live later s' l = None"
    using dead_stays_dead [OF later registry_reachable_ok [OF r] r(3) l] by simp_all
  show ?thesis unfolding resolve_live [OF d(1)] by (simp add: d(2))
qed

theorem lease_never_revived_witness:
  "fst (resolve 200 (WorkerLeaseId ''lease_uu'') (WorkerEpoch ''epoch_u'') (desk_idle\<lparr>rs_next := 3\<rparr>)) = Inl WE_StaleLease"
proof (rule lease_never_revived [OF desk_runs(3) desk_new desk_env_ok _ _ rtranclp.rtrancl_refl])
  have "WorkerLeaseId ''lease_uu'' = WorkerLeaseId (random_id desk_env ''lease'' 2)"
    by (simp add: random_id_def desk_env_def numeral_2_eq_2)
  then show "WorkerLeaseId ''lease_uu'' \<in> issued WorkerLeaseId ''lease'' desk_env (rs_next (desk_idle\<lparr>rs_next := 3\<rparr>))"
    unfolding issued_def by (intro image_eqI [of _ _ 2]) simp_all
  show "live 200 (desk_idle\<lparr>rs_next := 3\<rparr>) (WorkerLeaseId ''lease_uu'') = None"
    by (simp add: live_def desk_idle_def hm_get_def)
qed

end
