(* ===== verification/RuntimeState.thy ===== *)
theory RuntimeState
  imports Artifacts Tasks "HOL-Library.List_Lexorder" "HOL-Library.Char_ord" "HOL-Library.Product_Lexorder"
begin

text \<open>
  The shared state of \<^verbatim>\<open>Runtime\<close> in \<^verbatim>\<open>crates/runtime/src/service.rs\<close>, its configuration, and the
  surroundings a runtime is built over: the driver, the random identifiers, the wall clock, the
  file system outcomes and the third-party codecs, each a field of \<open>rt_env\<close>.

  An \<^verbatim>\<open>Arc<Session>\<close> is an address of the append-only list \<open>r_heap\<close>, so that a session a task still
  holds lives on after it is removed from the map, as in the code. \<open>r_trace\<close> records, for the
  theorems only, when a one-use reference is consumed and when a native mutation starts and ends.
\<close>

section \<open>Configuration\<close>

definition MAX_CONFIGURED_CLIPBOARD_TEXT_BYTES :: nat where
  "MAX_CONFIGURED_CLIPBOARD_TEXT_BYTES = 1024 * 1024"

definition MAX_CLIPBOARD_CHANGE_MARKER_BYTES :: nat where
  "MAX_CLIPBOARD_CHANGE_MARKER_BYTES = 256"

definition DEFAULT_MAX_OBSERVATION_AGE_SECONDS :: nat where
  "DEFAULT_MAX_OBSERVATION_AGE_SECONDS = 120"

record runtime_config =
  max_session_ttl :: duration
  discovery_ttl :: duration
  max_observation_age :: duration
  max_observations_per_session :: nat
  max_active_sessions :: nat
  max_discovered_applications :: nat
  max_discovery_records :: nat
  max_discovered_launchable_applications :: nat
  max_launch_discovery_records :: nat
  max_elements_per_observation :: nat
  max_displays_per_session :: nat
  max_image_edge :: u32
  max_image_pixels :: u64
  max_artifacts_per_session :: nat
  max_artifact_workers :: nat
  max_clipboard_text_bytes :: nat
  policy :: runtime_policy_stack

definition default_config :: runtime_config where
  "default_config =
     \<lparr>max_session_ttl = from_secs (60 * 60), discovery_ttl = from_secs 30,
      max_observation_age = from_secs DEFAULT_MAX_OBSERVATION_AGE_SECONDS,
      max_observations_per_session = 32, max_active_sessions = 64, max_discovered_applications = 256,
      max_discovery_records = 2048, max_discovered_launchable_applications = 512,
      max_launch_discovery_records = 2048, max_elements_per_observation = 2000,
      max_displays_per_session = 16, max_image_edge = 1568, max_image_pixels = 100000000,
      max_artifacts_per_session = 32, max_artifact_workers = 2,
      max_clipboard_text_bytes = 64 * 1024,
      policy = \<lparr>stack_managed = None, stack_user = None\<rparr>\<rparr>"

definition config_valid :: "runtime_config \<Rightarrow> bool" where
  "config_valid config \<longleftrightarrow>
     max_session_ttl config \<noteq> 0 \<and> discovery_ttl config \<noteq> 0 \<and> discovery_ttl config \<le> from_secs 30 \<and>
     max_observation_age config \<noteq> 0 \<and> max_observations_per_session config \<noteq> 0 \<and>
     max_active_sessions config \<noteq> 0 \<and> max_discovered_applications config \<noteq> 0 \<and>
     max_discovery_records config \<noteq> 0 \<and>
     max_discovered_applications config \<le> max_discovery_records config \<and>
     max_discovered_launchable_applications config \<noteq> 0 \<and>
     max_launch_discovery_records config \<noteq> 0 \<and>
     max_discovered_launchable_applications config \<le> max_launch_discovery_records config \<and>
     max_elements_per_observation config \<noteq> 0 \<and> max_displays_per_session config \<noteq> 0 \<and>
     1 \<le> max_image_edge config \<and> max_image_edge config \<le> 4096 \<and> max_image_pixels config \<noteq> 0 \<and>
     max_artifacts_per_session config \<noteq> 0 \<and> max_artifact_workers config \<noteq> 0 \<and>
     max_clipboard_text_bytes config \<noteq> 0 \<and>
     max_clipboard_text_bytes config \<le> MAX_CONFIGURED_CLIPBOARD_TEXT_BYTES"

section \<open>State\<close>

record discovery_record =
  dr_runtime_epoch :: string
  dr_application :: driver_application
  dr_expires_at :: instant

record launch_discovery_record =
  ldr_runtime_epoch :: string
  ldr_application :: driver_launchable_application
  ldr_expires_at :: instant

datatype scheduler_signal = Reschedule | ShutdownSignal

text \<open>The one-use references, and the native calls they admit.\<close>

datatype ticket =
    T_Observation nat observation_id
  | T_Launch launch_ref
  | T_Clipboard nat clipboard_ref
  | T_Session session_id

datatype native_call =
    N_Perform perform_action_input driver_window driver_action guard
  | N_Launch launch_application_input driver_launchable_application
  | N_WriteClipboard write_clipboard_input string

datatype event =
    Claim nat ticket
  | Dispatch nat ticket native_call
  | Returned nat ticket "mutation_status option"

record 'w runtime =
  r_now :: instant
  r_world :: 'w
  r_next_uuid :: nat
  r_next_lease :: nat
  r_artifacts :: artifact_store
  r_artifact_workers :: nat
  r_discovery :: "(discovery_ref, discovery_record) hm"
  r_launch_discovery :: "(launch_ref, launch_discovery_record) hm"
  r_sessions :: "(session_id, nat) hm"
  r_heap :: "session list"
  r_scheduler :: bool
  r_signal :: scheduler_signal
  r_signal_version :: nat
  r_signal_seen :: nat
  r_loop_busy :: bool
  r_loop_done :: bool
  r_lifecycle_readers :: "nat list"
  r_lifecycle_writer :: "nat option"
  r_foreground_lane :: "nat option"
  r_clipboard_lane :: "nat option"
  r_shutdown_guard :: "nat option"
  r_closed :: bool
  r_cleared :: bool
  r_trace :: "event list"

text \<open>
  \<open>e_wall w d\<close> is the RFC 3339 text of the wall clock plus \<open>d\<close>, or \<open>None\<close> when it can not be
  formatted; \<open>e_io w\<close> the outcomes of the I/O calls of the artifact store; \<open>e_timer_first w\<close> the
  branch \<^verbatim>\<open>select!\<close> takes when both are ready.
\<close>

record 'w rt_env =
  e_driver :: "'w desktop_driver"
  e_config :: runtime_config
  e_epoch :: string
  e_uuid :: uuid_source
  e_wall :: "'w \<Rightarrow> duration \<Rightarrow> string option"
  e_io :: "'w \<Rightarrow> io_faults"
  e_png :: "u32 \<Rightarrow> u32 \<Rightarrow> bytes \<Rightarrow> png_failure + bytes"
  e_sha :: "bytes \<Rightarrow> string"
  e_canon :: "files \<Rightarrow> path \<Rightarrow> path option"
  e_timer_first :: "'w \<Rightarrow> bool"

definition config_error :: cua_error where
  "config_error =
     public_error InvalidRequest ''runtime resource and lifetime bounds must be non-zero'' False None"

text \<open>
  \<^verbatim>\<open>Runtime::new\<close> after the artifact store is opened; \<open>configured\<close> is the driver's answer to the
  image budget and \<open>opened\<close> the result of \<^verbatim>\<open>ArtifactStore::new\<close>.
\<close>

definition runtime_new ::
  "runtime_config \<Rightarrow> driver_error + unit \<Rightarrow> cua_error + artifact_store \<Rightarrow> instant \<Rightarrow> 'w \<Rightarrow> nat \<Rightarrow>
   cua_error + 'w runtime" where
  "runtime_new config configured opened now w n =
     (if \<not> config_valid config then Inl config_error
      else bindR (map_err cua_error_from configured) (\<lambda>_.
      bindR opened (\<lambda>artifacts.
      Inr \<lparr>r_now = now, r_world = w, r_next_uuid = n, r_next_lease = 0, r_artifacts = artifacts,
           r_artifact_workers = max_artifact_workers config, r_discovery = [],
           r_launch_discovery = [], r_sessions = [], r_heap = [], r_scheduler = False,
           r_signal = Reschedule, r_signal_version = 0, r_signal_seen = 0, r_loop_busy = False,
           r_loop_done = False, r_lifecycle_readers = [], r_lifecycle_writer = None,
           r_foreground_lane = None, r_clipboard_lane = None, r_shutdown_guard = None,
           r_closed = False, r_cleared = False, r_trace = []\<rparr>)))"

section \<open>Errors\<close>

definition session_unavailable :: cua_error where
  "session_unavailable =
     public_error SessionUnavailable ''session is missing, expired, or closed'' False
       (Some ''open_new_session'')"

definition stale_discovery :: cua_error where
  "stale_discovery =
     public_error StaleDiscovery
       ''discovery reference expired or no longer identifies the same process generation'' True
       (Some ''discover_applications'')"

definition stale_launch_discovery :: cua_error where
  "stale_launch_discovery =
     public_error StaleDiscovery
       ''launch reference expired or no longer identifies the same installed application'' True
       (Some ''discover_launchable_applications'')"

definition stale_clipboard :: cua_error where
  "stale_clipboard =
     with_mutation_status MS_NotDispatched
       (public_error StaleClipboard ''clipboard guard is missing, consumed, or no longer current'' True
         (Some ''read_clipboard_again''))"

definition change_marker_error :: cua_error where
  "change_marker_error =
     public_error Internal ''driver returned an invalid clipboard change marker'' False
       (Some ''restart_runtime'')"

definition validate_clipboard_change_marker :: "string \<Rightarrow> cua_error + unit" where
  "validate_clipboard_change_marker change_marker =
     (if change_marker = [] \<or> MAX_CLIPBOARD_CHANGE_MARKER_BYTES < length change_marker \<or>
         change_marker \<noteq> trim change_marker \<or> has_control change_marker
      then Inl change_marker_error else Inr ())"

definition runtime_unavailable :: cua_error where
  "runtime_unavailable =
     public_error SessionUnavailable ''runtime is shutting down or unavailable'' True
       (Some ''restart_runtime'')"

definition reference_not_found :: cua_error where
  "reference_not_found =
     public_error ReferenceNotFound ''reference does not exist in this session'' False
       (Some ''refresh_references'')"

definition capability_denied :: cua_error where
  "capability_denied =
     public_error CapabilityDenied ''session capability does not authorize this operation'' False
       (Some ''request_new_bounded_session'')"

definition foreground_required :: cua_error where
  "foreground_required =
     public_error ForegroundRequired ''action requires foreground input not granted by this session''
       False (Some ''request_foreground_authorization'')"

lemma service_errors [simp]:
  "ce_mutation_status session_unavailable = MS_NotApplicable"
  "ce_mutation_status stale_discovery = MS_NotApplicable"
  "ce_mutation_status stale_launch_discovery = MS_NotApplicable"
  "ce_mutation_status stale_clipboard = MS_NotDispatched"
  "ce_mutation_status change_marker_error = MS_NotApplicable"
  "ce_mutation_status runtime_unavailable = MS_NotApplicable"
  "ce_mutation_status reference_not_found = MS_NotApplicable"
  "ce_mutation_status capability_denied = MS_NotApplicable"
  "ce_mutation_status foreground_required = MS_NotApplicable"
  "ce_code session_unavailable = SessionUnavailable"
  "ce_code runtime_unavailable = SessionUnavailable"
  by (simp_all add: session_unavailable_def stale_discovery_def stale_launch_discovery_def
      stale_clipboard_def change_marker_error_def runtime_unavailable_def reference_not_found_def
      capability_denied_def foreground_required_def)

section \<open>Updates\<close>

definition upd_session :: "nat \<Rightarrow> (session \<Rightarrow> session) \<Rightarrow> 'w runtime \<Rightarrow> 'w runtime" where
  "upd_session a f s = s\<lparr>r_heap := (r_heap s)[a := f (r_heap s ! a)]\<rparr>"

definition upd_state :: "nat \<Rightarrow> (session_state \<Rightarrow> session_state) \<Rightarrow> 'w runtime \<Rightarrow> 'w runtime" where
  "upd_state a f = upd_session a (\<lambda>x. x\<lparr>s_state := f (s_state x)\<rparr>)"

definition upd_guard :: "nat \<Rightarrow> (guard_world \<Rightarrow> guard_world) \<Rightarrow> 'w runtime \<Rightarrow> 'w runtime" where
  "upd_guard a f = upd_session a (\<lambda>x. x\<lparr>s_guard := f (s_guard x)\<rparr>)"

definition emit :: "event \<Rightarrow> 'w runtime \<Rightarrow> 'w runtime" where
  "emit e s = s\<lparr>r_trace := r_trace s @ [e]\<rparr>"

abbreviation state_of :: "'w runtime \<Rightarrow> nat \<Rightarrow> session_state" where
  "state_of s a \<equiv> s_state (r_heap s ! a)"

abbreviation guard_of :: "'w runtime \<Rightarrow> nat \<Rightarrow> guard_world" where
  "guard_of s a \<equiv> s_guard (r_heap s ! a)"

text \<open>\<^verbatim>\<open>Session::close\<close> on a session of the heap, with its notification of the driver.\<close>

definition close_at :: "'w rt_env \<Rightarrow> nat \<Rightarrow> 'w runtime \<Rightarrow> 'w runtime" where
  "close_at env a s =
     (let ses = r_heap s ! a; (ses', notify) = session_close ses
      in (if a < length (r_heap s) then upd_session a (\<lambda>_. ses') s else s)
           \<lparr>r_world := (if notify then session_closed (e_driver env) (s_id ses) (r_world s) else r_world s)\<rparr>)"

section \<open>Sections shared by the handlers\<close>

text \<open>A call of the driver: between its neighbours every other task may run.\<close>

definition call :: "('a, 'w) driver_call \<Rightarrow> ('w runtime, driver_error + 'a) prog" where
  "call f = atomic (\<lambda>s. case f (r_world s) of (r, w') \<Rightarrow> (r, s\<lparr>r_world := w'\<rparr>))"

definition call_public :: "('a, 'w) driver_call \<Rightarrow> ('w runtime, cua_error + 'a) prog" where
  "call_public f = mapP (map_err cua_error_from) (call f)"

definition observe :: "('w runtime \<Rightarrow> 'a) \<Rightarrow> ('w runtime, 'a) prog" where
  "observe f = atomic (\<lambda>s. (f s, s))"

definition update :: "('w runtime \<Rightarrow> 'w runtime) \<Rightarrow> ('w runtime, unit) prog" where
  "update f = atomic (\<lambda>s. ((), f s))"

definition send_replace :: "scheduler_signal \<Rightarrow> 'w runtime \<Rightarrow> 'w runtime" where
  "send_replace sig s = s\<lparr>r_signal := sig, r_signal_version := r_signal_version s + 1\<rparr>"

definition signal_reschedule :: "('w runtime, unit) prog" where
  "signal_reschedule = update (\<lambda>s. if r_scheduler s then send_replace Reschedule s else s)"

definition ensure_scheduler :: "('w runtime, unit) prog" where
  "ensure_scheduler = update (\<lambda>s. if r_scheduler s then s else s\<lparr>r_scheduler := True, r_signal := Reschedule\<rparr>)"

definition remove_artifacts :: "'w rt_env \<Rightarrow> session_id \<Rightarrow> ('w runtime, unit) prog" where
  "remove_artifacts env sid =
     update (\<lambda>s. s\<lparr>r_artifacts := remove_session (e_io env (r_world s)) sid (r_artifacts s)\<rparr>)"

datatype lookup = Missing | Expired | Found nat session

definition session_section :: "'w rt_env \<Rightarrow> session_id \<Rightarrow> 'w runtime \<Rightarrow> lookup \<times> 'w runtime" where
  "session_section env sid s =
     (case hm_get (r_sessions s) sid of
        None \<Rightarrow> (Missing, s)
      | Some a \<Rightarrow>
          if s_expires_at (r_heap s ! a) \<le> r_now s
          then (Expired, (close_at env a s)\<lparr>r_sessions := hm_remove sid (r_sessions s)\<rparr>)
          else (Found a (r_heap s ! a), s))"

definition session_lookup :: "'w rt_env \<Rightarrow> session_id \<Rightarrow> ('w runtime, cua_error + nat \<times> session) prog" where
  "session_lookup env sid =
     bindP (atomic (session_section env sid)) (\<lambda>r. case r of
         Missing \<Rightarrow> Ret (Inl session_unavailable)
       | Expired \<Rightarrow>
           bindP (remove_artifacts env sid) (\<lambda>_.
           bindP signal_reschedule (\<lambda>_. Ret (Inl session_unavailable)))
       | Found a ses \<Rightarrow> Ret (Inr (a, ses)))"

definition busy_lane :: "string \<Rightarrow> string \<Rightarrow> cua_error" where
  "busy_lane message action = public_error Busy message True (Some action)"

text \<open>\<^verbatim>\<open>try_lock\<close> on a lane, held until the body returns.\<close>

definition with_lane ::
  "('w runtime \<Rightarrow> nat option) \<Rightarrow> (nat option \<Rightarrow> 'w runtime \<Rightarrow> 'w runtime) \<Rightarrow> nat \<Rightarrow> cua_error \<Rightarrow>
   ('w runtime, cua_error + 'a) prog \<Rightarrow> ('w runtime, cua_error + 'a) prog" where
  "with_lane lane set_lane t busy body =
     bindP (atomic (\<lambda>s. if lane s = None then (True, set_lane (Some t) s) else (False, s))) (\<lambda>acquired.
     if acquired
     then bindP body (\<lambda>r. bindP (update (set_lane None)) (\<lambda>_. Ret r))
     else Ret (Inl busy))"

definition set_foreground_lane :: "nat option \<Rightarrow> 'w runtime \<Rightarrow> 'w runtime" where
  "set_foreground_lane v s = s\<lparr>r_foreground_lane := v\<rparr>"

definition set_clipboard_lane :: "nat option \<Rightarrow> 'w runtime \<Rightarrow> 'w runtime" where
  "set_clipboard_lane v s = s\<lparr>r_clipboard_lane := v\<rparr>"

abbreviation with_foreground_lane ::
  "nat \<Rightarrow> cua_error \<Rightarrow> ('w runtime, cua_error + 'a) prog \<Rightarrow> ('w runtime, cua_error + 'a) prog" where
  "with_foreground_lane \<equiv> with_lane r_foreground_lane set_foreground_lane"

abbreviation with_clipboard_lane ::
  "nat \<Rightarrow> cua_error \<Rightarrow> ('w runtime, cua_error + 'a) prog \<Rightarrow> ('w runtime, cua_error + 'a) prog" where
  "with_clipboard_lane \<equiv> with_lane r_clipboard_lane set_clipboard_lane"

section \<open>Artifacts\<close>

definition worker_busy :: cua_error where
  "worker_busy =
     public_error Busy ''artifact worker capacity is exhausted'' True (Some ''retry_after_capacity'')"

definition take_worker :: "'w runtime \<Rightarrow> 'w runtime" where
  "take_worker s = s\<lparr>r_artifact_workers := r_artifact_workers s - 1\<rparr>"

definition release_worker :: "('w runtime, unit) prog" where
  "release_worker = update (\<lambda>s. s\<lparr>r_artifact_workers := r_artifact_workers s + 1\<rparr>)"

definition try_worker :: "('w runtime, cua_error + unit) prog" where
  "try_worker =
     atomic (\<lambda>s. if r_artifact_workers s = 0 then (Inl worker_busy, s) else (Inr (), take_worker s))"

definition runtime_read_artifact ::
  "'w rt_env \<Rightarrow> screenshot_artifact \<Rightarrow> u64 \<Rightarrow> ('w runtime, cua_error + bytes) prog" where
  "runtime_read_artifact env artifact max_bytes =
     bindE try_worker (\<lambda>_.
     bindP (observe (\<lambda>s. Artifacts.read_artifact (e_canon env) (e_sha env) (e_io env (r_world s))
              (r_artifacts s) artifact max_bytes)) (\<lambda>r.
     bindP release_worker (\<lambda>_. Ret r)))"

definition take_section ::
  "'w rt_env \<Rightarrow> screenshot_artifact \<Rightarrow> u64 \<Rightarrow> 'w runtime \<Rightarrow> (cua_error + bytes) \<times> 'w runtime" where
  "take_section env artifact max_bytes s =
     (case Artifacts.take_artifact (e_canon env) (e_sha env) (e_io env (r_world s)) (r_artifacts s)
             artifact max_bytes of
        (r, artifacts') \<Rightarrow> (r, s\<lparr>r_artifacts := artifacts'\<rparr>))"

definition runtime_take_artifact ::
  "'w rt_env \<Rightarrow> screenshot_artifact \<Rightarrow> u64 \<Rightarrow> ('w runtime, cua_error + bytes) prog" where
  "runtime_take_artifact env artifact max_bytes =
     bindE try_worker (\<lambda>_.
     bindP (atomic (take_section env artifact max_bytes)) (\<lambda>r.
     bindP release_worker (\<lambda>_. Ret r)))"

definition write_section ::
  "'w rt_env \<Rightarrow> session_id \<Rightarrow> rgba_image \<Rightarrow> screen_rect \<Rightarrow> 'w runtime \<Rightarrow>
   (cua_error + screenshot_artifact) \<times> 'w runtime" where
  "write_section env sid img bounds s =
     (case write_image (e_png env) (e_sha env) (e_uuid env) (e_io env (r_world s)) sid img bounds
             (r_next_uuid s) (r_artifacts s) of
        (r, n', artifacts') \<Rightarrow> (r, s\<lparr>r_artifacts := artifacts', r_next_uuid := n'\<rparr>))"

definition write_screenshot ::
  "'w rt_env \<Rightarrow> session_id \<Rightarrow> rgba_image \<Rightarrow> screen_rect \<Rightarrow> ('w runtime, cua_error + screenshot_artifact) prog" where
  "write_screenshot env sid img bounds =
     bindP (blocking (\<lambda>s. r_artifact_workers s \<noteq> 0) (\<lambda>s. ((), take_worker s))) (\<lambda>_.
     bindP (atomic (write_section env sid img bounds)) (\<lambda>r.
     bindP release_worker (\<lambda>_. Ret r)))"

end
