(* ===== verification/Runtime.thy ===== *)
theory Runtime
  imports RuntimeState
begin

text \<open>
  The command handlers of \<^verbatim>\<open>crates/runtime/src/service.rs\<close>: discovery, launch, sessions, listing,
  observation, clipboard, actions, verification, \<^verbatim>\<open>execute\<close>, \<^verbatim>\<open>shutdown\<close> and the expiration loop. Each
  handler is a task of theory \<open>Tasks\<close> over the state of theory \<open>RuntimeState\<close>, with one section per
  critical section or driver call of the source and the same order of checks.

  Log messages are left out. A lock of the source that a panic poisoned is not modelled: no
  critical section of the runtime panics. The function \<open>t\<close> of every handler is its task number,
  which identifies the holder of a lane.
\<close>

section \<open>Discovery\<close>

definition expiry_overflow_error :: cua_error where
  "expiry_overflow_error = public_error Internal ''failed to calculate discovery expiry'' False None"

definition expiry_format_error :: cua_error where
  "expiry_format_error = public_error Internal ''failed to format discovery expiry'' False None"

text \<open>\<^verbatim>\<open>Duration::try_from\<close> fails when the seconds do not fit an \<^verbatim>\<open>i64\<close>.\<close>

definition expiry_section :: "'w rt_env \<Rightarrow> 'w runtime \<Rightarrow> cua_error + instant \<times> string" where
  "expiry_section env s =
     (let ttl = discovery_ttl (e_config env)
      in if 2 ^ 63 \<le> as_secs ttl then Inl expiry_overflow_error
         else bindR (ok_or expiry_format_error (e_wall env (r_world s) ttl)) (\<lambda>txt.
              Inr (r_now s + ttl, txt)))"

definition discovery_expiry :: "'w rt_env \<Rightarrow> ('w runtime, cua_error + instant \<times> string) prog" where
  "discovery_expiry env = observe (expiry_section env)"

definition discovered_of :: "discovery_ref \<Rightarrow> string \<Rightarrow> driver_application \<Rightarrow> discovered_application" where
  "discovered_of dref txt application =
     \<lparr>da_discovery_ref = dref, da_name = dapp_name application,
      da_application_id = dapp_application_id application, da_foreground = dapp_foreground application,
      da_provenance = dapp_provenance application, da_expires_at = txt\<rparr>"

definition discovery_record_of :: "'w rt_env \<Rightarrow> instant \<Rightarrow> driver_application \<Rightarrow> discovery_record" where
  "discovery_record_of env expires_at application =
     \<lparr>dr_runtime_epoch = e_epoch env, dr_application = application, dr_expires_at = expires_at\<rparr>"

fun issue_discovery ::
  "'w rt_env \<Rightarrow> instant \<Rightarrow> string \<Rightarrow> driver_application list \<Rightarrow> nat \<Rightarrow> (discovery_ref, discovery_record) hm \<Rightarrow>
   discovered_application list \<times> nat \<times> (discovery_ref, discovery_record) hm" where
  "issue_discovery env expires_at txt [] n m = ([], n, m)"
| "issue_discovery env expires_at txt (application # rest) n m =
     (let dref = DiscoveryRef (''discovery_'' @ e_uuid env n);
          (out, n', m') = issue_discovery env expires_at txt rest (n + 1)
            (hm_insert dref (discovery_record_of env expires_at application) m)
      in (discovered_of dref txt application # out, n', m'))"

definition discovery_capacity_error :: cua_error where
  "discovery_capacity_error =
     public_error Busy ''unexpired discovery reference capacity is exhausted'' True
       (Some ''retry_after_discovery_expiry'')"

definition discovery_section ::
  "'w rt_env \<Rightarrow> instant \<Rightarrow> string \<Rightarrow> driver_application list \<Rightarrow> 'w runtime \<Rightarrow>
   (cua_error + discovered_application list) \<times> 'w runtime" where
  "discovery_section env expires_at txt found s =
     (let live = hm_retain (\<lambda>_ r. r_now s < dr_expires_at r) (r_discovery s)
      in if max_discovery_records (e_config env) < hm_len live + length found
         then (Inl discovery_capacity_error, s\<lparr>r_discovery := live\<rparr>)
         else case issue_discovery env expires_at txt found (r_next_uuid s) live of
                (out, n', m') \<Rightarrow> (Inr out, s\<lparr>r_discovery := m', r_next_uuid := n'\<rparr>))"

definition order_applications :: "driver_application list \<Rightarrow> driver_application list" where
  "order_applications found =
     dedup_by_key dapp_key (sort_key (\<lambda>x. (dapp_application_id x, dapp_name x, dapp_key x)) found)"

definition discover_applications :: "'w rt_env \<Rightarrow> ('w runtime, cua_error + command_result) prog" where
  "discover_applications env =
     bindE (call_public (list_applications (e_driver env))) (\<lambda>found.
     let ordered = order_applications found; limit = max_discovered_applications (e_config env);
         complete = (length ordered \<le> limit)
     in bindE (discovery_expiry env) (\<lambda>(expires_at, txt).
        bindE (atomic (discovery_section env expires_at txt (take limit ordered))) (\<lambda>out.
        bindP signal_reschedule (\<lambda>_.
        Ret (Inr (ApplicationsDiscovered \<lparr>dao_applications = out, dao_complete = complete\<rparr>))))))"

definition launchable_of ::
  "launch_ref \<Rightarrow> string \<Rightarrow> driver_launchable_application \<Rightarrow> launchable_application" where
  "launchable_of lref txt application =
     \<lparr>la_launch_ref = lref, la_name = dla_name application,
      la_application_id = dla_application_id application, la_provenance = dla_provenance application,
      la_expires_at = txt\<rparr>"

fun issue_launchable ::
  "'w rt_env \<Rightarrow> instant \<Rightarrow> string \<Rightarrow> driver_launchable_application list \<Rightarrow> nat \<Rightarrow>
   (launch_ref, launch_discovery_record) hm \<Rightarrow>
   launchable_application list \<times> nat \<times> (launch_ref, launch_discovery_record) hm" where
  "issue_launchable env expires_at txt [] n m = ([], n, m)"
| "issue_launchable env expires_at txt (application # rest) n m =
     (let lref = LaunchRef (''launch_'' @ e_uuid env n);
          (out, n', m') = issue_launchable env expires_at txt rest (n + 1)
            (hm_insert lref \<lparr>ldr_runtime_epoch = e_epoch env, ldr_application = application,
                             ldr_expires_at = expires_at\<rparr> m)
      in (launchable_of lref txt application # out, n', m'))"

definition launch_capacity_error :: cua_error where
  "launch_capacity_error =
     public_error Busy ''unexpired launch reference capacity is exhausted'' True
       (Some ''retry_after_discovery_expiry'')"

definition launchable_section ::
  "'w rt_env \<Rightarrow> instant \<Rightarrow> string \<Rightarrow> driver_launchable_application list \<Rightarrow> 'w runtime \<Rightarrow>
   (cua_error + launchable_application list) \<times> 'w runtime" where
  "launchable_section env expires_at txt found s =
     (let live = hm_retain (\<lambda>_ r. r_now s < ldr_expires_at r) (r_launch_discovery s)
      in if max_launch_discovery_records (e_config env) < hm_len live + length found
         then (Inl launch_capacity_error, s\<lparr>r_launch_discovery := live\<rparr>)
         else case issue_launchable env expires_at txt found (r_next_uuid s) live of
                (out, n', m') \<Rightarrow> (Inr out, s\<lparr>r_launch_discovery := m', r_next_uuid := n'\<rparr>))"

definition order_launchable :: "driver_launchable_application list \<Rightarrow> driver_launchable_application list" where
  "order_launchable found =
     dedup_by_key dla_key (sort_key (\<lambda>x. (dla_application_id x, dla_name x, dla_key x)) found)"

definition discover_launchable_applications :: "'w rt_env \<Rightarrow> ('w runtime, cua_error + command_result) prog" where
  "discover_launchable_applications env =
     bindE (call_public (list_launchable_applications (e_driver env))) (\<lambda>found.
     let ordered = order_launchable found; limit = max_discovered_launchable_applications (e_config env);
         complete = (length ordered \<le> limit)
     in bindE (discovery_expiry env) (\<lambda>(expires_at, txt).
        bindE (atomic (launchable_section env expires_at txt (take limit ordered))) (\<lambda>out.
        bindP signal_reschedule (\<lambda>_.
        Ret (Inr (LaunchableApplicationsDiscovered \<lparr>dlo_applications = out, dlo_complete = complete\<rparr>))))))"

section \<open>Launch\<close>

definition resolve_launch_ref ::
  "'w rt_env \<Rightarrow> launch_ref \<Rightarrow> ('w runtime, cua_error + driver_launchable_application) prog" where
  "resolve_launch_ref env lref =
     observe (\<lambda>s. case hm_get (r_launch_discovery s) lref of
         None \<Rightarrow> Inl stale_launch_discovery
       | Some record \<Rightarrow>
           if ldr_runtime_epoch record = e_epoch env \<and> r_now s < ldr_expires_at record
           then Inr (ldr_application record) else Inl stale_launch_discovery)"

definition already_running_error :: cua_error where
  "already_running_error =
     public_error InvalidRequest ''application identity is already running; select its running generation''
       False (Some ''discover_applications'')"

definition consume_launch_ref :: "nat \<Rightarrow> launch_ref \<Rightarrow> 'w runtime \<Rightarrow> (cua_error + unit) \<times> 'w runtime" where
  "consume_launch_ref t lref s =
     (case hm_get (r_launch_discovery s) lref of
        None \<Rightarrow> (Inl stale_launch_discovery, s)
      | Some _ \<Rightarrow>
          (Inr (), emit (Claim t (T_Launch lref))
             (s\<lparr>r_launch_discovery := hm_remove lref (r_launch_discovery s)\<rparr>)))"

definition at_least_indeterminate :: "cua_error \<Rightarrow> cua_error" where
  "at_least_indeterminate e =
     (if ce_mutation_status e = MS_NotApplicable then with_mutation_status MS_Indeterminate e else e)"

definition admitted_launch_result ::
  "driver_error + driver_launch_output \<Rightarrow> cua_error + driver_launch_output" where
  "admitted_launch_result result = map_err (\<lambda>e. at_least_indeterminate (cua_error_from e)) result"

definition unexpected_generation_error :: cua_error where
  "unexpected_generation_error =
     with_mutation_status MS_Indeterminate
       (public_error Internal ''native launch returned an unexpected application generation'' False
         (Some ''discover_applications''))"

definition exceeded_activation_error :: cua_error where
  "exceeded_activation_error =
     with_mutation_status MS_Indeterminate
       (public_error Internal ''launched application exceeded foreground activation authority'' False
         (Some ''discover_applications''))"

definition launched_capacity_error :: cua_error where
  "launched_capacity_error =
     with_mutation_status MS_Indeterminate
       (public_error Busy ''application launched but running discovery capacity is exhausted'' True
         (Some ''discover_applications''))"

definition launched_section ::
  "'w rt_env \<Rightarrow> instant \<Rightarrow> string \<Rightarrow> driver_application \<Rightarrow> 'w runtime \<Rightarrow>
   (cua_error + discovered_application) \<times> 'w runtime" where
  "launched_section env expires_at txt application s =
     (let dref = DiscoveryRef (''discovery_'' @ e_uuid env (r_next_uuid s));
          live = hm_retain (\<lambda>_ r. r_now s < dr_expires_at r) (r_discovery s)
      in if max_discovery_records (e_config env) \<le> hm_len live
         then (Inl launched_capacity_error, s\<lparr>r_discovery := live, r_next_uuid := r_next_uuid s + 1\<rparr>)
         else (Inr (discovered_of dref txt application),
               s\<lparr>r_discovery := hm_insert dref (discovery_record_of env expires_at application) live,
                 r_next_uuid := r_next_uuid s + 1\<rparr>))"

definition project_launched_application ::
  "'w rt_env \<Rightarrow> driver_launch_output \<Rightarrow> ('w runtime, cua_error + command_result) prog" where
  "project_launched_application env launched =
     bindE (discovery_expiry env) (\<lambda>(expires_at, txt).
     bindE (atomic (launched_section env expires_at txt (dlo_application launched))) (\<lambda>application.
     bindP signal_reschedule (\<lambda>_.
     Ret (Inr (ApplicationLaunched
       \<lparr>alo_application = application, alo_delivery_mode = dlo_delivery_mode launched,
        alo_dispatched = True\<rparr>)))))"

definition status_of :: "driver_error + 'a \<Rightarrow> mutation_status option" where
  "status_of r = (case r of Inl e \<Rightarrow> Some (de_mutation_status e) | Inr _ \<Rightarrow> None)"

text \<open>A native mutation: its start and its end are recorded.\<close>

definition mutating_call ::
  "nat \<Rightarrow> ticket \<Rightarrow> native_call \<Rightarrow> ('w runtime \<Rightarrow> 'w runtime) \<Rightarrow> ('a, 'w) driver_call \<Rightarrow>
   ('w runtime, driver_error + 'a) prog" where
  "mutating_call t tk nc release f =
     bindP (update (emit (Dispatch t tk nc))) (\<lambda>_.
     atomic (\<lambda>s. case f (r_world s) of
       (r, w') \<Rightarrow> (r, emit (Returned t tk (status_of r)) (release (s\<lparr>r_world := w'\<rparr>)))))"

definition launched_check ::
  "bool \<Rightarrow> driver_launchable_application \<Rightarrow> driver_application list \<Rightarrow> driver_launch_output \<Rightarrow> cua_error + unit" where
  "launched_check allow current running_before launched =
     (let application = dlo_application launched
      in if dapp_application_id application \<noteq> dla_application_id current \<or>
            dapp_identity application \<noteq> dla_identity current \<or>
            list_ex (\<lambda>x. matches_generation x application) running_before
         then Inl unexpected_generation_error
         else if \<not> allow \<and> (dlo_delivery_mode launched = DM_Foreground \<or> dapp_foreground application)
         then Inl exceeded_activation_error
         else Inr ())"

text \<open>From the removal of the launch reference on: the reference is spent whatever happens next.\<close>

definition launch_consumed ::
  "'w rt_env \<Rightarrow> nat \<Rightarrow> launch_application_input \<Rightarrow> driver_launchable_application \<Rightarrow> driver_application list \<Rightarrow>
   ('w runtime, cua_error + command_result) prog" where
  "launch_consumed env t input current running_before =
     bindE (atomic (consume_launch_ref t (lai_launch_ref input))) (\<lambda>_.
     bindP signal_reschedule (\<lambda>_.
     bindP (mutating_call t (T_Launch (lai_launch_ref input)) (N_Launch input current) id
              (launch_application_call (e_driver env) current (lai_allow_foreground_activation input))) (\<lambda>result.
     lift_result (admitted_launch_result result) (\<lambda>launched.
     lift_result (launched_check (lai_allow_foreground_activation input) current running_before launched) (\<lambda>_.
     project_launched_application env launched)))))"

definition launch_application ::
  "'w rt_env \<Rightarrow> nat \<Rightarrow> launch_application_input \<Rightarrow> ('w runtime, cua_error + command_result) prog" where
  "launch_application env t input =
     bindE (resolve_launch_ref env (lai_launch_ref input)) (\<lambda>expected.
     bindE (call_public (list_launchable_applications (e_driver env))) (\<lambda>installed.
     lift_result (ok_or stale_launch_discovery (List.find (matches_identity expected) installed)) (\<lambda>current.
     bindE (call_public (list_applications (e_driver env))) (\<lambda>running_before.
     if list_ex (\<lambda>x. dapp_application_id x = dla_application_id current \<and>
                     dapp_identity x = dla_identity current) running_before
     then Ret (Inl already_running_error)
     else launch_consumed env t input current running_before))))"

section \<open>Sessions\<close>

definition resolve_expected ::
  "'w rt_env \<Rightarrow> instant \<Rightarrow> discovery_ref list \<Rightarrow> 'w runtime \<Rightarrow> cua_error + driver_application list" where
  "resolve_expected env now requested s =
     collectR (\<lambda>dref. case hm_get (r_discovery s) dref of
         None \<Rightarrow> Inl stale_discovery
       | Some record \<Rightarrow>
           if dr_runtime_epoch record = e_epoch env \<and> now < dr_expires_at record
           then Inr (dr_application record) else Inl stale_discovery) requested"

definition resolve_current ::
  "driver_application list \<Rightarrow> driver_application list \<Rightarrow> cua_error + driver_application list" where
  "resolve_current current expected =
     collectR (\<lambda>x. ok_or stale_discovery (List.find (matches_generation x) current)) expected"

definition duplicate_generation_error :: cua_error where
  "duplicate_generation_error =
     public_error InvalidRequest ''application references resolve to duplicate process generations'' False
       (Some ''select_unique_applications'')"

definition resolve_discovery_refs ::
  "'w rt_env \<Rightarrow> discovery_ref list \<Rightarrow> ('w runtime, cua_error + driver_application list) prog" where
  "resolve_discovery_refs env requested =
     bindP (observe r_now) (\<lambda>now.
     bindE (observe (resolve_expected env now requested)) (\<lambda>expected.
     bindE (call_public (list_applications (e_driver env))) (\<lambda>current.
     lift_result (resolve_current current expected) (\<lambda>resolved.
     if length (remdups (map dapp_key resolved)) \<noteq> length resolved
     then Ret (Inl duplicate_generation_error) else Ret (Inr resolved)))))"

definition session_format_error :: cua_error where
  "session_format_error = public_error Internal ''failed to format session expiry'' False None"

definition session_capacity_error :: cua_error where
  "session_capacity_error =
     public_error Busy ''active session capacity is exhausted'' True (Some ''close_unused_session'')"

definition session_expiry :: "'w rt_env \<Rightarrow> u32 \<Rightarrow> 'w runtime \<Rightarrow> cua_error + instant \<times> string" where
  "session_expiry env ttl_seconds s =
     (let ttl = from_secs (unat ttl_seconds)
      in bindR (ok_or session_format_error (e_wall env (r_world s) ttl)) (\<lambda>txt. Inr (r_now s + ttl, txt)))"

definition new_session ::
  "session_id \<Rightarrow> capability_manifest \<Rightarrow> driver_application list \<Rightarrow> instant \<Rightarrow> session" where
  "new_session sid manifest allowed expires_at =
     \<lparr>s_guard = new_guard_world, s_id = sid, s_manifest = manifest,
      s_allowed_applications = allowed, s_expires_at = expires_at, s_state = new_session_state\<rparr>"

text \<open>
  Under the write lock of the session map. The driver receives a guard of the new session; when it
  refuses, the session is dropped, which closes it. The random identifier is drawn here, where it
  is first visible.
\<close>

definition admit_session ::
  "'w rt_env \<Rightarrow> capability_manifest \<Rightarrow> driver_application list \<Rightarrow> instant \<Rightarrow> 'w runtime \<Rightarrow>
   (cua_error + session_id) \<times> 'w runtime" where
  "admit_session env manifest allowed expires_at s =
     (if max_active_sessions (e_config env) \<le> hm_len (r_sessions s) then (Inl session_capacity_error, s)
      else let a = length (r_heap s); lease = r_next_lease s;
               sid = SessionId (''session_'' @ e_uuid env (r_next_uuid s));
               ses = new_session sid manifest allowed expires_at;
               ses' = ses\<lparr>s_guard := new_lease lease (s_guard ses)\<rparr>;
               s' = s\<lparr>r_heap := r_heap s @ [ses'], r_next_lease := lease + 1, r_next_uuid := r_next_uuid s + 1\<rparr>
           in case session_started_guarded (e_driver env) sid (action_guard ses lease)
                     (cm_allow_foreground_input manifest) (r_world s) of
                (Inl e, w') \<Rightarrow> (Inl (cua_error_from e), close_at env a (s'\<lparr>r_world := w'\<rparr>))
              | (Inr _, w') \<Rightarrow>
                  (Inr sid, s'\<lparr>r_world := w', r_sessions := hm_insert sid a (r_sessions s)\<rparr>))"

definition session_ttl_limit :: "'w rt_env \<Rightarrow> u32" where
  "session_ttl_limit env = u32_saturating_from (as_secs (max_session_ttl (e_config env)))"

definition open_session ::
  "'w rt_env \<Rightarrow> capability_manifest \<Rightarrow> ('w runtime, cua_error + command_result) prog" where
  "open_session env manifest =
     lift_result (validate_manifest manifest (session_ttl_limit env)) (\<lambda>_.
     bindE (resolve_discovery_refs env (cm_application_refs manifest)) (\<lambda>allowed.
     bindE (observe (session_expiry env (cm_ttl_seconds manifest))) (\<lambda>(expires_at, txt).
     bindE (atomic (admit_session env manifest allowed expires_at)) (\<lambda>sid.
     bindP signal_reschedule (\<lambda>_.
     Ret (Inr (SessionOpened \<lparr>oso_session_id = sid, oso_expires_at = txt\<rparr>)))))))"

definition remove_from_map :: "session_id \<Rightarrow> 'w runtime \<Rightarrow> (cua_error + nat) \<times> 'w runtime" where
  "remove_from_map sid s =
     (case hm_get (r_sessions s) sid of
        None \<Rightarrow> (Inl session_unavailable, s)
      | Some a \<Rightarrow> (Inr a, s\<lparr>r_sessions := hm_remove sid (r_sessions s)\<rparr>))"

definition close_session :: "'w rt_env \<Rightarrow> session_id \<Rightarrow> ('w runtime, cua_error + command_result) prog" where
  "close_session env sid =
     bindE (atomic (remove_from_map sid)) (\<lambda>a.
     bindP (update (close_at env a)) (\<lambda>_.
     bindP (remove_artifacts env sid) (\<lambda>_.
     bindP signal_reschedule (\<lambda>_. Ret (Inr Acknowledged)))))"

section \<open>Listing\<close>

fun project_apps ::
  "uuid_source \<Rightarrow> driver_application list \<Rightarrow> nat \<Rightarrow> session_state \<Rightarrow> application_summary list \<times> nat \<times> session_state" where
  "project_apps uuid [] n st = ([], n, st)"
| "project_apps uuid (application # rest) n st =
     (let (r, n', st') = project_application uuid application n st;
          (out, n'', st'') = project_apps uuid rest n' st'
      in (\<lparr>as_app_ref = r, as_name = dapp_name application,
           as_application_id = dapp_application_id application,
           as_foreground = dapp_foreground application\<rparr> # out, n'', st''))"

text \<open>A section that projects into the state of one session, drawing identifiers.\<close>

definition project_section ::
  "nat \<Rightarrow> (nat \<Rightarrow> session_state \<Rightarrow> 'a \<times> nat \<times> session_state) \<Rightarrow> 'w runtime \<Rightarrow> 'a \<times> 'w runtime" where
  "project_section a f s =
     (case f (r_next_uuid s) (state_of s a) of
        (x, n', st') \<Rightarrow> (x, upd_state a (\<lambda>_. st') (s\<lparr>r_next_uuid := n'\<rparr>)))"

definition list_apps :: "'w rt_env \<Rightarrow> session_id \<Rightarrow> ('w runtime, cua_error + command_result) prog" where
  "list_apps env sid =
     bindE (session_lookup env sid) (\<lambda>(a, ses).
     bindE (call_public (list_applications (e_driver env))) (\<lambda>found.
     bindP (atomic (project_section a (project_apps (e_uuid env) (filter (allows_application ses) found)))) (\<lambda>out.
     Ret (Inr (Apps out)))))"

fun project_windows ::
  "uuid_source \<Rightarrow> driver_window list \<Rightarrow> nat \<Rightarrow> session_state \<Rightarrow> window_summary list \<times> nat \<times> session_state" where
  "project_windows uuid [] n st = ([], n, st)"
| "project_windows uuid (window # rest) n st =
     (let (ar, n1, st1) = project_application uuid (dw_application window) n st;
          (wr, n2, st2) = project_window uuid window n1 st1;
          (out, n3, st3) = project_windows uuid rest n2 st2
      in (\<lparr>ws_window_ref = wr, ws_app_ref = ar, ws_title = dw_title window,
           ws_screen_bounds = dw_screen_bounds window, ws_state = dw_state window,
           ws_visible = dw_visible window, ws_foreground = dw_foreground window\<rparr> # out, n3, st3))"

definition application_key_of :: "nat \<Rightarrow> app_ref option \<Rightarrow> 'w runtime \<Rightarrow> cua_error + string option" where
  "application_key_of a app_ref s =
     (case app_ref of
        None \<Rightarrow> Inr None
      | Some r \<Rightarrow>
          bindR (ok_or reference_not_found (hm_get (applications (state_of s a)) r)) (\<lambda>x.
          Inr (Some (dapp_key x))))"

definition scope_keys :: "session \<Rightarrow> string option \<Rightarrow> string list" where
  "scope_keys ses key =
     map dapp_key (filter (\<lambda>x. key = None \<or> key = Some (dapp_key x)) (s_allowed_applications ses))"

definition list_windows ::
  "'w rt_env \<Rightarrow> list_windows_input \<Rightarrow> ('w runtime, cua_error + command_result) prog" where
  "list_windows env input =
     bindE (session_lookup env (lwi_session_id input)) (\<lambda>(a, ses).
     bindE (observe (application_key_of a (lwi_app_ref input))) (\<lambda>key.
     bindE (call_public (list_windows_call (e_driver env) (scope_keys ses key))) (\<lambda>found.
     bindP (atomic (project_section a (project_windows (e_uuid env)
              (filter (\<lambda>w. allows_application ses (dw_application w)) found)))) (\<lambda>out.
     Ret (Inr (Windows out))))))"

fun project_displays ::
  "uuid_source \<Rightarrow> driver_display list \<Rightarrow> nat \<Rightarrow> session_state \<Rightarrow> display_summary list \<times> nat \<times> session_state" where
  "project_displays uuid [] n st = ([], n, st)"
| "project_displays uuid (display # rest) n st =
     (let (r, n', st') = project_display uuid display n st;
          (out, n'', st'') = project_displays uuid rest n' st'
      in (\<lparr>dsum_display_ref = r, dsum_screen_bounds = dd_screen_bounds display,
           dsum_primary = dd_primary display\<rparr> # out, n'', st''))"

definition clear_displays :: "session_state \<Rightarrow> session_state" where
  "clear_displays st = st\<lparr>displays := [], display_refs := []\<rparr>"

definition display_bound_error :: cua_error where
  "display_bound_error =
     public_error Busy ''physical display count exceeds the configured session bound'' True
       (Some ''narrow_desktop_topology'')"

definition list_displays :: "'w rt_env \<Rightarrow> session_id \<Rightarrow> ('w runtime, cua_error + command_result) prog" where
  "list_displays env sid =
     bindE (session_lookup env sid) (\<lambda>(a, ses).
     if \<not> cm_allow_display_capture (s_manifest ses) then Ret (Inl capability_denied)
     else bindE (call_public (list_displays_call (e_driver env))) (\<lambda>found.
     let ordered = dedup_by_key dd_key (sort_key dd_key found)
     in if max_displays_per_session (e_config env) < length ordered then Ret (Inl display_bound_error)
        else bindP (atomic (project_section a (\<lambda>n st.
               project_displays (e_uuid env) ordered n (clear_displays st)))) (\<lambda>out.
             Ret (Inr (Displays out)))))"

section \<open>Observation\<close>

definition is_over :: "nat \<Rightarrow> session \<Rightarrow> 'w runtime \<Rightarrow> bool" where
  "is_over a ses s \<longleftrightarrow> closed (cells (guard_of s a)) \<or> s_expires_at ses \<le> r_now s"

definition topology_error :: cua_error where
  "topology_error =
     public_error StaleObservation ''display topology changed during capture'' True
       (Some ''list_displays_again'')"

definition display_format_error :: cua_error where
  "display_format_error =
     public_error Internal ''failed to format display observation timestamp'' False None"

definition mint_observation ::
  "'w rt_env \<Rightarrow> 'w runtime \<Rightarrow> (cua_error + observation_id \<times> string) \<times> 'w runtime" where
  "mint_observation env s =
     (case e_wall env (r_world s) 0 of
        None \<Rightarrow> (Inl display_format_error, s)
      | Some txt \<Rightarrow>
          (Inr (ObservationId (''observation_'' @ e_uuid env (r_next_uuid s)), txt),
           s\<lparr>r_next_uuid := r_next_uuid s + 1\<rparr>))"

definition observe_display ::
  "'w rt_env \<Rightarrow> observe_display_input \<Rightarrow> ('w runtime, cua_error + command_result) prog" where
  "observe_display env input =
     bindE (session_lookup env (odi_session_id input)) (\<lambda>(a, ses).
     if \<not> cm_allow_display_capture (s_manifest ses) then Ret (Inl capability_denied)
     else bindE (observe (\<lambda>s. ok_or reference_not_found
                   (hm_get (displays (state_of s a)) (odi_display_ref input)))) (\<lambda>display.
     bindE (call_public (observe_display_call (e_driver env) display)) (\<lambda>(img, bounds).
     if bounds \<noteq> dd_screen_bounds display then Ret (Inl topology_error)
     else bindE (write_screenshot env (s_id ses) img bounds) (\<lambda>screenshot.
     bindP (observe (is_over a ses)) (\<lambda>over.
     if over then bindP (remove_artifacts env (s_id ses)) (\<lambda>_. Ret (Inl session_unavailable))
     else bindE (atomic (mint_observation env)) (\<lambda>(oid, txt).
     Ret (Inr (DisplayObserved
       \<lparr>dobs_observation_id = oid, dobs_display_ref = odi_display_ref input, dobs_captured_at = txt,
        dobs_display_screen_bounds = bounds, dobs_screenshot = screenshot\<rparr>))))))))"

definition observe_once ::
  "'w rt_env \<Rightarrow> session_id \<Rightarrow> driver_window \<Rightarrow> bool \<Rightarrow> accessibility_mode \<Rightarrow> bool \<Rightarrow>
   ('w runtime, driver_error + driver_observation) prog" where
  "observe_once env sid window include_screenshot accessibility scene =
     (if scene then call (observe_application_scene_scoped (e_driver env) sid window include_screenshot accessibility)
      else call (observe_window_scoped (e_driver env) sid window include_screenshot accessibility))"

definition observe_driver_window ::
  "'w rt_env \<Rightarrow> session_id \<Rightarrow> driver_window \<Rightarrow> bool \<Rightarrow> accessibility_mode \<Rightarrow> bool \<Rightarrow>
   ('w runtime, cua_error + driver_observation) prog" where
  "observe_driver_window env sid window include_screenshot accessibility scene =
     bindP (observe_once env sid window include_screenshot accessibility scene) (\<lambda>first.
     case first of
       Inl e \<Rightarrow>
         if de_kind e = DE_StaleObservation
         then mapP (map_err cua_error_from)
                (observe_once env sid window include_screenshot accessibility scene)
         else Ret (Inl (cua_error_from e))
     | Inr observation \<Rightarrow> Ret (Inr observation))"

definition target_mismatch_error :: cua_error where
  "target_mismatch_error = public_error Internal ''driver observation target mismatch'' False None"

definition incomplete_mapping_error :: cua_error where
  "incomplete_mapping_error =
     public_error Internal ''driver returned an incomplete screenshot mapping'' False None"

definition observation_format_error :: cua_error where
  "observation_format_error = public_error Internal ''failed to format observation timestamp'' False None"

definition capture_screenshot ::
  "'w rt_env \<Rightarrow> session_id \<Rightarrow> driver_observation \<Rightarrow> ('w runtime, cua_error + screenshot_artifact option) prog" where
  "capture_screenshot env sid observation =
     (case (dob_screenshot observation, dob_screenshot_screen_bounds observation) of
        (Some img, Some bounds) \<Rightarrow> bindE (write_screenshot env sid img bounds) (\<lambda>x. Ret (Inr (Some x)))
      | (None, None) \<Rightarrow> Ret (Inr None)
      | _ \<Rightarrow> Ret (Inl incomplete_mapping_error))"

definition truncation_of ::
  "'w rt_env \<Rightarrow> driver_observation \<Rightarrow> nat \<Rightarrow> bool \<times> observation_truncation option" where
  "truncation_of env observation emitted =
     (let limit = max_elements_per_observation (e_config env);
          complete = (dob_elements_complete observation \<and> length (dob_elements observation) \<le> limit)
      in (complete,
          if complete then None
          else if limit < length (dob_elements observation)
          then Some \<lparr>ot_reason = TR_NodeLimit, ot_emitted_elements = u32_saturating_from emitted\<rparr>
          else dob_elements_truncation observation))"

text \<open>
  Under the state lock of the session: older observations of the window are invalidated, the
  oldest ones trimmed and the new one inserted. \<open>None\<close> is the panic of \<^verbatim>\<open>project_observation\<close>.
\<close>

definition store_observation ::
  "'w rt_env \<Rightarrow> nat \<Rightarrow> observe_window_input \<Rightarrow> bool \<Rightarrow> instant \<Rightarrow> string \<Rightarrow> driver_observation \<Rightarrow>
   screenshot_artifact option \<Rightarrow> 'w runtime \<Rightarrow> window_observation option \<times> 'w runtime" where
  "store_observation env a input scene started_at txt observation screenshot s =
     (let wref = owi_window_ref input;
          st = trim_observations (max_observations_per_session (e_config env))
                 (invalidate_window_observations wref (state_of s a))
      in case project_observation (e_uuid env) (r_now s) observation wref (map_option sa_mapping screenshot)
                (max_elements_per_observation (e_config env)) (r_next_uuid s) of
           None \<Rightarrow> (None, upd_state a (\<lambda>_. st) s)
         | Some (record, elements, n') \<Rightarrow>
             let record' = record\<lparr>obs_application_scene := scene, obs_created_at := started_at\<rparr>;
                 oid = obs_id record';
                 (complete, truncation) = truncation_of env observation (length elements)
             in (Some \<lparr>wo_observation_id = oid, wo_window_ref = wref, wo_captured_at = txt,
                       wo_window_screen_bounds = dob_window_screen_bounds observation,
                       wo_screenshot = screenshot, wo_elements = elements,
                       wo_elements_complete = complete, wo_elements_truncation = truncation\<rparr>,
                 upd_state a (\<lambda>_. st\<lparr>observations := hm_insert oid record' (observations st)\<rparr>)
                   (s\<lparr>r_next_uuid := n'\<rparr>)))"

definition projection_panic :: cua_error where
  "projection_panic = public_error Internal ''panic: every selected element has a projected reference'' False None"

definition observe_window ::
  "'w rt_env \<Rightarrow> observe_window_input \<Rightarrow> bool \<Rightarrow> ('w runtime, cua_error + window_observation) prog" where
  "observe_window env input scene =
     bindE (session_lookup env (owi_session_id input)) (\<lambda>(a, ses).
     bindE (observe (\<lambda>s. ok_or reference_not_found
              (hm_get (windows (state_of s a)) (owi_window_ref input)))) (\<lambda>window.
     if \<not> allows_application ses (dw_application window) then Ret (Inl capability_denied)
     else bindP (observe r_now) (\<lambda>started_at.
     bindE (observe_driver_window env (s_id ses) window (owi_include_screenshot input)
              (owi_accessibility input) scene) (\<lambda>observation.
     bindP (observe (is_over a ses)) (\<lambda>over.
     if over then Ret (Inl session_unavailable)
     else if dob_window_key observation \<noteq> dw_key window then Ret (Inl target_mismatch_error)
     else bindE (capture_screenshot env (s_id ses) observation) (\<lambda>screenshot.
     bindP (observe (is_over a ses)) (\<lambda>over'.
     if over' then bindP (remove_artifacts env (s_id ses)) (\<lambda>_. Ret (Inl session_unavailable))
     else bindE (observe (\<lambda>s. ok_or observation_format_error (e_wall env (r_world s) 0))) (\<lambda>txt.
     bindP (atomic (store_observation env a input scene started_at txt observation screenshot)) (\<lambda>stored.
     Ret (ok_or projection_panic stored))))))))))"

section \<open>Clipboard\<close>

definition clipboard_busy :: cua_error where
  "clipboard_busy = busy_lane ''clipboard actor is busy'' ''retry_after_capacity''"

definition byte_length_error :: cua_error where
  "byte_length_error =
     public_error Internal ''clipboard byte length exceeded the protocol bound'' False None"

definition check_snapshot :: "'w rt_env \<Rightarrow> driver_clipboard_snapshot \<Rightarrow> cua_error + u32" where
  "check_snapshot env snapshot =
     bindR (validate_clipboard_change_marker (dcs_change_marker snapshot)) (\<lambda>_.
     bindR (case dcs_text snapshot of None \<Rightarrow> Inr ()
            | Some txt \<Rightarrow> validate_clipboard_text txt (max_clipboard_text_bytes (e_config env))) (\<lambda>_.
     ok_or byte_length_error
       (u32_try_from (case dcs_text snapshot of None \<Rightarrow> 0 | Some txt \<Rightarrow> length (expose txt)))))"

definition read_clipboard ::
  "'w rt_env \<Rightarrow> nat \<Rightarrow> read_clipboard_input \<Rightarrow> ('w runtime, cua_error + command_result) prog" where
  "read_clipboard env t input =
     bindE (session_lookup env (rci_session_id input)) (\<lambda>(a, ses).
     if \<not> cm_allow_clipboard_read (s_manifest ses) then Ret (Inl capability_denied)
     else with_clipboard_lane t clipboard_busy
       (bindE (call_public (read_clipboard_call (e_driver env) (max_clipboard_text_bytes (e_config env)))) (\<lambda>snapshot.
        lift_result (check_snapshot env snapshot) (\<lambda>byte_length.
        bindP (atomic (project_section a (project_clipboard (e_uuid env) (dcs_change_marker snapshot)))) (\<lambda>cref.
        Ret (Inr (ClipboardRead \<lparr>cs_clipboard_ref = cref, cs_text = dcs_text snapshot,
                                 cs_byte_length = byte_length\<rparr>)))))))"

definition take_marker :: "nat \<Rightarrow> nat \<Rightarrow> clipboard_ref \<Rightarrow> 'w runtime \<Rightarrow> (cua_error + string) \<times> 'w runtime" where
  "take_marker t a cref s =
     (case take_clipboard_marker cref (state_of s a) of
        (None, st') \<Rightarrow> (Inl stale_clipboard, upd_state a (\<lambda>_. st') s)
      | (Some marker, st') \<Rightarrow>
          (Inr marker, emit (Claim t (T_Clipboard a cref)) (upd_state a (\<lambda>_. st') s)))"

definition incoherent_clipboard_error :: cua_error where
  "incoherent_clipboard_error =
     with_mutation_status MS_Indeterminate
       (public_error Internal ''driver returned incoherent clipboard effect evidence'' False
         (Some ''read_clipboard_again''))"

definition check_written :: "driver_clipboard_write_output \<Rightarrow> cua_error + unit" where
  "check_written out =
     bindR (map_err (with_mutation_status MS_Indeterminate)
              (validate_clipboard_change_marker (dcw_change_marker out))) (\<lambda>_.
     if \<not> is_supported_by (dcw_effect_status out) (dcw_evidence_kind out)
     then Inl incoherent_clipboard_error else Inr ())"

definition write_in_lane ::
  "'w rt_env \<Rightarrow> nat \<Rightarrow> write_clipboard_input \<Rightarrow> nat \<Rightarrow> ('w runtime, cua_error + command_result) prog" where
  "write_in_lane env t input a =
     bindE (atomic (take_marker t a (wci_clipboard_ref input))) (\<lambda>marker.
     bindP (mutating_call t (T_Clipboard a (wci_clipboard_ref input)) (N_WriteClipboard input marker) id
              (write_clipboard_call (e_driver env) marker (wci_text input)
                 (max_clipboard_text_bytes (e_config env)))) (\<lambda>result.
     lift_result (map_err cua_error_from result) (\<lambda>out.
     lift_result (check_written out) (\<lambda>_.
     bindP (atomic (project_section a (project_clipboard (e_uuid env) (dcw_change_marker out)))) (\<lambda>cref.
     Ret (Inr (ClipboardWritten
       \<lparr>cwo_clipboard_ref = cref, cwo_delivery_mode = DM_System, cwo_dispatched = True,
        cwo_effect_status = dcw_effect_status out, cwo_evidence_kind = dcw_evidence_kind out\<rparr>)))))))"

definition write_clipboard ::
  "'w rt_env \<Rightarrow> nat \<Rightarrow> write_clipboard_input \<Rightarrow> ('w runtime, cua_error + command_result) prog" where
  "write_clipboard env t input =
     bindE (session_lookup env (wci_session_id input)) (\<lambda>(a, ses).
     if \<not> cm_allow_clipboard_write (s_manifest ses)
     then Ret (Inl (with_mutation_status MS_NotDispatched capability_denied))
     else lift_result (map_err (with_mutation_status MS_NotDispatched)
            (validate_clipboard_text (wci_text input) (max_clipboard_text_bytes (e_config env)))) (\<lambda>_.
     with_clipboard_lane t (with_mutation_status MS_NotDispatched clipboard_busy)
       (write_in_lane env t input a)))"

section \<open>Actions\<close>

definition validate_action_authority :: "nat \<Rightarrow> session \<Rightarrow> action \<Rightarrow> 'w runtime \<Rightarrow> cua_error + unit" where
  "validate_action_authority a ses act s =
     bindR (map_err cua_error_from
              (check (r_now s) False (action_guard ses (r_next_lease s)) (cells (guard_of s a)))) (\<lambda>_.
     if cm_mode (s_manifest ses) \<noteq> Bounded \<or> \<not> List.member (cm_allowed_actions (s_manifest ses)) (kind act)
     then Inl capability_denied
     else if requires_foreground act \<and> \<not> cm_allow_foreground_input (s_manifest ses)
     then Inl foreground_required
     else Inr ())"

definition acquire_guard :: "nat \<Rightarrow> session \<Rightarrow> 'w runtime \<Rightarrow> guard \<times> 'w runtime" where
  "acquire_guard a ses s =
     (let lease = r_next_lease s
      in (action_guard ses lease, upd_guard a (new_lease lease) (s\<lparr>r_next_lease := lease + 1\<rparr>)))"

definition guard_check :: "nat \<Rightarrow> guard \<Rightarrow> 'w runtime \<Rightarrow> driver_error + unit" where
  "guard_check a g s = check (r_now s) (was_dispatched g (guard_of s a)) g (cells (guard_of s a))"

text \<open>
  \<^verbatim>\<open>wait_until_idle\<close>: a round starts no earlier than \<open>woken\<close>, the time the sleep of the previous
  round ends.
\<close>

function wait_rounds :: "nat \<Rightarrow> guard \<Rightarrow> instant \<Rightarrow> instant \<Rightarrow> ('w runtime, driver_error + unit) prog" where
  "wait_rounds a g deadline woken =
     Step (\<lambda>s. woken \<le> r_now s) (\<lambda>s.
       let now = max woken (r_now s)
       in case guard_check a g s of
            Inl e \<Rightarrow> (Ret (Inl e), s)
          | Inr _ \<Rightarrow>
              let remaining = remaining_quiet INPUT_QUIET_PERIOD now (activity (cells (guard_of s a)))
              in if remaining = 0 then (Ret (Inr ()), s)
                 else if deadline \<le> now then (Ret (Inl wait_busy_error), s)
                 else (wait_rounds a g deadline (now + min remaining (from_millis 25)), s))"
  by pat_completeness auto
termination
  by (relation "measure (\<lambda>(_, _, deadline, woken). deadline - woken)") (auto simp: from_millis_def)

declare wait_rounds.simps [simp del]

definition wait_idle :: "nat \<Rightarrow> guard \<Rightarrow> ('w runtime, driver_error + unit) prog" where
  "wait_idle a g = bindP (observe r_now) (\<lambda>now. wait_rounds a g (now + INPUT_WAIT_LIMIT) now)"

definition foreground_busy :: cua_error where
  "foreground_busy =
     with_mutation_status MS_NotDispatched
       (busy_lane ''the desktop foreground-input lane is busy'' ''retry_with_fresh_observation'')"

definition set_status :: "nat \<Rightarrow> observation_id \<Rightarrow> observation_status \<Rightarrow> 'w runtime \<Rightarrow> 'w runtime" where
  "set_status a oid status =
     upd_state a (\<lambda>st. st\<lparr>observations := hm_modify oid (\<lambda>r. r\<lparr>obs_status := status\<rparr>) (observations st)\<rparr>)"

definition observation_usable :: "'w rt_env \<Rightarrow> instant \<Rightarrow> window_ref \<Rightarrow> observation_record \<Rightarrow> bool" where
  "observation_usable env now wref r \<longleftrightarrow>
     obs_window_ref r = wref \<and> obs_status r = OS_Valid \<and>
     now - obs_created_at r \<le> max_observation_age (e_config env)"

definition checked_action ::
  "'w rt_env \<Rightarrow> nat \<Rightarrow> perform_action_input \<Rightarrow> guard \<Rightarrow> observation_record \<Rightarrow> 'w runtime \<Rightarrow>
   cua_error + (guard \<times> driver_action)" where
  "checked_action env a input g r s =
     bindR (validate_action (pai_action input) (obs_screenshot_mapping r)) (\<lambda>_.
     let g' = g\<lparr>g_observed_at := Some (obs_created_at r)\<rparr>
     in bindR (map_err cua_error_from (guard_check_observation g' (cells (guard_of s a)))) (\<lambda>_.
        bindR (resolve_action (pai_action input) r) (\<lambda>act. Inr (g', act))))"

text \<open>Under the state lock: the observation is checked, the action resolved and the observation consumed.\<close>

definition begin_action ::
  "'w rt_env \<Rightarrow> nat \<Rightarrow> perform_action_input \<Rightarrow> nat \<Rightarrow> session \<Rightarrow> guard \<Rightarrow> 'w runtime \<Rightarrow>
   (cua_error + driver_window \<times> string \<times> driver_action \<times> guard) \<times> 'w runtime" where
  "begin_action env t input a ses g s =
     (let oid = pai_observation_id input
      in case hm_get (windows (state_of s a)) (pai_window_ref input) of
           None \<Rightarrow> (Inl reference_not_found, s)
         | Some window \<Rightarrow>
             if \<not> allows_application ses (dw_application window) then (Inl capability_denied, s)
             else case hm_get (observations (state_of s a)) oid of
                 None \<Rightarrow> (Inl stale_observation, s)
               | Some r \<Rightarrow>
                   if \<not> observation_usable env (r_now s) (pai_window_ref input) r
                   then (Inl stale_observation, set_status a oid OS_Invalid s)
                   else case checked_action env a input g r s of
                       Inl e \<Rightarrow> (Inl e, s)
                     | Inr (g', act) \<Rightarrow>
                         (Inr (window, obs_fingerprint r, act, g'),
                          emit (Claim t (T_Observation a oid)) (set_status a oid OS_InFlight s)))"

definition verification_section ::
  "nat \<Rightarrow> guard \<Rightarrow> driver_error + bool \<Rightarrow> 'w runtime \<Rightarrow> driver_error + bool" where
  "verification_section a g verdict s =
     bindR verdict (\<lambda>current.
     bindR (guard_check a g s) (\<lambda>_.
     bindR (guard_check_observation g (cells (guard_of s a))) (\<lambda>_. Inr current)))"

definition admitted_action_result ::
  "driver_error + driver_action_output \<Rightarrow> cua_error + driver_action_output" where
  "admitted_action_result result = map_err (\<lambda>e. at_least_indeterminate (cua_error_from e)) result"

definition delivery_error :: cua_error where
  "delivery_error =
     with_mutation_status MS_Indeterminate
       (public_error Internal ''driver exceeded the authorized delivery mode'' False None)"

definition restoration_error :: cua_error where
  "restoration_error =
     with_mutation_status MS_Indeterminate
       (public_error Internal ''driver returned an invalid foreground restoration status'' False None)"

definition incoherent_action_error :: cua_error where
  "incoherent_action_error =
     with_mutation_status MS_Indeterminate
       (public_error Internal ''driver returned incoherent action effect evidence'' False None)"

definition project_action_output ::
  "session \<Rightarrow> bool \<Rightarrow> bool \<Rightarrow> driver_action_output \<Rightarrow> cua_error + action_output" where
  "project_action_output ses needs_foreground supports_restoration result =
     (let restoration_expected =
            cm_restore_foreground_after_input (s_manifest ses) \<and>
            dao_delivery_mode result = DM_Foreground \<and> supports_restoration
      in if dao_delivery_mode result = DM_Foreground \<and>
            (\<not> cm_allow_foreground_input (s_manifest ses) \<or> \<not> needs_foreground)
         then Inl delivery_error
         else if restoration_expected = (dao_foreground_restoration result = FR_NotRequested)
         then Inl restoration_error
         else if \<not> evidence_is_coherent result then Inl incoherent_action_error
         else Inr \<lparr>ao_observation = None, ao_observation_error = None,
                   ao_delivery_mode = dao_delivery_mode result, ao_dispatched = True,
                   ao_effect_status = dao_effect_status result,
                   ao_evidence_kind = dao_evidence_kind result,
                   ao_foreground_restoration = dao_foreground_restoration result,
                   ao_observation_invalidated = True\<rparr>)"

fun invalidate_sessions :: "driver_application \<Rightarrow> nat list \<Rightarrow> ('w runtime, unit) prog" where
  "invalidate_sessions application [] = Ret ()"
| "invalidate_sessions application (a # rest) =
     bindP (update (upd_state a (invalidate_application_observations application))) (\<lambda>_.
     invalidate_sessions application rest)"

definition invalidate_application_generation :: "driver_application \<Rightarrow> ('w runtime, unit) prog" where
  "invalidate_application_generation application =
     bindP (update (\<lambda>s. s\<lparr>r_discovery :=
        hm_retain (\<lambda>_ r. \<not> matches_generation (dr_application r) application) (r_discovery s)\<rparr>)) (\<lambda>_.
     bindP (observe (\<lambda>s. hm_values (r_sessions s))) (\<lambda>addresses.
     invalidate_sessions application addresses))"

definition invalidate_after_action_attempt ::
  "nat \<Rightarrow> window_ref \<Rightarrow> driver_application \<Rightarrow> bool \<Rightarrow> driver_error + driver_action_output \<Rightarrow>
   ('w runtime, unit) prog" where
  "invalidate_after_action_attempt a wref application terminates result =
     (if terminates \<and> (case result of Inr _ \<Rightarrow> True | Inl e \<Rightarrow> de_mutation_status e \<noteq> MS_NotDispatched)
      then invalidate_application_generation application
      else update (upd_state a (invalidate_window_observations wref)))"

definition dispatch_action ::
  "'w rt_env \<Rightarrow> nat \<Rightarrow> perform_action_input \<Rightarrow> nat \<Rightarrow> session \<Rightarrow> driver_window \<Rightarrow> driver_action \<Rightarrow> guard \<Rightarrow>
   ('w runtime, cua_error + action_output) prog" where
  "dispatch_action env t input a ses window act g =
     bindP (mutating_call t (T_Observation a (pai_observation_id input)) (N_Perform input window act g)
              (upd_guard a (drop_lease (g_lease g)))
              (perform_action_scoped (e_driver env) window act
                 (cm_allow_foreground_input (s_manifest ses))
                 (cm_restore_foreground_after_input (s_manifest ses)) g)) (\<lambda>result.
     bindP (invalidate_after_action_attempt a (pai_window_ref input) (dw_application window)
              (kind (pai_action input) = K_TerminateApplication) result) (\<lambda>_.
     Ret (bindR (admitted_action_result result)
            (project_action_output ses (requires_foreground (pai_action input))
               (supports_foreground_restoration act)))))"

definition perform_in_lane ::
  "'w rt_env \<Rightarrow> nat \<Rightarrow> perform_action_input \<Rightarrow> nat \<Rightarrow> session \<Rightarrow> guard \<Rightarrow>
   ('w runtime, cua_error + action_output) prog" where
  "perform_in_lane env t input a ses g =
     bindE (atomic (begin_action env t input a ses g)) (\<lambda>(window, fingerprint, act, g').
     bindP (call (observation_is_current (e_driver env) window fingerprint)) (\<lambda>verdict.
     bindP (observe (verification_section a g' verdict)) (\<lambda>verification.
     if verification = Inr True then dispatch_action env t input a ses window act g'
     else bindP (update (set_status a (pai_observation_id input) OS_Invalid)) (\<lambda>_.
          Ret (Inl (case verification of Inl e \<Rightarrow> cua_error_from e | Inr _ \<Rightarrow> stale_observation))))))"

definition perform_guarded ::
  "'w rt_env \<Rightarrow> nat \<Rightarrow> perform_action_input \<Rightarrow> nat \<Rightarrow> session \<Rightarrow> guard \<Rightarrow>
   ('w runtime, cua_error + action_output) prog" where
  "perform_guarded env t input a ses g =
     bindE (mapP (map_err cua_error_from) (wait_idle a g)) (\<lambda>_.
     if requires_foreground (pai_action input)
     then with_foreground_lane t foreground_busy (perform_in_lane env t input a ses g)
     else perform_in_lane env t input a ses g)"

definition perform_action_only ::
  "'w rt_env \<Rightarrow> nat \<Rightarrow> perform_action_input \<Rightarrow> ('w runtime, cua_error + action_output) prog" where
  "perform_action_only env t input =
     bindE (session_lookup env (pai_session_id input)) (\<lambda>(a, ses).
     bindE (observe (validate_action_authority a ses (pai_action input))) (\<lambda>_.
     bindP (atomic (acquire_guard a ses)) (\<lambda>g.
     bindP (perform_guarded env t input a ses g) (\<lambda>r.
     bindP (update (upd_guard a (drop_lease (g_lease g)))) (\<lambda>_. Ret r)))))"

definition after_command :: "perform_action_input \<Rightarrow> (observe_window_input \<times> bool) option" where
  "after_command input =
     map_option (\<lambda>options.
       (\<lparr>owi_session_id = pai_session_id input, owi_window_ref = pai_window_ref input,
         owi_include_screenshot = oao_include_screenshot options,
         owi_accessibility = oao_accessibility options\<rparr>, oao_application_scene options))
       (pai_observe_after input)"

definition observe_command :: "observe_window_input \<times> bool \<Rightarrow> command" where
  "observe_command p = (case p of (input, scene) \<Rightarrow> if scene then ObserveApplicationScene input else ObserveWindow input)"

definition observe_after_action ::
  "'w rt_env \<Rightarrow> observe_window_input \<Rightarrow> bool \<Rightarrow> ('w runtime, cua_error + window_observation) prog" where
  "observe_after_action env input scene =
     bindE (if owi_include_screenshot input
            then bindE (session_lookup env (owi_session_id input)) (\<lambda>(a, ses).
                 bindE (observe (\<lambda>s. ok_or reference_not_found
                          (hm_get (windows (state_of s a)) (owi_window_ref input)))) (\<lambda>window.
                 call_public (settle_window (e_driver env) window scene)))
            else Ret (Inr ())) (\<lambda>_.
     observe_window env input scene)"

definition attach_observation :: "action_output \<Rightarrow> cua_error + window_observation \<Rightarrow> action_output" where
  "attach_observation out r =
     (case r of Inr observation \<Rightarrow> out\<lparr>ao_observation := Some observation\<rparr>
      | Inl e \<Rightarrow> out\<lparr>ao_observation_error := Some e\<rparr>)"

definition perform_action ::
  "'w rt_env \<Rightarrow> nat \<Rightarrow> perform_action_input \<Rightarrow> ('w runtime, cua_error + command_result) prog" where
  "perform_action env t input =
     lift_result (case after_command input of None \<Rightarrow> Inr ()
        | Some command \<Rightarrow> map_err (with_mutation_status MS_NotDispatched)
            (policy_authorize (policy (e_config env)) (observe_command command))) (\<lambda>_.
     bindE (perform_action_only env t input) (\<lambda>out.
     case after_command input of
       None \<Rightarrow> Ret (Inr (ActionPerformed out))
     | Some (observation, scene) \<Rightarrow>
         bindP (observe_after_action env observation scene) (\<lambda>r.
         Ret (Inr (ActionPerformed (attach_observation out r))))))"

section \<open>Verification\<close>

definition verify_state ::
  "'w rt_env \<Rightarrow> verify_state_input \<Rightarrow> ('w runtime, cua_error + command_result) prog" where
  "verify_state env input =
     bindE (session_lookup env (vsi_session_id input)) (\<lambda>(a, ses).
     bindE (observe (\<lambda>s. ok_or reference_not_found
              (hm_get (windows (state_of s a)) (vsi_window_ref input)))) (\<lambda>window.
     if \<not> allows_application ses (dw_application window) then Ret (Inl capability_denied)
     else bindE (call_public (verify_state_call (e_driver env) window (vsi_predicate input))) (\<lambda>result.
     Ret (Inr (StateVerified \<lparr>vo_matched = dv_matched result, vo_evidence = dv_evidence result\<rparr>)))))"

section \<open>Commands\<close>

definition at_least_not_dispatched :: "cua_error \<Rightarrow> cua_error" where
  "at_least_not_dispatched e =
     (if ce_mutation_status e = MS_NotApplicable then with_mutation_status MS_NotDispatched e else e)"

definition reconciliation_error :: cua_error where
  "reconciliation_error =
     public_error Unsupported ''mutation reconciliation is provided by the request dispatcher'' False
       (Some ''use_dispatcher_reconciliation'')"

definition get_capabilities :: "'w rt_env \<Rightarrow> ('w runtime, cua_error + command_result) prog" where
  "get_capabilities env =
     bindE (call_public (capabilities (e_driver env))) (\<lambda>c.
     Ret (Inr (Capabilities (c\<lparr>dc_observe_after := True,
       dc_action_limits := DEFAULT_ACTION_LIMITS\<lparr>max_session_ttl_seconds := session_ttl_limit env\<rparr>\<rparr>))))"

fun execute_command :: "'w rt_env \<Rightarrow> nat \<Rightarrow> command \<Rightarrow> ('w runtime, cua_error + command_result) prog" where
  "execute_command env t GetCapabilities = get_capabilities env"
| "execute_command env t GetPermissionStatus =
     mapP (map_sum id PermissionStatus) (call_public (permission_status_call (e_driver env)))"
| "execute_command env t DiscoverApplications = discover_applications env"
| "execute_command env t DiscoverLaunchableApplications = discover_launchable_applications env"
| "execute_command env t (LaunchApplication input) =
     mapP (map_err at_least_not_dispatched) (launch_application env t input)"
| "execute_command env t (OpenSession manifest) = open_session env manifest"
| "execute_command env t (CloseSession sid) = close_session env sid"
| "execute_command env t (ListApps sid) = list_apps env sid"
| "execute_command env t (ListWindows input) = list_windows env input"
| "execute_command env t (ListDisplays sid) = list_displays env sid"
| "execute_command env t (ObserveWindow input) =
     mapP (map_sum id WindowObserved) (observe_window env input False)"
| "execute_command env t (ObserveApplicationScene input) =
     mapP (map_sum id WindowObserved) (observe_window env input True)"
| "execute_command env t (ObserveDisplay input) = observe_display env input"
| "execute_command env t (ReadClipboard input) = read_clipboard env t input"
| "execute_command env t (WriteClipboard input) =
     mapP (map_err at_least_not_dispatched) (write_clipboard env t input)"
| "execute_command env t (PerformAction input) =
     mapP (map_err at_least_not_dispatched) (perform_action env t input)"
| "execute_command env t (ReconcileMutation input) = Ret (Inl reconciliation_error)"
| "execute_command env t (VerifyState input) = verify_state env input"

definition enter_lifecycle :: "nat \<Rightarrow> 'w runtime \<Rightarrow> 'w runtime" where
  "enter_lifecycle t s = s\<lparr>r_lifecycle_readers := t # r_lifecycle_readers s\<rparr>"

definition leave_lifecycle :: "nat \<Rightarrow> 'w runtime \<Rightarrow> 'w runtime" where
  "leave_lifecycle t s = s\<lparr>r_lifecycle_readers := removeAll t (r_lifecycle_readers s)\<rparr>"

definition admitted_command ::
  "'w rt_env \<Rightarrow> nat \<Rightarrow> command \<Rightarrow> ('w runtime, cua_error + command_result) prog" where
  "admitted_command env t cmd =
     lift_result (policy_authorize (policy (e_config env)) cmd) (\<lambda>_.
     bindP ensure_scheduler (\<lambda>_. execute_command env t cmd))"

definition execute :: "'w rt_env \<Rightarrow> nat \<Rightarrow> command \<Rightarrow> ('w runtime, cua_error + command_result) prog" where
  "execute env t cmd =
     bindP (blocking (\<lambda>s. r_lifecycle_writer s = None) (\<lambda>s. ((), enter_lifecycle t s))) (\<lambda>_.
     bindP (observe r_closed) (\<lambda>shut.
     bindP (if shut then Ret (Inl runtime_unavailable) else admitted_command env t cmd) (\<lambda>r.
     bindP (update (leave_lifecycle t)) (\<lambda>_. Ret r))))"

section \<open>Shutdown\<close>

fun close_all :: "'w rt_env \<Rightarrow> nat list \<Rightarrow> 'w runtime \<Rightarrow> 'w runtime" where
  "close_all env [] s = s"
| "close_all env (a # rest) s = close_all env rest (close_at env a s)"

text \<open>Draining the map drops the sessions, which closes them.\<close>

definition drain_sessions :: "'w rt_env \<Rightarrow> 'w runtime \<Rightarrow> session_id list \<times> 'w runtime" where
  "drain_sessions env s =
     (hm_keys (r_sessions s),
      (close_all env (hm_values (r_sessions s)) s)\<lparr>r_sessions := [], r_cleared := True\<rparr>)"

fun remove_all_artifacts :: "'w rt_env \<Rightarrow> session_id list \<Rightarrow> ('w runtime, unit) prog" where
  "remove_all_artifacts env [] = Ret ()"
| "remove_all_artifacts env (sid # rest) =
     bindP (remove_artifacts env sid) (\<lambda>_. remove_all_artifacts env rest)"

definition stop_scheduler :: "('w runtime, unit) prog" where
  "stop_scheduler =
     bindP (atomic (\<lambda>s. if r_scheduler s
       then (True, send_replace ShutdownSignal (s\<lparr>r_scheduler := False\<rparr>)) else (False, s))) (\<lambda>running.
     if running then blocking r_loop_done (\<lambda>s. ((), s)) else Ret ())"

definition shutdown_body :: "'w rt_env \<Rightarrow> nat \<Rightarrow> ('w runtime, unit) prog" where
  "shutdown_body env t =
     bindP (blocking (\<lambda>s. r_lifecycle_readers s = [] \<and> r_lifecycle_writer s = None)
              (\<lambda>s. ((), s\<lparr>r_lifecycle_writer := Some t\<rparr>))) (\<lambda>_.
     bindP stop_scheduler (\<lambda>_.
     bindP (update (\<lambda>s. s\<lparr>r_discovery := []\<rparr>)) (\<lambda>_.
     bindP (update (\<lambda>s. s\<lparr>r_launch_discovery := []\<rparr>)) (\<lambda>_.
     bindP (atomic (drain_sessions env)) (\<lambda>sids.
     bindP (remove_all_artifacts env sids) (\<lambda>_.
     update (\<lambda>s. s\<lparr>r_lifecycle_writer := None\<rparr>)))))))"

definition shutdown :: "'w rt_env \<Rightarrow> nat \<Rightarrow> ('w runtime, unit) prog" where
  "shutdown env t =
     bindP (blocking (\<lambda>s. r_shutdown_guard s = None) (\<lambda>s. ((), s\<lparr>r_shutdown_guard := Some t\<rparr>))) (\<lambda>_.
     bindP (atomic (\<lambda>s. (r_closed s, s\<lparr>r_closed := True\<rparr>))) (\<lambda>was_closed.
     bindP (if was_closed then Ret () else shutdown_body env t) (\<lambda>_.
     update (\<lambda>s. s\<lparr>r_shutdown_guard := None\<rparr>))))"

text \<open>
  Dropping the runtime. The drop has the only reference left, so no command runs beside it: it is
  not a task of the pool but what ends a run.
\<close>

definition runtime_drop :: "'w runtime \<Rightarrow> 'w runtime" where
  "runtime_drop s =
     (let s' = s\<lparr>r_closed := True\<rparr>
      in if r_scheduler s' then send_replace ShutdownSignal (s'\<lparr>r_scheduler := False\<rparr>) else s')"

section \<open>Expiration\<close>

fun earliest :: "instant list \<Rightarrow> instant option" where
  "earliest [] = None"
| "earliest (x # xs) = (case earliest xs of None \<Rightarrow> Some x | Some y \<Rightarrow> Some (min x y))"

definition nearest_deadline :: "('w runtime, instant option) prog" where
  "nearest_deadline =
     bindP (observe (\<lambda>s. earliest (map (\<lambda>a. s_expires_at (r_heap s ! a)) (hm_values (r_sessions s))))) (\<lambda>x.
     bindP (observe (\<lambda>s. earliest (map dr_expires_at (hm_values (r_discovery s))))) (\<lambda>y.
     bindP (observe (\<lambda>s. earliest (map ldr_expires_at (hm_values (r_launch_discovery s))))) (\<lambda>z.
     Ret (earliest (concat (map (\<lambda>v. case v of None \<Rightarrow> [] | Some d \<Rightarrow> [d]) [x, y, z]))))))"

definition expired_sessions :: "instant \<Rightarrow> 'w runtime \<Rightarrow> (session_id \<times> nat) list" where
  "expired_sessions now s = filter (\<lambda>(_, a). s_expires_at (r_heap s ! a) \<le> now) (r_sessions s)"

definition reap_sessions :: "'w rt_env \<Rightarrow> instant \<Rightarrow> 'w runtime \<Rightarrow> session_id list \<times> 'w runtime" where
  "reap_sessions env now s =
     (let expired = expired_sessions now s
      in (map fst expired,
          (close_all env (map snd expired) s)
            \<lparr>r_sessions := fold (\<lambda>(sid, _). hm_remove sid) expired (r_sessions s)\<rparr>))"

definition reap_due :: "'w rt_env \<Rightarrow> instant \<Rightarrow> ('w runtime, unit) prog" where
  "reap_due env now =
     bindP (atomic (reap_sessions env now)) (\<lambda>expired.
     bindP (update (\<lambda>s. s\<lparr>r_discovery := hm_retain (\<lambda>_ r. now < dr_expires_at r) (r_discovery s)\<rparr>)) (\<lambda>_.
     bindP (update (\<lambda>s. s\<lparr>r_launch_discovery :=
              hm_retain (\<lambda>_ r. now < ldr_expires_at r) (r_launch_discovery s)\<rparr>)) (\<lambda>_.
     remove_all_artifacts env expired)))"

text \<open>One round of \<^verbatim>\<open>expiration_loop\<close>; the loop is the repetition of this task by the pool.\<close>

definition leave_round :: "('w runtime, unit) prog" where
  "leave_round = update (\<lambda>s. s\<lparr>r_loop_busy := False\<rparr>)"

definition expiration_round :: "'w rt_env \<Rightarrow> ('w runtime, unit) prog" where
  "expiration_round env =
     bindP (blocking (\<lambda>s. (r_scheduler s \<or> r_signal s = ShutdownSignal) \<and> \<not> r_loop_busy s \<and> \<not> r_loop_done s)
       (\<lambda>s. if r_signal s = ShutdownSignal then (True, s\<lparr>r_loop_done := True\<rparr>)
            else (False, s\<lparr>r_loop_busy := True\<rparr>))) (\<lambda>stop.
     if stop then Ret ()
     else bindP nearest_deadline (\<lambda>deadline.
     bindP (blocking (\<lambda>s. r_signal_seen s \<noteq> r_signal_version s \<or> (case deadline of None \<Rightarrow> False | Some d \<Rightarrow> d \<le> r_now s))
       (\<lambda>s. let due = (case deadline of None \<Rightarrow> False | Some d \<Rightarrow> d \<le> r_now s);
                changed = (r_signal_seen s \<noteq> r_signal_version s)
            in if due \<and> (\<not> changed \<or> e_timer_first env (r_world s)) then (Some (r_now s), s)
               else (None, s\<lparr>r_signal_seen := r_signal_version s\<rparr>))) (\<lambda>fired.
     bindP (case fired of None \<Rightarrow> Ret () | Some now \<Rightarrow> reap_due env now) (\<lambda>_. leave_round))))"

section \<open>The system\<close>

datatype task_result =
    R_Command "cua_error + command_result"
  | R_Bytes "cua_error + bytes"
  | R_Shutdown
  | R_Round

inductive runtime_task :: "'w rt_env \<Rightarrow> nat \<Rightarrow> ('w runtime, task_result) prog \<Rightarrow> bool" for env t where
  rt_execute: "runtime_task env t (mapP R_Command (execute env t cmd))"
| rt_shutdown: "runtime_task env t (mapP (\<lambda>_. R_Shutdown) (shutdown env t))"
| rt_read: "runtime_task env t (mapP R_Bytes (runtime_read_artifact env artifact max_bytes))"
| rt_take: "runtime_task env t (mapP R_Bytes (runtime_take_artifact env artifact max_bytes))"
| rt_expire: "runtime_task env t (mapP (\<lambda>_. R_Round) (expiration_round env))"

text \<open>
  What happens outside the tasks: time passes, the desktop changes, and the driver or the user
  act on the cells of a session through the guards the driver holds. The driver can not close a
  session nor create a lease.
\<close>

inductive surroundings :: "'w runtime \<Rightarrow> 'w runtime \<Rightarrow> bool" where
  su_time: "r_now s \<le> later \<Longrightarrow> surroundings s (s\<lparr>r_now := later\<rparr>)"
| su_world: "surroundings s (s\<lparr>r_world := w\<rparr>)"
| su_guard: "a < length (r_heap s) \<Longrightarrow> guard_step (r_now s, guard_of s a) (r_now s, gw) \<Longrightarrow>
    closed (cells gw) = closed (cells (guard_of s a)) \<Longrightarrow>
    dom (hm_get (leases gw)) \<subseteq> dom (hm_get (leases (guard_of s a))) \<Longrightarrow>
    surroundings s (upd_guard a (\<lambda>_. gw) s)"

text \<open>A runtime as \<^verbatim>\<open>Runtime::new\<close> builds it, over an artifact store as \<^verbatim>\<open>ArtifactStore::new\<close> opens it.\<close>

definition fresh_runtime :: "'w rt_env \<Rightarrow> 'w runtime \<Rightarrow> bool" where
  "fresh_runtime env s \<longleftrightarrow>
     (\<exists>remove_ok io requested generations configured now w n.
        let config = e_config env;
            (opened, n', _) = artifact_store_new (e_uuid env) remove_ok io requested
              (max_image_pixels config) (max_artifacts_per_session config) (max_image_edge config) n generations
        in runtime_new config configured opened now w n' = Inr s)"

definition reachable ::
  "'w rt_env \<Rightarrow> 'w runtime \<Rightarrow> ('w runtime, task_result) config \<Rightarrow> bool" where
  "reachable env s0 cfg \<longleftrightarrow> (pool_step (runtime_task env) surroundings)\<^sup>*\<^sup>* (Map.empty, s0) cfg"

end
