(* ===== verification/SessionSteps.thy ===== *)
theory SessionSteps
  imports Runtime
begin

text \<open>
  How the state of one session evolves: the invariant \<open>state_ok\<close> of its reference tables,
  observations and clipboard guard, and the relation \<open>state_step\<close> that every section of a handler
  satisfies. A step never makes a consumed observation or clipboard guard usable again: what it
  makes usable was minted by the step itself.
\<close>

definition obs_of :: "'w rt_env \<Rightarrow> nat \<Rightarrow> observation_id" where
  "obs_of env i = ObservationId (''observation_'' @ e_uuid env i)"

definition clip_of :: "'w rt_env \<Rightarrow> nat \<Rightarrow> clipboard_ref" where
  "clip_of env i = ClipboardRef (''clipboard_'' @ e_uuid env i)"

definition app_of :: "'w rt_env \<Rightarrow> nat \<Rightarrow> app_ref" where
  "app_of env i = AppRef (''app_'' @ e_uuid env i)"

definition window_of :: "'w rt_env \<Rightarrow> nat \<Rightarrow> window_ref" where
  "window_of env i = WindowRef (''window_'' @ e_uuid env i)"

definition display_of :: "'w rt_env \<Rightarrow> nat \<Rightarrow> display_ref" where
  "display_of env i = DisplayRef (''display_'' @ e_uuid env i)"

definition tables_ok :: "'w rt_env \<Rightarrow> nat \<Rightarrow> session_state \<Rightarrow> bool" where
  "tables_ok env n st \<longleftrightarrow>
     table_ok dapp_key (app_of env) n (applications st) (application_refs st) \<and>
     table_ok dw_key (window_of env) n (windows st) (window_refs st) \<and>
     table_ok dd_key (display_of env) n (displays st) (display_refs st)"

definition observations_ok :: "'w rt_env \<Rightarrow> nat \<Rightarrow> (observation_id, observation_record) hm \<Rightarrow> bool" where
  "observations_ok env n m \<longleftrightarrow>
     hm_wf m \<and> hm_len m \<le> max_observations_per_session (e_config env) \<and>
     (\<forall>oid r. hm_get m oid = Some r \<longrightarrow> obs_id r = oid \<and> (\<exists>i < n. oid = obs_of env i))"

definition state_ok :: "'w rt_env \<Rightarrow> nat \<Rightarrow> session_state \<Rightarrow> bool" where
  "state_ok env n st \<longleftrightarrow>
     tables_ok env n st \<and>
     hm_len (displays st) \<le> max_displays_per_session (e_config env) \<and>
     observations_ok env n (observations st) \<and>
     (\<forall>r. clipboard st = Some r \<longrightarrow> (\<exists>i < n. cb_id r = clip_of env i))"

definition valid_in :: "session_state \<Rightarrow> observation_id \<Rightarrow> bool" where
  "valid_in st oid \<longleftrightarrow> (\<exists>r. hm_get (observations st) oid = Some r \<and> obs_status r = OS_Valid)"

definition holds_clip :: "session_state \<Rightarrow> clipboard_ref \<Rightarrow> bool" where
  "holds_clip st c \<longleftrightarrow> (\<exists>r. clipboard st = Some r \<and> cb_id r = c)"

definition state_step ::
  "'w rt_env \<Rightarrow> nat \<Rightarrow> session_state \<Rightarrow> nat \<Rightarrow> session_state \<Rightarrow> bool" where
  "state_step env n st n' st' \<longleftrightarrow>
     n \<le> n' \<and> state_ok env n' st' \<and>
     (\<forall>oid. valid_in st' oid \<longrightarrow> valid_in st oid \<or> (\<exists>i \<ge> n. oid = obs_of env i)) \<and>
     (\<forall>c. holds_clip st' c \<longrightarrow> holds_clip st c \<or> (\<exists>i \<ge> n. c = clip_of env i))"

lemma state_stepI:
  assumes "n \<le> n'" "state_ok env n' st'"
    and "\<And>oid. valid_in st' oid \<Longrightarrow> valid_in st oid \<or> (\<exists>i \<ge> n. oid = obs_of env i)"
    and "\<And>c. holds_clip st' c \<Longrightarrow> holds_clip st c \<or> (\<exists>i \<ge> n. c = clip_of env i)"
  shows "state_step env n st n' st'"
  using assms by (simp add: state_step_def)

lemma state_step_refl: "state_ok env n st \<Longrightarrow> state_step env n st n st"
  by (simp add: state_step_def)

lemma state_step_trans:
  assumes a: "state_step env n st n1 st1" and b: "state_step env n1 st1 n2 st2"
  shows "state_step env n st n2 st2"
proof (rule state_stepI)
  have le: "n \<le> n1" "n1 \<le> n2" using a b by (simp_all add: state_step_def)
  then show "n \<le> n2" by simp
  show "state_ok env n2 st2" using b by (simp add: state_step_def)
  show "valid_in st oid \<or> (\<exists>i \<ge> n. oid = obs_of env i)" if "valid_in st2 oid" for oid
    using a b that le unfolding state_step_def by (metis le_trans)
  show "holds_clip st c \<or> (\<exists>i \<ge> n. c = clip_of env i)" if "holds_clip st2 c" for c
    using a b that le unfolding state_step_def by (metis le_trans)
qed

lemma state_step_ok: "state_step env n st n' st' \<Longrightarrow> state_ok env n' st'"
  and state_step_le: "state_step env n st n' st' \<Longrightarrow> n \<le> n'"
  by (simp_all add: state_step_def)

lemma table_ok_mono:
  assumes "table_ok key mint n fwd bwd" "n \<le> n'"
  shows "table_ok key mint n' fwd bwd"
proof (rule table_okI)
  note ok = table_okD [OF assms(1)]
  show "hm_wf fwd" "hm_wf bwd" by (rule ok)+
  show "hm_get bwd (key v) = Some r" if "hm_get fwd r = Some v" for r v by (rule ok(3) [OF that])
  show "\<exists>i < n'. r = mint i" if "hm_get fwd r = Some v" for r v
    using ok(4) [OF that] assms(2) by (auto intro: less_le_trans)
  show "\<exists>v. hm_get fwd r = Some v \<and> key v = k" if "hm_get bwd k = Some r" for k r by (rule ok(5) [OF that])
qed

lemma tables_ok_mono: "tables_ok env n st \<Longrightarrow> n \<le> n' \<Longrightarrow> tables_ok env n' st"
  unfolding tables_ok_def by (blast intro: table_ok_mono)

lemma observations_ok_mono: "observations_ok env n m \<Longrightarrow> n \<le> n' \<Longrightarrow> observations_ok env n' m"
  unfolding observations_ok_def by (meson less_le_trans)

lemma state_ok_mono:
  assumes "state_ok env n st" "n \<le> n'"
  shows "state_ok env n' st"
proof -
  have "\<forall>r. clipboard st = Some r \<longrightarrow> (\<exists>i < n'. cb_id r = clip_of env i)"
    using assms unfolding state_ok_def by (meson less_le_trans)
  moreover have "tables_ok env n' st" "observations_ok env n' (observations st)"
    using assms tables_ok_mono observations_ok_mono unfolding state_ok_def by blast+
  ultimately show ?thesis using assms(1) by (simp add: state_ok_def)
qed

lemma state_ok_new: "state_ok env n new_session_state"
  by (simp add: state_ok_def tables_ok_def new_session_state_def observations_ok_def table_ok_def hm_len_def)

section \<open>Projection\<close>

lemma inj_refs:
  assumes "inj (e_uuid env)"
  shows "inj (app_of env)" "inj (window_of env)" "inj (display_of env)" "inj (obs_of env)" "inj (clip_of env)"
  using assms by (auto simp: inj_def app_of_def window_of_def display_of_def obs_of_def clip_of_def)

lemma mint_eq:
  "app_of env = (\<lambda>i. AppRef (''app_'' @ e_uuid env i))"
  "window_of env = (\<lambda>i. WindowRef (''window_'' @ e_uuid env i))"
  "display_of env = (\<lambda>i. DisplayRef (''display_'' @ e_uuid env i))"
  by (simp_all add: fun_eq_iff app_of_def window_of_def display_of_def)

lemma app_keeps:
  "table_ok dapp_key (app_of env) n (applications st) (application_refs st) \<Longrightarrow> inj (app_of env) \<Longrightarrow>
     project_application (e_uuid env) x n st = (r, n', st') \<Longrightarrow>
     table_ok dapp_key (app_of env) n' (applications st') (application_refs st')"
  unfolding mint_eq by (rule app_table.project_keeps_ok)

lemma window_keeps:
  "table_ok dw_key (window_of env) n (windows st) (window_refs st) \<Longrightarrow> inj (window_of env) \<Longrightarrow>
     project_window (e_uuid env) x n st = (r, n', st') \<Longrightarrow>
     table_ok dw_key (window_of env) n' (windows st') (window_refs st')"
  unfolding mint_eq by (rule window_table.project_keeps_ok)

lemma display_keeps:
  "table_ok dd_key (display_of env) n (displays st) (display_refs st) \<Longrightarrow> inj (display_of env) \<Longrightarrow>
     project_display (e_uuid env) x n st = (r, n', st') \<Longrightarrow>
     table_ok dd_key (display_of env) n' (displays st') (display_refs st')"
  unfolding mint_eq by (rule display_table.project_keeps_ok)

lemma project_application_frame:
  assumes "project_application uuid x n st = (r, n', st')"
  shows "n \<le> n'" "windows st' = windows st" "window_refs st' = window_refs st"
    "displays st' = displays st" "display_refs st' = display_refs st"
    "observations st' = observations st" "clipboard st' = clipboard st"
  using assms by (auto simp: project_application_def Let_def split: option.splits)

lemma project_window_frame:
  assumes "project_window uuid x n st = (r, n', st')"
  shows "n \<le> n'" "applications st' = applications st" "application_refs st' = application_refs st"
    "displays st' = displays st" "display_refs st' = display_refs st"
    "observations st' = observations st" "clipboard st' = clipboard st"
  using assms by (auto simp: project_window_def Let_def split: option.splits)

lemma project_display_frame:
  assumes "project_display uuid x n st = (r, n', st')"
  shows "n \<le> n'" "applications st' = applications st" "application_refs st' = application_refs st"
    "windows st' = windows st" "window_refs st' = window_refs st"
    "observations st' = observations st" "clipboard st' = clipboard st"
  using assms by (auto simp: project_display_def Let_def split: option.splits)

lemma project_application_step:
  assumes "inj (e_uuid env)" "state_ok env n st" "project_application (e_uuid env) x n st = (r, n', st')"
  shows "state_step env n st n' st'"
proof (rule state_stepI)
  note f = project_application_frame [OF assms(3)]
  show "n \<le> n'" by (rule f)
  have "table_ok dapp_key (app_of env) n' (applications st') (application_refs st')"
    using app_keeps [OF _ inj_refs(1) [OF assms(1)] assms(3)] assms(2) by (simp add: state_ok_def tables_ok_def)
  then show "state_ok env n' st'"
    using state_ok_mono [OF assms(2) f(1)] by (simp add: state_ok_def tables_ok_def f)
qed (simp_all add: valid_in_def holds_clip_def project_application_frame [OF assms(3)])

lemma project_window_step:
  assumes "inj (e_uuid env)" "state_ok env n st" "project_window (e_uuid env) x n st = (r, n', st')"
  shows "state_step env n st n' st'"
proof (rule state_stepI)
  note f = project_window_frame [OF assms(3)]
  show "n \<le> n'" by (rule f)
  have "table_ok dw_key (window_of env) n' (windows st') (window_refs st')"
    using window_keeps [OF _ inj_refs(2) [OF assms(1)] assms(3)] assms(2) by (simp add: state_ok_def tables_ok_def)
  then show "state_ok env n' st'"
    using state_ok_mono [OF assms(2) f(1)] by (simp add: state_ok_def tables_ok_def f)
qed (simp_all add: valid_in_def holds_clip_def project_window_frame [OF assms(3)])

lemma project_display_step:
  assumes "inj (e_uuid env)" "state_ok env n st" "project_display (e_uuid env) x n st = (r, n', st')"
    and "hm_len (displays st) < max_displays_per_session (e_config env)"
  shows "state_step env n st n' st' \<and> hm_len (displays st') \<le> Suc (hm_len (displays st))"
proof -
  note f = project_display_frame [OF assms(3)]
  have t: "table_ok dd_key (display_of env) n' (displays st') (display_refs st')"
    using display_keeps [OF _ inj_refs(3) [OF assms(1)] assms(3)] assms(2) by (simp add: state_ok_def tables_ok_def)
  have wf: "hm_wf (displays st)" using assms(2) by (auto simp: state_ok_def tables_ok_def dest: table_okD(1))
  have "hm_len (displays st') \<le> Suc (hm_len (displays st))"
    using assms(3) hm.len_insert_le [OF wf] by (auto simp: project_display_def Let_def split: option.splits)
  moreover from this have "state_ok env n' st'"
    using state_ok_mono [OF assms(2) f(1)] t assms(4) by (simp add: state_ok_def tables_ok_def f)
  then have "state_step env n st n' st'"
    by (intro state_stepI) (simp_all add: valid_in_def holds_clip_def f)
  ultimately show ?thesis by simp
qed

lemma project_apps_step:
  "inj (e_uuid env) \<Longrightarrow> state_ok env n st \<Longrightarrow> project_apps (e_uuid env) xs n st = (out, n', st') \<Longrightarrow>
     state_step env n st n' st'"
proof (induction xs arbitrary: n st out n' st')
  case (Cons x xs)
  obtain r n1 st1 where p: "project_application (e_uuid env) x n st = (r, n1, st1)" by (metis prod_cases3)
  obtain out' where q: "project_apps (e_uuid env) xs n1 st1 = (out', n', st')"
    using Cons.prems(3) p by (auto simp: Let_def split: prod.splits)
  note a = project_application_step [OF Cons.prems(1,2) p]
  show ?case by (rule state_step_trans [OF a Cons.IH [OF Cons.prems(1) state_step_ok [OF a] q]])
qed (simp add: state_step_refl)

lemma project_windows_step:
  "inj (e_uuid env) \<Longrightarrow> state_ok env n st \<Longrightarrow> project_windows (e_uuid env) xs n st = (out, n', st') \<Longrightarrow>
     state_step env n st n' st'"
proof (induction xs arbitrary: n st out n' st')
  case (Cons x xs)
  obtain r n1 st1 where p: "project_application (e_uuid env) (dw_application x) n st = (r, n1, st1)"
    by (metis prod_cases3)
  obtain w n2 st2 where w: "project_window (e_uuid env) x n1 st1 = (w, n2, st2)" by (metis prod_cases3)
  obtain out' where q: "project_windows (e_uuid env) xs n2 st2 = (out', n', st')"
    using Cons.prems(3) p w by (auto simp: Let_def split: prod.splits)
  note a = project_application_step [OF Cons.prems(1,2) p]
  note b = state_step_trans [OF a project_window_step [OF Cons.prems(1) state_step_ok [OF a] w]]
  show ?case by (rule state_step_trans [OF b Cons.IH [OF Cons.prems(1) state_step_ok [OF b] q]])
qed (simp add: state_step_refl)

lemma project_displays_step:
  "inj (e_uuid env) \<Longrightarrow> state_ok env n st \<Longrightarrow>
     hm_len (displays st) + length xs \<le> max_displays_per_session (e_config env) \<Longrightarrow>
     project_displays (e_uuid env) xs n st = (out, n', st') \<Longrightarrow> state_step env n st n' st'"
proof (induction xs arbitrary: n st out n' st')
  case (Cons x xs)
  obtain r n1 st1 where p: "project_display (e_uuid env) x n st = (r, n1, st1)" by (metis prod_cases3)
  obtain out' where q: "project_displays (e_uuid env) xs n1 st1 = (out', n', st')"
    using Cons.prems(4) p by (auto simp: Let_def split: prod.splits)
  have lt: "hm_len (displays st) < max_displays_per_session (e_config env)" using Cons.prems(3) by simp
  note a = project_display_step [OF Cons.prems(1,2) p lt]
  have b: "hm_len (displays st1) + length xs \<le> max_displays_per_session (e_config env)"
    using a Cons.prems(3) by simp
  show ?case
    by (rule state_step_trans [OF conjunct1 [OF a] Cons.IH [OF Cons.prems(1) state_step_ok [OF conjunct1 [OF a]] b q]])
qed (simp add: state_step_refl)

lemma clear_displays_step: "state_ok env n st \<Longrightarrow> state_step env n st n (clear_displays st)"
  by (rule state_stepI)
    (simp_all add: state_ok_def clear_displays_def valid_in_def holds_clip_def tables_ok_def table_ok_def hm_len_def)

lemma list_displays_step:
  assumes "inj (e_uuid env)" "state_ok env n st" "length xs \<le> max_displays_per_session (e_config env)"
    and "project_displays (e_uuid env) xs n (clear_displays st) = (out, n', st')"
  shows "state_step env n st n' st'"
proof -
  note a = clear_displays_step [OF assms(2)]
  have "hm_len (displays (clear_displays st)) + length xs \<le> max_displays_per_session (e_config env)"
    using assms(3) by (simp add: clear_displays_def hm_len_def)
  from state_step_trans [OF a project_displays_step [OF assms(1) state_step_ok [OF a] this assms(4)]]
  show ?thesis .
qed

section \<open>Clipboard and observations\<close>

lemma project_clipboard_eq:
  "project_clipboard (e_uuid env) marker n st =
     (clip_of env n, n + 1, st\<lparr>clipboard := Some \<lparr>cb_id = clip_of env n, cb_change_marker = marker\<rparr>\<rparr>)"
  by (simp add: project_clipboard_def clip_of_def Let_def)

lemma project_clipboard_step:
  assumes "state_ok env n st" "project_clipboard (e_uuid env) marker n st = (c, n', st')"
  shows "state_step env n st n' st'"
proof -
  have "state_ok env (n + 1) st" by (rule state_ok_mono [OF assms(1)]) simp
  moreover have "\<exists>i < Suc n. clip_of env n = clip_of env i" "\<exists>i \<ge> n. clip_of env n = clip_of env i" by blast+
  ultimately have "state_step env n st (Suc n) (st\<lparr>clipboard := Some \<lparr>cb_id = clip_of env n, cb_change_marker = marker\<rparr>\<rparr>)"
    unfolding state_step_def by (simp add: state_ok_def tables_ok_def valid_in_def holds_clip_def)
  then show ?thesis using assms(2) by (auto simp: project_clipboard_eq)
qed

lemma take_clipboard_marker_step:
  assumes "state_ok env n st" "take_clipboard_marker c st = (r, st')"
  shows "state_step env n st n st'"
  using assms
  by (intro state_stepI)
    (auto simp: take_clipboard_marker_def state_ok_def tables_ok_def valid_in_def holds_clip_def split: option.splits if_splits)

text \<open>Updates of observation records that only ever withdraw validity.\<close>

lemma observations_map_step:
  assumes "state_ok env n st"
    and "\<And>r. obs_id (f r) = obs_id r" "\<And>r. obs_status (f r) = OS_Valid \<Longrightarrow> obs_status r = OS_Valid"
  shows "state_step env n st n (st\<lparr>observations := hm_map f (observations st)\<rparr>)"
proof (rule state_stepI)
  have "hm_len (hm_map f (observations st)) = hm_len (observations st)" by (simp add: hm_len_def hm_map_def)
  then show "state_ok env n (st\<lparr>observations := hm_map f (observations st)\<rparr>)"
    using assms(1,2) by (auto simp: state_ok_def tables_ok_def observations_ok_def)
qed (use assms(3) in \<open>auto simp: valid_in_def holds_clip_def\<close>)

lemma observations_modify_step:
  assumes "state_ok env n st" "status \<noteq> OS_Valid"
  shows "state_step env n st n
    (st\<lparr>observations := hm_modify oid (\<lambda>r. r\<lparr>obs_status := status\<rparr>) (observations st)\<rparr>)"
proof (rule state_stepI)
  have "hm_len (hm_modify oid (\<lambda>r. r\<lparr>obs_status := status\<rparr>) (observations st)) = hm_len (observations st)"
    by (simp add: hm_len_def hm_modify_def)
  then show "state_ok env n (st\<lparr>observations := hm_modify oid (\<lambda>r. r\<lparr>obs_status := status\<rparr>) (observations st)\<rparr>)"
    using assms by (auto simp: state_ok_def tables_ok_def observations_ok_def split: if_splits)
qed (use assms(2) in \<open>auto simp: valid_in_def holds_clip_def split: if_splits\<close>)

lemma invalidate_window_step: "state_ok env n st \<Longrightarrow> state_step env n st n (invalidate_window_observations wref st)"
  unfolding invalidate_window_observations_def
  by (rule observations_map_step) (simp_all add: set_invalid_def split: if_splits)

lemma invalidate_application_step:
  "state_ok env n st \<Longrightarrow> state_step env n st n (invalidate_application_observations x st)"
  unfolding invalidate_application_observations_def Let_def
  by (rule observations_map_step) (simp_all add: set_invalid_def split: if_splits)

lemma trim_step:
  assumes "state_ok env n st" "0 < limit" "limit \<le> max_observations_per_session (e_config env)"
  shows "state_step env n st n (trim_observations limit st)"
proof (rule state_stepI)
  have wf: "hm_wf (observations st)" using assms(1) by (simp add: state_ok_def observations_ok_def)
  have o: "observations_ok env n (observations (trim_observations limit st))"
    using assms(1) trim_observations_wf [OF wf] trim_observations_len [OF wf assms(2)]
    by (auto simp: state_ok_def observations_ok_def dest: trim_observations_get)
  then show "state_ok env n (trim_observations limit st)"
    using assms(1) by (simp add: state_ok_def tables_ok_def trim_observations_def Let_def)
  show "valid_in st oid \<or> (\<exists>i \<ge> n. oid = obs_of env i)" if "valid_in (trim_observations limit st) oid" for oid
    using that by (auto simp: valid_in_def dest: trim_observations_get)
  show "holds_clip st c \<or> (\<exists>i \<ge> n. c = clip_of env i)" if "holds_clip (trim_observations limit st) c" for c
    using that by (auto simp: holds_clip_def trim_observations_def Let_def split: if_splits)
qed simp

lemma insert_observation_step:
  assumes "state_ok env n st" "hm_len (observations st) < max_observations_per_session (e_config env)"
    and "n < n'" "obs_id r = obs_of env n"
  shows "state_step env n st n' (st\<lparr>observations := hm_insert (obs_id r) r (observations st)\<rparr>)"
proof (rule state_stepI)
  have wf: "hm_wf (observations st)" using assms(1) by (simp add: state_ok_def observations_ok_def)
  have ok: "state_ok env n' st" using state_ok_mono [OF assms(1)] assms(3) by simp
  have "observations_ok env n' (hm_insert (obs_id r) r (observations st))"
    using ok assms(2-4) hm.len_insert_le [OF wf, of "obs_id r" r] wf
    by (auto simp: state_ok_def observations_ok_def split: if_splits)
  then show "state_ok env n' (st\<lparr>observations := hm_insert (obs_id r) r (observations st)\<rparr>)"
    using ok by (simp add: state_ok_def tables_ok_def)
qed (use assms(3,4) in \<open>auto simp: valid_in_def holds_clip_def split: if_splits\<close>)

end
