(* ===== verification/RuntimeInv.thy ===== *)
theory RuntimeInv
  imports SessionSteps
begin

text \<open>
  The invariant \<open>rt_ok\<close> of the runtime and the guarantee \<open>guar\<close> every section gives the other tasks:
  identifiers are never reissued, a consumed one-use reference never becomes available again,
  sessions keep what they were opened with, latches stay latched, and a lock or lane another task
  holds stays with it. The predicate \<open>keeps\<close> is what an ordinary section has to satisfy.
\<close>

section \<open>Tickets\<close>

definition launch_of :: "'w rt_env \<Rightarrow> nat \<Rightarrow> launch_ref" where
  "launch_of env i = LaunchRef (''launch_'' @ e_uuid env i)"

definition session_of :: "'w rt_env \<Rightarrow> nat \<Rightarrow> session_id" where
  "session_of env i = SessionId (''session_'' @ e_uuid env i)"

definition disc_of :: "'w rt_env \<Rightarrow> nat \<Rightarrow> discovery_ref" where
  "disc_of env i = DiscoveryRef (''discovery_'' @ e_uuid env i)"

lemma inj_tickets:
  assumes "inj (e_uuid env)"
  shows "inj (launch_of env)" "inj (session_of env)" "inj (disc_of env)"
  using assms by (auto simp: inj_def launch_of_def session_of_def disc_of_def)

fun mints :: "'w rt_env \<Rightarrow> nat \<Rightarrow> ticket \<Rightarrow> bool" where
  "mints env i (T_Observation a oid) = (oid = obs_of env i)"
| "mints env i (T_Launch l) = (l = launch_of env i)"
| "mints env i (T_Clipboard a c) = (c = clip_of env i)"
| "mints env i (T_Session sid) = (sid = session_of env i)"

definition issued :: "'w rt_env \<Rightarrow> nat \<Rightarrow> ticket \<Rightarrow> bool" where
  "issued env n tk \<longleftrightarrow> (\<exists>i < n. mints env i tk)"

lemma issued_mono: "issued env n tk \<Longrightarrow> n \<le> n' \<Longrightarrow> issued env n' tk"
  unfolding issued_def by (meson less_le_trans)

lemma mints_inj: "inj (e_uuid env) \<Longrightarrow> mints env i tk \<Longrightarrow> mints env j tk \<Longrightarrow> i = j"
  by (cases tk) (auto dest: injD [OF inj_refs(4)] injD [OF inj_refs(5)] injD [OF inj_tickets(1)] injD [OF inj_tickets(2)])

lemma mints_fresh: "inj (e_uuid env) \<Longrightarrow> mints env i tk \<Longrightarrow> n \<le> i \<Longrightarrow> \<not> issued env n tk"
  unfolding issued_def using mints_inj by fastforce

fun available ::
  "session list \<Rightarrow> (launch_ref, launch_discovery_record) hm \<Rightarrow> (session_id, nat) hm \<Rightarrow> ticket \<Rightarrow> bool" where
  "available heap launch sessions (T_Observation a oid) = (a < length heap \<and> valid_in (s_state (heap ! a)) oid)"
| "available heap launch sessions (T_Launch l) = (hm_get launch l \<noteq> None)"
| "available heap launch sessions (T_Clipboard a c) = (a < length heap \<and> holds_clip (s_state (heap ! a)) c)"
| "available heap launch sessions (T_Session sid) = (hm_get sessions sid \<noteq> None)"

abbreviation usable :: "'w runtime \<Rightarrow> ticket \<Rightarrow> bool" where
  "usable s \<equiv> available (r_heap s) (r_launch_discovery s) (r_sessions s)"

section \<open>Events\<close>

definition claimed_tickets :: "event list \<Rightarrow> ticket list" where
  "claimed_tickets tr = concat (map (\<lambda>e. case e of Claim t tk \<Rightarrow> [tk] | _ \<Rightarrow> []) tr)"

definition dispatched_tickets :: "event list \<Rightarrow> ticket list" where
  "dispatched_tickets tr = concat (map (\<lambda>e. case e of Dispatch t tk nc \<Rightarrow> [tk] | _ \<Rightarrow> []) tr)"

fun event_task :: "event \<Rightarrow> nat" where
  "event_task (Claim t tk) = t"
| "event_task (Dispatch t tk nc) = t"
| "event_task (Returned t tk st) = t"

lemma ticket_lists [simp]:
  "claimed_tickets [] = []" "dispatched_tickets [] = []"
  "claimed_tickets (xs @ ys) = claimed_tickets xs @ claimed_tickets ys"
  "dispatched_tickets (xs @ ys) = dispatched_tickets xs @ dispatched_tickets ys"
  "claimed_tickets [Claim t tk] = [tk]" "dispatched_tickets [Claim t tk] = []"
  "claimed_tickets [Dispatch t tk nc] = []" "dispatched_tickets [Dispatch t tk nc] = [tk]"
  "claimed_tickets [Returned t tk st] = []" "dispatched_tickets [Returned t tk st] = []"
  by (simp_all add: claimed_tickets_def dispatched_tickets_def)

lemma in_claimed: "tk \<in> set (claimed_tickets tr) \<longleftrightarrow> (\<exists>t. Claim t tk \<in> set tr)"
  by (force simp: claimed_tickets_def split: event.splits)

lemma in_dispatched: "tk \<in> set (dispatched_tickets tr) \<longleftrightarrow> (\<exists>t nc. Dispatch t tk nc \<in> set tr)"
  by (force simp: dispatched_tickets_def split: event.splits)

lemma claim_unique:
  assumes "distinct (claimed_tickets tr)" "Claim t tk \<in> set tr" "Claim u tk \<in> set tr"
  shows "t = u"
  using assms
proof (induction tr)
  case (Cons e tr)
  have c: "claimed_tickets (e # tr) = claimed_tickets [e] @ claimed_tickets tr"
    using ticket_lists(3) [of "[e]" tr] by simp
  from Cons show ?case unfolding c by (cases e) (auto simp: in_claimed)
qed simp

text \<open>No native mutation of the task is in progress.\<close>

definition idle :: "nat \<Rightarrow> event list \<Rightarrow> bool" where
  "idle t tr \<longleftrightarrow> (\<forall>tk nc. Dispatch t tk nc \<in> set tr \<longrightarrow> (\<exists>st. Returned t tk st \<in> set tr))"

fun lane_held :: "nat \<Rightarrow> native_call \<Rightarrow> nat option \<Rightarrow> nat option \<Rightarrow> bool" where
  "lane_held t (N_Perform input window act g) fg cl = (requires_foreground (pai_action input) \<longrightarrow> fg = Some t)"
| "lane_held t (N_Launch input x) fg cl = True"
| "lane_held t (N_WriteClipboard input marker) fg cl = (cl = Some t)"

text \<open>What authorizes a native mutation: the session it belongs to, its manifest and the policy.\<close>

fun authorized :: "'w rt_env \<Rightarrow> session list \<Rightarrow> ticket \<Rightarrow> native_call \<Rightarrow> bool" where
  "authorized env heap (T_Observation a oid) (N_Perform input window act g) \<longleftrightarrow>
     a < length heap \<and> oid = pai_observation_id input \<and> s_id (heap ! a) = pai_session_id input \<and>
     cm_mode (s_manifest (heap ! a)) = Bounded \<and>
     kind (pai_action input) \<in> set (cm_allowed_actions (s_manifest (heap ! a))) \<and>
     (requires_foreground (pai_action input) \<longrightarrow> cm_allow_foreground_input (s_manifest (heap ! a))) \<and>
     allows_application (heap ! a) (dw_application window) \<and>
     g_expires_at g = s_expires_at (heap ! a) \<and> g_observed_at g \<noteq> None \<and>
     policy_authorize (policy (e_config env)) (PerformAction input) = Inr ()"
| "authorized env heap (T_Launch l) (N_Launch input x) \<longleftrightarrow>
     l = lai_launch_ref input \<and>
     policy_authorize (policy (e_config env)) (LaunchApplication input) = Inr ()"
| "authorized env heap (T_Clipboard a c) (N_WriteClipboard input marker) \<longleftrightarrow>
     a < length heap \<and> c = wci_clipboard_ref input \<and> s_id (heap ! a) = wci_session_id input \<and>
     cm_allow_clipboard_write (s_manifest (heap ! a)) \<and>
     validate_clipboard_text (wci_text input) (max_clipboard_text_bytes (e_config env)) = Inr () \<and>
     policy_authorize (policy (e_config env)) (WriteClipboard input) = Inr ()"
| "authorized env heap _ _ \<longleftrightarrow> False"

section \<open>The invariant\<close>

definition session_ok :: "'w rt_env \<Rightarrow> nat \<Rightarrow> nat \<Rightarrow> session \<Rightarrow> bool" where
  "session_ok env n l ses \<longleftrightarrow>
     state_ok env n (s_state ses) \<and> guard_inv (s_guard ses) \<and>
     (\<forall>k. hm_get (leases (s_guard ses)) k \<noteq> None \<longrightarrow> k < l)"

definition heap_ok :: "'w rt_env \<Rightarrow> nat \<Rightarrow> nat \<Rightarrow> session list \<Rightarrow> bool" where
  "heap_ok env n l heap \<longleftrightarrow> (\<forall>a < length heap. session_ok env n l (heap ! a))"

definition sessions_ok :: "'w rt_env \<Rightarrow> nat \<Rightarrow> session list \<Rightarrow> (session_id, nat) hm \<Rightarrow> bool" where
  "sessions_ok env n heap sessions \<longleftrightarrow>
     hm_wf sessions \<and> hm_len sessions \<le> max_active_sessions (e_config env) \<and>
     (\<forall>sid a. hm_get sessions sid = Some a \<longrightarrow>
        a < length heap \<and> s_id (heap ! a) = sid \<and> \<not> closed (cells (s_guard (heap ! a))) \<and>
        issued env n (T_Session sid))"

definition discovery_ok :: "'w rt_env \<Rightarrow> nat \<Rightarrow> (discovery_ref, discovery_record) hm \<Rightarrow> bool" where
  "discovery_ok env n m \<longleftrightarrow>
     hm_wf m \<and> hm_len m \<le> max_discovery_records (e_config env) \<and>
     (\<forall>d. hm_get m d \<noteq> None \<longrightarrow> (\<exists>i < n. d = disc_of env i))"

definition launch_ok :: "'w rt_env \<Rightarrow> nat \<Rightarrow> (launch_ref, launch_discovery_record) hm \<Rightarrow> bool" where
  "launch_ok env n m \<longleftrightarrow>
     hm_wf m \<and> hm_len m \<le> max_launch_discovery_records (e_config env) \<and>
     (\<forall>l. hm_get m l \<noteq> None \<longrightarrow> issued env n (T_Launch l))"

definition claims_ok ::
  "'w rt_env \<Rightarrow> nat \<Rightarrow> session list \<Rightarrow> (launch_ref, launch_discovery_record) hm \<Rightarrow> (session_id, nat) hm \<Rightarrow>
   event list \<Rightarrow> bool" where
  "claims_ok env n heap launch sessions tr \<longleftrightarrow>
     distinct (claimed_tickets tr) \<and>
     (\<forall>tk \<in> set (claimed_tickets tr). issued env n tk \<and> \<not> available heap launch sessions tk)"

definition dispatches_ok ::
  "'w rt_env \<Rightarrow> session list \<Rightarrow> nat option \<Rightarrow> nat option \<Rightarrow> event list \<Rightarrow> bool" where
  "dispatches_ok env heap fg cl tr \<longleftrightarrow>
     distinct (dispatched_tickets tr) \<and>
     (\<forall>t tk nc. Dispatch t tk nc \<in> set tr \<longrightarrow>
        Claim t tk \<in> set tr \<and> authorized env heap tk nc \<and>
        ((\<exists>st. Returned t tk st \<in> set tr) \<or> lane_held t nc fg cl))"

definition life_ok :: "'w runtime \<Rightarrow> bool" where
  "life_ok s \<longleftrightarrow>
     (r_lifecycle_writer s \<noteq> None \<longrightarrow> r_lifecycle_readers s = []) \<and>
     (r_cleared s \<longrightarrow> r_closed s \<and> r_sessions s = [] \<and> r_discovery s = [] \<and> r_launch_discovery s = []) \<and>
     (r_closed s \<and> r_shutdown_guard s = None \<longrightarrow> r_cleared s)"

definition rt_ok :: "'w rt_env \<Rightarrow> 'w runtime \<Rightarrow> bool" where
  "rt_ok env s \<longleftrightarrow>
     inj (e_uuid env) \<and> config_valid (e_config env) \<and>
     heap_ok env (r_next_uuid s) (r_next_lease s) (r_heap s) \<and>
     sessions_ok env (r_next_uuid s) (r_heap s) (r_sessions s) \<and>
     discovery_ok env (r_next_uuid s) (r_discovery s) \<and>
     launch_ok env (r_next_uuid s) (r_launch_discovery s) \<and>
     claims_ok env (r_next_uuid s) (r_heap s) (r_launch_discovery s) (r_sessions s) (r_trace s) \<and>
     dispatches_ok env (r_heap s) (r_foreground_lane s) (r_clipboard_lane s) (r_trace s) \<and>
     store_ok (r_artifacts s) \<and> life_ok s"

section \<open>The guarantee\<close>

definition same_session :: "session \<Rightarrow> session \<Rightarrow> bool" where
  "same_session x y \<longleftrightarrow>
     s_id y = s_id x \<and> s_manifest y = s_manifest x \<and>
     s_allowed_applications y = s_allowed_applications x \<and> s_expires_at y = s_expires_at x \<and>
     (closed (cells (s_guard x)) \<longrightarrow> closed (cells (s_guard y))) \<and>
     (interruption (cells (s_guard x)) \<noteq> 0 \<longrightarrow>
        interruption (cells (s_guard y)) = interruption (cells (s_guard x)))"

definition heap_ext :: "session list \<Rightarrow> session list \<Rightarrow> bool" where
  "heap_ext h h' \<longleftrightarrow> length h \<le> length h' \<and> (\<forall>a < length h. same_session (h ! a) (h' ! a))"

definition trace_ext :: "nat set \<Rightarrow> event list \<Rightarrow> event list \<Rightarrow> bool" where
  "trace_ext T tr tr' \<longleftrightarrow> (\<exists>new. tr' = tr @ new \<and> (\<forall>e \<in> set new. event_task e \<in> T))"

definition no_revival :: "'w rt_env \<Rightarrow> 'w runtime \<Rightarrow> 'w runtime \<Rightarrow> bool" where
  "no_revival env s s' \<longleftrightarrow> (\<forall>tk. issued env (r_next_uuid s) tk \<longrightarrow> usable s' tk \<longrightarrow> usable s tk)"

text \<open>What the task \<open>u\<close> may count on while others run.\<close>

definition honours :: "nat \<Rightarrow> 'w runtime \<Rightarrow> 'w runtime \<Rightarrow> bool" where
  "honours u s s' \<longleftrightarrow>
     (r_foreground_lane s = Some u \<longrightarrow> r_foreground_lane s' = Some u) \<and>
     (r_clipboard_lane s = Some u \<longrightarrow> r_clipboard_lane s' = Some u) \<and>
     (r_shutdown_guard s = Some u \<longrightarrow>
        r_shutdown_guard s' = Some u \<and> r_closed s' = r_closed s \<and> r_cleared s' = r_cleared s) \<and>
     (r_lifecycle_writer s = Some u \<longrightarrow>
        r_lifecycle_writer s' = Some u \<and> (r_sessions s = [] \<longrightarrow> r_sessions s' = []) \<and>
        (r_discovery s = [] \<longrightarrow> r_discovery s' = []) \<and>
        (r_launch_discovery s = [] \<longrightarrow> r_launch_discovery s' = [])) \<and>
     (u \<in> set (r_lifecycle_readers s) \<longrightarrow>
        u \<in> set (r_lifecycle_readers s') \<and> r_cleared s' = r_cleared s)"

definition guar :: "'w rt_env \<Rightarrow> nat set \<Rightarrow> 'w runtime \<Rightarrow> 'w runtime \<Rightarrow> bool" where
  "guar env T s s' \<longleftrightarrow>
     r_now s \<le> r_now s' \<and> r_next_uuid s \<le> r_next_uuid s' \<and>
     trace_ext T (r_trace s) (r_trace s') \<and> heap_ext (r_heap s) (r_heap s') \<and> no_revival env s s' \<and>
     (r_closed s \<longrightarrow> r_closed s') \<and> (r_cleared s \<longrightarrow> r_cleared s') \<and>
     (\<forall>u. u \<notin> T \<longrightarrow> honours u s s')"

lemma same_session_refl [simp]: "same_session x x"
  by (simp add: same_session_def)

lemma same_session_trans: "same_session x y \<Longrightarrow> same_session y z \<Longrightarrow> same_session x z"
  by (auto simp: same_session_def)

lemma heap_ext_refl [simp]: "heap_ext h h"
  by (simp add: heap_ext_def)

lemma heap_ext_trans: "heap_ext h h' \<Longrightarrow> heap_ext h' h'' \<Longrightarrow> heap_ext h h''"
  unfolding heap_ext_def by (meson le_trans less_le_trans same_session_trans)

lemma heap_ext_update: "same_session (h ! a) x \<Longrightarrow> heap_ext h (h[a := x])"
  unfolding heap_ext_def by (metis length_list_update le_refl nth_list_update_eq nth_list_update_neq same_session_refl)

lemma heap_ext_append: "heap_ext h (h @ xs)"
  by (simp add: heap_ext_def nth_append)

lemma trace_ext_refl [simp]: "trace_ext T tr tr"
  by (simp add: trace_ext_def)

lemma trace_ext_trans: "trace_ext T tr tr' \<Longrightarrow> trace_ext T tr' tr'' \<Longrightarrow> trace_ext T tr tr''"
  by (auto simp: trace_ext_def)

lemma trace_ext_mono: "T \<subseteq> U \<Longrightarrow> trace_ext T tr tr' \<Longrightarrow> trace_ext U tr tr'"
  by (auto simp: trace_ext_def)

lemma trace_ext_set: "trace_ext T tr tr' \<Longrightarrow> set tr \<subseteq> set tr'"
  by (auto simp: trace_ext_def)

lemma trace_ext_new: "trace_ext T tr tr' \<Longrightarrow> e \<in> set tr' \<Longrightarrow> event_task e \<notin> T \<Longrightarrow> e \<in> set tr"
  by (auto simp: trace_ext_def)

lemma no_revival_refl [simp]: "no_revival env s s"
  by (simp add: no_revival_def)

lemma honours_refl [simp]: "honours u s s"
  by (simp add: honours_def)

lemma honours_trans: "honours u s s' \<Longrightarrow> honours u s' s'' \<Longrightarrow> honours u s s''"
  unfolding honours_def by auto

lemma guar_refl_rt: "guar env T s s"
  by (simp add: guar_def)

lemma guar_trans_rt:
  assumes "guar env T s s'" "guar env T s' s''"
  shows "guar env T s s''"
proof -
  have "no_revival env s s''"
    using assms issued_mono unfolding guar_def no_revival_def by blast
  moreover have "honours u s s''" if "u \<notin> T" for u
    using assms that honours_trans unfolding guar_def by blast
  ultimately show ?thesis
    using assms trace_ext_trans heap_ext_trans unfolding guar_def by (metis le_trans)
qed

lemma guar_mono_rt: "T \<subseteq> U \<Longrightarrow> guar env T s s' \<Longrightarrow> guar env U s s'"
  unfolding guar_def using trace_ext_mono by blast

interpretation rt: interleaving "rt_ok env" "guar env" for env
  by unfold_locales (rule guar_refl_rt, erule (1) guar_trans_rt, erule (1) guar_mono_rt)

section \<open>Ordinary sections\<close>

text \<open>The locks, latches and the trace, which ordinary sections leave alone.\<close>

definition view ::
  "'w runtime \<Rightarrow> nat list \<times> nat option \<times> nat option \<times> bool \<times> bool \<times> nat option \<times> nat option \<times> event list" where
  "view s =
     (r_lifecycle_readers s, r_lifecycle_writer s, r_shutdown_guard s, r_closed s, r_cleared s,
      r_foreground_lane s, r_clipboard_lane s, r_trace s)"

definition keeps :: "'w rt_env \<Rightarrow> nat \<Rightarrow> 'w runtime \<Rightarrow> 'w runtime \<Rightarrow> bool" where
  "keeps env t s s' \<longleftrightarrow> rt_ok env s' \<and> guar env {t} s s' \<and> view s' = view s"

definition working :: "nat \<Rightarrow> 'w runtime \<Rightarrow> bool" where
  "working t s \<longleftrightarrow> t \<in> set (r_lifecycle_readers s) \<and> \<not> r_cleared s"

lemma keeps_refl: "rt_ok env s \<Longrightarrow> keeps env t s s"
  by (simp add: keeps_def guar_refl_rt)

lemma keeps_trans: "keeps env t s s' \<Longrightarrow> keeps env t s' s'' \<Longrightarrow> keeps env t s s''"
  unfolding keeps_def using guar_trans_rt by metis

lemma keeps_ok: "keeps env t s s' \<Longrightarrow> rt_ok env s'"
  by (simp add: keeps_def)

lemma keeps_working: "keeps env t s s' \<Longrightarrow> working u s' = working u s"
  by (auto simp: keeps_def working_def view_def)

lemma working_no_writer: "rt_ok env s \<Longrightarrow> working t s \<Longrightarrow> r_lifecycle_writer s = None"
  by (auto simp: rt_ok_def life_ok_def working_def)

named_theorems keeps_intros

text \<open>Fields the invariant does not mention.\<close>

lemma keeps_world [keeps_intros]: "rt_ok env s \<Longrightarrow> keeps env t s (s\<lparr>r_world := w\<rparr>)"
  by (simp add: keeps_def guar_def rt_ok_def life_ok_def view_def no_revival_def honours_def)

lemma keeps_workers [keeps_intros]: "rt_ok env s \<Longrightarrow> keeps env t s (s\<lparr>r_artifact_workers := k\<rparr>)"
  by (simp add: keeps_def guar_def rt_ok_def life_ok_def view_def no_revival_def honours_def)

lemma keeps_signal [keeps_intros]: "rt_ok env s \<Longrightarrow> keeps env t s (send_replace sig s)"
  by (simp add: send_replace_def keeps_def guar_def rt_ok_def life_ok_def view_def no_revival_def honours_def)

lemma keeps_scheduler [keeps_intros]:
  "rt_ok env s \<Longrightarrow> keeps env t s (s\<lparr>r_scheduler := b\<rparr>)"
  "rt_ok env s \<Longrightarrow> keeps env t s (s\<lparr>r_scheduler := b, r_signal := sig\<rparr>)"
  "rt_ok env s \<Longrightarrow> keeps env t s (s\<lparr>r_loop_busy := b\<rparr>)"
  "rt_ok env s \<Longrightarrow> keeps env t s (s\<lparr>r_loop_done := b\<rparr>)"
  "rt_ok env s \<Longrightarrow> keeps env t s (s\<lparr>r_signal_seen := k\<rparr>)"
  by (simp_all add: keeps_def guar_def rt_ok_def life_ok_def view_def no_revival_def honours_def)

lemma keeps_artifacts [keeps_intros]:
  "rt_ok env s \<Longrightarrow> store_ok x \<Longrightarrow> keeps env t s (s\<lparr>r_artifacts := x\<rparr>)"
  by (simp add: keeps_def guar_def rt_ok_def life_ok_def view_def no_revival_def honours_def)

section \<open>Drawing identifiers\<close>

lemma session_ok_mono: "session_ok env n l ses \<Longrightarrow> n \<le> n' \<Longrightarrow> l \<le> l' \<Longrightarrow> session_ok env n' l' ses"
  unfolding session_ok_def using state_ok_mono by (meson less_le_trans)

lemma heap_ok_mono: "heap_ok env n l h \<Longrightarrow> n \<le> n' \<Longrightarrow> l \<le> l' \<Longrightarrow> heap_ok env n' l' h"
  unfolding heap_ok_def using session_ok_mono by blast

lemma sessions_ok_mono: "sessions_ok env n h m \<Longrightarrow> n \<le> n' \<Longrightarrow> sessions_ok env n' h m"
  unfolding sessions_ok_def using issued_mono by blast

lemma discovery_ok_mono: "discovery_ok env n m \<Longrightarrow> n \<le> n' \<Longrightarrow> discovery_ok env n' m"
  unfolding discovery_ok_def by (meson less_le_trans)

lemma launch_ok_mono: "launch_ok env n m \<Longrightarrow> n \<le> n' \<Longrightarrow> launch_ok env n' m"
  unfolding launch_ok_def using issued_mono by blast

lemma claims_ok_mono: "claims_ok env n h l m tr \<Longrightarrow> n \<le> n' \<Longrightarrow> claims_ok env n' h l m tr"
  unfolding claims_ok_def using issued_mono by blast

lemmas ok_monos = heap_ok_mono sessions_ok_mono discovery_ok_mono launch_ok_mono claims_ok_mono

lemma keeps_uuid: "rt_ok env s \<Longrightarrow> r_next_uuid s \<le> n \<Longrightarrow> keeps env t s (s\<lparr>r_next_uuid := n\<rparr>)"
  by (auto simp: keeps_def guar_def rt_ok_def life_ok_def view_def no_revival_def honours_def intro: ok_monos)

lemma keeps_lease: "rt_ok env s \<Longrightarrow> r_next_lease s \<le> n \<Longrightarrow> keeps env t s (s\<lparr>r_next_lease := n\<rparr>)"
  by (auto simp: keeps_def guar_def rt_ok_def life_ok_def view_def no_revival_def honours_def intro: ok_monos)

section \<open>Changing one session\<close>

lemma upd_session_simps [simp]:
  "r_now (upd_session a f s) = r_now s" "r_world (upd_session a f s) = r_world s"
  "r_next_uuid (upd_session a f s) = r_next_uuid s" "r_next_lease (upd_session a f s) = r_next_lease s"
  "r_artifacts (upd_session a f s) = r_artifacts s" "r_discovery (upd_session a f s) = r_discovery s"
  "r_launch_discovery (upd_session a f s) = r_launch_discovery s"
  "r_sessions (upd_session a f s) = r_sessions s"
  "r_lifecycle_readers (upd_session a f s) = r_lifecycle_readers s"
  "r_lifecycle_writer (upd_session a f s) = r_lifecycle_writer s"
  "r_foreground_lane (upd_session a f s) = r_foreground_lane s"
  "r_clipboard_lane (upd_session a f s) = r_clipboard_lane s"
  "r_shutdown_guard (upd_session a f s) = r_shutdown_guard s" "r_closed (upd_session a f s) = r_closed s"
  "r_cleared (upd_session a f s) = r_cleared s" "r_trace (upd_session a f s) = r_trace s"
  "r_heap (upd_session a f s) = (r_heap s)[a := f (r_heap s ! a)]"
  by (simp_all add: upd_session_def)

text \<open>
  One session is replaced by \<open>x\<close>: it keeps what it was opened with, its state takes a \<open>state_step\<close>
  and, while it is in the map, it stays open.
\<close>

definition session_evolves :: "'w rt_env \<Rightarrow> nat \<Rightarrow> nat \<Rightarrow> nat \<Rightarrow> session \<Rightarrow> session \<Rightarrow> bool" where
  "session_evolves env n n' l x y \<longleftrightarrow>
     same_session x y \<and> session_ok env n' l y \<and> state_step env n (s_state x) n' (s_state y)"

lemma authorized_ext: "authorized env h tk nc \<Longrightarrow> heap_ext h h' \<Longrightarrow> authorized env h' tk nc"
  by (induction env h tk nc rule: authorized.induct)
    (auto simp: heap_ext_def same_session_def allows_application_def)

lemma dispatches_ok_ext: "dispatches_ok env h fg cl tr \<Longrightarrow> heap_ext h h' \<Longrightarrow> dispatches_ok env h' fg cl tr"
  unfolding dispatches_ok_def using authorized_ext by blast

lemma available_update:
  assumes inj: "inj (e_uuid env)" and "issued env n tk" "available (h[a := y]) l m tk"
    and "state_step env n (s_state (h ! a)) n' (s_state y)"
  shows "available h l m tk"
proof (cases tk)
  case (T_Observation b oid)
  with assms(2) obtain i where i: "i < n" "oid = obs_of env i" by (auto simp: issued_def)
  have "\<not> (\<exists>j \<ge> n. oid = obs_of env j)" using i injD [OF inj_refs(4) [OF inj]] by fastforce
  then show ?thesis using assms(3,4) T_Observation by (cases "b = a") (auto simp: state_step_def)
next
  case (T_Clipboard b c)
  with assms(2) obtain i where i: "i < n" "c = clip_of env i" by (auto simp: issued_def)
  have "\<not> (\<exists>j \<ge> n. c = clip_of env j)" using i injD [OF inj_refs(5) [OF inj]] by fastforce
  then show ?thesis using assms(3,4) T_Clipboard by (cases "b = a") (auto simp: state_step_def)
qed (use assms(3) in simp_all)

lemma claims_ok_revival:
  assumes "claims_ok env n h l m tr" "n \<le> n'"
    and "\<And>tk. issued env n tk \<Longrightarrow> available h' l' m' tk \<Longrightarrow> available h l m tk"
  shows "claims_ok env n' h' l' m' tr"
  using assms issued_mono unfolding claims_ok_def by blast

lemma keeps_session:
  assumes ok: "rt_ok env s" and a: "a < length (r_heap s)" and l: "r_next_lease s \<le> l"
    and ev: "session_evolves env (r_next_uuid s) n l (r_heap s ! a) y"
    and cl: "\<And>sid. hm_get (r_sessions s) sid = Some a \<Longrightarrow> \<not> closed (cells (s_guard y))"
  shows "keeps env t s (upd_session a (\<lambda>_. y) (s\<lparr>r_next_uuid := n, r_next_lease := l\<rparr>))"
proof -
  let ?h = "(r_heap s)[a := y]"
  have inj: "inj (e_uuid env)" using ok by (simp add: rt_ok_def)
  have same: "same_session (r_heap s ! a) y" and sok: "session_ok env n l y"
    and st: "state_step env (r_next_uuid s) (state_of s a) n (s_state y)"
    using ev by (simp_all add: session_evolves_def)
  have le: "r_next_uuid s \<le> n" using st by (rule state_step_le)
  have ext: "heap_ext (r_heap s) ?h" using same by (rule heap_ext_update)
  have av: "available (r_heap s) lm m tk" if "issued env (r_next_uuid s) tk" "available ?h lm m tk" for lm m tk
    using available_update [OF inj that st] .
  have "heap_ok env n l ?h"
    using ok le l sok heap_ok_mono [of env "r_next_uuid s" "r_next_lease s" "r_heap s" n l]
    by (auto simp: rt_ok_def heap_ok_def nth_list_update a)
  moreover have "sessions_ok env n ?h (r_sessions s)"
    using ok le same cl sessions_ok_mono [of env "r_next_uuid s" "r_heap s" "r_sessions s" n] a
    by (auto simp: rt_ok_def sessions_ok_def nth_list_update same_session_def)
  moreover have "claims_ok env n ?h (r_launch_discovery s) (r_sessions s) (r_trace s)"
    using ok le av claims_ok_revival unfolding rt_ok_def by blast
  moreover have "dispatches_ok env ?h (r_foreground_lane s) (r_clipboard_lane s) (r_trace s)"
    using ok ext dispatches_ok_ext unfolding rt_ok_def by blast
  moreover have "discovery_ok env n (r_discovery s)" "launch_ok env n (r_launch_discovery s)"
    using ok le discovery_ok_mono launch_ok_mono unfolding rt_ok_def by blast+
  ultimately show ?thesis
    using ok ext le av
    by (auto simp: keeps_def guar_def rt_ok_def life_ok_def view_def no_revival_def honours_def)
qed

lemma runtime_update_same [simp]:
  "s\<lparr>r_next_lease := r_next_lease s\<rparr> = s" "s\<lparr>r_next_uuid := r_next_uuid s\<rparr> = s"
  by simp_all

lemma upd_session_out: "length (r_heap s) \<le> a \<Longrightarrow> upd_session a f s = s"
  by (simp add: upd_session_def list_update_beyond)

lemma rt_ok_session: "rt_ok env s \<Longrightarrow> a < length (r_heap s) \<Longrightarrow>
    session_ok env (r_next_uuid s) (r_next_lease s) (r_heap s ! a)"
  by (simp add: rt_ok_def heap_ok_def)

lemma rt_ok_state: "rt_ok env s \<Longrightarrow> a < length (r_heap s) \<Longrightarrow> state_ok env (r_next_uuid s) (state_of s a)"
  using rt_ok_session unfolding session_ok_def by blast

lemma keeps_state:
  assumes ok: "rt_ok env s" and le: "r_next_uuid s \<le> n"
    and st: "a < length (r_heap s) \<Longrightarrow> state_step env (r_next_uuid s) (state_of s a) n st'"
  shows "keeps env t s (upd_state a (\<lambda>_. st') (s\<lparr>r_next_uuid := n\<rparr>))"
proof (cases "a < length (r_heap s)")
  case True
  let ?y = "(r_heap s ! a)\<lparr>s_state := st'\<rparr>"
  have "session_evolves env (r_next_uuid s) n (r_next_lease s) (r_heap s ! a) ?y"
    using rt_ok_session [OF ok True] state_step_ok [OF st [OF True]] st [OF True]
    by (simp add: session_evolves_def same_session_def session_ok_def)
  moreover have "\<not> closed (cells (s_guard ?y))" if "hm_get (r_sessions s) sid = Some a" for sid
    using ok that by (simp add: rt_ok_def sessions_ok_def)
  ultimately show ?thesis
    using keeps_session [OF ok True order_refl, of n ?y t] by (simp add: upd_state_def upd_session_def)
next
  case False
  then show ?thesis using keeps_uuid [OF ok le] by (simp add: upd_state_def upd_session_out)
qed

lemma keeps_state_same:
  assumes "rt_ok env s" "\<And>st. state_ok env (r_next_uuid s) st \<Longrightarrow> state_step env (r_next_uuid s) st (r_next_uuid s) (f st)"
  shows "keeps env t s (upd_state a f s)"
proof -
  have "keeps env t s (upd_state a (\<lambda>_. f (state_of s a)) (s\<lparr>r_next_uuid := r_next_uuid s\<rparr>))"
    by (rule keeps_state [OF assms(1) order_refl assms(2) [OF rt_ok_state [OF assms(1)]]])
  then show ?thesis by (simp add: upd_state_def upd_session_def)
qed

lemma keeps_project:
  assumes ok: "rt_ok env s" and le: "\<And>n st. n \<le> fst (snd (f n st))"
    and st: "\<And>n st x n' st'. state_ok env n st \<Longrightarrow> f n st = (x, n', st') \<Longrightarrow> state_step env n st n' st'"
  shows "keeps env t s (snd (project_section a f s))"
proof -
  obtain x n' st' where f: "f (r_next_uuid s) (state_of s a) = (x, n', st')" by (metis prod_cases3)
  have "r_next_uuid s \<le> n'" using le [of "r_next_uuid s" "state_of s a"] f by simp
  then show ?thesis
    using keeps_state [OF ok, of n' a st' t] st [OF rt_ok_state [OF ok] f] f by (simp add: project_section_def)
qed

lemma keeps_guard:
  assumes ok: "rt_ok env s" and l: "r_next_lease s \<le> l"
    and gw: "a < length (r_heap s) \<Longrightarrow> guard_inv gw" "a < length (r_heap s) \<Longrightarrow> (\<forall>k. hm_get (leases gw) k \<noteq> None \<longrightarrow> k < l)"
    and cells: "closed (cells gw) = closed (cells (guard_of s a))"
      "interruption (cells (guard_of s a)) \<noteq> 0 \<Longrightarrow> interruption (cells gw) = interruption (cells (guard_of s a))"
  shows "keeps env t s (upd_guard a (\<lambda>_. gw) (s\<lparr>r_next_lease := l\<rparr>))"
proof (cases "a < length (r_heap s)")
  case True
  let ?y = "(r_heap s ! a)\<lparr>s_guard := gw\<rparr>"
  have "session_evolves env (r_next_uuid s) (r_next_uuid s) l (r_heap s ! a) ?y"
    using rt_ok_session [OF ok True] gw [OF True] cells state_step_refl
    by (auto simp: session_evolves_def same_session_def session_ok_def)
  moreover have "\<not> closed (cells (s_guard ?y))" if "hm_get (r_sessions s) sid = Some a" for sid
    using ok that cells by (simp add: rt_ok_def sessions_ok_def)
  ultimately show ?thesis
    using keeps_session [OF ok True l, of "r_next_uuid s" ?y t] by (simp add: upd_guard_def upd_session_def)
next
  case False
  then show ?thesis using keeps_lease [OF ok l] by (simp add: upd_guard_def upd_session_out)
qed

text \<open>Any change of the guard that the guard's own step relation allows, without new leases.\<close>

lemma guard_step_keeps_inv: "guard_step (now, gw) (now', gw') \<Longrightarrow> guard_inv gw \<Longrightarrow> guard_inv gw'"
  using guard_inv_steps [of "(now, gw)" "(now', gw')"] by (simp add: r_into_rtranclp)

lemma guard_step_keeps_interruption:
  "guard_step (now, gw) (now', gw') \<Longrightarrow> interruption (cells gw) \<noteq> 0 \<Longrightarrow>
     interruption (cells gw') = interruption (cells gw)"
  using guard_step_latched [of "(now, gw)" "(now', gw')"] by simp

lemma keeps_guard_step:
  assumes ok: "rt_ok env s" and st: "guard_step (r_now s, guard_of s a) (r_now s, gw)"
    and "closed (cells gw) = closed (cells (guard_of s a))"
    and d: "dom (hm_get (leases gw)) \<subseteq> dom (hm_get (leases (guard_of s a)))"
  shows "keeps env t s (upd_guard a (\<lambda>_. gw) s)"
proof -
  have "guard_inv gw" if "a < length (r_heap s)"
    using guard_step_keeps_inv [OF st] rt_ok_session [OF ok that] by (simp add: session_ok_def)
  moreover have "\<forall>k. hm_get (leases gw) k \<noteq> None \<longrightarrow> k < r_next_lease s" if "a < length (r_heap s)"
    using rt_ok_session [OF ok that] d by (auto simp: session_ok_def dom_def)
  ultimately have "keeps env t s (upd_guard a (\<lambda>_. gw) (s\<lparr>r_next_lease := r_next_lease s\<rparr>))"
    using guard_step_keeps_interruption [OF st] assms(3) by (intro keeps_guard [OF ok order_refl]) simp_all
  then show ?thesis by simp
qed

lemma keeps_drop_lease: "rt_ok env s \<Longrightarrow> keeps env t s (upd_guard a (drop_lease k) s)"
proof -
  assume ok: "rt_ok env s"
  have "keeps env t s (upd_guard a (\<lambda>_. drop_lease k (guard_of s a)) s)"
    by (rule keeps_guard_step [OF ok gs_drop]) (auto simp: drop_lease_def Let_def dom_def split: if_splits)
  then show ?thesis by (simp add: upd_guard_def upd_session_def)
qed

lemma keeps_acquire_guard: "rt_ok env s \<Longrightarrow> keeps env t s (snd (acquire_guard a ses s))"
proof -
  assume ok: "rt_ok env s"
  let ?l = "r_next_lease s"
  have none: "hm_get (leases (guard_of s a)) ?l = None" if "a < length (r_heap s)"
    using rt_ok_session [OF ok that] by (auto simp: session_ok_def)
  have inv: "guard_inv (new_lease ?l (guard_of s a))" if "a < length (r_heap s)"
    using guard_step_keeps_inv [OF gs_guard [OF none [OF that], of 0]] rt_ok_session [OF ok that]
    by (simp add: session_ok_def)
  have "keeps env t s (upd_guard a (\<lambda>_. new_lease ?l (guard_of s a)) (s\<lparr>r_next_lease := ?l + 1\<rparr>))"
  proof (rule keeps_guard [OF ok])
    show "\<forall>k. hm_get (leases (new_lease ?l (guard_of s a))) k \<noteq> None \<longrightarrow> k < ?l + 1" if "a < length (r_heap s)"
      using rt_ok_session [OF ok that] by (auto simp: new_lease_def session_ok_def less_SucI)
  qed (simp_all add: inv, simp_all add: new_lease_def)
  then show ?thesis by (simp add: acquire_guard_def upd_guard_def upd_session_def Let_def)
qed

section \<open>The session map\<close>

lemma hm_get_empty: "(\<And>k. hm_get m k = None) \<Longrightarrow> m = []"
  by (cases m) (auto simp: hm_get_None_iff)

lemma keeps_sessions_shrink:
  assumes ok: "rt_ok env s" and wf: "hm_wf m" "hm_len m \<le> hm_len (r_sessions s)"
    and sub: "\<And>sid a. hm_get m sid = Some a \<Longrightarrow> hm_get (r_sessions s) sid = Some a"
  shows "keeps env t s (s\<lparr>r_sessions := m\<rparr>)"
proof -
  have e: "m = []" if "r_sessions s = []" using that sub hm_get_empty [of m] by (metis hm_get_Nil not_Some_eq)
  have av: "available (r_heap s) (r_launch_discovery s) (r_sessions s) tk"
    if "available (r_heap s) (r_launch_discovery s) m tk" for tk
    using that sub by (cases tk) auto
  have "sessions_ok env (r_next_uuid s) (r_heap s) m"
    using ok wf sub by (auto simp: rt_ok_def sessions_ok_def)
  moreover have "claims_ok env (r_next_uuid s) (r_heap s) (r_launch_discovery s) m (r_trace s)"
    using ok av claims_ok_revival [OF _ order_refl] unfolding rt_ok_def by blast
  ultimately show ?thesis
    using ok av e by (auto simp: keeps_def guar_def rt_ok_def life_ok_def view_def no_revival_def honours_def)
qed

lemma keeps_sessions_remove: "rt_ok env s \<Longrightarrow> keeps env t s (s\<lparr>r_sessions := hm_remove sid (r_sessions s)\<rparr>)"
proof -
  assume ok: "rt_ok env s"
  have "hm_wf (r_sessions s)" using ok by (simp add: rt_ok_def sessions_ok_def)
  then show ?thesis
    using hm.len_remove_le by (intro keeps_sessions_shrink [OF ok]) (auto split: if_splits)
qed

lemma close_at_alt:
  "close_at env a s =
     (if a < length (r_heap s)
      then upd_session a (\<lambda>x. fst (session_close x)) s else s)
       \<lparr>r_world := (if snd (session_close (r_heap s ! a))
                   then session_closed (e_driver env) (s_id (r_heap s ! a)) (r_world s) else r_world s)\<rparr>"
  by (simp add: close_at_def Let_def case_prod_beta upd_session_def)

lemma close_at_frame [simp]:
  "r_now (close_at env a s) = r_now s" "r_sessions (close_at env a s) = r_sessions s"
  "r_discovery (close_at env a s) = r_discovery s" "r_launch_discovery (close_at env a s) = r_launch_discovery s"
  "length (r_heap (close_at env a s)) = length (r_heap s)" "r_trace (close_at env a s) = r_trace s"
  "r_closed (close_at env a s) = r_closed s" "r_cleared (close_at env a s) = r_cleared s"
  "r_lifecycle_writer (close_at env a s) = r_lifecycle_writer s"
  "r_shutdown_guard (close_at env a s) = r_shutdown_guard s"
  by (simp_all add: close_at_alt)

lemma close_at_sessions: "(close_at env a s)\<lparr>r_sessions := m\<rparr> = close_at env a (s\<lparr>r_sessions := m\<rparr>)"
  by (simp add: close_at_alt upd_session_def)

lemma session_close_ok:
  "session_ok env n l x \<Longrightarrow> session_evolves env n n l x (fst (session_close x))"
  using guard_step_keeps_inv [OF gs_close [of 0 "s_guard x"]]
  by (simp add: session_evolves_def session_close_def same_session_def session_ok_def state_step_refl)

lemma keeps_close:
  assumes ok: "rt_ok env s" and out: "\<And>sid. hm_get (r_sessions s) sid \<noteq> Some a"
  shows "keeps env t s (close_at env a s)"
proof (cases "a < length (r_heap s)")
  case True
  have "keeps env t s (upd_session a (\<lambda>_. fst (session_close (r_heap s ! a)))
      (s\<lparr>r_next_uuid := r_next_uuid s, r_next_lease := r_next_lease s\<rparr>))"
    using session_close_ok [OF rt_ok_session [OF ok True]] out by (intro keeps_session [OF ok True order_refl]) simp_all
  then have k: "keeps env t s (upd_session a (\<lambda>x. fst (session_close x)) s)" by (simp add: upd_session_def)
  show ?thesis unfolding close_at_alt using True by (simp add: keeps_trans [OF k keeps_world [OF keeps_ok [OF k]]])
next
  case False
  then show ?thesis unfolding close_at_alt using keeps_world [OF ok] by simp
qed

lemma keeps_close_all:
  "rt_ok env s \<Longrightarrow> (\<And>a sid. a \<in> set addrs \<Longrightarrow> hm_get (r_sessions s) sid \<noteq> Some a) \<Longrightarrow>
     keeps env t s (close_all env addrs s)"
proof (induction addrs arbitrary: s)
  case (Cons a addrs)
  have k: "keeps env t s (close_at env a s)" using Cons.prems by (intro keeps_close) simp_all
  show ?case using Cons.prems(2) keeps_trans [OF k Cons.IH [OF keeps_ok [OF k]]] by simp
qed (simp add: keeps_refl)

lemma close_all_sessions: "(close_all env addrs s)\<lparr>r_sessions := m\<rparr> = close_all env addrs (s\<lparr>r_sessions := m\<rparr>)"
  by (induction addrs arbitrary: s) (simp_all add: close_at_sessions)

lemma session_address_unique:
  "rt_ok env s \<Longrightarrow> hm_get (r_sessions s) sid = Some a \<Longrightarrow> hm_get (r_sessions s) sid' = Some a \<Longrightarrow> sid = sid'"
  by (auto simp: rt_ok_def sessions_ok_def)

lemma keeps_session_section: "rt_ok env s \<Longrightarrow> keeps env t s (snd (session_section env sid s))"
proof -
  assume ok: "rt_ok env s"
  have "keeps env t s ((close_at env a s)\<lparr>r_sessions := hm_remove sid (r_sessions s)\<rparr>)"
    if a: "hm_get (r_sessions s) sid = Some a" for a
  proof -
    let ?s = "s\<lparr>r_sessions := hm_remove sid (r_sessions s)\<rparr>"
    have k: "keeps env t s ?s" by (rule keeps_sessions_remove [OF ok])
    have "keeps env t ?s (close_at env a ?s)"
      using session_address_unique [OF ok a] by (intro keeps_close [OF keeps_ok [OF k]]) (auto split: if_splits)
    then show ?thesis unfolding close_at_sessions by (rule keeps_trans [OF k])
  qed
  then show ?thesis using keeps_refl [OF ok] by (auto simp: session_section_def split: option.splits)
qed

section \<open>Discovery\<close>

lemma keeps_discovery:
  assumes ok: "rt_ok env s" and "working t s" and "r_next_uuid s \<le> n" "discovery_ok env n m"
  shows "keeps env t s (s\<lparr>r_discovery := m, r_next_uuid := n\<rparr>)"
  using ok assms(2-4) working_no_writer [OF ok assms(2)]
  by (auto simp: keeps_def guar_def rt_ok_def life_ok_def view_def no_revival_def honours_def working_def
      intro: ok_monos)

lemma discovery_ok_retain: "discovery_ok env n m \<Longrightarrow> discovery_ok env n (hm_retain P m)"
  using hm.len_retain_le [of m P] by (auto simp: discovery_ok_def hm_get_retain intro: le_trans split: option.splits if_splits)

lemma launch_ok_retain: "launch_ok env n m \<Longrightarrow> launch_ok env n (hm_retain P m)"
  using hm.len_retain_le [of m P] by (auto simp: launch_ok_def hm_get_retain intro: le_trans split: option.splits if_splits)

lemma hm_retain_Nil [simp]: "hm_retain P [] = []"
  by (simp add: hm_retain_def)

lemma keeps_discovery_retain:
  assumes ok: "rt_ok env s"
  shows "keeps env t s (s\<lparr>r_discovery := hm_retain P (r_discovery s)\<rparr>)"
  using ok discovery_ok_retain [of env "r_next_uuid s" "r_discovery s" P]
  by (auto simp: keeps_def guar_def rt_ok_def life_ok_def view_def no_revival_def honours_def)

lemma available_launch_shrink:
  assumes "\<And>l. hm_get m l \<noteq> None \<Longrightarrow> issued env n (T_Launch l) \<Longrightarrow> hm_get m0 l \<noteq> None"
    and "issued env n tk" "available h m ss tk"
  shows "available h m0 ss tk"
  using assms by (cases tk) auto

lemma keeps_launch:
  assumes ok: "rt_ok env s" and w: "working t s \<or> (r_launch_discovery s = [] \<longrightarrow> m = [])"
    and le: "r_next_uuid s \<le> n" and m: "launch_ok env n m"
    and old: "\<And>l. hm_get m l \<noteq> None \<Longrightarrow> issued env (r_next_uuid s) (T_Launch l) \<Longrightarrow> hm_get (r_launch_discovery s) l \<noteq> None"
  shows "keeps env t s (s\<lparr>r_launch_discovery := m, r_next_uuid := n\<rparr>)"
proof -
  have av: "usable s tk" if "issued env (r_next_uuid s) tk" "available (r_heap s) m (r_sessions s) tk" for tk
    using available_launch_shrink [of m env "r_next_uuid s", OF _ that] old by blast
  have "claims_ok env n (r_heap s) m (r_sessions s) (r_trace s)"
    using ok le av claims_ok_revival unfolding rt_ok_def by blast
  moreover have "heap_ok env n (r_next_lease s) (r_heap s)" "sessions_ok env n (r_heap s) (r_sessions s)"
    "discovery_ok env n (r_discovery s)"
    using ok le unfolding rt_ok_def by (blast intro: ok_monos)+
  ultimately show ?thesis
    using ok m le av w working_no_writer [OF ok]
    by (auto simp: keeps_def guar_def rt_ok_def life_ok_def view_def no_revival_def honours_def working_def)
qed

lemma keeps_launch_shrink:
  assumes ok: "rt_ok env s" and "launch_ok env (r_next_uuid s) m"
    and old: "\<And>l. hm_get m l \<noteq> None \<Longrightarrow> hm_get (r_launch_discovery s) l \<noteq> None"
  shows "keeps env t s (s\<lparr>r_launch_discovery := m\<rparr>)"
proof -
  have "r_launch_discovery s = [] \<longrightarrow> m = []" using old hm_get_empty [of m] by force
  then have "keeps env t s (s\<lparr>r_launch_discovery := m, r_next_uuid := r_next_uuid s\<rparr>)"
    using assms by (intro keeps_launch) simp_all
  then show ?thesis by simp
qed

lemma keeps_launch_retain:
  "rt_ok env s \<Longrightarrow> keeps env t s (s\<lparr>r_launch_discovery := hm_retain P (r_launch_discovery s)\<rparr>)"
proof -
  assume ok: "rt_ok env s"
  have l: "launch_ok env (r_next_uuid s) (r_launch_discovery s)" using ok by (simp add: rt_ok_def)
  then have "hm_wf (r_launch_discovery s)" by (simp add: launch_ok_def)
  then show ?thesis
    using launch_ok_retain [OF l]
    by (intro keeps_launch_shrink [OF ok]) (auto simp: hm_get_retain split: option.splits if_splits)
qed

lemma issue_discovery_ok:
  assumes "issue_discovery env e txt xs n m = (out, n', m')" "hm_wf m"
    and "\<And>d. hm_get m d \<noteq> None \<Longrightarrow> \<exists>i < n. d = disc_of env i"
  shows "n' = n + length xs \<and> hm_wf m' \<and> hm_len m' \<le> hm_len m + length xs \<and>
    (\<forall>d. hm_get m' d \<noteq> None \<longrightarrow> (\<exists>i < n'. d = disc_of env i)) \<and> length out = length xs"
  using assms
proof (induction xs arbitrary: n m out)
  case (Cons x xs)
  let ?m = "hm_insert (disc_of env n) (discovery_record_of env e x) m"
  obtain out' where r: "issue_discovery env e txt xs (n + 1) ?m = (out', n', m')" "length out = Suc (length out')"
    using Cons.prems(1) by (auto simp: Let_def disc_of_def split: prod.splits)
  have "\<exists>i < n + 1. d = disc_of env i" if "hm_get ?m d \<noteq> None" for d
    using that Cons.prems(3) [of d] by (cases "d = disc_of env n") (auto intro: less_SucI)
  from Cons.IH [OF r(1) _ this] Cons.prems(2) r(2) show ?case
    using hm.len_insert_le [OF Cons.prems(2), of "disc_of env n" "discovery_record_of env e x"] by auto
qed auto

lemma issue_launchable_ok:
  assumes "issue_launchable env e txt xs n m = (out, n', m')" "hm_wf m"
    and "\<And>l. hm_get m l \<noteq> None \<Longrightarrow> issued env n (T_Launch l)"
  shows "n' = n + length xs \<and> hm_wf m' \<and> hm_len m' \<le> hm_len m + length xs \<and>
    (\<forall>l. hm_get m' l \<noteq> None \<longrightarrow> issued env n' (T_Launch l) \<and> (hm_get m l \<noteq> None \<or> (\<exists>i \<ge> n. l = launch_of env i)))"
  using assms
proof (induction xs arbitrary: n m out)
  case (Cons x xs)
  define y where "y = \<lparr>ldr_runtime_epoch = e_epoch env, ldr_application = x, ldr_expires_at = e\<rparr>"
  let ?m = "hm_insert (launch_of env n) y m"
  obtain out' where r: "issue_launchable env e txt xs (n + 1) ?m = (out', n', m')"
    using Cons.prems(1) by (auto simp: Let_def launch_of_def y_def split: prod.splits)
  have i: "issued env (n + 1) (T_Launch l)" if "hm_get ?m l \<noteq> None" for l
    using that Cons.prems(3) [of l] issued_mono [of env n "T_Launch l" "n + 1"]
    by (cases "l = launch_of env n") (auto simp: issued_def)
  have "hm_wf ?m" using Cons.prems(2) by simp
  note h = Cons.IH [OF r this i]
  have "hm_get m l \<noteq> None \<or> (\<exists>i \<ge> n. l = launch_of env i)" if "hm_get m' l \<noteq> None" for l
    using h that by (metis Suc_eq_plus1 Suc_leD hm_get_insert order_refl)
  then show ?case
    using h hm.len_insert_le [OF Cons.prems(2), of "launch_of env n" y] by auto
qed auto

lemma keeps_discovery_section:
  assumes ok: "rt_ok env s" and w: "working t s"
  shows "keeps env t s (snd (discovery_section env e txt xs s))"
proof -
  let ?live = "hm_retain (\<lambda>_ r. r_now s < dr_expires_at r) (r_discovery s)"
  have live: "discovery_ok env (r_next_uuid s) ?live" using ok by (simp add: rt_ok_def discovery_ok_retain)
  obtain out n m where i: "issue_discovery env e txt xs (r_next_uuid s) ?live = (out, n, m)" by (metis prod_cases3)
  note h = issue_discovery_ok [OF i]
  have "discovery_ok env n m \<and> r_next_uuid s \<le> n"
    if "\<not> max_discovery_records (e_config env) < hm_len ?live + length xs"
    using h live that by (auto simp: discovery_ok_def)
  then show ?thesis
    using keeps_discovery [OF ok w] keeps_discovery_retain [OF ok] i by (auto simp: discovery_section_def Let_def)
qed

lemma keeps_launchable_section:
  assumes ok: "rt_ok env s" and w: "working t s"
  shows "keeps env t s (snd (launchable_section env e txt xs s))"
proof -
  let ?live = "hm_retain (\<lambda>_ r. r_now s < ldr_expires_at r) (r_launch_discovery s)"
  have inj: "inj (e_uuid env)" and wf: "hm_wf (r_launch_discovery s)" using ok by (simp_all add: rt_ok_def launch_ok_def)
  have live: "launch_ok env (r_next_uuid s) ?live" using ok by (simp add: rt_ok_def launch_ok_retain)
  obtain out n m where i: "issue_launchable env e txt xs (r_next_uuid s) ?live = (out, n, m)" by (metis prod_cases3)
  note h = issue_launchable_ok [OF i]
  have "keeps env t s (s\<lparr>r_launch_discovery := m, r_next_uuid := n\<rparr>)"
    if c: "\<not> max_launch_discovery_records (e_config env) < hm_len ?live + length xs"
  proof (rule keeps_launch [OF ok disjI1 [OF w]])
    show "r_next_uuid s \<le> n" "launch_ok env n m" using h live c by (auto simp: launch_ok_def)
    show "hm_get (r_launch_discovery s) l \<noteq> None"
      if "hm_get m l \<noteq> None" "issued env (r_next_uuid s) (T_Launch l)" for l
    proof -
      have "\<not> (\<exists>i \<ge> r_next_uuid s. l = launch_of env i)"
        using that(2) mints_fresh [OF inj, of _ "T_Launch l" "r_next_uuid s"] by auto
      then show ?thesis using h live that(1) wf
        by (auto simp: launch_ok_def hm_get_retain split: option.splits if_splits)
    qed
  qed
  then show ?thesis
    using keeps_launch_retain [OF ok] i by (auto simp: launchable_section_def Let_def)
qed

lemma keeps_launched_section:
  assumes ok: "rt_ok env s" and w: "working t s"
  shows "keeps env t s (snd (launched_section env e txt x s))"
proof -
  let ?live = "hm_retain (\<lambda>_ r. r_now s < dr_expires_at r) (r_discovery s)"
  let ?m = "hm_insert (disc_of env (r_next_uuid s)) (discovery_record_of env e x) ?live"
  have live: "discovery_ok env (r_next_uuid s) ?live" using ok by (simp add: rt_ok_def discovery_ok_retain)
  have "discovery_ok env (r_next_uuid s + 1) ?live" using discovery_ok_mono [OF live] by simp
  moreover have "discovery_ok env (r_next_uuid s + 1) ?m" if "\<not> max_discovery_records (e_config env) \<le> hm_len ?live"
    using live that hm.len_insert_le [of ?live "disc_of env (r_next_uuid s)" "discovery_record_of env e x"]
    by (auto simp: discovery_ok_def less_Suc_eq)
  ultimately show ?thesis
    using keeps_discovery [OF ok w] by (auto simp: launched_section_def Let_def disc_of_def)
qed

section \<open>Opening a session\<close>

lemma new_session_ok:
  "session_ok env n (Suc l) (new_session sid manifest allowed e\<lparr>s_guard := new_lease l new_guard_world\<rparr>)"
  using guard_step_keeps_inv [OF gs_guard [of new_guard_world l 0]] guard_inv_new state_ok_new
  by (auto simp: session_ok_def new_session_def new_lease_def new_guard_world_def)

lemma nth_heap_append: "a < length h \<Longrightarrow> (h @ [x]) ! a = h ! a" "(h @ [x]) ! length h = x"
  by (simp_all add: nth_append)

lemma available_append:
  assumes "available (h @ [x]) l m tk" "s_state x = new_session_state"
  shows "available h l m tk"
  using assms by (cases tk) (auto simp: nth_append less_Suc_eq valid_in_def holds_clip_def new_session_state_def
      split: if_splits)

lemma keeps_heap_append:
  assumes ok: "rt_ok env s" and x: "session_ok env (Suc (r_next_uuid s)) (Suc (r_next_lease s)) x"
    and st: "s_state x = new_session_state"
  shows "keeps env t s (s\<lparr>r_heap := r_heap s @ [x], r_next_lease := Suc (r_next_lease s), r_next_uuid := Suc (r_next_uuid s)\<rparr>)"
proof -
  let ?h = "r_heap s @ [x]" and ?n = "Suc (r_next_uuid s)" and ?l = "Suc (r_next_lease s)"
  have "heap_ok env ?n ?l (r_heap s)"
    using ok heap_ok_mono [OF _ le_SucI [OF order_refl] le_SucI [OF order_refl]] unfolding rt_ok_def by blast
  then have "heap_ok env ?n ?l ?h" using x by (auto simp: heap_ok_def nth_append less_Suc_eq)
  moreover have "sessions_ok env ?n (r_heap s) (r_sessions s)"
    using ok sessions_ok_mono [OF _ le_SucI [OF order_refl]] unfolding rt_ok_def by blast
  then have "sessions_ok env ?n ?h (r_sessions s)" by (auto simp: sessions_ok_def nth_append less_SucI)
  moreover have "claims_ok env ?n ?h (r_launch_discovery s) (r_sessions s) (r_trace s)"
    using ok available_append [OF _ st] claims_ok_revival [OF _ le_SucI [OF order_refl]] unfolding rt_ok_def by blast
  moreover have "dispatches_ok env ?h (r_foreground_lane s) (r_clipboard_lane s) (r_trace s)"
    using ok heap_ext_append dispatches_ok_ext unfolding rt_ok_def by blast
  moreover have "discovery_ok env ?n (r_discovery s)" "launch_ok env ?n (r_launch_discovery s)"
    using ok discovery_ok_mono [OF _ le_SucI [OF order_refl]] launch_ok_mono [OF _ le_SucI [OF order_refl]]
    unfolding rt_ok_def by blast+
  ultimately show ?thesis
    using ok available_append [OF _ st] heap_ext_append
    by (auto simp: keeps_def guar_def rt_ok_def life_ok_def view_def no_revival_def honours_def)
qed

lemma keeps_session_insert:
  assumes ok: "rt_ok env s" and w: "working t s" and sid: "mints env i (T_Session sid)" "i < r_next_uuid s"
    and new: "hm_get (r_sessions s) sid = None" and cap: "hm_len (r_sessions s) < max_active_sessions (e_config env)"
    and a: "a < length (r_heap s)" "s_id (r_heap s ! a) = sid" "\<not> closed (cells (guard_of s a))"
    and unclaimed: "T_Session sid \<notin> set (claimed_tickets (r_trace s))"
  shows "rt_ok env (s\<lparr>r_sessions := hm_insert sid a (r_sessions s)\<rparr>)"
proof -
  have wf: "hm_wf (r_sessions s)" using ok by (simp add: rt_ok_def sessions_ok_def)
  have "sessions_ok env (r_next_uuid s) (r_heap s) (hm_insert sid a (r_sessions s))"
    using ok sid a cap hm.len_insert_new [OF wf new] by (auto simp: rt_ok_def sessions_ok_def issued_def)
  moreover have "available (r_heap s) (r_launch_discovery s) (r_sessions s) tk"
    if "available (r_heap s) (r_launch_discovery s) (hm_insert sid a (r_sessions s)) tk" "tk \<noteq> T_Session sid" for tk
    using that by (cases tk) (auto split: if_splits)
  then have "claims_ok env (r_next_uuid s) (r_heap s) (r_launch_discovery s) (hm_insert sid a (r_sessions s)) (r_trace s)"
    using ok unclaimed unfolding rt_ok_def claims_ok_def by blast
  ultimately show ?thesis using ok w by (auto simp: rt_ok_def life_ok_def working_def)
qed

lemma keeps_admit_session:
  assumes ok: "rt_ok env s" and w: "working t s"
  shows "keeps env t s (snd (admit_session env manifest allowed e s))"
proof (cases "max_active_sessions (e_config env) \<le> hm_len (r_sessions s)")
  case True
  then show ?thesis using keeps_refl [OF ok] by (simp add: admit_session_def)
next
  case False
  let ?n = "r_next_uuid s" and ?l = "r_next_lease s" and ?a = "length (r_heap s)"
  let ?sid = "session_of env ?n"
  let ?ses = "new_session ?sid manifest allowed e"
  let ?x = "?ses\<lparr>s_guard := new_lease ?l new_guard_world\<rparr>"
  let ?s' = "s\<lparr>r_heap := r_heap s @ [?x], r_next_lease := Suc ?l, r_next_uuid := Suc ?n\<rparr>"
  obtain r v where call: "session_started_guarded (e_driver env) ?sid (action_guard ?ses ?l)
      (cm_allow_foreground_input manifest) (r_world s) = (r, v)" by fastforce
  let ?s1 = "?s'\<lparr>r_world := v\<rparr>"
  have inj: "inj (e_uuid env)" using ok by (simp add: rt_ok_def)
  have "keeps env t s ?s'"
    by (rule keeps_heap_append [OF ok new_session_ok]) (simp add: new_session_def)
  then have k: "keeps env t s ?s1" by (rule keeps_trans) (rule keeps_world [OF keeps_ok], fact)
  have fresh: "\<not> issued env ?n (T_Session ?sid)" by (rule mints_fresh [OF inj, of ?n]) simp_all
  have unclaimed: "T_Session ?sid \<notin> set (claimed_tickets (r_trace s))"
    using ok fresh unfolding rt_ok_def claims_ok_def by blast
  have new: "hm_get (r_sessions s) ?sid = None"
    using ok fresh by (auto simp: rt_ok_def sessions_ok_def) (meson not_None_eq)
  have open': "\<not> closed (cells (s_guard ?x))" "s_id ?x = ?sid"
    by (simp_all add: new_lease_def new_guard_world_def new_cells_def new_session_def)
  show ?thesis
  proof (cases r)
    case (Inl err)
    have "keeps env t ?s1 (close_at env ?a ?s1)"
      using ok by (intro keeps_close [OF keeps_ok [OF k]]) (auto simp: rt_ok_def sessions_ok_def)
    then show ?thesis using keeps_trans [OF k] call Inl False
      by (simp add: admit_session_def Let_def session_of_def new_session_def)
  next
    case (Inr u)
    let ?s2 = "?s1\<lparr>r_sessions := hm_insert ?sid ?a (r_sessions s)\<rparr>"
    have w1: "working t ?s1" using w by (simp add: working_def)
    have ok2: "rt_ok env (?s1\<lparr>r_sessions := hm_insert ?sid ?a (r_sessions ?s1)\<rparr>)"
      using new unclaimed False open' by (intro keeps_session_insert [OF keeps_ok [OF k] w1, of ?n]) (simp_all add: nth_heap_append)
    have av: "usable s tk" if "issued env ?n tk" "usable ?s2 tk" for tk
    proof -
      have "usable ?s1 tk" using that fresh by (cases tk) (auto split: if_splits)
      then show ?thesis using k that(1) unfolding keeps_def guar_def no_revival_def by blast
    qed
    have "keeps env t s ?s2"
      using ok2 k av w working_no_writer [OF ok w]
      by (auto simp: keeps_def guar_def view_def no_revival_def honours_def working_def)
    then show ?thesis using call Inr False by (simp add: admit_session_def Let_def session_of_def new_session_def)
  qed
qed

section \<open>Storing an observation\<close>

lemma keeps_store_observation:
  assumes ok: "rt_ok env s"
  shows "keeps env t s (snd (store_observation env a input scene started txt observation shot s))"
proof -
  let ?limit = "max_observations_per_session (e_config env)"
  let ?st = "trim_observations ?limit (invalidate_window_observations (owi_window_ref input) (state_of s a))"
  have pos: "0 < ?limit" using ok by (simp add: rt_ok_def config_valid_def)
  obtain entry elements n where p: "project_observation (e_uuid env) (r_now s) observation (owi_window_ref input)
      (map_option sa_mapping shot) (max_elements_per_observation (e_config env)) (r_next_uuid s) = Some (entry, elements, n)"
    and n: "r_next_uuid s < n" "obs_id entry = obs_of env (r_next_uuid s)"
    using project_observation_total [of "e_uuid env"] unfolding obs_of_def by metis
  let ?r = "entry\<lparr>obs_application_scene := scene, obs_created_at := started\<rparr>"
  have "state_step env (r_next_uuid s) (state_of s a) n (?st\<lparr>observations := hm_insert (obs_id ?r) ?r (observations ?st)\<rparr>)"
    if a: "a < length (r_heap s)"
  proof -
    note i = invalidate_window_step [OF rt_ok_state [OF ok a], of "owi_window_ref input"]
    note tr = state_step_trans [OF i trim_step [OF state_step_ok [OF i] pos order_refl]]
    have wf: "hm_wf (observations (invalidate_window_observations (owi_window_ref input) (state_of s a)))"
      using state_step_ok [OF i] by (simp add: state_ok_def observations_ok_def)
    have "hm_len (observations ?st) < ?limit" using trim_observations_len [OF wf pos] pos by simp
    from state_step_trans [OF tr insert_observation_step [OF state_step_ok [OF tr] this n(1), of ?r]] n(2)
    show ?thesis by simp
  qed
  from keeps_state [OF ok less_imp_le [OF n(1)] this] p show ?thesis
    by (simp add: store_observation_def Let_def case_prod_beta)
qed

end
