(* ===== verification/RuntimeSafe.thy ===== *)
theory RuntimeSafe
  imports RuntimeInv
begin

text \<open>
  Every task of the runtime keeps the invariant and its guarantee. \<open>quiet\<close> covers the tasks and
  parts of tasks that dispatch nothing: they satisfy every assertion that ordinary sections keep.
  The three handlers that dispatch a native mutation are proved with triples that follow the
  one-use reference from its consumption to the dispatch.
\<close>

section \<open>Quiet tasks\<close>

definition quiet_task :: "'w rt_env \<Rightarrow> nat \<Rightarrow> ('w runtime \<Rightarrow> bool) \<Rightarrow> ('w runtime, 'a) prog \<Rightarrow> bool" where
  "quiet_task env t W p \<longleftrightarrow>
     (\<forall>P. (\<forall>s s'. P s \<longrightarrow> rt_ok env s \<longrightarrow> keeps env t s s' \<longrightarrow> P s') \<longrightarrow> (\<forall>s. P s \<longrightarrow> W s) \<longrightarrow>
        rt.under env P t p)"

lemma quiet_taskD:
  "quiet_task env t W p \<Longrightarrow> (\<And>s s'. P s \<Longrightarrow> rt_ok env s \<Longrightarrow> keeps env t s s' \<Longrightarrow> P s') \<Longrightarrow> (\<And>s. P s \<Longrightarrow> W s) \<Longrightarrow>
     rt.under env P t p"
  unfolding quiet_task_def by blast

lemma quiet_Ret: "quiet_task env t W (Ret x)"
  by (simp add: quiet_task_def rt.under_Ret)

lemma quiet_bindP: "quiet_task env t W p \<Longrightarrow> (\<And>x. quiet_task env t W (k x)) \<Longrightarrow> quiet_task env t W (bindP p k)"
  unfolding quiet_task_def by (intro allI impI rt.under_bindP) blast+

lemma quiet_bindE: "quiet_task env t W p \<Longrightarrow> (\<And>x. quiet_task env t W (k x)) \<Longrightarrow> quiet_task env t W (bindE p k)"
  unfolding quiet_task_def by (intro allI impI rt.under_bindE) blast+

lemma quiet_mapP: "quiet_task env t W p \<Longrightarrow> quiet_task env t W (mapP f p)"
  unfolding quiet_task_def by (intro allI impI rt.under_mapP) blast

lemma quiet_lift_result: "(\<And>x. quiet_task env t W (k x)) \<Longrightarrow> quiet_task env t W (lift_result r k)"
  unfolding lift_result_def by (cases r) (simp_all add: quiet_Ret)

lemma quiet_if: "(c \<Longrightarrow> quiet_task env t W p) \<Longrightarrow> (\<not> c \<Longrightarrow> quiet_task env t W q) \<Longrightarrow> quiet_task env t W (if c then p else q)"
  by simp

lemma quiet_case_prod: "(\<And>x y. quiet_task env t W (f x y)) \<Longrightarrow> quiet_task env t W (case z of (x, y) \<Rightarrow> f x y)"
  by (cases z) simp

lemma quiet_Let: "quiet_task env t W (f x) \<Longrightarrow> quiet_task env t W (Let x f)"
  by simp

lemma quiet_case_option:
  "quiet_task env t W p \<Longrightarrow> (\<And>x. quiet_task env t W (f x)) \<Longrightarrow> quiet_task env t W (case z of None \<Rightarrow> p | Some x \<Rightarrow> f x)"
  by (cases z) simp_all

lemma quiet_case_sum:
  "(\<And>x. quiet_task env t W (f x)) \<Longrightarrow> (\<And>x. quiet_task env t W (g x)) \<Longrightarrow> quiet_task env t W (case z of Inl x \<Rightarrow> f x | Inr x \<Rightarrow> g x)"
  by (cases z) simp_all

lemma quiet_case_lookup:
  "quiet_task env t W p \<Longrightarrow> quiet_task env t W q \<Longrightarrow> (\<And>a ses. quiet_task env t W (f a ses)) \<Longrightarrow>
     quiet_task env t W (case z of Missing \<Rightarrow> p | Expired \<Rightarrow> q | Found a ses \<Rightarrow> f a ses)"
  by (cases z) simp_all

lemmas quiet_intros = quiet_Ret quiet_bindP quiet_bindE quiet_mapP quiet_lift_result quiet_if quiet_case_prod
  quiet_Let quiet_case_option quiet_case_sum quiet_case_lookup

lemma quiet_blocking:
  assumes "\<And>s. rt_ok env s \<Longrightarrow> W s \<Longrightarrow> c s \<Longrightarrow> keeps env t s (snd (f s))"
  shows "quiet_task env t W (blocking c f)"
  unfolding quiet_task_def
proof (intro allI impI rt.under_blocking)
  fix P s assume P: "\<forall>s s'. P s \<longrightarrow> rt_ok env s \<longrightarrow> keeps env t s s' \<longrightarrow> P s'" "\<forall>s. P s \<longrightarrow> W s"
    and s: "rt_ok env s" "P s" "c s"
  have k: "keeps env t s (snd (f s))" using assms s P(2) by blast
  then show "rt_ok env (snd (f s)) \<and> guar env {t} s (snd (f s)) \<and> P (snd (f s))"
    using P(1) s by (auto simp: keeps_def)
qed

lemma quiet_atomic: "(\<And>s. rt_ok env s \<Longrightarrow> W s \<Longrightarrow> keeps env t s (snd (f s))) \<Longrightarrow> quiet_task env t W (atomic f)"
  unfolding atomic_def by (rule quiet_blocking)

lemma quiet_update: "(\<And>s. rt_ok env s \<Longrightarrow> W s \<Longrightarrow> keeps env t s (f s)) \<Longrightarrow> quiet_task env t W (update f)"
  unfolding update_def by (rule quiet_atomic) simp

lemma quiet_observe: "quiet_task env t W (observe f)"
  unfolding observe_def by (rule quiet_atomic) (simp add: keeps_refl)

lemma quiet_call: "quiet_task env t W (call f)"
  unfolding call_def by (rule quiet_atomic) (simp add: keeps_world case_prod_beta)

lemma quiet_call_public: "quiet_task env t W (call_public f)"
  unfolding call_public_def by (intro quiet_mapP quiet_call)

lemma quiet_signal: "quiet_task env t W signal_reschedule"
  unfolding signal_reschedule_def by (rule quiet_update) (simp add: keeps_signal keeps_refl)

lemma quiet_ensure: "quiet_task env t W ensure_scheduler"
  unfolding ensure_scheduler_def by (rule quiet_update) (simp add: keeps_scheduler keeps_refl)

lemma quiet_remove_artifacts: "quiet_task env t W (remove_artifacts env sid)"
  unfolding remove_artifacts_def
  by (rule quiet_update) (simp add: keeps_artifacts remove_session_ok rt_ok_def [of env])

lemma quiet_session_lookup: "quiet_task env t W (session_lookup env sid)"
  unfolding session_lookup_def
  by (intro quiet_intros quiet_atomic keeps_session_section quiet_remove_artifacts quiet_signal)

lemma quiet_release_worker: "quiet_task env t W release_worker"
  unfolding release_worker_def by (rule quiet_update) (simp add: keeps_workers)

lemma quiet_try_worker: "quiet_task env t W try_worker"
  unfolding try_worker_def by (rule quiet_atomic) (simp add: keeps_workers keeps_refl take_worker_def)

lemma keeps_write_section: "rt_ok env s \<Longrightarrow> keeps env t s (snd (write_section env sid img bounds s))"
proof -
  assume ok: "rt_ok env s"
  obtain r n x where w: "write_image (e_png env) (e_sha env) (e_uuid env) (e_io env (r_world s)) sid img bounds
      (r_next_uuid s) (r_artifacts s) = (r, n, x)" by (metis prod_cases3)
  have x: "store_ok x" using ok write_image_ok [of "r_artifacts s"] w by (auto simp: rt_ok_def) (metis snd_conv)
  have n: "r_next_uuid s \<le> n"
    using w by (auto simp: write_image_def Let_def split: sum.splits prod.splits)
  have k: "keeps env t s (s\<lparr>r_artifacts := x\<rparr>)" using ok x by (rule keeps_artifacts)
  have "keeps env t s (s\<lparr>r_artifacts := x, r_next_uuid := n\<rparr>)"
    using keeps_trans [OF k keeps_uuid [OF keeps_ok [OF k], of n]] n by simp
  then show ?thesis using w by (simp add: write_section_def)
qed

lemma quiet_write_screenshot: "quiet_task env t W (write_screenshot env sid img bounds)"
  unfolding write_screenshot_def
  by (intro quiet_intros quiet_blocking quiet_atomic quiet_release_worker keeps_write_section)
    (simp_all add: take_worker_def keeps_workers)

section \<open>Handlers without native mutations\<close>

lemma quiet_expiry: "quiet_task env t W (discovery_expiry env)"
  unfolding discovery_expiry_def by (rule quiet_observe)

lemma quiet_discover: "quiet_task env t (working t) (discover_applications env)"
  unfolding discover_applications_def
  by (intro quiet_intros quiet_call_public quiet_expiry quiet_signal quiet_atomic keeps_discovery_section)

lemma quiet_discover_launchable: "quiet_task env t (working t) (discover_launchable_applications env)"
  unfolding discover_launchable_applications_def
  by (intro quiet_intros quiet_call_public quiet_expiry quiet_signal quiet_atomic keeps_launchable_section)

lemma quiet_project_launched: "quiet_task env t (working t) (project_launched_application env launched)"
  unfolding project_launched_application_def
  by (intro quiet_intros quiet_expiry quiet_signal quiet_atomic keeps_launched_section)

lemma quiet_open_session: "quiet_task env t (working t) (open_session env manifest)"
  unfolding open_session_def resolve_discovery_refs_def
  by (intro quiet_intros quiet_observe quiet_call_public quiet_signal quiet_atomic keeps_admit_session)

lemma keeps_remove_from_map: "rt_ok env s \<Longrightarrow> keeps env t s (snd (remove_from_map sid s))"
  by (auto simp: remove_from_map_def keeps_refl keeps_sessions_remove split: option.splits)

lemma quiet_project:
  assumes "\<And>n st. n \<le> fst (snd (f n st))"
    and "\<And>n st x n' st'. inj (e_uuid env) \<Longrightarrow> state_ok env n st \<Longrightarrow> f n st = (x, n', st') \<Longrightarrow> state_step env n st n' st'"
  shows "quiet_task env t W (atomic (project_section a f))"
  by (rule quiet_atomic) (rule keeps_project, assumption, rule assms(1), rule assms(2), simp_all add: rt_ok_def)

lemma project_apps_counter: "n \<le> fst (snd (project_apps uuid xs n st))"
proof (induction xs arbitrary: n st)
  case (Cons x xs)
  obtain r n1 st1 where p: "project_application uuid x n st = (r, n1, st1)" by (metis prod_cases3)
  show ?case using project_application_frame(1) [OF p] Cons [of n1 st1] p by (simp add: Let_def case_prod_beta)
qed simp

lemma project_windows_counter: "n \<le> fst (snd (project_windows uuid xs n st))"
proof (induction xs arbitrary: n st)
  case (Cons x xs)
  obtain r n1 st1 where p: "project_application uuid (dw_application x) n st = (r, n1, st1)" by (metis prod_cases3)
  obtain w n2 st2 where w: "project_window uuid x n1 st1 = (w, n2, st2)" by (metis prod_cases3)
  show ?case
    using project_application_frame(1) [OF p] project_window_frame(1) [OF w] Cons [of n2 st2] p w
    by (simp add: Let_def case_prod_beta)
qed simp

lemma project_displays_counter: "n \<le> fst (snd (project_displays uuid xs n st))"
proof (induction xs arbitrary: n st)
  case (Cons x xs)
  obtain r n1 st1 where p: "project_display uuid x n st = (r, n1, st1)" by (metis prod_cases3)
  show ?case using project_display_frame(1) [OF p] Cons [of n1 st1] p by (simp add: Let_def case_prod_beta)
qed simp

lemma quiet_list_apps: "quiet_task env t W (list_apps env sid)"
  unfolding list_apps_def
  by (intro quiet_intros quiet_session_lookup quiet_call_public quiet_project project_apps_counter project_apps_step)

lemma quiet_list_windows: "quiet_task env t W (list_windows env input)"
  unfolding list_windows_def
  by (intro quiet_intros quiet_session_lookup quiet_observe quiet_call_public quiet_project
      project_windows_counter project_windows_step)

lemma quiet_list_displays: "quiet_task env t W (list_displays env sid)"
  unfolding list_displays_def
  by (intro quiet_intros quiet_session_lookup quiet_call_public quiet_project project_displays_counter)
    (rule list_displays_step, auto simp: not_less)

lemma quiet_project_clipboard: "quiet_task env t W (atomic (project_section a (project_clipboard (e_uuid env) marker)))"
  by (rule quiet_project) (simp_all add: project_clipboard_step, simp add: project_clipboard_eq project_clipboard_def Let_def)

lemma quiet_mint_observation: "quiet_task env t W (atomic (mint_observation env))"
  by (rule quiet_atomic) (simp add: mint_observation_def keeps_refl keeps_uuid split: option.splits)

lemma quiet_observe_display: "quiet_task env t W (observe_display env input)"
  unfolding observe_display_def
  by (intro quiet_intros quiet_session_lookup quiet_observe quiet_call_public quiet_write_screenshot
      quiet_remove_artifacts quiet_mint_observation)

lemma quiet_observe_driver_window: "quiet_task env t W (observe_driver_window env sid window b m scene)"
  unfolding observe_driver_window_def observe_once_def by (intro quiet_intros quiet_call)

lemma quiet_capture_screenshot: "quiet_task env t W (capture_screenshot env sid observation)"
  unfolding capture_screenshot_def
  by (auto split: option.splits intro!: quiet_intros quiet_write_screenshot)

lemma quiet_observe_window: "quiet_task env t W (observe_window env input scene)"
  unfolding observe_window_def
  by (intro quiet_intros quiet_session_lookup quiet_observe quiet_observe_driver_window quiet_capture_screenshot
      quiet_remove_artifacts quiet_atomic keeps_store_observation)

lemma quiet_observe_after_action: "quiet_task env t W (observe_after_action env input scene)"
  unfolding observe_after_action_def
  by (intro quiet_intros quiet_session_lookup quiet_observe quiet_call_public quiet_observe_window)

lemma quiet_verify_state: "quiet_task env t W (verify_state env input)"
  unfolding verify_state_def by (intro quiet_intros quiet_session_lookup quiet_observe quiet_call_public)

lemma quiet_get_capabilities: "quiet_task env t W (get_capabilities env)"
  unfolding get_capabilities_def by (intro quiet_intros quiet_call_public)

section \<open>Assertions\<close>

text \<open>An assertion that ordinary sections of the task and all sections of the others keep.\<close>

definition robust :: "'w rt_env \<Rightarrow> nat \<Rightarrow> ('w runtime \<Rightarrow> bool) \<Rightarrow> bool" where
  "robust env t P \<longleftrightarrow>
     rt.stable env t P \<and> (\<forall>s s'. P s \<longrightarrow> rt_ok env s \<longrightarrow> keeps env t s s' \<longrightarrow> P s')"

named_theorems robust_intros

lemma keeps_guar: "keeps env t s s' \<Longrightarrow> guar env {t} s s'"
  and keeps_view: "keeps env t s s' \<Longrightarrow> view s' = view s"
  by (simp_all add: keeps_def)

lemma robustI:
  assumes "\<And>s s'. P s \<Longrightarrow> guar env (- {t}) s s' \<Longrightarrow> rt_ok env s' \<Longrightarrow> P s'"
    and "\<And>s s'. P s \<Longrightarrow> rt_ok env s \<Longrightarrow> keeps env t s s' \<Longrightarrow> P s'"
  shows "robust env t P"
  unfolding robust_def
proof (intro conjI allI impI)
  show "rt.stable env t P" by (rule rt.stableI) (rule assms(1))
qed (rule assms(2))

lemma robust_stable: "robust env t P \<Longrightarrow> rt.stable env t P"
  by (simp add: robust_def)

lemma robust_keeps: "robust env t P \<Longrightarrow> P s \<Longrightarrow> rt_ok env s \<Longrightarrow> keeps env t s s' \<Longrightarrow> P s'"
  by (simp add: robust_def)

lemma robust_True [robust_intros]: "robust env t (\<lambda>_. True)"
  by (simp add: robust_def rt.stable_def)

lemma robust_const [robust_intros]: "robust env t (\<lambda>_. c)"
  by (simp add: robust_def rt.stable_def)

lemma robust_conj [robust_intros]: "robust env t P \<Longrightarrow> robust env t Q \<Longrightarrow> robust env t (\<lambda>s. P s \<and> Q s)"
  unfolding robust_def rt.stable_def by blast

lemma robust_viewI:
  assumes "\<And>s s'. P s \<Longrightarrow> guar env (- {t}) s s' \<Longrightarrow> rt_ok env s' \<Longrightarrow> P s'"
    and "\<And>s s'. P s \<Longrightarrow> view s' = view s \<Longrightarrow> P s'"
  shows "robust env t P"
  by (rule robustI [OF assms(1)], assumption+) (rule assms(2), assumption, simp add: keeps_def)

lemma robust_guarI:
  assumes "\<And>T s s'. P s \<Longrightarrow> guar env T s s' \<Longrightarrow> P s'"
  shows "robust env t P"
  by (rule robustI) (erule (1) assms, erule assms, erule keeps_guar)

lemma quiet_under:
  assumes "quiet_task env t W p" "robust env t P" "\<And>s. P s \<Longrightarrow> W s"
  shows "rt.under env P t p"
  by (rule quiet_taskD [OF assms(1) robust_keeps [OF assms(2)] assms(3)])

lemma quiet_triple:
  "quiet_task env t W p \<Longrightarrow> robust env t P \<Longrightarrow> (\<And>s. P s \<Longrightarrow> W s) \<Longrightarrow> rt.triple env t P p (\<lambda>_. P)"
  by (rule rt.triple_under [OF quiet_under robust_stable])

definition holding :: "nat \<Rightarrow> bool \<Rightarrow> bool \<Rightarrow> 'w runtime \<Rightarrow> bool" where
  "holding t fg cl s \<longleftrightarrow>
     working t s \<and> (fg \<longrightarrow> r_foreground_lane s = Some t) \<and> (cl \<longrightarrow> r_clipboard_lane s = Some t)"

definition handle :: "nat \<Rightarrow> session \<Rightarrow> 'w runtime \<Rightarrow> bool" where
  "handle a ses s \<longleftrightarrow> a < length (r_heap s) \<and> same_session ses (r_heap s ! a)"

definition detached :: "'w rt_env \<Rightarrow> session_id \<Rightarrow> nat \<Rightarrow> 'w runtime \<Rightarrow> bool" where
  "detached env sid a s \<longleftrightarrow>
     a < length (r_heap s) \<and> s_id (r_heap s ! a) = sid \<and> issued env (r_next_uuid s) (T_Session sid) \<and>
     hm_get (r_sessions s) sid = None"

text \<open>The events of one task.\<close>

definition history :: "nat \<Rightarrow> event list \<Rightarrow> event list" where
  "history t tr = filter (\<lambda>e. event_task e = t) tr"

lemma history_append [simp]: "history t (tr @ [e]) = history t tr @ (if event_task e = t then [e] else [])"
  by (simp add: history_def)

lemma history_others: "trace_ext (- {t}) tr tr' \<Longrightarrow> history t tr' = history t tr"
  by (auto simp: trace_ext_def history_def filter_empty_conv)

lemma idle_history: "idle t (history t tr) = idle t tr"
  by (auto simp: idle_def history_def)

lemma holding_others: "holding t fg cl s \<Longrightarrow> guar env (- {t}) s s' \<Longrightarrow> holding t fg cl s'"
  unfolding holding_def guar_def working_def honours_def by blast

text \<open>What a section of another task and an ordinary section of the task leave alone.\<close>

lemma robust_own:
  "robust env t (\<lambda>s. \<Phi> (history t (r_trace s)))" "robust env t (holding t fg cl)"
proof -
  have "\<Phi> (history t (r_trace s'))" if "\<Phi> (history t (r_trace s))" "guar env (- {t}) s s'" for s s'
    using that history_others [of t "r_trace s" "r_trace s'"] by (simp add: guar_def)
  then show "robust env t (\<lambda>s. \<Phi> (history t (r_trace s)))"
    by (rule robust_viewI) (simp_all add: view_def)
  show "robust env t (holding t fg cl)"
    by (rule robust_viewI) (erule (1) holding_others, simp add: holding_def working_def view_def)
qed

text \<open>The body of a command: it runs, and \<open>H\<close> is what it has done so far.\<close>

definition in_body :: "nat \<Rightarrow> bool \<Rightarrow> bool \<Rightarrow> event list \<Rightarrow> 'w runtime \<Rightarrow> bool" where
  "in_body t fg cl H s \<longleftrightarrow> holding t fg cl s \<and> history t (r_trace s) = H"

text \<open>The same at its end: no native mutation is in progress and \<open>\<Phi>\<close> holds of what was done.\<close>

definition ended :: "nat \<Rightarrow> bool \<Rightarrow> bool \<Rightarrow> (event list \<Rightarrow> bool) \<Rightarrow> 'w runtime \<Rightarrow> bool" where
  "ended t fg cl \<Phi> s \<longleftrightarrow> holding t fg cl s \<and> idle t (r_trace s) \<and> \<Phi> (history t (r_trace s))"

lemma robust_in_body [robust_intros]: "robust env t (in_body t fg cl H)"
  unfolding in_body_def [abs_def] by (intro robust_conj robust_own)

lemma robust_ended [robust_intros]: "robust env t (ended t fg cl \<Phi>)"
  using robust_conj [OF robust_own(2) robust_own(1) [where t = t and \<Phi> = "\<lambda>H. idle t H \<and> \<Phi> H"]]
  by (simp add: ended_def [abs_def] idle_history)

lemmas stable_body = robust_stable [OF robust_in_body] robust_stable [OF robust_ended]

lemma in_body_working: "in_body t fg cl H s \<Longrightarrow> working t s"
  by (simp add: in_body_def holding_def)

lemma ended_working: "ended t fg cl \<Phi> s \<Longrightarrow> working t s"
  by (simp add: ended_def holding_def)

lemma body_ended: "in_body t fg cl H s \<Longrightarrow> idle t H \<Longrightarrow> \<Phi> H \<Longrightarrow> ended t fg cl \<Phi> s"
  by (auto simp: in_body_def ended_def idle_history [of t "r_trace s", symmetric])

lemma ended_mono: "ended t fg cl \<Phi> s \<Longrightarrow> (\<And>H. \<Phi> H \<Longrightarrow> \<Psi> H) \<Longrightarrow> ended t fg cl \<Psi> s"
  by (simp add: ended_def)

lemma idle_Nil [simp]: "idle t []"
  by (simp add: idle_def)

lemma idle_claim [simp]: "idle t [Claim t tk]"
  by (simp add: idle_def)

lemma idle_returned [simp]: "idle t [Claim t tk, Dispatch t tk nc, Returned t tk st]"
  by (auto simp: idle_def)

text \<open>Facts every section keeps.\<close>

definition persistent :: "'w rt_env \<Rightarrow> ('w runtime \<Rightarrow> bool) \<Rightarrow> bool" where
  "persistent env F \<longleftrightarrow> (\<forall>T s s'. F s \<longrightarrow> guar env T s s' \<longrightarrow> F s')"

named_theorems persistent_intros

lemma persistentD: "persistent env F \<Longrightarrow> F s \<Longrightarrow> guar env T s s' \<Longrightarrow> F s'"
  by (simp add: persistent_def)

lemma persistent_robust: "persistent env F \<Longrightarrow> robust env t F"
  by (rule robust_guarI) (rule persistentD)

lemma persistent_const [persistent_intros]: "persistent env (\<lambda>_. c)"
  by (simp add: persistent_def)

lemma persistent_conj [persistent_intros]: "persistent env F \<Longrightarrow> persistent env F' \<Longrightarrow> persistent env (\<lambda>s. F s \<and> F' s)"
  unfolding persistent_def by blast

lemma handle_ext: "handle a ses s \<Longrightarrow> heap_ext (r_heap s) (r_heap s') \<Longrightarrow> handle a ses s'"
  unfolding handle_def heap_ext_def by (blast intro: same_session_trans less_le_trans)

lemma persistent_handle [persistent_intros]: "persistent env (handle a ses)"
  unfolding persistent_def by (blast intro: handle_ext dest: guar_def [THEN iffD1])

lemma detached_ext: "detached env sid a s \<Longrightarrow> guar env T s s' \<Longrightarrow> detached env sid a s'"
proof -
  assume d: "detached env sid a s" and g: "guar env T s s'"
  have "\<not> usable s' (T_Session sid)"
    using d g unfolding detached_def guar_def no_revival_def by auto
  then show ?thesis
    using d g issued_mono by (auto simp: detached_def guar_def heap_ext_def same_session_def)
qed

lemma persistent_detached [persistent_intros]: "persistent env (detached env sid a)"
  unfolding persistent_def by (blast intro: detached_ext)

lemma quiet_body:
  assumes "quiet_task env t (working t) p" "persistent env F"
  shows "rt.triple env t (\<lambda>s. in_body t fg cl H s \<and> F s) p (\<lambda>_ s. in_body t fg cl H s \<and> F s)"
  by (rule quiet_triple [OF assms(1) robust_conj [OF robust_in_body persistent_robust [OF assms(2)]]])
    (erule conjunct1 [THEN in_body_working])

lemma quiet_end:
  assumes "quiet_task env t (working t) p"
  shows "rt.triple env t (ended t fg cl \<Phi>) p (\<lambda>_. ended t fg cl \<Phi>)"
  by (rule quiet_triple [OF assms robust_ended]) (rule ended_working)

lemma stable_in_bodyF: "persistent env F \<Longrightarrow> rt.stable env t (\<lambda>s. in_body t fg cl H s \<and> F s)"
  by (intro robust_stable robust_conj robust_in_body persistent_robust)

text \<open>A handler that dispatches nothing.\<close>

definition silent :: "nat \<Rightarrow> event list \<Rightarrow> bool" where
  "silent t H \<longleftrightarrow> (\<forall>tk nc. Dispatch t tk nc \<notin> set H)"

lemma silent_simps [simp]: "silent t []" "silent t [Claim t tk]"
  by (simp_all add: silent_def)

lemma quiet_silent:
  assumes "quiet_task env t (working t) p" "idle t H" "silent t H"
  shows "rt.triple env t (in_body t fg cl H) p (\<lambda>_. ended t fg cl (silent t))"
  by (rule rt.triple_weaken [OF quiet_end [OF assms(1)]]) (use assms(2,3) body_ended in auto)

section \<open>Closing\<close>

lemma detached_section:
  "rt_ok env s \<Longrightarrow> fst (remove_from_map sid s) = Inr a \<Longrightarrow> detached env sid a (snd (remove_from_map sid s))"
  by (auto simp: remove_from_map_def detached_def rt_ok_def sessions_ok_def split: option.splits)

lemma keeps_close_detached: "rt_ok env s \<Longrightarrow> detached env sid a s \<Longrightarrow> keeps env t s (close_at env a s)"
  by (rule keeps_close) (auto simp: detached_def rt_ok_def sessions_ok_def)

lemma triple_detach:
  assumes P: "robust env t P"
  shows "rt.triple env t P (atomic (remove_from_map sid))
    (\<lambda>r s. case r of Inl e \<Rightarrow> P s | Inr a \<Rightarrow> P s \<and> detached env sid a s)"
proof (rule rt.triple_atomic)
  show "rt.stable env t P" by (rule robust_stable [OF P])
  show "rt.stable env t (\<lambda>s. case r of Inl e \<Rightarrow> P s | Inr a \<Rightarrow> P s \<and> detached env sid a s)" for r
    using robust_stable [OF P] robust_stable [OF robust_conj [OF P persistent_robust [OF persistent_detached]]] by (cases r) simp_all
  show "rt_ok env (snd (remove_from_map sid s)) \<and> guar env {t} s (snd (remove_from_map sid s)) \<and>
      (case fst (remove_from_map sid s) of Inl e \<Rightarrow> P (snd (remove_from_map sid s))
       | Inr a \<Rightarrow> P (snd (remove_from_map sid s)) \<and> detached env sid a (snd (remove_from_map sid s)))"
    if "P s" "rt_ok env s" for s
    using keeps_remove_from_map [OF that(2), of t sid] robust_keeps [OF P that] detached_section [OF that(2), of sid]
    by (auto simp: keeps_def split: sum.splits)
qed

lemma triple_close_session:
  assumes P: "robust env t P"
  shows "rt.triple env t P (close_session env sid) (\<lambda>_. P)"
  unfolding close_session_def
proof (rule rt.triple_bindE [OF triple_detach [OF P, of sid]])
  fix a
  have Q: "robust env t (\<lambda>s. P s \<and> detached env sid a s)" by (intro robust_conj P persistent_robust persistent_detached)
  have "quiet_task env t (detached env sid a)
      (bindP (update (close_at env a)) (\<lambda>_. bindP (remove_artifacts env sid) (\<lambda>_.
       bindP signal_reschedule (\<lambda>_. Ret (Inr Acknowledged)))))"
    by (intro quiet_intros quiet_update quiet_remove_artifacts quiet_signal keeps_close_detached)
  from quiet_triple [OF this Q]
  show "rt.triple env t (\<lambda>s. P s \<and> detached env sid a s)
      (bindP (update (close_at env a)) (\<lambda>_. bindP (remove_artifacts env sid) (\<lambda>_.
       bindP signal_reschedule (\<lambda>_. Ret (Inr Acknowledged))))) (\<lambda>_. P)"
    by (rule rt.triple_weaken) auto
qed (rule robust_stable [OF P])

section \<open>Lanes\<close>

lemma lane_held_free:
  "lane_held t nc None cl \<Longrightarrow> lane_held t nc fg cl" "lane_held t nc fg None \<Longrightarrow> lane_held t nc fg cl"
  by (cases nc; simp)+

lemma lane_held_other:
  "lane_held u nc (Some t) cl \<Longrightarrow> u \<noteq> t \<Longrightarrow> lane_held u nc None cl"
  "lane_held u nc fg (Some t) \<Longrightarrow> u \<noteq> t \<Longrightarrow> lane_held u nc fg None"
  by (cases nc; simp)+

lemma dispatches_ok_lanes:
  assumes "dispatches_ok env h fg cl tr"
    and "\<And>u nc. lane_held u nc fg cl \<Longrightarrow> \<not> idle u tr \<Longrightarrow> lane_held u nc fg' cl'"
  shows "dispatches_ok env h fg' cl' tr"
  unfolding dispatches_ok_def
proof (intro conjI allI impI)
  show "distinct (dispatched_tickets tr)" using assms(1) by (simp add: dispatches_ok_def)
  fix u tk nc assume d: "Dispatch u tk nc \<in> set tr"
  then have h: "Claim u tk \<in> set tr" "authorized env h tk nc"
    "(\<exists>st. Returned u tk st \<in> set tr) \<or> lane_held u nc fg cl"
    using assms(1) unfolding dispatches_ok_def by blast+
  then show "Claim u tk \<in> set tr" "authorized env h tk nc" by simp_all
  show "(\<exists>st. Returned u tk st \<in> set tr) \<or> lane_held u nc fg' cl'"
    using h(3) assms(2) [of u nc] d by (auto simp: idle_def)
qed

lemma rt_ok_lanes:
  assumes "rt_ok env s" "dispatches_ok env (r_heap s) fg cl (r_trace s)"
  shows "rt_ok env (s\<lparr>r_foreground_lane := fg, r_clipboard_lane := cl\<rparr>)"
  using assms by (simp add: rt_ok_def life_ok_def)

lemma guar_lanes:
  assumes "r_foreground_lane s = None \<or> r_foreground_lane s = Some t \<or> fg = r_foreground_lane s"
    and "r_clipboard_lane s = None \<or> r_clipboard_lane s = Some t \<or> cl = r_clipboard_lane s"
  shows "guar env {t} s (s\<lparr>r_foreground_lane := fg, r_clipboard_lane := cl\<rparr>)"
  using assms by (auto simp: guar_def no_revival_def honours_def)

lemma lane_updates:
  "set_foreground_lane v s = s\<lparr>r_foreground_lane := v, r_clipboard_lane := r_clipboard_lane s\<rparr>"
  "set_clipboard_lane v s = s\<lparr>r_foreground_lane := r_foreground_lane s, r_clipboard_lane := v\<rparr>"
  by (simp_all add: set_foreground_lane_def set_clipboard_lane_def)

lemma lane_acquire:
  assumes ok: "rt_ok env s" and b: "in_body t fg cl H s"
    and L: "fg' = r_foreground_lane s \<or> r_foreground_lane s = None \<and> fg' = Some t"
      "cl' = r_clipboard_lane s \<or> r_clipboard_lane s = None \<and> cl' = Some t"
  shows "rt_ok env (s\<lparr>r_foreground_lane := fg', r_clipboard_lane := cl'\<rparr>)"
    "guar env {t} s (s\<lparr>r_foreground_lane := fg', r_clipboard_lane := cl'\<rparr>)"
    "in_body t (fg \<or> fg' = Some t) (cl \<or> cl' = Some t) H (s\<lparr>r_foreground_lane := fg', r_clipboard_lane := cl'\<rparr>)"
proof -
  have "dispatches_ok env (r_heap s) (r_foreground_lane s) (r_clipboard_lane s) (r_trace s)"
    using ok by (simp add: rt_ok_def)
  then have "dispatches_ok env (r_heap s) fg' cl' (r_trace s)"
    by (rule dispatches_ok_lanes) (use L lane_held_free in metis)
  then show "rt_ok env (s\<lparr>r_foreground_lane := fg', r_clipboard_lane := cl'\<rparr>)" by (rule rt_ok_lanes [OF ok])
  show "guar env {t} s (s\<lparr>r_foreground_lane := fg', r_clipboard_lane := cl'\<rparr>)"
    by (rule guar_lanes) (use L in auto)
  show "in_body t (fg \<or> fg' = Some t) (cl \<or> cl' = Some t) H (s\<lparr>r_foreground_lane := fg', r_clipboard_lane := cl'\<rparr>)"
    using b L by (auto simp: in_body_def holding_def working_def)
qed

lemma lane_release:
  assumes ok: "rt_ok env s" and b: "ended t fg cl \<Phi> s"
    and L: "fg' = r_foreground_lane s \<or> fg \<and> fg' = None" "cl' = r_clipboard_lane s \<or> cl \<and> cl' = None"
  shows "rt_ok env (s\<lparr>r_foreground_lane := fg', r_clipboard_lane := cl'\<rparr>)"
    "guar env {t} s (s\<lparr>r_foreground_lane := fg', r_clipboard_lane := cl'\<rparr>)"
    "ended t (fg \<and> fg' \<noteq> None) (cl \<and> cl' \<noteq> None) \<Phi> (s\<lparr>r_foreground_lane := fg', r_clipboard_lane := cl'\<rparr>)"
proof -
  have n: "fg \<Longrightarrow> r_foreground_lane s = Some t" "cl \<Longrightarrow> r_clipboard_lane s = Some t"
    and i: "idle t (r_trace s)"
    using b by (simp_all add: ended_def holding_def)
  have "dispatches_ok env (r_heap s) (r_foreground_lane s) (r_clipboard_lane s) (r_trace s)"
    using ok by (simp add: rt_ok_def)
  then have "dispatches_ok env (r_heap s) fg' cl' (r_trace s)"
  proof (rule dispatches_ok_lanes)
    fix u nc assume h: "lane_held u nc (r_foreground_lane s) (r_clipboard_lane s)" "\<not> idle u (r_trace s)"
    then have "u \<noteq> t" using i by blast
    then show "lane_held u nc fg' cl'" using h(1) L n lane_held_other by metis
  qed
  then show "rt_ok env (s\<lparr>r_foreground_lane := fg', r_clipboard_lane := cl'\<rparr>)" by (rule rt_ok_lanes [OF ok])
  show "guar env {t} s (s\<lparr>r_foreground_lane := fg', r_clipboard_lane := cl'\<rparr>)"
    by (rule guar_lanes) (use L n in auto)
  show "ended t (fg \<and> fg' \<noteq> None) (cl \<and> cl' \<noteq> None) \<Phi> (s\<lparr>r_foreground_lane := fg', r_clipboard_lane := cl'\<rparr>)"
    using b L by (auto simp: ended_def holding_def working_def)
qed

text \<open>A lane protects its body.\<close>

lemma triple_with_lane:
  assumes acq: "\<And>s. rt_ok env s \<Longrightarrow> P s \<Longrightarrow> lane s = None \<Longrightarrow>
      rt_ok env (set_lane (Some t) s) \<and> guar env {t} s (set_lane (Some t) s) \<and> L (set_lane (Some t) s)"
    and rel: "\<And>r s. rt_ok env s \<Longrightarrow> L' r s \<Longrightarrow>
      rt_ok env (set_lane None s) \<and> guar env {t} s (set_lane None s) \<and> P' r (set_lane None s)"
    and busy: "\<And>s. rt_ok env s \<Longrightarrow> P s \<Longrightarrow> P' (Inl busy) s"
    and st: "rt.stable env t P" "rt.stable env t L" "\<And>r. rt.stable env t (L' r)" "\<And>r. rt.stable env t (P' r)"
    and body: "rt.triple env t L body L'"
  shows "rt.triple env t P (with_lane lane set_lane t busy body) P'"
  unfolding with_lane_def
proof (rule rt.triple_bindP [where Q = "\<lambda>b s. if b then L s else P s"])
  show "rt.triple env t P (atomic (\<lambda>s. if lane s = None then (True, set_lane (Some t) s) else (False, s)))
      (\<lambda>b s. if b then L s else P s)"
  proof (rule rt.triple_atomic [OF st(1)])
    show "rt.stable env t (\<lambda>s. if b then L s else P s)" for b using st(1,2) by (cases b) simp_all
  qed (use acq guar_refl_rt in auto)
  have "rt.triple env t (L' r) (bindP (update (set_lane None)) (\<lambda>_. Ret r)) P'" for r
  proof (rule rt.triple_bindP [where Q = "\<lambda>_. P' r"])
    show "rt.triple env t (L' r) (update (set_lane None)) (\<lambda>_. P' r)"
      unfolding update_def by (rule rt.triple_atomic [OF st(3,4)]) (use rel in auto)
  qed (rule rt.triple_Ret [OF st(4)], simp)
  note rest = rt.triple_bindP [OF body this]
  show "rt.triple env t (\<lambda>s. if b then L s else P s)
      (if b then bindP body (\<lambda>r. bindP (update (set_lane None)) (\<lambda>_. Ret r)) else Ret (Inl busy)) P'" for b
    using rest rt.triple_Ret [where Q = P' and x = "Inl busy", OF st(4) busy] by (cases b) simp_all
qed

lemma triple_foreground:
  assumes F: "persistent env F" and H: "idle t H" "\<Phi> (Inl busy) H"
    and body: "rt.triple env t (\<lambda>s. in_body t True cl H s \<and> F s) body (\<lambda>r. ended t True cl (\<Phi> r))"
  shows "rt.triple env t (\<lambda>s. in_body t False cl H s \<and> F s) (with_foreground_lane t busy body)
    (\<lambda>r. ended t False cl (\<Phi> r))"
proof (rule triple_with_lane [OF _ _ _ _ _ _ _ body])
  fix s assume s: "rt_ok env s" "in_body t False cl H s \<and> F s" "r_foreground_lane s = None"
  note h = lane_acquire [OF s(1) conjunct1 [OF s(2)], of "Some t" "r_clipboard_lane s"]
  show "rt_ok env (set_foreground_lane (Some t) s) \<and> guar env {t} s (set_foreground_lane (Some t) s) \<and>
      in_body t True cl H (set_foreground_lane (Some t) s) \<and> F (set_foreground_lane (Some t) s)"
    using h persistentD [OF F conjunct2 [OF s(2)] h(2)] s(3) s(2)
    by (auto simp: lane_updates in_body_def holding_def)
next
  fix r s assume s: "rt_ok env s" "ended t True cl (\<Phi> r) s"
  show "rt_ok env (set_foreground_lane None s) \<and> guar env {t} s (set_foreground_lane None s) \<and>
      ended t False cl (\<Phi> r) (set_foreground_lane None s)"
    using lane_release [OF s, of None "r_clipboard_lane s"] s(2) by (auto simp: lane_updates ended_def holding_def)
qed (use H stable_in_bodyF [OF F] in \<open>auto intro: stable_body body_ended\<close>)

lemma triple_clipboard:
  assumes F: "persistent env F" and H: "idle t H" "\<Phi> (Inl busy) H"
    and body: "rt.triple env t (\<lambda>s. in_body t fg True H s \<and> F s) body (\<lambda>r. ended t fg True (\<Phi> r))"
  shows "rt.triple env t (\<lambda>s. in_body t fg False H s \<and> F s) (with_clipboard_lane t busy body)
    (\<lambda>r. ended t fg False (\<Phi> r))"
proof (rule triple_with_lane [OF _ _ _ _ _ _ _ body])
  fix s assume s: "rt_ok env s" "in_body t fg False H s \<and> F s" "r_clipboard_lane s = None"
  note h = lane_acquire [OF s(1) conjunct1 [OF s(2)], of "r_foreground_lane s" "Some t"]
  show "rt_ok env (set_clipboard_lane (Some t) s) \<and> guar env {t} s (set_clipboard_lane (Some t) s) \<and>
      in_body t fg True H (set_clipboard_lane (Some t) s) \<and> F (set_clipboard_lane (Some t) s)"
    using h persistentD [OF F conjunct2 [OF s(2)] h(2)] s(3) s(2)
    by (auto simp: lane_updates in_body_def holding_def)
next
  fix r s assume s: "rt_ok env s" "ended t fg True (\<Phi> r) s"
  show "rt_ok env (set_clipboard_lane None s) \<and> guar env {t} s (set_clipboard_lane None s) \<and>
      ended t fg False (\<Phi> r) (set_clipboard_lane None s)"
    using lane_release [OF s, of "r_foreground_lane s" None] s(2) by (auto simp: lane_updates ended_def holding_def)
qed (use H stable_in_bodyF [OF F] in \<open>auto intro: stable_body body_ended\<close>)

section \<open>Claiming and dispatching\<close>

lemma usable_issued:
  assumes "rt_ok env s" "usable s tk"
  shows "issued env (r_next_uuid s) tk"
proof (cases tk)
  case (T_Observation a oid)
  then show ?thesis using assms rt_ok_state [OF assms(1), of a]
    by (auto simp: valid_in_def state_ok_def observations_ok_def issued_def)
next
  case (T_Clipboard a c)
  then show ?thesis using assms rt_ok_state [OF assms(1), of a]
    by (auto simp: holds_clip_def state_ok_def issued_def)
next
  case (T_Launch l)
  then show ?thesis using assms by (auto simp: rt_ok_def launch_ok_def)
next
  case (T_Session sid)
  then show ?thesis using assms by (auto simp: rt_ok_def sessions_ok_def)
qed

lemma emit_simps [simp]:
  "r_now (emit e s) = r_now s" "r_next_uuid (emit e s) = r_next_uuid s" "r_next_lease (emit e s) = r_next_lease s"
  "r_artifacts (emit e s) = r_artifacts s" "r_discovery (emit e s) = r_discovery s"
  "r_launch_discovery (emit e s) = r_launch_discovery s" "r_sessions (emit e s) = r_sessions s"
  "r_heap (emit e s) = r_heap s" "r_lifecycle_readers (emit e s) = r_lifecycle_readers s"
  "r_lifecycle_writer (emit e s) = r_lifecycle_writer s" "r_foreground_lane (emit e s) = r_foreground_lane s"
  "r_clipboard_lane (emit e s) = r_clipboard_lane s" "r_shutdown_guard (emit e s) = r_shutdown_guard s"
  "r_closed (emit e s) = r_closed s" "r_cleared (emit e s) = r_cleared s" "r_trace (emit e s) = r_trace s @ [e]"
  by (simp_all add: emit_def)

lemma guar_emit: "event_task e = t \<Longrightarrow> guar env {t} s (emit e s)"
  by (auto simp: guar_def no_revival_def honours_def trace_ext_def)

lemma rt_ok_emit:
  assumes "rt_ok env s"
    and "claims_ok env (r_next_uuid s) (r_heap s) (r_launch_discovery s) (r_sessions s) (r_trace s @ [e])"
    and "dispatches_ok env (r_heap s) (r_foreground_lane s) (r_clipboard_lane s) (r_trace s @ [e])"
  shows "rt_ok env (emit e s)"
  using assms by (simp add: rt_ok_def life_ok_def)

text \<open>A section that uses up an available ticket and records the claim.\<close>

lemma claim_section:
  assumes ok: "rt_ok env s" and u: "usable s tk" and k: "keeps env t s s1" and n: "\<not> usable s1 tk"
  shows "rt_ok env (emit (Claim t tk) s1)" "guar env {t} s (emit (Claim t tk) s1)"
proof -
  have tr: "r_trace s1 = r_trace s" using keeps_view [OF k] by (simp add: view_def)
  have fresh: "tk \<notin> set (claimed_tickets (r_trace s))"
    using ok u unfolding rt_ok_def claims_ok_def by blast
  have ok1: "rt_ok env s1" by (rule keeps_ok [OF k])
  have iss: "issued env (r_next_uuid s1) tk"
    using usable_issued [OF ok u] issued_mono keeps_guar [OF k] by (auto simp: guar_def)
  have "claims_ok env (r_next_uuid s1) (r_heap s1) (r_launch_discovery s1) (r_sessions s1) (r_trace s1 @ [Claim t tk])"
    using ok1 fresh iss n tr by (auto simp: rt_ok_def claims_ok_def)
  moreover have "dispatches_ok env (r_heap s1) (r_foreground_lane s1) (r_clipboard_lane s1) (r_trace s1 @ [Claim t tk])"
    using ok1 unfolding rt_ok_def dispatches_ok_def by auto
  ultimately show "rt_ok env (emit (Claim t tk) s1)" using rt_ok_emit [OF ok1] by blast
  show "guar env {t} s (emit (Claim t tk) s1)"
    using guar_trans_rt [OF keeps_guar [OF k] guar_emit] by simp
qed

definition claims ::
  "'w rt_env \<Rightarrow> nat \<Rightarrow> ticket \<Rightarrow> ('a \<Rightarrow> bool) \<Rightarrow> 'w runtime \<Rightarrow> ('e + 'a) \<times> 'w runtime \<Rightarrow> bool" where
  "claims env t tk R s out \<longleftrightarrow>
     (case fst out of
        Inl e \<Rightarrow> keeps env t s (snd out)
      | Inr x \<Rightarrow> R x \<and> usable s tk \<and> (\<exists>s1. snd out = emit (Claim t tk) s1 \<and> keeps env t s s1 \<and> \<not> usable s1 tk))"

lemma in_body_emit: "in_body t fg cl H s \<Longrightarrow> event_task e = t \<Longrightarrow> in_body t fg cl (H @ [e]) (emit e s)"
  by (simp add: in_body_def holding_def working_def)

lemma triple_claim:
  assumes F: "persistent env F"
    and sec: "\<And>s. rt_ok env s \<Longrightarrow> F s \<Longrightarrow> claims env t tk R s (f s)"
  shows "rt.triple env t (\<lambda>s. in_body t fg cl [] s \<and> F s) (atomic f)
    (\<lambda>r s. case r of Inl e \<Rightarrow> in_body t fg cl [] s | Inr x \<Rightarrow> in_body t fg cl [Claim t tk] s \<and> F s \<and> R x)"
    (is "rt.triple env t ?P _ ?Q")
proof (rule rt.triple_atomic)
  note rF = persistent_robust [OF F]
  show "rt.stable env t ?P" by (intro robust_stable robust_conj robust_in_body rF)
  show "rt.stable env t (?Q r)" for r
    by (cases r) (simp_all add: robust_stable robust_conj robust_in_body rF robust_const)
  fix s assume s: "?P s" "rt_ok env s"
  note c = sec [OF s(2) conjunct2 [OF s(1)]]
  show "rt_ok env (snd (f s)) \<and> guar env {t} s (snd (f s)) \<and> ?Q (fst (f s)) (snd (f s))"
  proof (cases "fst (f s)")
    case (Inl e)
    then have k: "keeps env t s (snd (f s))" using c by (simp add: claims_def)
    then show ?thesis
      using Inl robust_keeps [OF robust_in_body conjunct1 [OF s(1)] s(2) k] by (simp add: keeps_def)
  next
    case (Inr x)
    then obtain s1 where h: "R x" "usable s tk" "snd (f s) = emit (Claim t tk) s1" "keeps env t s s1" "\<not> usable s1 tk"
      using c by (auto simp: claims_def)
    note e = claim_section [OF s(2) h(2,4,5)]
    have "in_body t fg cl ([] @ [Claim t tk]) (emit (Claim t tk) s1)"
      by (rule in_body_emit [OF robust_keeps [OF robust_in_body conjunct1 [OF s(1)] s(2) h(4)]]) simp
    then show ?thesis using Inr h(1,3) e persistentD [OF F conjunct2 [OF s(1)] e(2)] by simp
  qed
qed

text \<open>A native mutation under its claim.\<close>

lemma claimed_undispatched:
  assumes ok: "rt_ok env s" and h: "history t (r_trace s) = [Claim t tk]"
  shows "Claim t tk \<in> set (r_trace s)" "tk \<notin> set (dispatched_tickets (r_trace s))"
proof -
  have m: "e \<in> set (r_trace s) \<and> event_task e = t \<longleftrightarrow> e = Claim t tk" for e
    using arg_cong [OF h, of set] by (auto simp: history_def)
  then show c: "Claim t tk \<in> set (r_trace s)" by blast
  have "\<not> Dispatch u tk nc \<in> set (r_trace s)" for u nc
  proof
    assume d: "Dispatch u tk nc \<in> set (r_trace s)"
    then have "Claim u tk \<in> set (r_trace s)" "distinct (claimed_tickets (r_trace s))"
      using ok unfolding rt_ok_def dispatches_ok_def claims_ok_def by blast+
    then have "u = t" using claim_unique c by blast
    then show False using m [of "Dispatch u tk nc"] d by simp
  qed
  then show "tk \<notin> set (dispatched_tickets (r_trace s))" by (simp add: in_dispatched)
qed

lemma dispatch_section:
  assumes ok: "rt_ok env s" and h: "history t (r_trace s) = [Claim t tk]"
    and auth: "authorized env (r_heap s) tk nc" and lane: "lane_held t nc (r_foreground_lane s) (r_clipboard_lane s)"
  shows "rt_ok env (emit (Dispatch t tk nc) s)"
proof (rule rt_ok_emit [OF ok])
  show "claims_ok env (r_next_uuid s) (r_heap s) (r_launch_discovery s) (r_sessions s) (r_trace s @ [Dispatch t tk nc])"
    using ok by (simp add: rt_ok_def claims_ok_def)
  show "dispatches_ok env (r_heap s) (r_foreground_lane s) (r_clipboard_lane s) (r_trace s @ [Dispatch t tk nc])"
    using ok claimed_undispatched [OF ok h] auth lane unfolding rt_ok_def dispatches_ok_def by auto
qed

lemma return_section: "rt_ok env s \<Longrightarrow> rt_ok env (emit (Returned t tk st) s)"
  by (rule rt_ok_emit) (auto simp: rt_ok_def claims_ok_def dispatches_ok_def, blast)

lemma triple_mutating:
  fixes F :: "'w runtime \<Rightarrow> bool"
  assumes F: "persistent env F" and rel: "\<And>s. rt_ok env s \<Longrightarrow> keeps env t s (release s)"
    and auth: "\<And>s. F s \<Longrightarrow> authorized env (r_heap s) tk nc"
    and lane: "\<And>s :: 'w runtime. holding t fg cl s \<Longrightarrow> lane_held t nc (r_foreground_lane s) (r_clipboard_lane s)"
  shows "rt.triple env t (\<lambda>s. in_body t fg cl [Claim t tk] s \<and> F s) (mutating_call t tk nc release f)
    (\<lambda>r s. in_body t fg cl [Claim t tk, Dispatch t tk nc, Returned t tk (status_of r)] s \<and> F s)"
  unfolding mutating_call_def
proof (rule rt.triple_bindP [where Q = "\<lambda>_ s. in_body t fg cl [Claim t tk, Dispatch t tk nc] s \<and> F s"])
  note st = stable_in_bodyF [OF F]
  show "rt.triple env t (\<lambda>s. in_body t fg cl [Claim t tk] s \<and> F s) (update (emit (Dispatch t tk nc)))
      (\<lambda>_ s. in_body t fg cl [Claim t tk, Dispatch t tk nc] s \<and> F s)"
    unfolding update_def
  proof (rule rt.triple_atomic [OF st st])
    fix s assume s: "in_body t fg cl [Claim t tk] s \<and> F s" "rt_ok env s"
    have g: "guar env {t} s (emit (Dispatch t tk nc) s)" by (rule guar_emit) simp
    have "rt_ok env (emit (Dispatch t tk nc) s)"
      by (rule dispatch_section [OF s(2)]) (use s(1) auth lane in \<open>simp_all add: in_body_def\<close>)
    then show "rt_ok env (snd ((), emit (Dispatch t tk nc) s)) \<and> guar env {t} s (snd ((), emit (Dispatch t tk nc) s)) \<and>
        in_body t fg cl [Claim t tk, Dispatch t tk nc] (snd ((), emit (Dispatch t tk nc) s)) \<and>
        F (snd ((), emit (Dispatch t tk nc) s))"
      using g s(1) in_body_emit [of t fg cl "[Claim t tk]" s "Dispatch t tk nc"] persistentD [OF F _ g] by simp
  qed
  let ?sec = "\<lambda>s. case f (r_world s) of
       (r, w') \<Rightarrow> (r, emit (Returned t tk (status_of r)) (release (s\<lparr>r_world := w'\<rparr>)))"
  show "rt.triple env t (\<lambda>s. in_body t fg cl [Claim t tk, Dispatch t tk nc] s \<and> F s) (atomic ?sec)
    (\<lambda>r s. in_body t fg cl [Claim t tk, Dispatch t tk nc, Returned t tk (status_of r)] s \<and> F s)" for x :: unit
  proof (rule rt.triple_atomic [OF st st])
    fix s assume s: "in_body t fg cl [Claim t tk, Dispatch t tk nc] s \<and> F s" "rt_ok env s"
    obtain r w where w: "f (r_world s) = (r, w)" by fastforce
    let ?s1 = "release (s\<lparr>r_world := w\<rparr>)" and ?e = "Returned t tk (status_of r)"
    have k: "keeps env t s ?s1" using keeps_trans [OF keeps_world [OF s(2)] rel [OF keeps_ok [OF keeps_world [OF s(2)]]]] .
    have g: "guar env {t} s (emit ?e ?s1)" using guar_trans_rt [OF keeps_guar [OF k] guar_emit] by simp
    have "in_body t fg cl ([Claim t tk, Dispatch t tk nc] @ [?e]) (emit ?e ?s1)"
      by (rule in_body_emit [OF robust_keeps [OF robust_in_body conjunct1 [OF s(1)] s(2) k]]) simp
    then show "rt_ok env (snd (?sec s)) \<and> guar env {t} s (snd (?sec s)) \<and>
        in_body t fg cl [Claim t tk, Dispatch t tk nc, Returned t tk (status_of (fst (?sec s)))] (snd (?sec s)) \<and> F (snd (?sec s))"
      using w g return_section [OF keeps_ok [OF k]] persistentD [OF F conjunct2 [OF s(1)] g] by simp
  qed
qed

end
