(* ===== verification/RuntimeMutations.thy ===== *)
theory RuntimeMutations
  imports RuntimeSafe
begin

text \<open>
  The handlers that dispatch native mutations: launch, clipboard write and action. Each is followed
  from the claim of its one-use reference to the dispatch, and from the driver's answer to the
  status it reports. \<open>runs\<close> is the form of triple these proofs have; its rules follow the
  combinators the handlers are written with.
\<close>

section \<open>Runs\<close>

definition runs ::
  "'w rt_env \<Rightarrow> nat \<Rightarrow> bool \<Rightarrow> bool \<Rightarrow> event list \<Rightarrow> ('w runtime \<Rightarrow> bool) \<Rightarrow> ('w runtime, 'a) prog \<Rightarrow>
   ('a \<Rightarrow> event list \<Rightarrow> bool) \<Rightarrow> bool" where
  "runs env t fg cl H F p \<Phi> \<longleftrightarrow>
     rt.triple env t (\<lambda>s. in_body t fg cl H s \<and> F s) p (\<lambda>r. ended t fg cl (\<Phi> r))"

lemma runs_Ret: "idle t H \<Longrightarrow> \<Phi> x H \<Longrightarrow> runs env t fg cl H F (Ret x) \<Phi>"
  unfolding runs_def by (rule rt.triple_Ret [OF stable_body(2)]) (auto intro: body_ended)

lemma runs_facts: "runs env t fg cl H F p \<Phi> \<Longrightarrow> (\<And>s. F' s \<Longrightarrow> F s) \<Longrightarrow> runs env t fg cl H F' p \<Phi>"
  unfolding runs_def by (erule rt.triple_weaken) auto

lemma runs_vacuous: "(\<And>s. \<not> F s) \<Longrightarrow> runs env t fg cl H F p \<Phi>"
  by (simp add: runs_def rt.triple_def)

lemma runs_if: "(c \<Longrightarrow> runs env t fg cl H F p \<Phi>) \<Longrightarrow> (\<not> c \<Longrightarrow> runs env t fg cl H F q \<Phi>) \<Longrightarrow>
    runs env t fg cl H F (if c then p else q) \<Phi>"
  by simp

lemma runs_lift_result:
  "(\<And>e. r = Inl e \<Longrightarrow> idle t H \<and> \<Phi> (Inl e) H) \<Longrightarrow> (\<And>x. r = Inr x \<Longrightarrow> runs env t fg cl H F (k x) \<Phi>) \<Longrightarrow>
     runs env t fg cl H F (lift_result r k) \<Phi>"
  by (cases r) (auto simp: lift_result_def intro: runs_Ret)

lemma runs_mapP: "runs env t fg cl H F p (\<lambda>r. \<Phi> (f r)) \<Longrightarrow> runs env t fg cl H F (mapP f p) \<Phi>"
  unfolding runs_def by (rule rt.triple_mapP) (auto intro: stable_body)

lemma runs_quiet_bindP:
  assumes "quiet_task env t (working t) p" "persistent env F" "\<And>x. runs env t fg cl H F (k x) \<Phi>"
  shows "runs env t fg cl H F (bindP p k) \<Phi>"
  using rt.triple_bindP [OF quiet_body [OF assms(1,2)]] assms(3) unfolding runs_def by blast

lemma runs_bindE:
  assumes "rt.triple env t (\<lambda>s. in_body t fg cl H s \<and> F s) p
      (\<lambda>r s. case r of Inl e \<Rightarrow> in_body t fg cl H s \<and> E e | Inr x \<Rightarrow> in_body t fg cl H' s \<and> F' x s)"
    and "idle t H" "\<And>e. E e \<Longrightarrow> \<Phi> (Inl e) H" "\<And>x. runs env t fg cl H' (F' x) (k x) \<Phi>"
  shows "runs env t fg cl H F (bindE p k) \<Phi>"
  unfolding runs_def
proof (rule rt.triple_bindE)
  show "rt.triple env t (\<lambda>s. in_body t fg cl H s \<and> F s) p
      (\<lambda>r s. case r of Inl e \<Rightarrow> ended t fg cl (\<Phi> (Inl e)) s | Inr x \<Rightarrow> in_body t fg cl H' s \<and> F' x s)"
    by (rule rt.triple_weaken [OF assms(1)]) (auto split: sum.splits intro: body_ended assms)
  show "rt.triple env t (\<lambda>s. in_body t fg cl H' s \<and> F' x s) (k x) (\<lambda>r. ended t fg cl (\<Phi> r))" for x
    using assms(4) by (simp add: runs_def)
qed (rule stable_body)

text \<open>A section of the task, with what its result says about the state it ran in.\<close>

lemma triple_section:
  assumes F: "persistent env F" and k: "\<And>s. rt_ok env s \<Longrightarrow> working t s \<Longrightarrow> keeps env t s (snd (f s))"
    and st: "\<And>r. persistent env (G r)"
    and G: "\<And>s. rt_ok env s \<Longrightarrow> F s \<Longrightarrow> G (fst (f s)) (snd (f s))"
  shows "rt.triple env t (\<lambda>s. in_body t fg cl H s \<and> F s) (atomic f) (\<lambda>r s. in_body t fg cl H s \<and> F s \<and> G r s)"
proof (rule rt.triple_atomic [OF stable_in_bodyF [OF F]])
  show "rt.stable env t (\<lambda>s. in_body t fg cl H s \<and> F s \<and> G r s)" for r
    by (rule stable_in_bodyF [OF persistent_conj [OF F st]])
  fix s assume s: "in_body t fg cl H s \<and> F s" "rt_ok env s"
  have c: "keeps env t s (snd (f s))" using k s in_body_working by blast
  then show "rt_ok env (snd (f s)) \<and> guar env {t} s (snd (f s)) \<and>
      in_body t fg cl H (snd (f s)) \<and> F (snd (f s)) \<and> G (fst (f s)) (snd (f s))"
    using robust_keeps [OF robust_in_body _ s(2) c] persistentD [OF F _ keeps_guar [OF c]] s G by (simp add: keeps_def)
qed

lemma runs_section:
  assumes F: "persistent env F" and k: "\<And>s. rt_ok env s \<Longrightarrow> working t s \<Longrightarrow> keeps env t s (snd (f s))"
    and H: "idle t H" and e: "\<And>e s. rt_ok env s \<Longrightarrow> fst (f s) = Inl e \<Longrightarrow> \<Phi> (Inl e) H"
    and x: "\<And>x s. rt_ok env s \<Longrightarrow> fst (f s) = Inr x \<Longrightarrow> runs env t fg cl H F (g x) \<Phi>"
  shows "runs env t fg cl H F (bindE (atomic f) g) \<Phi>"
proof (rule runs_bindE [where E = "\<lambda>e. \<exists>s. rt_ok env s \<and> fst (f s) = Inl e"
      and F' = "\<lambda>x s. F s \<and> (\<exists>s. rt_ok env s \<and> fst (f s) = Inr x)"])
  have "rt.triple env t (\<lambda>s. in_body t fg cl H s \<and> F s) (atomic f)
      (\<lambda>r s. in_body t fg cl H s \<and> F s \<and> (\<exists>s. rt_ok env s \<and> fst (f s) = r))"
    by (rule triple_section [OF F k persistent_const]) (assumption+, rule exI, rule conjI, assumption, rule refl)
  then show "rt.triple env t (\<lambda>s. in_body t fg cl H s \<and> F s) (atomic f)
      (\<lambda>r s. case r of Inl e \<Rightarrow> in_body t fg cl H s \<and> (\<exists>s. rt_ok env s \<and> fst (f s) = Inl e)
        | Inr x \<Rightarrow> in_body t fg cl H s \<and> F s \<and> (\<exists>s. rt_ok env s \<and> fst (f s) = Inr x))"
    by (rule rt.triple_weaken) (auto split: sum.splits)
  fix y
  show "runs env t fg cl H (\<lambda>s. F s \<and> (\<exists>s. rt_ok env s \<and> fst (f s) = Inr y)) (g y) \<Phi>"
  proof (cases "\<exists>s. rt_ok env s \<and> fst (f s) = Inr y")
    case True
    then obtain s where s: "rt_ok env s" "fst (f s) = Inr y" by blast
    show ?thesis by (rule runs_facts [OF x [OF s]]) simp
  qed (simp add: runs_vacuous)
qed (rule H, elim exE conjE, erule (1) e)

lemma runs_sectionP:
  assumes F: "persistent env F" and k: "\<And>s. rt_ok env s \<Longrightarrow> working t s \<Longrightarrow> keeps env t s (snd (f s))"
    and x: "\<And>s. rt_ok env s \<Longrightarrow> runs env t fg cl H F (g (fst (f s))) \<Phi>"
  shows "runs env t fg cl H F (bindP (atomic f) g) \<Phi>"
  unfolding runs_def
proof (rule rt.triple_bindP [OF triple_section [where G = "\<lambda>r _. \<exists>s. rt_ok env s \<and> fst (f s) = r", OF F k persistent_const]])
  fix r
  have "runs env t fg cl H (\<lambda>s. F s \<and> (\<exists>s. rt_ok env s \<and> fst (f s) = r)) (g r) \<Phi>"
  proof (cases "\<exists>s. rt_ok env s \<and> fst (f s) = r")
    case True
    then obtain s where s: "rt_ok env s" "fst (f s) = r" by blast
    have "runs env t fg cl H F (g r) \<Phi>" using x [OF s(1)] s(2) by simp
    then show ?thesis by (rule runs_facts) simp
  qed (simp add: runs_vacuous)
  then show "rt.triple env t (\<lambda>s. in_body t fg cl H s \<and> F s \<and> (\<exists>s. rt_ok env s \<and> fst (f s) = r)) (g r)
      (\<lambda>r. ended t fg cl (\<Phi> r))"
    by (simp add: runs_def)
qed (assumption+, rule exI, rule conjI, assumption, rule refl)

lemma runs_observe:
  assumes "persistent env F" "idle t H" "\<And>e s. rt_ok env s \<Longrightarrow> f s = Inl e \<Longrightarrow> \<Phi> (Inl e) H"
    and "\<And>x s. rt_ok env s \<Longrightarrow> f s = Inr x \<Longrightarrow> runs env t fg cl H F (g x) \<Phi>"
  shows "runs env t fg cl H F (bindE (observe f) g) \<Phi>"
  unfolding observe_def
  by (rule runs_section [OF assms(1) _ assms(2)]) (simp add: keeps_refl, simp add: assms(3), simp add: assms(4))

text \<open>A quiet part whose errors carry no obligation: nothing has been dispatched yet.\<close>

lemma runs_quiet_bindE:
  assumes q: "quiet_task env t (working t) p" and F: "persistent env F" and "idle t H" "\<And>e. \<Phi> (Inl e) H"
    and "\<And>x. runs env t fg cl H F (k x) \<Phi>"
  shows "runs env t fg cl H F (bindE p k) \<Phi>"
proof (rule runs_bindE [where E = "\<lambda>_. True" and F' = "\<lambda>_. F"])
  show "rt.triple env t (\<lambda>s. in_body t fg cl H s \<and> F s) p
      (\<lambda>r s. case r of Inl e \<Rightarrow> in_body t fg cl H s \<and> True | Inr x \<Rightarrow> in_body t fg cl H s \<and> F s)"
    by (rule rt.triple_weaken [OF quiet_body [OF q F]]) (auto split: sum.splits)
qed (use assms in auto)

lemma runs_foreground:
  "persistent env F \<Longrightarrow> idle t H \<Longrightarrow> \<Phi> (Inl busy) H \<Longrightarrow> runs env t True cl H F body \<Phi> \<Longrightarrow>
     runs env t False cl H F (with_foreground_lane t busy body) \<Phi>"
  unfolding runs_def by (rule triple_foreground)

lemma runs_clipboard:
  "persistent env F \<Longrightarrow> idle t H \<Longrightarrow> \<Phi> (Inl busy) H \<Longrightarrow> runs env t fg True H F body \<Phi> \<Longrightarrow>
     runs env t fg False H F (with_clipboard_lane t busy body) \<Phi>"
  unfolding runs_def by (rule triple_clipboard)

lemma runs_claim:
  assumes "persistent env F" "\<And>s. rt_ok env s \<Longrightarrow> F s \<Longrightarrow> claims env t tk R s (f s)" "\<And>e. \<Phi> (Inl e) []"
    and "\<And>x. R x \<Longrightarrow> runs env t fg cl [Claim t tk] F (k x) \<Phi>"
  shows "runs env t fg cl [] F (bindE (atomic f) k) \<Phi>"
proof (rule runs_bindE [where E = "\<lambda>_. True" and F' = "\<lambda>x s. F s \<and> R x" and H' = "[Claim t tk]"])
  show "rt.triple env t (\<lambda>s. in_body t fg cl [] s \<and> F s) (atomic f)
      (\<lambda>r s. case r of Inl e \<Rightarrow> in_body t fg cl [] s \<and> True | Inr x \<Rightarrow> in_body t fg cl [Claim t tk] s \<and> F s \<and> R x)"
    by (rule rt.triple_weaken [OF triple_claim [OF assms(1,2)]]) (auto split: sum.splits)
  show "runs env t fg cl [Claim t tk] (\<lambda>s. F s \<and> R x) (k x) \<Phi>" for x
    by (cases "R x") (rule runs_facts [OF assms(4)], simp_all add: runs_vacuous)
qed (simp_all add: assms(3))

lemma runs_mutating:
  fixes F :: "'w runtime \<Rightarrow> bool"
  assumes "persistent env F" "\<And>s. rt_ok env s \<Longrightarrow> keeps env t s (release s)"
    and "\<And>s. F s \<Longrightarrow> authorized env (r_heap s) tk nc"
    and "\<And>s :: 'w runtime. holding t fg cl s \<Longrightarrow> lane_held t nc (r_foreground_lane s) (r_clipboard_lane s)"
    and "\<And>r. runs env t fg cl [Claim t tk, Dispatch t tk nc, Returned t tk (status_of r)] F (k r) \<Phi>"
  shows "runs env t fg cl [Claim t tk] F (bindP (mutating_call t tk nc release f) k) \<Phi>"
  using rt.triple_bindP [OF triple_mutating [OF assms(1-4)]] assms(5) unfolding runs_def by blast

lemma runs_silent:
  "quiet_task env t (working t) p \<Longrightarrow> idle t H \<Longrightarrow> silent t H \<Longrightarrow> runs env t fg cl H F p (\<lambda>_. silent t)"
  unfolding runs_def by (rule rt.triple_weaken [OF quiet_silent]) auto

text \<open>What follows a run and dispatches nothing more.\<close>

lemma runs_finally:
  assumes "runs env t fg cl H F p \<Phi>" "quiet_task env t (working t) q"
  shows "runs env t fg cl H F (bindP p (\<lambda>r. bindP q (\<lambda>_. Ret r))) \<Phi>"
  unfolding runs_def
proof (rule rt.triple_bindP [OF assms(1) [unfolded runs_def]])
  fix r
  show "rt.triple env t (ended t fg cl (\<Phi> r)) (bindP q (\<lambda>_. Ret r)) (\<lambda>r. ended t fg cl (\<Phi> r))"
    by (rule rt.triple_bindP [OF quiet_end [OF assms(2)]]) (rule rt.triple_Ret [OF stable_body(2)])
qed

lemma runs_after:
  assumes "runs env t fg cl H F p \<Psi>" "\<And>e H. \<Psi> (Inl e) H \<Longrightarrow> \<Phi> (Inl e) H"
    and "\<And>x. rt.triple env t (ended t fg cl (\<Psi> (Inr x))) (k x) (\<lambda>r. ended t fg cl (\<Phi> r))"
  shows "runs env t fg cl H F (bindE p k) \<Phi>"
  unfolding runs_def
proof (rule rt.triple_bindE [OF _ assms(3)])
  show "rt.triple env t (\<lambda>s. in_body t fg cl H s \<and> F s) p
      (\<lambda>r s. case r of Inl e \<Rightarrow> ended t fg cl (\<Phi> (Inl e)) s | Inr x \<Rightarrow> ended t fg cl (\<Psi> (Inr x)) s)"
    by (rule rt.triple_weaken [OF assms(1) [unfolded runs_def]]) (auto split: sum.splits intro: ended_mono assms(2))
qed (rule stable_body)

section \<open>Sessions\<close>

lemma runs_lookup:
  assumes F: "persistent env F" and "idle t H" "\<And>e. \<Phi> (Inl e) H"
    and "\<And>a ses. s_id ses = sid \<Longrightarrow> runs env t fg cl H (\<lambda>s. F s \<and> handle a ses s) (k (a, ses)) \<Phi>"
  shows "runs env t fg cl H F (bindE (session_lookup env sid) k) \<Phi>"
proof (rule runs_bindE [where E = "\<lambda>_. True" and
      F' = "\<lambda>(a, ses) s. F s \<and> handle a ses s \<and> s_id ses = sid"])
  let ?G = "\<lambda>r s. case r of Found a ses \<Rightarrow> handle a ses s \<and> s_id ses = sid | _ \<Rightarrow> True"
  let ?Q = "\<lambda>r s. case r of Inl e \<Rightarrow> in_body t fg cl H s \<and> True
    | Inr x \<Rightarrow> in_body t fg cl H s \<and> (case x of (a, ses) \<Rightarrow> \<lambda>s. F s \<and> handle a ses s \<and> s_id ses = sid) s"
  have stQ: "rt.stable env t (?Q r)" for r
    by (cases r) (auto intro!: stable_body stable_in_bodyF persistent_intros F split: prod.splits)
  have "rt.triple env t (\<lambda>s. in_body t fg cl H s \<and> F s) (atomic (session_section env sid))
      (\<lambda>r s. in_body t fg cl H s \<and> F s \<and> ?G r s)"
  proof (rule triple_section [OF F keeps_session_section])
    show "persistent env (?G r)" for r by (cases r) (auto intro: persistent_intros)
    show "?G (fst (session_section env sid s)) (snd (session_section env sid s))" if "rt_ok env s" for s
      using that by (auto simp: session_section_def handle_def rt_ok_def sessions_ok_def split: option.splits)
  qed
  then show "rt.triple env t (\<lambda>s. in_body t fg cl H s \<and> F s) (session_lookup env sid) ?Q"
    unfolding session_lookup_def
  proof (rule rt.triple_bindP)
    fix r
    have q: "quiet_task env t (working t) (bindP (remove_artifacts env sid) (\<lambda>_.
        bindP signal_reschedule (\<lambda>_. Ret (Inl session_unavailable))))"
      by (intro quiet_intros quiet_remove_artifacts quiet_signal)
    show "rt.triple env t (\<lambda>s. in_body t fg cl H s \<and> F s \<and> ?G r s)
      (case r of Missing \<Rightarrow> Ret (Inl session_unavailable)
       | Expired \<Rightarrow> bindP (remove_artifacts env sid) (\<lambda>_. bindP signal_reschedule (\<lambda>_. Ret (Inl session_unavailable)))
       | Found a ses \<Rightarrow> Ret (Inr (a, ses))) ?Q"
    proof (cases r)
      case Expired
      have "rt.triple env t (in_body t fg cl H)
         (bindP (remove_artifacts env sid) (\<lambda>_. bindP signal_reschedule (\<lambda>_. Ret (Inl session_unavailable)))) ?Q"
        by (intro rt.triple_bindP [OF quiet_triple [OF quiet_remove_artifacts robust_in_body]]
            rt.triple_bindP [OF quiet_triple [OF quiet_signal robust_in_body]] rt.triple_Ret stQ) auto
      then show ?thesis unfolding Expired lookup.case by (rule rt.triple_weaken) auto
    qed (auto intro!: rt.triple_Ret stQ)
  qed
  show "runs env t fg cl H ((\<lambda>(a, ses) s. F s \<and> handle a ses s \<and> s_id ses = sid) x) (k x) \<Phi>" for x
    using runs_facts [OF assms(4)] by (cases x, cases "s_id (snd x) = sid") (auto simp: runs_def rt.triple_def)
qed (use assms in auto)

section \<open>Outcomes\<close>

text \<open>
  Where the reported status says less than the driver: a clipboard write whose driver error carries
  no status, and a launch after which the wall clock can not be formatted.
\<close>

fun blurred :: "'w rt_env \<Rightarrow> nat \<Rightarrow> ticket \<Rightarrow> native_call \<Rightarrow> event list \<Rightarrow> bool" where
  "blurred env t tk (N_Perform input window act g) H = False"
| "blurred env t tk (N_Launch input x) H =
     (Returned t tk None \<in> set H \<and> (\<exists>w. e_wall env w (discovery_ttl (e_config env)) = None))"
| "blurred env t tk (N_WriteClipboard input marker) H = (Returned t tk (Some MS_NotApplicable) \<in> set H)"

definition error_outcome :: "'w rt_env \<Rightarrow> nat \<Rightarrow> mutation_status \<Rightarrow> cua_error \<Rightarrow> event list \<Rightarrow> bool" where
  "error_outcome env t plain e H \<longleftrightarrow>
     (\<forall>tk nc. Dispatch t tk nc \<in> set H \<longrightarrow>
        ce_mutation_status e = MS_Indeterminate \<or>
        ce_mutation_status e = MS_NotDispatched \<and> Returned t tk (Some MS_NotDispatched) \<in> set H \<or>
        ce_mutation_status e = plain \<and> blurred env t tk nc H)"

definition succeeded :: "nat \<Rightarrow> event list \<Rightarrow> bool" where
  "succeeded t H \<longleftrightarrow> (\<exists>tk nc. Dispatch t tk nc \<in> set H \<and> Returned t tk None \<in> set H)"

definition outcome :: "'w rt_env \<Rightarrow> nat \<Rightarrow> cua_error + 'a \<Rightarrow> event list \<Rightarrow> bool" where
  "outcome env t r H =
     (case r of Inl e \<Rightarrow> error_outcome env t MS_NotApplicable e H | Inr _ \<Rightarrow> succeeded t H)"

lemma outcome_Inr: "outcome env t (Inr x) = succeeded t"
  by (simp add: outcome_def fun_eq_iff)

lemma outcome_silent: "silent t H \<Longrightarrow> outcome env t (Inl e) H"
  by (simp add: outcome_def error_outcome_def silent_def)

lemma outcome_start [simp]: "outcome env t (Inl e) []" "outcome env t (Inl e) [Claim t tk]"
  by (simp_all add: outcome_silent)

lemma outcome_success [simp]: "outcome env t (Inr x) [Claim t tk, Dispatch t tk nc, Returned t tk None]"
  by (auto simp: outcome_def succeeded_def)

lemma outcome_indeterminate: "ce_mutation_status e = MS_Indeterminate \<Longrightarrow> outcome env t (Inl e) H"
  by (simp add: outcome_def error_outcome_def)

lemma outcome_admitted:
  "outcome env t (Inl (at_least_indeterminate (cua_error_from e)))
     [Claim t tk, Dispatch t tk nc, Returned t tk (Some (de_mutation_status e))]"
  by (cases "de_mutation_status e")
    (auto simp: outcome_def error_outcome_def at_least_indeterminate_def)

section \<open>Launch\<close>

lemma expiry_failure:
  assumes "rt_ok env s" "expiry_section env s = Inl e"
  shows "ce_mutation_status e = MS_NotApplicable \<and> (\<exists>w. e_wall env w (discovery_ttl (e_config env)) = None)"
proof -
  have "discovery_ttl (e_config env) \<le> from_secs 30" using assms(1) by (simp add: rt_ok_def config_valid_def)
  then have "\<not> 2 ^ 63 \<le> as_secs (discovery_ttl (e_config env))"
    by (simp add: as_secs_def from_secs_def)
  then show ?thesis using assms(2)
    by (auto simp: expiry_section_def Let_def ok_or_def expiry_format_error_def split: option.splits)
qed

lemma launched_failure:
  "fst (launched_section env x txt a s) = Inl e \<Longrightarrow> ce_mutation_status e = MS_Indeterminate"
  by (auto simp: launched_section_def Let_def launched_capacity_error_def split: if_splits)

lemma runs_project_launched:
  assumes H_def: "H = [Claim t tk, Dispatch t tk (N_Launch input x), Returned t tk None]"
  shows "runs env t fg cl H (\<lambda>_. True) (project_launched_application env launched) (outcome env t)"
  unfolding project_launched_application_def discovery_expiry_def
proof (rule runs_observe [OF persistent_const])
  show H: "idle t H" by (simp add: H_def)
  show "outcome env t (Inl e) H" if "rt_ok env s" "expiry_section env s = Inl e" for e s
    using expiry_failure [OF that] by (auto simp: outcome_def error_outcome_def H_def)
  fix y show "runs env t fg cl H (\<lambda>_. True) ((\<lambda>(expires_at, txt).
     bindE (atomic (launched_section env expires_at txt (dlo_application launched))) (\<lambda>application.
     bindP signal_reschedule (\<lambda>_.
     Ret (Inr (ApplicationLaunched
       \<lparr>alo_application = application, alo_delivery_mode = dlo_delivery_mode launched, alo_dispatched = True\<rparr>))))) y)
     (outcome env t)"
    unfolding case_prod_beta
    by (intro runs_section [OF persistent_const keeps_launched_section H]
        runs_quiet_bindP [OF quiet_signal persistent_const] runs_Ret H)
      (auto dest: launched_failure intro: outcome_indeterminate simp: H_def)
qed

lemma consume_launch_claims:
  assumes ok: "rt_ok env s"
  shows "claims env t (T_Launch l) (\<lambda>_. True) s (consume_launch_ref t l s)"
proof (cases "hm_get (r_launch_discovery s) l")
  case None
  then show ?thesis by (simp add: claims_def consume_launch_ref_def keeps_refl [OF ok])
next
  case (Some r)
  have l: "launch_ok env (r_next_uuid s) (r_launch_discovery s)" using ok by (simp add: rt_ok_def)
  then have wf: "hm_wf (r_launch_discovery s)" by (simp add: launch_ok_def)
  have "keeps env t s (s\<lparr>r_launch_discovery := hm_remove l (r_launch_discovery s)\<rparr>)"
    by (rule keeps_launch_shrink [OF ok])
      (use l order_trans [OF hm.len_remove_le [OF wf]] in \<open>auto simp: launch_ok_def split: if_splits\<close>)
  then show ?thesis using Some wf by (auto simp: claims_def consume_launch_ref_def intro!: exI)
qed

lemma runs_launch_consumed:
  assumes pol: "policy_authorize (policy (e_config env)) (LaunchApplication input) = Inr ()"
  shows "runs env t False False [] (\<lambda>_. True) (launch_consumed env t input current running) (outcome env t)"
  unfolding launch_consumed_def
proof (rule runs_claim [OF persistent_const consume_launch_claims])
  let ?tk = "T_Launch (lai_launch_ref input)"
  let ?D = "Dispatch t ?tk (N_Launch input current)"
  have "runs env t False False [Claim t ?tk, ?D, Returned t ?tk (status_of result)] (\<lambda>_. True)
     (lift_result (admitted_launch_result result) (\<lambda>launched.
      lift_result (launched_check (lai_allow_foreground_activation input) current running launched) (\<lambda>_.
      project_launched_application env launched))) (outcome env t)" for result
  proof (cases result)
    case (Inl e)
    then show ?thesis
      by (simp add: status_of_def admitted_launch_result_def lift_result_def runs_Ret outcome_admitted)
  next
    case (Inr launched)
    have "ce_mutation_status e = MS_Indeterminate"
      if "launched_check (lai_allow_foreground_activation input) current running launched = Inl e" for e
      using that by (auto simp: launched_check_def Let_def unexpected_generation_error_def exceeded_activation_error_def
          split: if_splits)
    then show ?thesis
      using Inr by (simp add: status_of_def admitted_launch_result_def lift_result_def [of "Inr _"])
        (rule runs_lift_result, simp add: outcome_indeterminate, rule runs_project_launched [OF refl])
  qed
  then show "runs env t False False [Claim t ?tk] (\<lambda>_. True)
     (bindP signal_reschedule (\<lambda>_.
      bindP (mutating_call t ?tk (N_Launch input current) id
              (launch_application_call (e_driver env) current (lai_allow_foreground_activation input))) (\<lambda>result.
      lift_result (admitted_launch_result result) (\<lambda>launched.
      lift_result (launched_check (lai_allow_foreground_activation input) current running launched) (\<lambda>_.
      project_launched_application env launched))))) (outcome env t)"
    by (intro runs_quiet_bindP [OF quiet_signal persistent_const] runs_mutating [OF persistent_const])
      (simp_all add: keeps_refl pol)
qed simp_all

lemma runs_launch:
  assumes "policy_authorize (policy (e_config env)) (LaunchApplication input) = Inr ()"
  shows "runs env t False False [] (\<lambda>_. True) (launch_application env t input) (outcome env t)"
  unfolding launch_application_def resolve_launch_ref_def
  by (intro runs_quiet_bindE [OF quiet_observe persistent_const] runs_quiet_bindE [OF quiet_call_public persistent_const]
      runs_lift_result runs_if runs_Ret runs_launch_consumed [OF assms]) simp_all

section \<open>Clipboard\<close>

lemma runs_read_clipboard:
  "runs env t False False [] (\<lambda>_. True) (read_clipboard env t input) (\<lambda>_. silent t)"
proof -
  have q: "quiet_task env t (working t)
      (bindE (call_public (read_clipboard_call (e_driver env) (max_clipboard_text_bytes (e_config env)))) (\<lambda>snapshot.
       lift_result (check_snapshot env snapshot) (\<lambda>byte_length.
       bindP (atomic (project_section a (project_clipboard (e_uuid env) (dcs_change_marker snapshot)))) (\<lambda>cref.
       Ret (Inr (ClipboardRead \<lparr>cs_clipboard_ref = cref, cs_text = dcs_text snapshot, cs_byte_length = byte_length\<rparr>))))))"
    for a
    by (intro quiet_intros quiet_call_public quiet_project_clipboard)
  show ?thesis
    unfolding read_clipboard_def
    by (rule runs_lookup [OF persistent_const]; simp)
      (intro impI conjI runs_Ret runs_clipboard persistent_intros runs_silent [OF q]; simp)
qed

lemma take_marker_claims:
  assumes ok: "rt_ok env s" and a: "a < length (r_heap s)"
  shows "claims env t (T_Clipboard a c) (\<lambda>_. True) s (take_marker t a c s)"
proof -
  obtain m st where m: "take_clipboard_marker c (state_of s a) = (m, st)" by fastforce
  have k: "keeps env t s (upd_state a (\<lambda>_. st) s)"
    using keeps_state [OF ok order_refl take_clipboard_marker_step [OF rt_ok_state [OF ok] m]] by simp
  show ?thesis
  proof (cases m)
    case None
    then show ?thesis using m k by (simp add: claims_def take_marker_def)
  next
    case (Some x)
    then have "holds_clip (state_of s a) c" "\<not> holds_clip st c"
      using m by (auto simp: take_clipboard_marker_def holds_clip_def split: option.splits if_splits)
    then show ?thesis using m k Some a by (auto simp: claims_def take_marker_def upd_state_def intro!: exI)
  qed
qed

lemma status_of_simps [simp]: "status_of (Inl e) = Some (de_mutation_status e)" "status_of (Inr x) = None"
  by (simp_all add: status_of_def)

lemma check_written_failure: "check_written out = Inl e \<Longrightarrow> ce_mutation_status e = MS_Indeterminate"
  by (auto simp: check_written_def validate_clipboard_change_marker_def incoherent_clipboard_error_def
      map_err_def bindR_def split: if_splits)

lemma outcome_write_error:
  "outcome env t (Inl (cua_error_from e))
     [Claim t tk, Dispatch t tk (N_WriteClipboard input m), Returned t tk (Some (de_mutation_status e))]"
  by (cases "de_mutation_status e") (auto simp: outcome_def error_outcome_def)

lemma runs_write_in_lane:
  assumes pol: "policy_authorize (policy (e_config env)) (WriteClipboard input) = Inr ()"
    and vt: "validate_clipboard_text (wci_text input) (max_clipboard_text_bytes (e_config env)) = Inr ()"
    and ses: "cm_allow_clipboard_write (s_manifest ses)" "s_id ses = wci_session_id input"
  shows "runs env t fg True [] (handle a ses) (write_in_lane env t input a) (outcome env t)"
  unfolding write_in_lane_def
proof (rule runs_claim [OF persistent_handle take_marker_claims])
  fix marker
  let ?tk = "T_Clipboard a (wci_clipboard_ref input)" and ?nc = "N_WriteClipboard input marker"
  have rest: "runs env t fg True [Claim t ?tk, Dispatch t ?tk ?nc, Returned t ?tk (status_of result)] (handle a ses)
     (lift_result (map_err cua_error_from result) (\<lambda>out.
      lift_result (check_written out) (\<lambda>_.
      bindP (atomic (project_section a (project_clipboard (e_uuid env) (dcw_change_marker out)))) (\<lambda>cref.
      Ret (Inr (ClipboardWritten
       \<lparr>cwo_clipboard_ref = cref, cwo_delivery_mode = DM_System, cwo_dispatched = True,
        cwo_effect_status = dcw_effect_status out, cwo_evidence_kind = dcw_evidence_kind out\<rparr>)))))) (outcome env t)"
    for result
  proof (cases result)
    case (Inl e)
    then show ?thesis by (simp add: lift_result_def runs_Ret outcome_write_error)
  next
    case (Inr out)
    show ?thesis unfolding Inr
      by (rule runs_lift_result, simp, rule runs_lift_result)
        (use check_written_failure in \<open>auto intro!: outcome_indeterminate runs_Ret
          runs_quiet_bindP [OF quiet_project_clipboard persistent_handle]\<close>)
  qed
  show "runs env t fg True [Claim t ?tk] (handle a ses)
     (bindP (mutating_call t ?tk ?nc id
              (write_clipboard_call (e_driver env) marker (wci_text input) (max_clipboard_text_bytes (e_config env)))) (\<lambda>result.
      lift_result (map_err cua_error_from result) (\<lambda>out.
      lift_result (check_written out) (\<lambda>_.
      bindP (atomic (project_section a (project_clipboard (e_uuid env) (dcw_change_marker out)))) (\<lambda>cref.
      Ret (Inr (ClipboardWritten
       \<lparr>cwo_clipboard_ref = cref, cwo_delivery_mode = DM_System, cwo_dispatched = True,
        cwo_effect_status = dcw_effect_status out, cwo_evidence_kind = dcw_evidence_kind out\<rparr>))))))) (outcome env t)"
    by (rule runs_mutating [OF persistent_handle _ _ _ rest])
      (use pol vt ses in \<open>simp_all add: keeps_refl handle_def same_session_def holding_def\<close>)
qed (simp_all add: handle_def)

lemma map_err_Inr: "map_err f r = Inr x \<longleftrightarrow> r = Inr x"
  by (cases r) simp_all

lemma runs_write_clipboard:
  assumes pol: "policy_authorize (policy (e_config env)) (WriteClipboard input) = Inr ()"
  shows "runs env t False False [] (\<lambda>_. True) (write_clipboard env t input) (outcome env t)"
  unfolding write_clipboard_def
  by (rule runs_lookup [OF persistent_const]; simp)
    (intro impI conjI runs_Ret runs_lift_result runs_clipboard persistent_handle runs_write_in_lane [OF pol];
      simp add: map_err_Inr)

section \<open>Actions\<close>

lemma quiet_Step:
  assumes "\<And>s. rt_ok env s \<Longrightarrow> c s \<Longrightarrow> keeps env t s (snd (f s)) \<and> quiet_task env t W (fst (f s))"
  shows "quiet_task env t W (Step c f)"
  unfolding quiet_task_def
proof (intro allI impI rt.under_Step)
  fix P s assume P: "\<forall>s s'. P s \<longrightarrow> rt_ok env s \<longrightarrow> keeps env t s s' \<longrightarrow> P s'" "\<forall>s. P s \<longrightarrow> W s"
    and s: "rt_ok env s" "P s" "c s"
  note h = assms [OF s(1,3)]
  have "P (snd (f s))" by (rule P(1) [rule_format, OF s(2,1) conjunct1 [OF h]])
  moreover have "rt.under env P t (fst (f s))"
    by (rule quiet_taskD [OF conjunct2 [OF h] P(1) [rule_format] P(2) [rule_format]])
  ultimately show "rt_ok env (snd (f s)) \<and> guar env {t} s (snd (f s)) \<and> P (snd (f s)) \<and> rt.under env P t (fst (f s))"
    using h by (simp add: keeps_def)
qed

lemma quiet_wait_rounds: "quiet_task env t W (wait_rounds a g deadline woken)"
proof (induction "deadline - woken" arbitrary: woken rule: less_induct)
  case less
  have "quiet_task env t W (wait_rounds a g deadline (now + min d (from_millis 25)))"
    if "0 < d" "\<not> deadline \<le> now" "woken \<le> now" for now d
    by (rule less) (use that in \<open>auto simp: from_millis_def\<close>)
  then show ?case
    unfolding wait_rounds.simps [of a g deadline woken]
    by (intro quiet_Step) (simp add: Let_def keeps_refl quiet_Ret split: sum.split)
qed

lemma quiet_wait_idle: "quiet_task env t W (wait_idle a g)"
  unfolding wait_idle_def by (intro quiet_bindP quiet_observe quiet_wait_rounds)

lemma keeps_set_status: "rt_ok env s \<Longrightarrow> status \<noteq> OS_Valid \<Longrightarrow> keeps env t s (set_status a oid status s)"
  unfolding set_status_def by (rule keeps_state_same) (auto intro: observations_modify_step)

lemma set_status_invalid:
  assumes "status \<noteq> OS_Valid"
  shows "\<not> usable (set_status a oid status s) (T_Observation a oid)"
  using assms by (auto simp: set_status_def upd_state_def valid_in_def hm_get_modify)

lemma begin_action_claims:
  assumes ok: "rt_ok env s" and a: "a < length (r_heap s)"
  shows "claims env t (T_Observation a (pai_observation_id input))
    (\<lambda>(window, fp, act, g'). allows_application ses (dw_application window) \<and> g_expires_at g' = g_expires_at g \<and>
       g_observed_at g' \<noteq> None) s (begin_action env t input a ses g s)"
proof (cases "fst (begin_action env t input a ses g s)")
  case (Inl e)
  then show ?thesis
    by (auto simp: claims_def begin_action_def Let_def keeps_refl [OF ok] keeps_set_status [OF ok]
        split: option.splits if_splits sum.splits)
next
  case (Inr x)
  then obtain window r g' act where w: "hm_get (observations (state_of s a)) (pai_observation_id input) = Some r"
      "observation_usable env (r_now s) (pai_window_ref input) r" "allows_application ses (dw_application window)"
      "checked_action env a input g r s = Inr (g', act)" and x: "x = (window, obs_fingerprint r, act, g')"
    and b: "snd (begin_action env t input a ses g s) =
       emit (Claim t (T_Observation a (pai_observation_id input))) (set_status a (pai_observation_id input) OS_InFlight s)"
    by (auto simp: begin_action_def Let_def split: option.splits if_splits sum.splits)
  have g: "g_expires_at g' = g_expires_at g \<and> g_observed_at g' \<noteq> None"
    using w(4) by (auto simp: checked_action_def Let_def bindR_def split: sum.splits)
  have u: "usable s (T_Observation a (pai_observation_id input))"
    using w(1,2) a by (auto simp: valid_in_def observation_usable_def)
  show ?thesis
    unfolding claims_def Inr b
    using g w(3) u keeps_set_status [OF ok, of OS_InFlight t a "pai_observation_id input"]
      set_status_invalid [of OS_InFlight a "pai_observation_id input" s]
    by (auto simp: x intro!: exI [of _ "set_status a (pai_observation_id input) OS_InFlight s"])
qed

lemma quiet_invalidate_sessions: "quiet_task env t W (invalidate_sessions x addrs)"
  by (induction addrs)
    (auto intro!: quiet_Ret quiet_bindP quiet_update keeps_state_same invalidate_application_step)

lemma quiet_invalidate_after: "quiet_task env t W (invalidate_after_action_attempt a wref x b r)"
  unfolding invalidate_after_action_attempt_def invalidate_application_generation_def
  by (intro quiet_intros quiet_update quiet_observe quiet_invalidate_sessions keeps_discovery_retain)
    (auto intro: keeps_state_same invalidate_window_step)

lemma project_action_failure:
  "project_action_output ses b c out = Inl e \<Longrightarrow> ce_mutation_status e = MS_Indeterminate"
  by (auto simp: project_action_output_def Let_def delivery_error_def restoration_error_def
      incoherent_action_error_def split: if_splits)

lemma outcome_action:
  "outcome env t (bindR (admitted_action_result r) (project_action_output ses b c))
     [Claim t tk, Dispatch t tk nc, Returned t tk (status_of r)]"
proof (cases r)
  case (Inl e)
  then show ?thesis by (simp add: admitted_action_result_def outcome_admitted)
next
  case (Inr out)
  then show ?thesis
    using project_action_failure [of ses b c out]
    by (cases "project_action_output ses b c out") (simp_all add: admitted_action_result_def outcome_indeterminate)
qed

text \<open>What the handler has checked of the session and the action before it takes the observation.\<close>

definition admissible :: "'w rt_env \<Rightarrow> session \<Rightarrow> perform_action_input \<Rightarrow> bool" where
  "admissible env ses input \<longleftrightarrow>
     s_id ses = pai_session_id input \<and> cm_mode (s_manifest ses) = Bounded \<and>
     kind (pai_action input) \<in> set (cm_allowed_actions (s_manifest ses)) \<and>
     (requires_foreground (pai_action input) \<longrightarrow> cm_allow_foreground_input (s_manifest ses)) \<and>
     policy_authorize (policy (e_config env)) (PerformAction input) = Inr ()"

lemma authority_checked:
  "validate_action_authority a ses act s = Inr x \<Longrightarrow>
     cm_mode (s_manifest ses) = Bounded \<and> kind act \<in> set (cm_allowed_actions (s_manifest ses)) \<and>
     (requires_foreground act \<longrightarrow> cm_allow_foreground_input (s_manifest ses))"
  by (auto simp: validate_action_authority_def bindR_def split: sum.splits if_splits)

lemma runs_perform_in_lane:
  assumes adm: "admissible env ses input" and g: "g_expires_at g = s_expires_at ses"
    and fg: "requires_foreground (pai_action input) \<Longrightarrow> fg"
  shows "runs env t fg cl [] (handle a ses) (perform_in_lane env t input a ses g) (outcome env t)"
  unfolding perform_in_lane_def
proof (rule runs_claim [OF persistent_handle begin_action_claims])
  fix x :: "driver_window \<times> string \<times> driver_action \<times> guard"
  let ?tk = "T_Observation a (pai_observation_id input)"
  assume "case x of (window, fp, act, g') \<Rightarrow> allows_application ses (dw_application window) \<and>
      g_expires_at g' = g_expires_at g \<and> g_observed_at g' \<noteq> None"
  then obtain window fp act g' where x: "x = (window, fp, act, g')" "allows_application ses (dw_application window)"
    "g_expires_at g' = g_expires_at g" "g_observed_at g' \<noteq> None" by (cases x) auto
  have "runs env t fg cl [Claim t ?tk] (handle a ses) (dispatch_action env t input a ses window act g') (outcome env t)"
    unfolding dispatch_action_def
    by (rule runs_mutating [OF persistent_handle])
      (use x adm g fg in \<open>auto simp: admissible_def handle_def same_session_def holding_def allows_application_def
         intro!: keeps_drop_lease runs_quiet_bindP [OF quiet_invalidate_after persistent_handle] runs_Ret outcome_action\<close>)
  then show "runs env t fg cl [Claim t ?tk] (handle a ses) ((\<lambda>(window, fingerprint, act, g').
     bindP (call (observation_is_current (e_driver env) window fingerprint)) (\<lambda>verdict.
     bindP (observe (verification_section a g' verdict)) (\<lambda>verification.
     if verification = Inr True then dispatch_action env t input a ses window act g'
     else bindP (update (set_status a (pai_observation_id input) OS_Invalid)) (\<lambda>_.
          Ret (Inl (case verification of Inl e \<Rightarrow> cua_error_from e | Inr _ \<Rightarrow> stale_observation)))))) x) (outcome env t)"
    unfolding x prod.case
    by (intro runs_quiet_bindP [OF quiet_call persistent_handle] runs_quiet_bindP [OF quiet_observe persistent_handle]
        runs_if runs_quiet_bindP [OF quiet_update persistent_handle] runs_Ret)
      (auto intro: keeps_set_status)
qed (simp_all add: handle_def)

lemma runs_perform_guarded:
  assumes adm: "admissible env ses input" and g: "g_expires_at g = s_expires_at ses"
  shows "runs env t False False [] (handle a ses) (perform_guarded env t input a ses g) (outcome env t)"
  unfolding perform_guarded_def
  by (intro runs_quiet_bindE [OF quiet_mapP [OF quiet_wait_idle] persistent_handle] runs_if
      runs_foreground persistent_handle runs_perform_in_lane [OF adm g]) simp_all

lemma runs_perform_only:
  assumes pol: "policy_authorize (policy (e_config env)) (PerformAction input) = Inr ()"
  shows "runs env t False False [] (\<lambda>_. True) (perform_action_only env t input) (outcome env t)"
  unfolding perform_action_only_def
proof (rule runs_lookup [OF persistent_const]; simp)
  fix a and ses :: session assume sid: "s_id ses = pai_session_id input"
  show "runs env t False False [] (handle a ses)
     (bindE (observe (validate_action_authority a ses (pai_action input))) (\<lambda>_.
      bindP (atomic (acquire_guard a ses)) (\<lambda>g.
      bindP (perform_guarded env t input a ses g) (\<lambda>r.
      bindP (update (upd_guard a (drop_lease (g_lease g)))) (\<lambda>_. Ret r))))) (outcome env t)"
  proof (rule runs_observe [OF persistent_handle])
    fix x :: unit and s :: "'a runtime"
    assume "validate_action_authority a ses (pai_action input) s = Inr x"
    then have adm: "admissible env ses input" using authority_checked sid pol by (auto simp: admissible_def)
    show "runs env t False False [] (handle a ses)
       (bindP (atomic (acquire_guard a ses)) (\<lambda>g.
        bindP (perform_guarded env t input a ses g) (\<lambda>r.
        bindP (update (upd_guard a (drop_lease (g_lease g)))) (\<lambda>_. Ret r)))) (outcome env t)"
      by (intro runs_sectionP [OF persistent_handle keeps_acquire_guard] runs_finally
          runs_perform_guarded [OF adm] quiet_update keeps_drop_lease)
        (simp_all add: acquire_guard_def Let_def action_guard_def guard_new_def)
  qed simp_all
qed

lemma runs_perform_action:
  assumes pol: "policy_authorize (policy (e_config env)) (PerformAction input) = Inr ()"
  shows "runs env t False False [] (\<lambda>_. True) (perform_action env t input) (outcome env t)"
  unfolding perform_action_def
proof (intro runs_lift_result runs_after [OF runs_perform_only [OF pol]])
  fix out
  have st: "rt.stable env t (ended t False False (outcome env t (Inr y)))" for y :: command_result by (rule stable_body)
  show "rt.triple env t (ended t False False (outcome env t (Inr out)))
     (case after_command input of None \<Rightarrow> Ret (Inr (ActionPerformed out))
      | Some (observation, scene) \<Rightarrow> bindP (observe_after_action env observation scene) (\<lambda>r.
          Ret (Inr (ActionPerformed (attach_observation out r))))) (\<lambda>r. ended t False False (outcome env t r))"
    by (auto split: option.splits prod.splits intro!: rt.triple_Ret st rt.triple_bindP [OF quiet_end [OF quiet_observe_after_action]]
        simp: outcome_Inr)
qed (simp_all add: outcome_def error_outcome_def)

end
