(* ===== verification/RuntimeLife.thy ===== *)
theory RuntimeLife
  imports RuntimeMutations
begin

text \<open>
  Whole tasks: commands under the lifecycle lock, shutdown, the expiration loop and artifact
  access. Every task keeps the invariant of the runtime and its guarantee, so every reachable
  configuration of the pool does.
\<close>

section \<open>Results of commands\<close>

definition mutated :: "command_result \<Rightarrow> bool" where
  "mutated x =
     (case x of ActionPerformed _ \<Rightarrow> True | ApplicationLaunched _ \<Rightarrow> True | ClipboardWritten _ \<Rightarrow> True | _ \<Rightarrow> False)"

lemma mutated_simps [simp]:
  "mutated (ActionPerformed a)" "mutated (ApplicationLaunched b)" "mutated (ClipboardWritten c)"
  "\<not> mutated (Capabilities d)" "\<not> mutated (PermissionStatus e)" "\<not> mutated (ApplicationsDiscovered f)"
  "\<not> mutated (LaunchableApplicationsDiscovered g)" "\<not> mutated (SessionOpened h)" "\<not> mutated Acknowledged"
  "\<not> mutated (Apps i)" "\<not> mutated (Windows j)" "\<not> mutated (Displays k)" "\<not> mutated (WindowObserved l)"
  "\<not> mutated (DisplayObserved m)" "\<not> mutated (ClipboardRead n)" "\<not> mutated (StateVerified p)"
  by (simp_all add: mutated_def)

text \<open>
  A success of a mutation was dispatched and returned; the other successes dispatched nothing; an
  error after a dispatch is indeterminate unless the driver itself said that nothing was dispatched.
\<close>

definition faithful :: "'w rt_env \<Rightarrow> nat \<Rightarrow> cua_error + command_result \<Rightarrow> event list \<Rightarrow> bool" where
  "faithful env t r H =
     (case r of
        Inl e \<Rightarrow> error_outcome env t MS_NotDispatched e H
      | Inr x \<Rightarrow> if mutated x then succeeded t H else silent t H)"

definition mutating_results :: "bool \<Rightarrow> cua_error + command_result \<Rightarrow> bool" where
  "mutating_results b r = (case r of Inl e \<Rightarrow> True | Inr x \<Rightarrow> mutated x = b)"

lemma mutating_results_simps [simp]:
  "mutating_results b (Inl e)" "mutating_results b (Inr x) = (mutated x = b)"
  by (simp_all add: mutating_results_def)

lemma faithful_silent: "silent t H \<Longrightarrow> mutating_results False r \<Longrightarrow> faithful env t r H"
  by (cases r) (auto simp: faithful_def error_outcome_def silent_def)

lemma faithful_outcome:
  "outcome env t r H \<Longrightarrow> mutating_results True r \<Longrightarrow> faithful env t (map_err at_least_not_dispatched r) H"
  by (cases r) (auto simp: faithful_def outcome_def error_outcome_def at_least_not_dispatched_def)

lemma faithful_start [simp]: "faithful env t (Inl e) []"
  by (simp add: faithful_silent)

section \<open>Which results a handler has\<close>

lemma yields_case_prod: "(\<And>a b. yields Q (f a b)) \<Longrightarrow> yields Q (case p of (a, b) \<Rightarrow> f a b)"
  by (cases p) simp

lemma yields_Let: "(\<And>x. yields Q (f x)) \<Longrightarrow> yields Q (Let v f)"
  by (simp add: Let_def)

lemma yields_case_option:
  "yields Q p \<Longrightarrow> (\<And>x. yields Q (f x)) \<Longrightarrow> yields Q (case v of None \<Rightarrow> p | Some x \<Rightarrow> f x)"
  by (cases v) simp_all

lemma yields_with_lane:
  "yields Q body \<Longrightarrow> Q (Inl busy) \<Longrightarrow> yields Q (with_lane lane set_lane t busy body)"
  unfolding with_lane_def
  by (rule yields_bindP, rule yields_if, rule yields_seq [of Q], assumption, rule yields_bindP, erule yields_Ret, erule yields_Ret)

lemma yields_tagged:
  assumes "\<And>x. \<not> mutated (f x)"
  shows "yields (mutating_results False) (mapP (map_sum id f) p)"
proof -
  have "mutating_results False (map_sum id f r)" for r using assms by (cases r) simp_all
  then show ?thesis unfolding mapP_def by (intro yields_bindP yields_Ret)
qed

lemmas yields_rules = yields_intros yields_case_prod yields_Let yields_case_option yields_with_lane

lemma plain_results:
  "yields (mutating_results False) (get_capabilities env)"
  "yields (mutating_results False) (discover_applications env)"
  "yields (mutating_results False) (discover_launchable_applications env)"
  "yields (mutating_results False) (open_session env manifest)"
  "yields (mutating_results False) (close_session env sid)"
  "yields (mutating_results False) (list_apps env sid)"
  "yields (mutating_results False) (list_windows env lw)"
  "yields (mutating_results False) (list_displays env sid)"
  "yields (mutating_results False) (observe_display env od)"
  "yields (mutating_results False) (read_clipboard env t rc)"
  "yields (mutating_results False) (verify_state env vs)"
  unfolding get_capabilities_def discover_applications_def discover_launchable_applications_def open_session_def
    close_session_def list_apps_def list_windows_def list_displays_def observe_display_def read_clipboard_def
    verify_state_def
  by (intro yields_rules; simp)+

lemma mutation_results:
  "yields (mutating_results True) (launch_application env t la)"
  "yields (mutating_results True) (write_clipboard env t wc)"
  "yields (mutating_results True) (perform_action env t pa)"
  unfolding launch_application_def launch_consumed_def project_launched_application_def write_clipboard_def
    write_in_lane_def perform_action_def
  by (intro yields_rules; simp)+

lemma runs_yields:
  assumes "runs env t fg cl H F p \<Phi>" "yields Q p" "\<And>r H. \<Phi> r H \<Longrightarrow> Q r \<Longrightarrow> \<Psi> r H"
  shows "runs env t fg cl H F p \<Psi>"
  unfolding runs_def
  by (rule rt.triple_weaken [OF rt.triple_yields [OF assms(1) [unfolded runs_def] assms(2)]])
    (auto intro: ended_mono assms(3))

lemma runs_plain:
  "quiet_task env t (working t) p \<Longrightarrow> yields (mutating_results False) p \<Longrightarrow>
     runs env t fg cl [] F p (faithful env t)"
  by (rule runs_yields [OF runs_silent _ faithful_silent]) simp_all

lemma runs_mutation:
  "runs env t fg cl [] F p (outcome env t) \<Longrightarrow> yields (mutating_results True) p \<Longrightarrow>
     runs env t fg cl [] F (mapP (map_err at_least_not_dispatched) p) (faithful env t)"
  by (rule runs_mapP, erule (1) runs_yields) (rule faithful_outcome)

lemma runs_close_session: "runs env t False False [] (\<lambda>_. True) (close_session env sid) (faithful env t)"
proof (rule runs_yields [OF _ plain_results(5)])
  show "runs env t False False [] (\<lambda>_. True) (close_session env sid) (\<lambda>_. silent t)"
    unfolding runs_def
    by (rule rt.triple_weaken [OF triple_close_session [OF robust_in_body]]) (auto intro: body_ended)
qed (rule faithful_silent)

lemma runs_execute_command:
  assumes pol: "policy_authorize (policy (e_config env)) cmd = Inr ()"
  shows "runs env t False False [] (\<lambda>_. True) (execute_command env t cmd) (faithful env t)"
proof (cases cmd)
  case (LaunchApplication input)
  then show ?thesis using runs_mutation [OF runs_launch mutation_results(1)] pol by simp
next
  case (WriteClipboard input)
  then show ?thesis using runs_mutation [OF runs_write_clipboard mutation_results(2)] pol by simp
next
  case (PerformAction input)
  then show ?thesis using runs_mutation [OF runs_perform_action mutation_results(3)] pol by simp
next
  case (CloseSession sid)
  then show ?thesis using runs_close_session by simp
next
  case (ReadClipboard input)
  then show ?thesis
    using runs_yields [OF runs_read_clipboard plain_results(10) faithful_silent] by simp
next
  case (ReconcileMutation input)
  then show ?thesis by (simp add: runs_Ret)
qed (auto intro!: runs_plain quiet_mapP quiet_call_public quiet_observe_window quiet_get_capabilities quiet_discover
    quiet_discover_launchable quiet_open_session quiet_list_apps quiet_list_windows quiet_list_displays
    quiet_observe_display quiet_verify_state plain_results yields_tagged)

section \<open>The lifecycle lock\<close>

definition untouched :: "nat \<Rightarrow> 'w runtime \<Rightarrow> bool" where
  "untouched t s \<longleftrightarrow> history t (r_trace s) = []"

definition entered :: "nat \<Rightarrow> (event list \<Rightarrow> bool) \<Rightarrow> 'w runtime \<Rightarrow> bool" where
  "entered t \<Phi> s \<longleftrightarrow> t \<in> set (r_lifecycle_readers s) \<and> idle t (r_trace s) \<and> \<Phi> (history t (r_trace s))"

definition finished :: "nat \<Rightarrow> (event list \<Rightarrow> bool) \<Rightarrow> 'w runtime \<Rightarrow> bool" where
  "finished t \<Phi> s \<longleftrightarrow> idle t (r_trace s) \<and> \<Phi> (history t (r_trace s))"

lemma robust_readers: "robust env t (\<lambda>s. t \<in> set (r_lifecycle_readers s))"
  by (rule robust_viewI) (simp_all add: guar_def honours_def view_def)

lemma robust_finished [robust_intros]: "robust env t (finished t \<Phi>)"
  using robust_own(1) [where t = t and \<Phi> = "\<lambda>H. idle t H \<and> \<Phi> H"] by (simp add: finished_def [abs_def] idle_history)

lemma robust_entered [robust_intros]: "robust env t (entered t \<Phi>)"
  using robust_conj [OF robust_readers robust_finished [of env t \<Phi>]] by (simp add: entered_def [abs_def] finished_def)

lemma robust_untouched [robust_intros]: "robust env t (untouched t)"
  unfolding untouched_def [abs_def] by (rule robust_own(1))

lemma enter_section:
  assumes ok: "rt_ok env s" and u: "untouched t s" and w: "r_lifecycle_writer s = None"
  shows "rt_ok env (enter_lifecycle t s)" "guar env {t} s (enter_lifecycle t s)"
    "entered t (\<lambda>H. H = []) (enter_lifecycle t s)"
proof -
  show "rt_ok env (enter_lifecycle t s)" using ok w by (simp add: rt_ok_def life_ok_def enter_lifecycle_def)
  show "guar env {t} s (enter_lifecycle t s)"
    by (simp add: guar_def no_revival_def honours_def enter_lifecycle_def)
  show "entered t (\<lambda>H. H = []) (enter_lifecycle t s)"
    using u idle_history [of t "r_trace s"] by (simp add: entered_def enter_lifecycle_def untouched_def)
qed

lemma leave_section:
  assumes ok: "rt_ok env s" and e: "entered t \<Phi> s"
  shows "rt_ok env (leave_lifecycle t s)" "guar env {t} s (leave_lifecycle t s)" "finished t \<Phi> (leave_lifecycle t s)"
proof -
  show "rt_ok env (leave_lifecycle t s)" using ok by (auto simp: rt_ok_def life_ok_def leave_lifecycle_def)
  show "guar env {t} s (leave_lifecycle t s)"
    by (auto simp: guar_def no_revival_def honours_def leave_lifecycle_def)
  show "finished t \<Phi> (leave_lifecycle t s)" using e by (simp add: entered_def finished_def leave_lifecycle_def)
qed

lemma entered_body:
  "rt_ok env s \<Longrightarrow> entered t (\<lambda>H. H = []) s \<Longrightarrow> \<not> r_closed s \<Longrightarrow> in_body t False False [] s"
  by (auto simp: entered_def in_body_def holding_def working_def rt_ok_def life_ok_def)

lemma ended_entered: "ended t fg cl \<Phi> s \<Longrightarrow> entered t \<Phi> s"
  by (simp add: ended_def entered_def holding_def working_def)

lemma runs_admitted: "runs env t False False [] (\<lambda>_. True) (admitted_command env t cmd) (faithful env t)"
  unfolding admitted_command_def
  by (intro runs_lift_result runs_quiet_bindP [OF quiet_ensure persistent_const] runs_execute_command) simp_all

lemma stable_cond: "rt.stable env t P \<Longrightarrow> rt.stable env t Q \<Longrightarrow> rt.stable env t (\<lambda>s. if b then P s else Q s)"
  by (cases b) simp_all

lemma triple_execute:
  "rt.triple env t (untouched t) (execute env t cmd) (\<lambda>r. finished t (faithful env t r))"
  unfolding execute_def
proof (rule rt.triple_bindP [where Q = "\<lambda>_. entered t (\<lambda>H. H = [])"])
  note st = robust_stable [OF robust_entered] robust_stable [OF robust_finished] robust_stable [OF robust_untouched]
  show "rt.triple env t (untouched t) (blocking (\<lambda>s. r_lifecycle_writer s = None) (\<lambda>s. ((), enter_lifecycle t s)))
      (\<lambda>_. entered t (\<lambda>H. H = []))"
    by (rule rt.triple_blocking [OF st(3) st(1)]) (simp add: enter_section)
  show "rt.triple env t (entered t (\<lambda>H. H = [])) (bindP (observe r_closed) (\<lambda>shut.
      bindP (if shut then Ret (Inl runtime_unavailable) else admitted_command env t cmd) (\<lambda>r.
      bindP (update (leave_lifecycle t)) (\<lambda>_. Ret r)))) (\<lambda>r. finished t (faithful env t r))" for x :: unit
  proof (rule rt.triple_bindP [where Q = "\<lambda>shut s. if shut then entered t (\<lambda>H. H = []) s else in_body t False False [] s"])
    show "rt.triple env t (entered t (\<lambda>H. H = [])) (observe r_closed)
        (\<lambda>shut s. if shut then entered t (\<lambda>H. H = []) s else in_body t False False [] s)"
      unfolding observe_def
      by (rule rt.triple_atomic [OF st(1) stable_cond [OF st(1) stable_body(1)]])
        (simp add: guar_refl_rt entered_body split: if_split)
    fix shut :: bool
    have c: "rt.triple env t (\<lambda>s. if shut then entered t (\<lambda>H. H = []) s else in_body t False False [] s)
        (if shut then Ret (Inl runtime_unavailable) else admitted_command env t cmd) (\<lambda>r. entered t (faithful env t r))"
    proof (cases shut)
      case True
      then show ?thesis by (auto intro!: rt.triple_Ret st(1) simp: entered_def)
    next
      case False
      have "rt.triple env t (in_body t False False []) (admitted_command env t cmd) (\<lambda>r. entered t (faithful env t r))"
        by (rule rt.triple_weaken [OF runs_admitted [unfolded runs_def]]) (simp_all add: ended_entered)
      then show ?thesis using False by simp
    qed
    have l: "rt.triple env t (entered t (faithful env t r)) (bindP (update (leave_lifecycle t)) (\<lambda>_. Ret r))
        (\<lambda>r. finished t (faithful env t r))" for r
    proof (rule rt.triple_bindP [where Q = "\<lambda>_. finished t (faithful env t r)"])
      show "rt.triple env t (entered t (faithful env t r)) (update (leave_lifecycle t)) (\<lambda>_. finished t (faithful env t r))"
        unfolding update_def by (rule rt.triple_atomic [OF st(1,2)]) (simp add: leave_section)
    qed (rule rt.triple_Ret [OF st(2)])
    show "rt.triple env t (\<lambda>s. if shut then entered t (\<lambda>H. H = []) s else in_body t False False [] s)
       (bindP (if shut then Ret (Inl runtime_unavailable) else admitted_command env t cmd) (\<lambda>r.
        bindP (update (leave_lifecycle t)) (\<lambda>_. Ret r))) (\<lambda>r. finished t (faithful env t r))"
      by (rule rt.triple_bindP [OF c l])
  qed
qed

section \<open>Shutdown\<close>

text \<open>The steps of a shutdown: the guard, the closed flag, the writer lock, and what is cleared.\<close>

definition closing :: "nat \<Rightarrow> 'w runtime \<Rightarrow> bool" where
  "closing t s \<longleftrightarrow> r_shutdown_guard s = Some t \<and> (r_closed s \<longrightarrow> r_cleared s)"

definition shut :: "nat \<Rightarrow> bool \<Rightarrow> 'w runtime \<Rightarrow> bool" where
  "shut t c s \<longleftrightarrow> r_shutdown_guard s = Some t \<and> r_closed s \<and> (c \<longrightarrow> r_cleared s)"

definition draining :: "nat \<Rightarrow> bool \<Rightarrow> 'w runtime \<Rightarrow> bool" where
  "draining t c s \<longleftrightarrow> shut t c s \<and> r_lifecycle_writer s = Some t"

lemma stable_closing: "rt.stable env t (closing t)"
  by (rule rt.stableI) (auto simp: closing_def guar_def honours_def)

lemma robust_shut: "robust env t (shut t c)"
  by (rule robust_viewI) (auto simp: shut_def guar_def honours_def view_def)

lemma robust_draining: "robust env t (draining t c)"
  by (rule robust_viewI) (auto simp: draining_def shut_def guar_def honours_def view_def)

lemmas stable_shut = robust_stable [OF robust_shut]
lemmas stable_draining = robust_stable [OF robust_draining]

lemma stable_emptied:
  "rt.stable env t (\<lambda>s. draining t c s \<and> r_discovery s = [])"
  "rt.stable env t (\<lambda>s. draining t c s \<and> r_discovery s = [] \<and> r_launch_discovery s = [])"
  by (rule rt.stableI; auto simp: draining_def shut_def guar_def honours_def)+

lemma triple_update:
  assumes "rt.stable env t P" "rt.stable env t Q"
    and "\<And>s. P s \<Longrightarrow> rt_ok env s \<Longrightarrow> rt_ok env (f s) \<and> guar env {t} s (f s) \<and> Q (f s)"
  shows "rt.triple env t P (update f) (\<lambda>_. Q)"
  unfolding update_def by (rule rt.triple_atomic [OF assms(1,2)]) (simp add: assms(3))

lemma keeps_drained:
  assumes ok: "rt_ok env s"
  shows "keeps env t s ((close_all env (hm_values (r_sessions s)) s)\<lparr>r_sessions := []\<rparr>)"
proof -
  have k: "keeps env t s (s\<lparr>r_sessions := []\<rparr>)"
    by (rule keeps_sessions_shrink [OF ok]) (simp_all add: hm_len_def)
  have "keeps env t (s\<lparr>r_sessions := []\<rparr>) (close_all env (hm_values (r_sessions s)) (s\<lparr>r_sessions := []\<rparr>))"
    by (rule keeps_close_all [OF keeps_ok [OF k]]) simp
  then show ?thesis using keeps_trans [OF k] by (simp add: close_all_sessions)
qed

lemma drain_section:
  assumes ok: "rt_ok env s" and d: "draining t False s \<and> r_discovery s = [] \<and> r_launch_discovery s = []"
  shows "rt_ok env (snd (drain_sessions env s)) \<and> guar env {t} s (snd (drain_sessions env s)) \<and>
    draining t True (snd (drain_sessions env s))"
proof -
  let ?s = "(close_all env (hm_values (r_sessions s)) s)\<lparr>r_sessions := []\<rparr>"
  have k: "keeps env t s ?s" by (rule keeps_drained [OF ok])
  have v: "r_lifecycle_readers ?s = r_lifecycle_readers s" "r_lifecycle_writer ?s = Some t"
    "r_shutdown_guard ?s = Some t" "r_closed ?s"
    using keeps_view [OF k] d by (simp_all add: view_def draining_def shut_def)
  have e: "r_discovery (close_all env addrs s') = r_discovery s'" "r_launch_discovery (close_all env addrs s') = r_launch_discovery s'"
    for addrs s' by (induction addrs arbitrary: s') simp_all
  have r: "r_lifecycle_readers ?s = []" using keeps_ok [OF k] v(2) by (simp add: rt_ok_def life_ok_def)
  have "rt_ok env (?s\<lparr>r_cleared := True\<rparr>)"
    using keeps_ok [OF k] v d by (simp add: rt_ok_def life_ok_def e)
  moreover have "guar env {t} ?s (?s\<lparr>r_cleared := True\<rparr>)"
    using v r by (simp add: guar_def no_revival_def honours_def)
  moreover have "draining t True (?s\<lparr>r_cleared := True\<rparr>)" using v by (simp add: draining_def shut_def)
  ultimately show ?thesis using guar_trans_rt [OF keeps_guar [OF k]] by (simp add: drain_sessions_def)
qed

lemma quiet_remove_all_artifacts: "quiet_task env t W (remove_all_artifacts env sids)"
  by (induction sids) (simp_all add: quiet_Ret quiet_bindP quiet_remove_artifacts)

lemma quiet_stop_scheduler: "quiet_task env t W stop_scheduler"
  unfolding stop_scheduler_def
proof (intro quiet_intros quiet_atomic quiet_blocking)
  fix s assume ok: "rt_ok env s"
  have k: "keeps env t s (s\<lparr>r_scheduler := False\<rparr>)" by (rule keeps_scheduler [OF ok])
  show "keeps env t s (snd (if r_scheduler s
       then (True, send_replace ShutdownSignal (s\<lparr>r_scheduler := False\<rparr>)) else (False, s)))"
    using keeps_trans [OF k keeps_signal [OF keeps_ok [OF k]]] keeps_refl [OF ok] by simp
qed (simp add: keeps_refl)

lemma keeps_clear:
  "rt_ok env s \<Longrightarrow> keeps env t s (s\<lparr>r_discovery := []\<rparr>)" "rt_ok env s \<Longrightarrow> keeps env t s (s\<lparr>r_launch_discovery := []\<rparr>)"
  using keeps_discovery_retain [of env s t "\<lambda>_ _. False"] keeps_launch_retain [of env s t "\<lambda>_ _. False"]
  by (simp_all add: hm_retain_def)

lemma clear_sections:
  "draining t False s \<Longrightarrow> rt_ok env s \<Longrightarrow>
     rt_ok env (s\<lparr>r_discovery := []\<rparr>) \<and> guar env {t} s (s\<lparr>r_discovery := []\<rparr>) \<and>
     draining t False (s\<lparr>r_discovery := []\<rparr>) \<and> r_discovery (s\<lparr>r_discovery := []\<rparr>) = []"
  "draining t False s \<and> r_discovery s = [] \<Longrightarrow> rt_ok env s \<Longrightarrow>
     rt_ok env (s\<lparr>r_launch_discovery := []\<rparr>) \<and> guar env {t} s (s\<lparr>r_launch_discovery := []\<rparr>) \<and>
     draining t False (s\<lparr>r_launch_discovery := []\<rparr>) \<and> r_discovery (s\<lparr>r_launch_discovery := []\<rparr>) = [] \<and>
     r_launch_discovery (s\<lparr>r_launch_discovery := []\<rparr>) = []"
  using keeps_clear [of env s t] by (auto simp: keeps_def draining_def shut_def)

lemma lock_sections:
  "closing t s \<Longrightarrow> rt_ok env s \<Longrightarrow>
     rt_ok env (s\<lparr>r_closed := True\<rparr>) \<and> guar env {t} s (s\<lparr>r_closed := True\<rparr>) \<and> shut t (r_closed s) (s\<lparr>r_closed := True\<rparr>)"
  "shut t False s \<Longrightarrow> rt_ok env s \<Longrightarrow> r_lifecycle_readers s = [] \<and> r_lifecycle_writer s = None \<Longrightarrow>
     rt_ok env (s\<lparr>r_lifecycle_writer := Some t\<rparr>) \<and> guar env {t} s (s\<lparr>r_lifecycle_writer := Some t\<rparr>) \<and>
     draining t False (s\<lparr>r_lifecycle_writer := Some t\<rparr>)"
  "draining t True s \<Longrightarrow> rt_ok env s \<Longrightarrow>
     rt_ok env (s\<lparr>r_lifecycle_writer := None\<rparr>) \<and> guar env {t} s (s\<lparr>r_lifecycle_writer := None\<rparr>) \<and>
     shut t True (s\<lparr>r_lifecycle_writer := None\<rparr>)"
  "shut t True s \<Longrightarrow> rt_ok env s \<Longrightarrow>
     rt_ok env (s\<lparr>r_shutdown_guard := None\<rparr>) \<and> guar env {t} s (s\<lparr>r_shutdown_guard := None\<rparr>) \<and>
     r_cleared (s\<lparr>r_shutdown_guard := None\<rparr>)"
  "rt_ok env s \<Longrightarrow> r_shutdown_guard s = None \<Longrightarrow>
     rt_ok env (s\<lparr>r_shutdown_guard := Some t\<rparr>) \<and> guar env {t} s (s\<lparr>r_shutdown_guard := Some t\<rparr>) \<and>
     closing t (s\<lparr>r_shutdown_guard := Some t\<rparr>)"
  by (auto simp: closing_def shut_def draining_def rt_ok_def life_ok_def guar_def no_revival_def honours_def)

lemma triple_shutdown_body: "rt.triple env t (shut t False) (shutdown_body env t) (\<lambda>_. shut t True)"
  unfolding shutdown_body_def
proof (rule rt.triple_bindP)
  show "rt.triple env t (shut t False)
      (blocking (\<lambda>s. r_lifecycle_readers s = [] \<and> r_lifecycle_writer s = None) (\<lambda>s. ((), s\<lparr>r_lifecycle_writer := Some t\<rparr>)))
      (\<lambda>_. draining t False)"
    by (rule rt.triple_blocking [OF stable_shut stable_draining]) (simp add: lock_sections(2))
  have drain: "rt.triple env t (\<lambda>s. draining t False s \<and> r_discovery s = [] \<and> r_launch_discovery s = [])
      (atomic (drain_sessions env)) (\<lambda>_. draining t True)"
    by (rule rt.triple_atomic [OF stable_emptied(2) stable_draining]) (rule drain_section)
  show "rt.triple env t (draining t False)
     (bindP stop_scheduler (\<lambda>_.
      bindP (update (\<lambda>s. s\<lparr>r_discovery := []\<rparr>)) (\<lambda>_.
      bindP (update (\<lambda>s. s\<lparr>r_launch_discovery := []\<rparr>)) (\<lambda>_.
      bindP (atomic (drain_sessions env)) (\<lambda>sids.
      bindP (remove_all_artifacts env sids) (\<lambda>_.
      update (\<lambda>s. s\<lparr>r_lifecycle_writer := None\<rparr>))))))) (\<lambda>_. shut t True)" for x :: unit
    by (rule rt.triple_bindP [OF quiet_triple [OF quiet_stop_scheduler robust_draining]], rule TrueI,
        rule rt.triple_bindP [OF triple_update [OF stable_draining stable_emptied(1) clear_sections(1)]], assumption+,
        rule rt.triple_bindP [OF triple_update [OF stable_emptied clear_sections(2)]], assumption+,
        rule rt.triple_bindP [OF drain],
        rule rt.triple_bindP [OF quiet_triple [OF quiet_remove_all_artifacts robust_draining]], rule TrueI,
        rule triple_update [OF stable_draining stable_shut lock_sections(3)])
qed

lemma stable_cleared: "rt.stable env t r_cleared"
  by (rule rt.stableI) (simp add: guar_def)

lemma triple_shutdown: "rt.triple env t (\<lambda>_. True) (shutdown env t) (\<lambda>_. r_cleared)"
  unfolding shutdown_def
proof (rule rt.triple_bindP)
  show "rt.triple env t (\<lambda>_. True)
      (blocking (\<lambda>s. r_shutdown_guard s = None) (\<lambda>s. ((), s\<lparr>r_shutdown_guard := Some t\<rparr>))) (\<lambda>_. closing t)"
    by (rule rt.triple_blocking [OF robust_stable [OF robust_True] stable_closing]) (simp add: lock_sections(5))
  have a: "rt.triple env t (closing t) (atomic (\<lambda>s. (r_closed s, s\<lparr>r_closed := True\<rparr>))) (\<lambda>was. shut t was)"
    by (rule rt.triple_atomic [OF stable_closing stable_shut]) (simp add: lock_sections(1))
  have b: "rt.triple env t (shut t was) (if was then Ret () else shutdown_body env t) (\<lambda>_. shut t True)" for was
    using triple_shutdown_body rt.triple_Ret [OF stable_shut] by (cases was) simp_all
  have c: "rt.triple env t (shut t True) (update (\<lambda>s. s\<lparr>r_shutdown_guard := None\<rparr>)) (\<lambda>_. r_cleared)"
    by (rule triple_update [OF stable_shut stable_cleared lock_sections(4)])
  show "rt.triple env t (closing t)
     (bindP (atomic (\<lambda>s. (r_closed s, s\<lparr>r_closed := True\<rparr>))) (\<lambda>was_closed.
      bindP (if was_closed then Ret () else shutdown_body env t) (\<lambda>_.
      update (\<lambda>s. s\<lparr>r_shutdown_guard := None\<rparr>)))) (\<lambda>_. r_cleared)" for x :: unit
    by (rule rt.triple_bindP [OF a rt.triple_bindP [OF b c]])
qed

section \<open>Expiration and artifacts\<close>

lemma fold_remove:
  "hm_wf m \<Longrightarrow> hm_wf (fold (\<lambda>(k, _). hm_remove k) xs m)"
  "hm_wf m \<Longrightarrow> hm_len (fold (\<lambda>(k, _). hm_remove k) xs m) \<le> hm_len m"
  "hm_get (fold (\<lambda>(k, _). hm_remove k) xs m) k = (if k \<in> fst ` set xs then None else hm_get m k)"
proof -
  show "hm_wf m \<Longrightarrow> hm_wf (fold (\<lambda>(k, _). hm_remove k) xs m)" by (induction xs arbitrary: m) auto
  show "hm_wf m \<Longrightarrow> hm_len (fold (\<lambda>(k, _). hm_remove k) xs m) \<le> hm_len m"
  proof (induction xs arbitrary: m)
    case (Cons x xs)
    show ?case using Cons(1) [of "hm_remove (fst x) m"] Cons(2) hm.len_remove_le [OF Cons(2), of "fst x"]
      by (simp add: case_prod_beta)
  qed simp
  show "hm_get (fold (\<lambda>(k, _). hm_remove k) xs m) k = (if k \<in> fst ` set xs then None else hm_get m k)"
    by (induction xs arbitrary: m) (auto simp: case_prod_beta)
qed

lemma expired_sessions_iff:
  assumes "hm_wf (r_sessions s)"
  shows "(sid, a) \<in> set (expired_sessions now s) \<longleftrightarrow>
    hm_get (r_sessions s) sid = Some a \<and> s_expires_at (r_heap s ! a) \<le> now"
  using assms by (auto simp: expired_sessions_def hm_get_def hm_wf_def)

lemma keeps_reap_sessions:
  assumes ok: "rt_ok env s"
  shows "keeps env t s (snd (reap_sessions env now s))"
proof -
  let ?x = "expired_sessions now s"
  let ?m = "fold (\<lambda>(sid, _). hm_remove sid) ?x (r_sessions s)"
  have wf: "hm_wf (r_sessions s)" using ok by (simp add: rt_ok_def sessions_ok_def)
  have k: "keeps env t s (s\<lparr>r_sessions := ?m\<rparr>)"
    by (rule keeps_sessions_shrink [OF ok]) (simp_all add: fold_remove wf split: if_splits)
  have "hm_get ?m sid \<noteq> Some a" if ex: "a \<in> set (map snd ?x)" for a sid
  proof
    assume g: "hm_get ?m sid = Some a"
    obtain sid' where x: "(sid', a) \<in> set ?x" using ex by auto
    then have "hm_get (r_sessions s) sid' = Some a" by (simp add: expired_sessions_iff [OF wf])
    moreover have "hm_get (r_sessions s) sid = Some a" using g by (simp add: fold_remove(3) split: if_splits)
    ultimately have "sid = sid'" using session_address_unique [OF ok] by blast
    then have "sid \<in> fst ` set ?x" using x by force
    then show False using g by (simp add: fold_remove(3))
  qed
  then have "keeps env t (s\<lparr>r_sessions := ?m\<rparr>) (close_all env (map snd ?x) (s\<lparr>r_sessions := ?m\<rparr>))"
    by (intro keeps_close_all [OF keeps_ok [OF k]]) simp
  then show ?thesis using keeps_trans [OF k] by (simp add: reap_sessions_def Let_def close_all_sessions)
qed

lemma quiet_reap_due: "quiet_task env t W (reap_due env now)"
  unfolding reap_due_def
  by (intro quiet_intros quiet_atomic quiet_update quiet_remove_all_artifacts keeps_reap_sessions
      keeps_discovery_retain keeps_launch_retain)

lemma quiet_expiration_round: "quiet_task env t W (expiration_round env)"
  unfolding expiration_round_def nearest_deadline_def leave_round_def
  by (intro quiet_intros quiet_blocking quiet_observe quiet_update quiet_reap_due)
    (simp_all add: Let_def keeps_refl keeps_scheduler)

lemma quiet_read_artifact: "quiet_task env t W (runtime_read_artifact env artifact n)"
  unfolding runtime_read_artifact_def by (intro quiet_intros quiet_try_worker quiet_observe quiet_release_worker)

lemma keeps_take_section: "rt_ok env s \<Longrightarrow> keeps env t s (snd (take_section env artifact n s))"
  using take_artifact_ok [of "r_artifacts s" "e_canon env" "e_sha env" "e_io env (r_world s)" artifact n]
  by (auto simp: take_section_def case_prod_beta rt_ok_def [of env] intro!: keeps_artifacts)

lemma quiet_take_artifact: "quiet_task env t W (runtime_take_artifact env artifact n)"
  unfolding runtime_take_artifact_def
  by (intro quiet_intros quiet_try_worker quiet_atomic keeps_take_section quiet_release_worker)

section \<open>The pool\<close>

text \<open>What every finished task leaves behind.\<close>

definition reported :: "'w rt_env \<Rightarrow> nat \<Rightarrow> task_result \<Rightarrow> 'w runtime \<Rightarrow> bool" where
  "reported env t res s =
     (case res of
        R_Command r \<Rightarrow> finished t (faithful env t r) s
      | R_Shutdown \<Rightarrow> r_cleared s
      | _ \<Rightarrow> True)"

lemma stable_reported: "rt.stable env t (reported env t res)"
proof (cases res)
  case (R_Command r)
  then show ?thesis using robust_stable [OF robust_finished] by (simp add: reported_def [abs_def])
qed (simp_all add: reported_def [abs_def] stable_cleared robust_stable [OF robust_True])

lemma quiet_reported:
  assumes "quiet_task env t (\<lambda>_. True) p" "\<And>x s. reported env t (f x) s"
  shows "rt.triple env t (untouched t) (mapP f p) (reported env t)"
proof (rule rt.triple_mapP [OF _ stable_reported])
  show "rt.triple env t (untouched t) p (\<lambda>x. reported env t (f x))"
    by (rule rt.triple_weaken [OF quiet_triple [OF assms(1) robust_True]]) (simp_all add: assms(2))
qed

lemma runtime_task_triple:
  assumes "runtime_task env t p"
  shows "rt.triple env t (untouched t) p (reported env t)"
  using assms
proof (cases rule: runtime_task.cases)
  case (rt_execute cmd)
  show ?thesis unfolding rt_execute
    by (rule rt.triple_mapP [OF _ stable_reported])
      (use triple_execute [of env t cmd] in \<open>simp add: reported_def [abs_def]\<close>)
next
  case rt_shutdown
  have "rt.triple env t (untouched t) (shutdown env t) (\<lambda>_. reported env t R_Shutdown)"
    by (rule rt.triple_weaken [OF triple_shutdown]) (simp_all add: reported_def)
  then show ?thesis unfolding rt_shutdown by (rule rt.triple_mapP [OF _ stable_reported])
qed (auto intro!: quiet_reported quiet_read_artifact quiet_take_artifact quiet_expiration_round simp: reported_def)

lemma keeps_everywhere:
  assumes k: "\<And>t. keeps env t s s'"
  shows "guar env {} s s'"
proof -
  have "honours u s s'" for u using keeps_guar [OF k, of "Suc u"] by (simp add: guar_def)
  moreover have "r_trace s' = r_trace s" using keeps_view [OF k] by (simp add: view_def)
  ultimately show ?thesis using keeps_guar [OF k [of 0]] by (simp add: guar_def)
qed

lemma keeps_time: "rt_ok env s \<Longrightarrow> r_now s \<le> later \<Longrightarrow> keeps env t s (s\<lparr>r_now := later\<rparr>)"
  by (simp add: keeps_def guar_def rt_ok_def life_ok_def view_def no_revival_def honours_def)

lemma surroundings_ok:
  assumes "surroundings s s'" "rt_ok env s"
  shows "rt_ok env s' \<and> guar env {} s s'"
proof -
  have "keeps env t s s'" for t
    using assms by (cases rule: surroundings.cases) (auto intro: keeps_time keeps_world keeps_guard_step)
  then show ?thesis using keeps_everywhere keeps_ok by blast
qed

lemma fresh_runtime_ok:
  assumes "fresh_runtime env s" "inj (e_uuid env)"
  shows "rt_ok env s \<and> r_trace s = []"
proof -
  let ?new = "\<lambda>remove_ok io requested generations n. artifact_store_new (e_uuid env) remove_ok io requested
    (max_image_pixels (e_config env)) (max_artifacts_per_session (e_config env)) (max_image_edge (e_config env)) n generations"
  obtain remove_ok io requested generations configured now w n where
    x: "runtime_new (e_config env) configured (fst (?new remove_ok io requested generations n)) now w
        (fst (snd (?new remove_ok io requested generations n))) = Inr s"
    using assms(1) unfolding fresh_runtime_def Let_def case_prod_beta by blast
  obtain opened n' es' where o: "?new remove_ok io requested generations n = (opened, n', es')" by (metis prod_cases3)
  have r: "runtime_new (e_config env) configured opened now w n' = Inr s" using x o by simp
  have v: "config_valid (e_config env)" using r by (auto simp: runtime_new_def split: if_splits)
  obtain st where st: "opened = Inr st" using r v by (cases opened) (auto simp: runtime_new_def bindR_def split: sum.splits)
  have "store_ok st" using artifact_store_new_ok [of "e_uuid env"] o st v by (auto simp: config_valid_def)
  then show ?thesis
    using r v st assms(2)
    by (auto simp: runtime_new_def bindR_def rt_ok_def life_ok_def heap_ok_def sessions_ok_def discovery_ok_def
        launch_ok_def claims_ok_def dispatches_ok_def hm_len_def split: sum.splits)
qed

theorem reachable_config:
  assumes "reachable env s0 cfg" "fresh_runtime env s0" "inj (e_uuid env)"
  shows "rt.config_ok env untouched (reported env) cfg \<and> guar env UNIV s0 (snd cfg)"
proof -
  have ok: "rt_ok env s0" "r_trace s0 = []" using fresh_runtime_ok [OF assms(2,3)] by simp_all
  have "rt.config_ok env untouched (reported env) (Map.empty, s0)"
    using ok by (simp add: rt.config_ok_def untouched_def history_def)
  from rt.reachable_ok [OF assms(1) [unfolded reachable_def] this robust_stable [OF robust_untouched]
      rt.tripleD [OF runtime_task_triple] surroundings_ok]
  show ?thesis by simp
qed

end
