(* ===== verification/RuntimeExample.thy ===== *)
theory RuntimeExample
  imports RuntimeLife
begin

text \<open>
  A concrete runtime over a desktop with one application and one window: a client discovers the
  application, opens a session, lists and observes the window and performs one action on it.
\<close>

definition unsupported :: "'w \<Rightarrow> (driver_error + 'a) \<times> 'w" where
  "unsupported w = (Inl (driver_error_new DE_Unsupported ''unsupported''), w)"

definition ex_application :: driver_application where
  "ex_application =
     \<lparr>dapp_key = ''k'', dapp_process_generation = ''g'', dapp_identity = ''i'', dapp_name = ''n'',
      dapp_application_id = ''a'', dapp_foreground = False, dapp_provenance = AP_Unsupported None\<rparr>"

definition ex_bounds :: screen_rect where
  "ex_bounds = \<lparr>sr_x = Fin 0, sr_y = Fin 0, sr_width = Fin 8, sr_height = Fin 8\<rparr>"

definition ex_window :: driver_window where
  "ex_window =
     \<lparr>dw_key = ''w'', dw_application = ex_application, dw_title = ''t'', dw_screen_bounds = ex_bounds,
      dw_state = WS_Normal, dw_visible = True, dw_foreground = False\<rparr>"

definition ex_observation :: driver_observation where
  "ex_observation =
     \<lparr>dob_window_key = ''w'', dob_window_screen_bounds = ex_bounds, dob_screenshot = None,
      dob_screenshot_screen_bounds = None, dob_elements = [], dob_elements_complete = True,
      dob_elements_truncation = None, dob_fingerprint = ''f''\<rparr>"

definition ex_driver :: "unit desktop_driver" where
  "ex_driver =
     \<lparr>session_started_guarded = (\<lambda>_ _ _ w. (Inr (), w)), session_closed = (\<lambda>_ w. w),
      settle_window = default_settle_window, observe_window_scoped = (\<lambda>_ _ _ _ w. (Inr ex_observation, w)),
      observe_application_scene_scoped = default_observe_application_scene_scoped, capabilities = unsupported,
      permission_status_call = unsupported, list_applications = (\<lambda>w. (Inr [ex_application], w)),
      list_launchable_applications = default_list_launchable_applications,
      launch_application_call = default_launch_application,
      list_windows_call = (\<lambda>_ w. (Inr [ex_window], w)), list_displays_call = default_list_displays,
      observe_display_call = default_observe_display, read_clipboard_call = default_read_clipboard,
      write_clipboard_call = default_write_clipboard, observation_is_current = (\<lambda>_ _ w. (Inr True, w)),
      perform_action_scoped = (\<lambda>_ _ _ _ _ w. (Inr (confirmed_output DM_Background), w)),
      verify_state_call = (\<lambda>_ _. unsupported)\<rparr>"

definition ex_env :: "unit rt_env" where
  "ex_env =
     \<lparr>e_driver = ex_driver, e_config = default_config, e_epoch = ''e'', e_uuid = (\<lambda>n. replicate n CHR ''u''),
      e_wall = (\<lambda>_ _. Some ''t''), e_io = (\<lambda>_. no_faults), e_png = (\<lambda>_ _ _. Inr []), e_sha = (\<lambda>_. []),
      e_canon = (\<lambda>_. Some), e_timer_first = (\<lambda>_. False)\<rparr>"

lemma ex_inj: "inj (e_uuid ex_env)"
  by (rule injI) (metis ex_env_def length_replicate rt_env.select_convs(4))

definition ex_store :: artifact_store where
  "ex_store =
     \<lparr>ast_root = [''b'', ''runtime_''], ast_max_image_pixels = 100000000, ast_max_image_edge = 1568,
      ast_max_artifacts_per_session = 32, ast_artifacts = [], ast_files = []\<rparr>"

definition ex_start :: "unit runtime" where
  "ex_start =
     \<lparr>r_now = 0, r_world = (), r_next_uuid = 1, r_next_lease = 0, r_artifacts = ex_store,
      r_artifact_workers = 2, r_discovery = [], r_launch_discovery = [], r_sessions = [], r_heap = [],
      r_scheduler = False, r_signal = Reschedule, r_signal_version = 0, r_signal_seen = 0,
      r_loop_busy = False, r_loop_done = False, r_lifecycle_readers = [], r_lifecycle_writer = None,
      r_foreground_lane = None, r_clipboard_lane = None, r_shutdown_guard = None,
      r_closed = False, r_cleared = False, r_trace = []\<rparr>"

lemma ex_fresh: "fresh_runtime ex_env ex_start"
  unfolding fresh_runtime_def
  by (rule exI [of _ "\<lambda>_. True"], rule exI [of _ no_faults], rule exI [of _ "Some ([''b''], Directory)"], rule exI [of _ "[]"],
      rule exI [of _ "Inr ()"], rule exI [of _ 0], rule exI [of _ "()"], rule exI [of _ 0])
    (simp add: ex_env_def artifact_store_new_def prepare_generation_def no_faults_def default_config_def Let_def
      runtime_new_def config_valid_def from_secs_def DEFAULT_MAX_OBSERVATION_AGE_SECONDS_def
      MAX_CONFIGURED_CLIPBOARD_TEXT_BYTES_def bindR_def ex_start_def ex_store_def)

definition ex_disc :: discovery_ref where "ex_disc = DiscoveryRef ''discovery_u''"

definition ex_manifest :: capability_manifest where
  "ex_manifest =
     \<lparr>cm_mode = Bounded, cm_application_refs = [ex_disc], cm_allowed_actions = [K_SetWindowMinimized],
      cm_allow_foreground_input = False, cm_restore_foreground_after_input = False,
      cm_allow_display_capture = False, cm_allow_clipboard_read = False, cm_allow_clipboard_write = False,
      cm_ttl_seconds = 60\<rparr>"

lemmas ex_defs = ex_env_def ex_driver_def ex_start_def ex_application_def ex_disc_def ex_manifest_def default_config_def
lemmas run_defs = execute_def admitted_command_def observe_def update_def enter_lifecycle_def leave_lifecycle_def
  policy_authorize_def stack_layers_def ensure_scheduler_def signal_reschedule_def send_replace_def call_public_def call_def
  Let_def ok_or_def bindR_def from_secs_def as_secs_def hm_get_def hm_insert_def hm_remove_def hm_retain_def hm_len_def
  DEFAULT_MAX_OBSERVATION_AGE_SECONDS_def


definition ex_record :: discovery_record where
  "ex_record = \<lparr>dr_runtime_epoch = ''e'', dr_application = ex_application, dr_expires_at = 30000000000\<rparr>"

definition ex_discovered :: "unit runtime" where
  "ex_discovered = ex_start\<lparr>r_next_uuid := 2, r_discovery := [(ex_disc, ex_record)], r_scheduler := True, r_signal_version := 1\<rparr>"

lemma ex_discover: "\<exists>r. finish id (execute ex_env 0 DiscoverApplications) ex_start = Some (r, ex_discovered)"
  by (simp add: discover_applications_def order_applications_def discovery_expiry_def expiry_section_def
      discovery_section_def discovered_of_def discovery_record_of_def run_defs ex_defs ex_discovered_def ex_record_def)


lemma ex_ttl: "session_ttl_limit ex_env = 3600"
  by (simp add: session_ttl_limit_def u32_saturating_from_def u32_try_from_def u32_max_def as_secs_def from_secs_def ex_defs)

lemma ex_manifest_valid: "validate_manifest ex_manifest 3600 = Inr ()"
proof -
  have "trim ''discovery_u'' = ''discovery_u''" by code_simp
  then show ?thesis
    by (simp add: validate_manifest_def ex_manifest_def ex_disc_def MAX_ALLOWED_APPLICATIONS_def MAX_ACTIONS_def
        MAX_APPLICATION_ALLOWLIST_BYTES_def MAX_DISCOVERY_REF_BYTES_def all_unique_def Let_def ok_or_def bindR_def checked_add_usize_def)
qed


lemma ex_env_simps:
  "e_driver ex_env = ex_driver" "e_config ex_env = default_config" "e_epoch ex_env = ''e''"
  "e_uuid ex_env n = replicate n CHR ''u''" "e_wall ex_env a b = Some ''t''" "e_io ex_env x = no_faults"
  by (simp_all add: ex_env_def)


lemma ex_manifest_simps:
  "cm_application_refs ex_manifest = [ex_disc]" "cm_ttl_seconds ex_manifest = 60"
  "cm_mode ex_manifest = Bounded" "cm_allowed_actions ex_manifest = [K_SetWindowMinimized]"
  "\<not> cm_allow_foreground_input ex_manifest" "\<not> cm_restore_foreground_after_input ex_manifest"
  by (simp_all add: ex_manifest_def)


definition ex_sid :: session_id where "ex_sid = SessionId (''session_'' @ replicate 2 CHR ''u'')"
definition ex_session :: session where
  "ex_session =
     \<lparr>s_guard = new_lease 0 new_guard_world, s_id = ex_sid, s_manifest = ex_manifest,
      s_allowed_applications = [ex_application], s_expires_at = 60000000000, s_state = new_session_state\<rparr>"

definition ex_opened :: "unit runtime" where
  "ex_opened = ex_discovered\<lparr>r_next_uuid := 3, r_next_lease := 1, r_sessions := [(ex_sid, 0)], r_heap := [ex_session],
     r_signal_version := 2\<rparr>"

lemmas ex_run = ex_start_def default_config_def ex_driver_def ex_env_simps ex_manifest_simps run_defs

lemma ex_open: "\<exists>r. finish id (execute ex_env 1 (OpenSession ex_manifest)) ex_discovered = Some (r, ex_opened)"
  by (simp add: open_session_def ex_ttl ex_manifest_valid resolve_discovery_refs_def ex_run
    resolve_expected_def resolve_current_def session_expiry_def admit_session_def new_session_def matches_generation_def
     ex_discovered_def ex_record_def ex_opened_def ex_sid_def ex_session_def)


definition ex_wref :: window_ref where "ex_wref = WindowRef (''window_'' @ replicate 4 CHR ''u'')"
definition ex_state :: session_state where
  "ex_state =
     \<lparr>applications = [(AppRef (''app_'' @ replicate 3 CHR ''u''), ex_application)],
      application_refs = [(''k'', AppRef (''app_'' @ replicate 3 CHR ''u''))],
      windows = [(ex_wref, ex_window)], window_refs = [(''w'', ex_wref)], displays = [],
      display_refs = [], observations = [], clipboard = None\<rparr>"

definition ex_listed :: "unit runtime" where
  "ex_listed = ex_opened\<lparr>r_next_uuid := 5, r_heap := [ex_session\<lparr>s_state := ex_state\<rparr>]\<rparr>"

lemmas ex_session_run = session_lookup_def session_section_def session_is_closed_def upd_state_def upd_session_def
  allows_application_def matches_generation_def

lemma ex_window_simps: "dw_application ex_window = ex_application" "dw_key ex_window = ''w''" "dapp_key ex_application = ''k''"
  by (simp_all add: ex_window_def ex_application_def)

lemma ex_list:
  "\<exists>r. finish id (execute ex_env 2 (ListWindows \<lparr>lwi_session_id = ex_sid, lwi_app_ref = None\<rparr>)) ex_opened = Some (r, ex_listed)"
  by (simp add: list_windows_def application_key_of_def scope_keys_def project_section_def project_application_def
    project_window_def ex_session_run ex_run ex_opened_def ex_discovered_def ex_session_def new_session_state_def
    ex_window_simps ex_listed_def ex_state_def ex_wref_def)

definition ex_oid :: observation_id where "ex_oid = ObservationId (''observation_'' @ replicate 5 CHR ''u'')"


definition ex_observe :: command where
  "ex_observe = ObserveWindow \<lparr>owi_session_id = ex_sid, owi_window_ref = ex_wref, owi_include_screenshot = False,
     owi_accessibility = AM_Disabled\<rparr>"

definition ex_obs :: "observation_status \<Rightarrow> observation_record" where
  "ex_obs status =
     \<lparr>obs_application_scene = False, obs_id = ex_oid, obs_window_ref = ex_wref, obs_screenshot_mapping = None,
      obs_fingerprint = ''f'', obs_created_at = 0, obs_status = status, obs_elements = []\<rparr>"

definition ex_observed :: "unit runtime" where
  "ex_observed = ex_listed\<lparr>r_next_uuid := 6,
     r_heap := [ex_session\<lparr>s_state := ex_state\<lparr>observations := [(ex_oid, ex_obs OS_Valid)]\<rparr>\<rparr>]\<rparr>"

lemmas ex_states = ex_opened_def ex_discovered_def ex_session_def ex_listed_def ex_state_def
lemmas ex_guard = new_lease_def new_guard_world_def new_cells_def

lemma ex_observe_run: "\<exists>r. finish id (execute ex_env 3 ex_observe) ex_listed = Some (r, ex_observed)"
  by (simp add: ex_observe_def observe_window_def observe_driver_window_def observe_once_def is_over_def capture_screenshot_def
    store_observation_def project_observation_def truncation_of_def trim_observations_def invalidate_window_observations_def
    ex_session_run ex_run ex_states ex_guard ex_window_simps ex_observation_def hm_map_def ex_observed_def ex_oid_def ex_obs_def)

definition ex_input :: perform_action_input where
  "ex_input = \<lparr>pai_observe_after = None, pai_session_id = ex_sid, pai_window_ref = ex_wref,
     pai_observation_id = ex_oid, pai_action = SetWindowMinimized True\<rparr>"


lemma finish_wait_idle:
  assumes "guard_check a g s = Inr ()" "remaining_quiet INPUT_QUIET_PERIOD (r_now s) (activity (cells (guard_of s a))) = 0"
  shows "finish rest (wait_idle a g) s = Some (Inr (), s)"
  by (simp add: wait_idle_def observe_def wait_rounds.simps finish_Step assms)

definition ex_ticket :: ticket where "ex_ticket = T_Observation 0 ex_oid"

definition ex_guard_1 :: guard where
  "ex_guard_1 = \<lparr>g_expires_at = 60000000000, g_observed_at = Some 0, g_lease = 1\<rparr>"

definition ex_call :: native_call where
  "ex_call = N_Perform ex_input ex_window (D_SetWindowMinimized True) ex_guard_1"

definition ex_output :: action_output where
  "ex_output =
     \<lparr>ao_observation = None, ao_observation_error = None, ao_delivery_mode = DM_Background, ao_dispatched = True,
      ao_effect_status = Confirmed, ao_evidence_kind = NativeReadback, ao_foreground_restoration = FR_NotRequested,
      ao_observation_invalidated = True\<rparr>"

definition ex_performed :: "unit runtime" where
  "ex_performed = ex_observed\<lparr>r_next_lease := 2,
     r_heap := [ex_session\<lparr>s_state := ex_state\<lparr>observations := [(ex_oid, ex_obs OS_Invalid)]\<rparr>\<rparr>],
     r_trace := [Claim 4 ex_ticket, Dispatch 4 ex_ticket ex_call, Returned 4 ex_ticket None]\<rparr>"

lemma ex_perform:
  "finish id (execute ex_env 4 (PerformAction ex_input)) ex_observed = Some (Inr (ActionPerformed ex_output), ex_performed)"
  by (simp add: perform_action_def perform_action_only_def validate_action_authority_def acquire_guard_def perform_guarded_def
       perform_in_lane_def begin_action_def checked_action_def observation_usable_def verification_section_def
       dispatch_action_def mutating_call_def invalidate_after_action_attempt_def admitted_action_result_def
       project_action_output_def set_status_def emit_def finish_wait_idle upd_guard_def new_activity_def guard_check_def check_def
       remaining_quiet_def action_guard_def guard_new_def was_dispatched_def guard_check_observation_def 
       after_command_def ex_input_def activity_check_observation_def resolve_action_def validate_scene_delivery_def drop_lease_def hm_modify_def confirmed_output_def evidence_is_coherent_def status_of_def set_invalid_def invalidate_window_observations_def
       ex_session_run ex_run ex_states ex_guard ex_window_simps ex_observation_def hm_map_def ex_observed_def ex_obs_def
    ex_performed_def ex_output_def ex_call_def ex_guard_1_def ex_ticket_def)

text \<open>The commands as the runs of the system.\<close>

abbreviation steps ::
  "'w rt_env \<Rightarrow> ('w runtime, task_result) config \<Rightarrow> ('w runtime, task_result) config \<Rightarrow> bool" where
  "steps env \<equiv> (pool_step (runtime_task env) surroundings)\<^sup>*\<^sup>*"

lemma steps_task:
  assumes "runtime_task env t (mapP f p)" "pool t = None" "finish rest p s = Some (x, s')"
    and "\<And>s. surroundings\<^sup>*\<^sup>* s (rest s)"
  shows "steps env (pool, s) (pool(t \<mapsto> Ret (f x)), s')"
proof -
  have "pool_step (runtime_task env) surroundings (pool, s) (pool(t \<mapsto> mapP f p), s)"
    using assms(1,2) by (intro ps_spawn)
  moreover have "steps env (pool(t \<mapsto> mapP f p), s) ((pool(t \<mapsto> mapP f p))(t \<mapsto> Ret (f x)), s')"
    using assms(3) by (intro finish_steps [where rest = rest and p = "mapP f p"] assms(4)) simp_all
  ultimately show ?thesis by (simp add: converse_rtranclp_into_rtranclp)
qed

lemmas steps_execute = steps_task [OF rt_execute _ _, where rest = id, simplified]
lemmas steps_shutdown = steps_task [OF rt_shutdown _ _, where rest = id, simplified]

lemma reachable_steps: "reachable env s0 cfg \<Longrightarrow> steps env cfg cfg' \<Longrightarrow> reachable env s0 cfg'"
  unfolding reachable_def by (rule rtranclp_trans)

lemmas reachable_execute = reachable_steps [OF _ steps_execute]

definition reached :: "'w rt_env \<Rightarrow> 'w runtime \<Rightarrow> nat \<Rightarrow> 'w runtime \<Rightarrow> bool" where
  "reached env s0 n s \<longleftrightarrow> (\<exists>pool. (\<forall>t. n \<le> t \<longrightarrow> pool t = None) \<and> reachable env s0 (pool, s))"

lemma reached_execute:
  assumes "reached env s0 n s" "\<exists>r. finish id (execute env n cmd) s = Some (r, s')"
  shows "reached env s0 (Suc n) s'"
proof -
  obtain pool r where p: "\<forall>t. n \<le> t \<longrightarrow> pool t = None" "reachable env s0 (pool, s)"
    and r: "finish id (execute env n cmd) s = Some (r, s')"
    using assms unfolding reached_def by blast
  have "reachable env s0 (pool(n \<mapsto> Ret (R_Command r)), s')" using p by (intro reachable_execute [OF _ _ r]) auto
  then show ?thesis using p(1) unfolding reached_def 
    by (intro exI [of _ "pool(n \<mapsto> Ret (R_Command r))"]) simp
qed

lemma ex_reached: "reached ex_env ex_start 4 ex_observed"
proof -
  have "reached ex_env ex_start 0 ex_start" by (auto simp: reached_def reachable_def)
  from reached_execute [OF this ex_discover] have "reached ex_env ex_start 1 ex_discovered" by simp
  from reached_execute [OF this ex_open] have "reached ex_env ex_start 2 ex_opened" by (simp add: numeral_2_eq_2)
  from reached_execute [OF this ex_list] have "reached ex_env ex_start 3 ex_listed" by (simp add: numeral_3_eq_3)
  from reached_execute [OF this ex_observe_run] show ?thesis by simp
qed

lemma ex_reachable:
  "\<exists>pool. pool 4 = Some (Ret (R_Command (Inr (ActionPerformed ex_output)))) \<and> (\<forall>t. 5 \<le> t \<longrightarrow> pool t = None) \<and>
     reachable ex_env ex_start (pool, ex_performed)"
proof -
  obtain pool where "\<forall>t. 4 \<le> t \<longrightarrow> pool t = None" "reachable ex_env ex_start (pool, ex_observed)"
    using ex_reached unfolding reached_def by blast
  then show ?thesis using reachable_execute [OF _ _ ex_perform] by (intro exI [of _ "pool(4 \<mapsto> _)"]) auto
qed

text \<open>A runtime that is shut down at once, and a command that comes too late.\<close>

definition ex_shut :: "unit runtime" where
  "ex_shut = ex_start\<lparr>r_closed := True, r_cleared := True\<rparr>"

lemma ex_shutdown: "finish id (shutdown ex_env 0) ex_start = Some ((), ex_shut)"
  by (simp add: shutdown_def shutdown_body_def stop_scheduler_def drain_sessions_def update_def hm_keys_def hm_values_def
      ex_shut_def ex_start_def)

lemma ex_late: "finish id (execute ex_env 1 GetCapabilities) ex_shut = Some (Inl runtime_unavailable, ex_shut)"
  by (simp add: execute_def observe_def update_def enter_lifecycle_def leave_lifecycle_def ex_shut_def ex_start_def)

lemma ex_shut_reachable: "reachable ex_env ex_start ([0 \<mapsto> Ret R_Shutdown], ex_shut)"
proof -
  have "steps ex_env (Map.empty, ex_start) ([0 \<mapsto> Ret R_Shutdown], ex_shut)"
    by (rule steps_shutdown) (simp_all add: ex_shutdown)
  then show ?thesis by (simp add: reachable_def)
qed

lemma ex_late_steps:
  "steps ex_env ([0 \<mapsto> Ret R_Shutdown], ex_shut)
     ([0 \<mapsto> Ret R_Shutdown, 1 \<mapsto> Ret (R_Command (Inl runtime_unavailable))], ex_shut)"
  by (rule steps_execute) (use ex_late in simp_all)

end
