(* ===== verification/RuntimeProgress.thy ===== *)
theory RuntimeProgress
  imports RuntimeLife
begin

text \<open>
  Commands return. A command that runs alone reaches its end, and its waits take no longer than the
  bound of the wait for idle input: the driver and the other parameters answer at once in the model,
  so the time that passes is the time the service itself waits.
\<close>

section \<open>Programs that return\<close>

text \<open>One wait: the sleep between two rounds of the wait for idle input.\<close>

definition pause :: "'w runtime \<Rightarrow> 'w runtime" where
  "pause s = s\<lparr>r_now := r_now s + from_millis 25\<rparr>"

definition clock :: "'w runtime \<Rightarrow> instant \<times> nat" where
  "clock s = (r_now s, r_artifact_workers s)"

definition returns :: "duration \<Rightarrow> ('w runtime, 'a) prog \<Rightarrow> bool" where
  "returns d p \<longleftrightarrow>
     (\<forall>s. r_artifact_workers s \<noteq> 0 \<longrightarrow>
        (\<exists>x s'. finish pause p s = Some (x, s') \<and> r_artifact_workers s' = r_artifact_workers s \<and> r_now s' \<le> r_now s + d))"

named_theorems returns_intros

lemma returnsI:
  "(\<And>s. r_artifact_workers s \<noteq> 0 \<Longrightarrow>
      \<exists>x s'. finish pause p s = Some (x, s') \<and> r_artifact_workers s' = r_artifact_workers s \<and> r_now s' \<le> r_now s + d) \<Longrightarrow>
   returns d p"
  by (simp add: returns_def)

lemma returnsE:
  assumes "returns d p" "r_artifact_workers s \<noteq> 0"
  obtains x s' where "finish pause p s = Some (x, s')" "r_artifact_workers s' = r_artifact_workers s" "r_now s' \<le> r_now s + d"
  using assms unfolding returns_def by blast

lemma returns_Ret [returns_intros]: "returns d (Ret x)"
  by (rule returnsI) simp

lemma returns_seq:
  assumes "returns d p" "\<And>x. returns e (k x)"
  shows "returns (d + e) (bindP p k)"
proof (rule returnsI)
  fix s :: "'a runtime" assume w: "r_artifact_workers s \<noteq> 0"
  obtain x s1 where 1: "finish pause p s = Some (x, s1)" "r_artifact_workers s1 = r_artifact_workers s" "r_now s1 \<le> r_now s + d"
    by (rule returnsE [OF assms(1) w])
  have w1: "r_artifact_workers s1 \<noteq> 0" using w 1(2) by simp
  obtain y s2 where 2: "finish pause (k x) s1 = Some (y, s2)" "r_artifact_workers s2 = r_artifact_workers s1" "r_now s2 \<le> r_now s1 + e"
    by (rule returnsE [OF assms(2) w1])
  show "\<exists>y s'. finish pause (bindP p k) s = Some (y, s') \<and> r_artifact_workers s' = r_artifact_workers s \<and> r_now s' \<le> r_now s + (d + e)"
    using 1 2 by simp
qed

lemma returns_bindP [returns_intros]: "returns 0 p \<Longrightarrow> (\<And>x. returns e (k x)) \<Longrightarrow> returns e (bindP p k)"
  using returns_seq [of 0 p e k] by simp

lemma returns_bindP_right: "returns d p \<Longrightarrow> (\<And>x. returns 0 (k x)) \<Longrightarrow> returns d (bindP p k)"
  using returns_seq [of d p 0 k] by simp

lemma returns_case_sum [returns_intros]:
  "(\<And>e. z = Inl e \<Longrightarrow> returns d (f e)) \<Longrightarrow> (\<And>x. z = Inr x \<Longrightarrow> returns d (g x)) \<Longrightarrow> returns d (case z of Inl e \<Rightarrow> f e | Inr x \<Rightarrow> g x)"
  by (cases z) simp_all

lemma returns_bindE [returns_intros]: "returns 0 p \<Longrightarrow> (\<And>x. returns e (k x)) \<Longrightarrow> returns e (bindE p k)"
  unfolding bindE_def by (intro returns_intros)

lemma returns_bindE_right: "returns d p \<Longrightarrow> (\<And>x. returns 0 (k x)) \<Longrightarrow> returns d (bindE p k)"
  unfolding bindE_def by (erule returns_bindP_right) (auto intro: returns_intros)

lemma returns_lift_result [returns_intros]: "(\<And>x. returns d (k x)) \<Longrightarrow> returns d (lift_result r k)"
  unfolding lift_result_def by (intro returns_intros)

lemma returns_mapP [returns_intros]: "returns d p \<Longrightarrow> returns d (mapP f p)"
  unfolding mapP_def by (erule returns_bindP_right) (rule returns_Ret)

lemma returns_if [returns_intros]: "(c \<Longrightarrow> returns d p) \<Longrightarrow> (\<not> c \<Longrightarrow> returns d q) \<Longrightarrow> returns d (if c then p else q)"
  by simp

lemma returns_Let [returns_intros]: "returns d (f x) \<Longrightarrow> returns d (Let x f)"
  by simp

lemma returns_case_prod [returns_intros]: "(\<And>x y. returns d (f x y)) \<Longrightarrow> returns d (case z of (x, y) \<Rightarrow> f x y)"
  by (cases z) simp

lemma returns_case_option [returns_intros]:
  "returns d p \<Longrightarrow> (\<And>x. returns d (f x)) \<Longrightarrow> returns d (case z of None \<Rightarrow> p | Some x \<Rightarrow> f x)"
  by (cases z) simp_all

lemma returns_case_lookup [returns_intros]:
  "returns d p \<Longrightarrow> returns d q \<Longrightarrow> (\<And>a ses. returns d (f a ses)) \<Longrightarrow>
     returns d (case z of Missing \<Rightarrow> p | Expired \<Rightarrow> q | Found a ses \<Rightarrow> f a ses)"
  by (cases z) simp_all

lemma returns_atomic [returns_intros]: "(\<And>s. clock (snd (f s)) = clock s) \<Longrightarrow> returns 0 (atomic f)"
  unfolding returns_def by (auto simp: clock_def) (metis prod.collapse order_refl)

lemma returns_observe [returns_intros]: "returns 0 (observe f)"
  unfolding observe_def by (rule returns_atomic) simp

lemma returns_update [returns_intros]: "(\<And>s. clock (f s) = clock s) \<Longrightarrow> returns 0 (update f)"
  unfolding update_def by (rule returns_atomic) simp

lemma returns_call [returns_intros]: "returns 0 (call f)"
  unfolding call_def by (rule returns_atomic) (simp add: clock_def case_prod_beta)

lemma returns_call_public [returns_intros]: "returns 0 (call_public f)"
  unfolding call_public_def by (intro returns_intros)

section \<open>Sections keep the clock and the workers\<close>

lemma clock_updates [simp]:
  "clock (s\<lparr>r_world := w\<rparr>) = clock s" "clock (s\<lparr>r_discovery := dm\<rparr>) = clock s" "clock (s\<lparr>r_launch_discovery := lm\<rparr>) = clock s"
  "clock (s\<lparr>r_sessions := m\<rparr>) = clock s" "clock (s\<lparr>r_heap := h\<rparr>) = clock s" "clock (s\<lparr>r_next_uuid := n\<rparr>) = clock s"
  "clock (s\<lparr>r_next_lease := n\<rparr>) = clock s" "clock (s\<lparr>r_trace := tr\<rparr>) = clock s" "clock (s\<lparr>r_artifacts := ar\<rparr>) = clock s"
  "clock (s\<lparr>r_signal := sg\<rparr>) = clock s" "clock (s\<lparr>r_signal_version := n\<rparr>) = clock s" "clock (s\<lparr>r_scheduler := b\<rparr>) = clock s"
  "clock (s\<lparr>r_foreground_lane := l\<rparr>) = clock s" "clock (s\<lparr>r_clipboard_lane := l\<rparr>) = clock s"
  "clock (s\<lparr>r_lifecycle_readers := rs\<rparr>) = clock s"
  by (simp_all add: clock_def)

lemma clock_helpers [simp]:
  "clock (upd_session a f s) = clock s" "clock (upd_state a g s) = clock s" "clock (upd_guard a h s) = clock s"
  "clock (emit e s) = clock s" "clock (send_replace sig s) = clock s" "clock (close_at env a s) = clock s"
  "clock (set_status a oid st s) = clock s" "clock (set_foreground_lane v s) = clock s" "clock (set_clipboard_lane v s) = clock s"
  "clock (enter_lifecycle t s) = clock s" "clock (leave_lifecycle t s) = clock s"
  by (simp_all add: upd_state_def upd_guard_def upd_session_def emit_def send_replace_def close_at_def set_status_def
      set_foreground_lane_def set_clipboard_lane_def enter_lifecycle_def leave_lifecycle_def Let_def case_prod_beta)

lemma clock_sections [simp]:
  "clock (snd (session_section env sid s)) = clock s"
  "clock (snd (discovery_section env x txt found s)) = clock s"
  "clock (snd (launchable_section env x txt lfound s)) = clock s"
  "clock (snd (consume_launch_ref t lref s)) = clock s"
  "clock (snd (launched_section env x txt app s)) = clock s"
  "clock (snd (admit_session env manifest allowed x s)) = clock s"
  "clock (snd (remove_from_map sid s)) = clock s"
  "clock (snd (project_section a proj s)) = clock s"
  "clock (snd (mint_observation env s)) = clock s"
  "clock (snd (take_marker t a cref s)) = clock s"
  "clock (snd (acquire_guard a ses s)) = clock s"
  "clock (snd (begin_action env t input a ses g s)) = clock s"
  by (simp_all add: session_section_def discovery_section_def launchable_section_def consume_launch_ref_def launched_section_def
      admit_session_def remove_from_map_def project_section_def mint_observation_def take_marker_def acquire_guard_def
      begin_action_def Let_def split: option.split prod.split sum.split)

lemma clock_store [simp]: "clock (snd (store_observation env a input scene started_at txt observation shot s)) = clock s"
  by (simp add: store_observation_def Let_def case_prod_beta split: option.split)

section \<open>Handlers\<close>

lemma returns_signal [returns_intros]: "returns 0 signal_reschedule"
  unfolding signal_reschedule_def by (intro returns_intros) simp

lemma returns_ensure [returns_intros]: "returns 0 ensure_scheduler"
  unfolding ensure_scheduler_def by (intro returns_intros) simp

lemma returns_remove_artifacts [returns_intros]: "returns 0 (remove_artifacts env sid)"
  unfolding remove_artifacts_def by (intro returns_intros) simp

lemma returns_lookup [returns_intros]: "returns 0 (session_lookup env sid)"
  unfolding session_lookup_def by (intro returns_intros) simp

lemma returns_screenshot [returns_intros]: "returns 0 (write_screenshot env sid img bounds)"
proof (rule returnsI)
  fix s :: "'a runtime" assume w: "r_artifact_workers s \<noteq> 0"
  then show "\<exists>x s'. finish pause (write_screenshot env sid img bounds) s = Some (x, s') \<and>
      r_artifact_workers s' = r_artifact_workers s \<and> r_now s' \<le> r_now s + 0"
    by (simp add: write_screenshot_def write_section_def take_worker_def release_worker_def update_def split: prod.split)
qed

lemma returns_mutating_call [returns_intros]:
  "(\<And>s. clock (release s) = clock s) \<Longrightarrow> returns 0 (mutating_call t tk nc release f)"
  unfolding mutating_call_def by (intro returns_intros) (simp_all add: case_prod_beta)

lemma returns_with_lane [returns_intros]:
  "(\<And>v s. clock (set_lane v s) = clock s) \<Longrightarrow> returns 0 body \<Longrightarrow> returns 0 (with_lane lane set_lane t busy body)"
  unfolding with_lane_def by (intro returns_intros) (simp_all)

lemma returns_discover: "returns 0 (discover_applications env)" "returns 0 (discover_launchable_applications env)"
  unfolding discover_applications_def discover_launchable_applications_def discovery_expiry_def
  by (intro returns_intros, simp)+

lemma returns_launch: "returns 0 (launch_application env t input)"
  unfolding launch_application_def launch_consumed_def project_launched_application_def resolve_launch_ref_def discovery_expiry_def
  by (intro returns_intros) simp_all

lemma returns_session: "returns 0 (open_session env manifest)" "returns 0 (close_session env sid)"
  unfolding open_session_def close_session_def resolve_discovery_refs_def
  by (intro returns_intros; simp)+

lemma returns_list: "returns 0 (list_apps env sid)" "returns 0 (list_windows env wi)" "returns 0 (list_displays env sid)"
  unfolding list_apps_def list_windows_def list_displays_def by (intro returns_intros; simp)+

lemma returns_observe_window: "returns 0 (observe_window env input scene)"
  unfolding observe_window_def observe_driver_window_def observe_once_def capture_screenshot_def
  by (intro returns_intros) simp_all

lemma returns_observe_display: "returns 0 (observe_display env input)"
  unfolding observe_display_def by (intro returns_intros) simp_all

lemma returns_clipboard: "returns 0 (read_clipboard env t ri)" "returns 0 (write_clipboard env t wi)"
  unfolding read_clipboard_def write_clipboard_def write_in_lane_def by (intro returns_intros; simp)+

lemma returns_verify: "returns 0 (verify_state env input)" "returns 0 (get_capabilities env)"
  unfolding verify_state_def get_capabilities_def by (intro returns_intros)+

subsection \<open>Waiting for idle input\<close>

lemma finish_wait_rounds:
  "woken \<le> r_now s + from_millis 25 \<Longrightarrow>
   \<exists>r s'. finish pause (wait_rounds a g deadline woken) s = Some (r, s') \<and> r_artifact_workers s' = r_artifact_workers s \<and>
      r_now s' \<le> max (r_now s) deadline + from_millis 25"
proof (induction "deadline - woken" arbitrary: woken s rule: less_induct)
  case less
  define s1 where "s1 = (if woken \<le> r_now s then s else pause s)"
  have s1: "woken \<le> r_now s1" "r_artifact_workers s1 = r_artifact_workers s" "r_now s1 \<le> r_now s + from_millis 25"
    using less.prems by (auto simp: s1_def pause_def)
  let ?remaining = "remaining_quiet INPUT_QUIET_PERIOD (r_now s1) (activity (cells (guard_of s1 a)))"
  have run: "finish pause (wait_rounds a g deadline woken) s =
     (case guard_check a g s1 of Inl e \<Rightarrow> Some (Inl e, s1)
      | Inr _ \<Rightarrow> if ?remaining = 0 then Some (Inr (), s1)
          else if deadline \<le> r_now s1 then Some (Inl wait_busy_error, s1)
          else finish pause (wait_rounds a g deadline (r_now s1 + min ?remaining (from_millis 25))) s1)"
    using s1(1) by (subst wait_rounds.simps) (simp add: finish_Step s1_def [symmetric] Let_def max_absorb2 split: sum.split)
  show ?case
  proof (cases "guard_check a g s1 = Inr () \<and> ?remaining \<noteq> 0 \<and> r_now s1 < deadline")
    case True
    have p: "0 < min ?remaining (from_millis 25)" using True by (simp add: from_millis_def)
    have "\<exists>r s'. finish pause (wait_rounds a g deadline (r_now s1 + min ?remaining (from_millis 25))) s1 = Some (r, s') \<and>
        r_artifact_workers s' = r_artifact_workers s1 \<and> r_now s' \<le> max (r_now s1) deadline + from_millis 25"
      by (rule less.hyps) (use True s1(1) p in linarith, simp)
    then show ?thesis using True run s1 by (auto simp: max_def)
  next
    case False
    then show ?thesis using run s1 by (auto simp: max_def split: sum.split)
  qed
qed

definition WAIT_BOUND :: duration where
  "WAIT_BOUND = INPUT_WAIT_LIMIT + from_millis 25"

lemma returns_wait: "returns WAIT_BOUND (wait_idle a g)"
proof (rule returnsI)
  fix s :: "'a runtime"
  show "\<exists>x s'. finish pause (wait_idle a g) s = Some (x, s') \<and> r_artifact_workers s' = r_artifact_workers s \<and>
      r_now s' \<le> r_now s + WAIT_BOUND"
    using finish_wait_rounds [of "r_now s" s a g "r_now s + INPUT_WAIT_LIMIT"]
    by (simp add: wait_idle_def observe_def WAIT_BOUND_def max_def add.assoc)
qed

lemma returns_invalidate [returns_intros]: "returns 0 (invalidate_sessions application addresses)"
  by (induction application addresses rule: invalidate_sessions.induct) (auto intro!: returns_intros)

lemma returns_lane_action: "returns 0 (perform_in_lane env t input a ses g)"
  unfolding perform_in_lane_def dispatch_action_def invalidate_after_action_attempt_def invalidate_application_generation_def
  by (intro returns_intros) simp_all

lemma returns_perform_only: "returns WAIT_BOUND (perform_action_only env t input)"
proof -
  have g: "returns WAIT_BOUND (perform_guarded env t input a ses g)" for a ses g
    unfolding perform_guarded_def
    by (rule returns_bindE_right [OF returns_mapP [OF returns_wait]]) (intro returns_intros returns_lane_action; simp)
  have p: "returns WAIT_BOUND (bindP (perform_guarded env t input a ses g) (\<lambda>r. bindP (update (upd_guard a (drop_lease (g_lease g)))) (\<lambda>_. Ret r)))"
    for a ses g
    by (rule returns_bindP_right [OF g]) (intro returns_intros; simp)
  show ?thesis
    unfolding perform_action_only_def
    by (rule returns_bindE [OF returns_lookup], rule returns_case_prod, rule returns_bindE [OF returns_observe],
        rule returns_bindP [OF returns_atomic p]) simp
qed

lemma returns_perform: "returns WAIT_BOUND (perform_action env t input)"
  unfolding perform_action_def observe_after_action_def
  by (rule returns_lift_result, rule returns_bindE_right [OF returns_perform_only]) (intro returns_intros returns_observe_window)

lemma returns_mono: "returns d p \<Longrightarrow> d \<le> e \<Longrightarrow> returns e p"
  unfolding returns_def by (meson add_left_mono order_trans)

lemma returns_command: "returns WAIT_BOUND (execute_command env t cmd)"
proof (cases cmd)
  case (PerformAction input)
  then show ?thesis by (simp add: returns_mapP returns_perform)
qed (auto intro!: returns_mono [of 0, OF _ le0] returns_mapP returns_Ret returns_call_public returns_discover returns_launch
    returns_session returns_list returns_observe_window returns_observe_display returns_clipboard returns_verify)

lemma finish_execute:
  assumes "r_lifecycle_writer s = None" "r_artifact_workers s \<noteq> 0"
  shows "\<exists>r s'. finish pause (execute env t cmd) s = Some (r, s') \<and> r_now s' \<le> r_now s + WAIT_BOUND"
proof -
  let ?body = "\<lambda>shut. if shut then Ret (Inl runtime_unavailable) else admitted_command env t cmd"
  have "returns WAIT_BOUND (bindP (observe r_closed) (\<lambda>shut. bindP (?body shut) (\<lambda>r. bindP (update (leave_lifecycle t)) (\<lambda>_. Ret r))))"
    unfolding admitted_command_def
    by (intro returns_bindP returns_bindP_right [of WAIT_BOUND] returns_intros returns_command) simp_all
  from returnsE [OF this, of "enter_lifecycle t s"] show ?thesis
    using assms by (simp add: execute_def enter_lifecycle_def) blast
qed

end
