(* ===== verification/RuntimeProps.thy ===== *)
theory RuntimeProps
  imports RuntimeExample RuntimeProgress
begin

text \<open>
  The properties of the runtime service. They hold of every configuration that tasks of the service
  reach from a runtime that \<^verbatim>\<open>Runtime::new\<close> built, in every interleaving of their sections.
\<close>

section \<open>Reachable configurations\<close>

lemma reachable_inv: "reachable env s0 (pool, s) \<Longrightarrow> fresh_runtime env s0 \<Longrightarrow> inj (e_uuid env) \<Longrightarrow> rt_ok env s"
  using reachable_config [of env s0 "(pool, s)"] by (simp add: rt.config_ok_def)

lemma reachable_reported:
  assumes "reachable env s0 (pool, s)" "fresh_runtime env s0" "inj (e_uuid env)" "pool t = Some (Ret res)"
  shows "reported env t res s"
proof -
  have "rt_ok env s" "safe (rt_ok env) (guar env) t (reported env t) (Ret res) s"
    using reachable_config [OF assms(1-3)] assms(4) by (auto simp: rt.config_ok_def)
  then show ?thesis by (simp add: rt.safe_result)
qed

lemma steps_guar:
  assumes "reachable env s0 (pool, s)" "fresh_runtime env s0" "inj (e_uuid env)" "steps env (pool, s) (pool', s')"
  shows "guar env UNIV s s'"
  using rt.reachable_ok [OF assms(4) conjunct1 [OF reachable_config [OF assms(1-3)]] robust_stable [OF robust_untouched]
      rt.tripleD [OF runtime_task_triple] surroundings_ok]
  by simp

section \<open>Commands after a shutdown\<close>








section \<open>Properties\<close>

lemmas reachable_parts = reachable_inv [unfolded rt_ok_def, THEN conjunct2]

text \<open>
  Claim C1. Every native mutation the service ever starts was claimed by the same command and is
  authorized: an action belongs to a bounded session of that manifest, which lists the kind of the
  action, allows the foreground if the action needs it, and allows the application of the window;
  its guard expires with the session and carries the time of an observation. A clipboard write
  belongs to a session that allows it and its text is within the bounds. In all three cases the
  policy authorizes the command.
\<close>

theorem dispatch_authorized:
  assumes "reachable env s0 (pool, s)" "fresh_runtime env s0" "inj (e_uuid env)"
    and "Dispatch t tk nc \<in> set (r_trace s)"
  shows "Claim t tk \<in> set (r_trace s) \<and> authorized env (r_heap s) tk nc"
  using reachable_inv [OF assms(1-3)] assms(4) by (simp add: rt_ok_def dispatches_ok_def)

theorem dispatch_authorized_witness:
  "Claim 4 ex_ticket \<in> set (r_trace ex_performed) \<and> authorized ex_env (r_heap ex_performed) ex_ticket ex_call"
proof -
  obtain pool where "reachable ex_env ex_start (pool, ex_performed)" using ex_reachable by blast
  from dispatch_authorized [OF this ex_fresh ex_inj, of 4 ex_ticket ex_call] show ?thesis
    by (simp add: ex_performed_def)
qed

text \<open>
  Claim C2. A reference is spent once: no observation, launch reference or clipboard reference is
  claimed twice or dispatched twice, and a claimed one is not usable in any later state of the
  service.
\<close>

theorem references_used_once:
  assumes "reachable env s0 (pool, s)" "fresh_runtime env s0" "inj (e_uuid env)" "steps env (pool, s) (pool', s')"
    and "Claim t tk \<in> set (r_trace s)"
  shows "distinct (claimed_tickets (r_trace s')) \<and> distinct (dispatched_tickets (r_trace s')) \<and> \<not> usable s' tk"
proof -
  have r: "reachable env s0 (pool', s')" by (rule reachable_steps [OF assms(1,4)])
  have "Claim t tk \<in> set (r_trace s')"
    using steps_guar [OF assms(1-4)] assms(5) by (auto simp: guar_def trace_ext_def)
  then show ?thesis
    using reachable_inv [OF r assms(2,3)] by (auto simp: rt_ok_def claims_ok_def dispatches_ok_def in_claimed)
qed

theorem references_used_once_witness:
  "distinct (claimed_tickets (r_trace ex_performed)) \<and> \<not> usable ex_performed ex_ticket"
proof -
  obtain pool where "reachable ex_env ex_start (pool, ex_performed)" using ex_reachable by blast
  from references_used_once [OF this ex_fresh ex_inj rtranclp.rtrancl_refl, of 4 ex_ticket] show ?thesis
    by (simp add: ex_performed_def)
qed

text \<open>The commands with a native call in progress that needs the foreground, or that writes the clipboard.\<close>

definition open_foreground :: "event list \<Rightarrow> nat set" where
  "open_foreground tr = {t. \<exists>tk input window act g. Dispatch t tk (N_Perform input window act g) \<in> set tr \<and>
     requires_foreground (pai_action input) \<and> (\<nexists>st. Returned t tk st \<in> set tr)}"

definition open_clipboard :: "event list \<Rightarrow> nat set" where
  "open_clipboard tr = {t. \<exists>tk input marker. Dispatch t tk (N_WriteClipboard input marker) \<in> set tr \<and>
     (\<nexists>st. Returned t tk st \<in> set tr)}"

lemma dispatch_lane:
  "rt_ok env s \<Longrightarrow> Dispatch t tk nc \<in> set (r_trace s) \<Longrightarrow> \<nexists>st. Returned t tk st \<in> set (r_trace s) \<Longrightarrow>
     lane_held t nc (r_foreground_lane s) (r_clipboard_lane s)"
  unfolding rt_ok_def dispatches_ok_def by blast

text \<open>
  Claim C13. At most one command at a time has a native call in progress that needs the foreground,
  and at most one has a clipboard write in progress: it is the holder of the lane.
\<close>

theorem lanes_exclusive:
  assumes "reachable env s0 (pool, s)" "fresh_runtime env s0" "inj (e_uuid env)"
  shows "open_foreground (r_trace s) \<subseteq> set_option (r_foreground_lane s) \<and> card (open_foreground (r_trace s)) \<le> 1 \<and>
    open_clipboard (r_trace s) \<subseteq> set_option (r_clipboard_lane s) \<and> card (open_clipboard (r_trace s)) \<le> 1"
proof -
  have one: "card A \<le> 1" if "A \<subseteq> set_option o'" for A :: "nat set" and o'
    using card_mono [OF _ that] by (cases o') auto
  have "open_foreground (r_trace s) \<subseteq> set_option (r_foreground_lane s)"
    "open_clipboard (r_trace s) \<subseteq> set_option (r_clipboard_lane s)"
    using dispatch_lane [OF reachable_inv [OF assms]] by (fastforce simp: open_foreground_def open_clipboard_def)+
  then show ?thesis using one by simp
qed

theorem lanes_exclusive_witness: "open_foreground (r_trace ex_performed) \<subseteq> set_option (r_foreground_lane ex_performed)"
proof -
  obtain pool where "reachable ex_env ex_start (pool, ex_performed)" using ex_reachable by blast
  from lanes_exclusive [OF this ex_fresh ex_inj] show ?thesis by simp
qed

text \<open>
  Claim C3. The mutation status of a result is faithful to what the command did. An error whose
  status is \<open>NotDispatched\<close> after a native call had started means that the driver itself reported
  that nothing was dispatched, apart from two cases: a launch whose expiry could not be formatted
  afterwards, and a clipboard write the driver left unclassified. A successful action, launch or
  clipboard write has a native call that returned successfully; no other command starts one.
\<close>

theorem mutation_status_faithful:
  assumes "reachable env s0 (pool, s)" "fresh_runtime env s0" "inj (e_uuid env)"
    and "pool t = Some (Ret (R_Command r))"
  shows "faithful env t r (history t (r_trace s))"
  using reachable_reported [OF assms] by (simp add: reported_def finished_def)

theorem mutation_status_faithful_witness:
  "faithful ex_env 4 (Inr (ActionPerformed ex_output)) (history 4 (r_trace ex_performed))"
proof -
  obtain pool where "reachable ex_env ex_start (pool, ex_performed)"
    "pool 4 = Some (Ret (R_Command (Inr (ActionPerformed ex_output))))" using ex_reachable by blast
  then show ?thesis using mutation_status_faithful [OF _ ex_fresh ex_inj] by blast
qed

text \<open>
  Claim C29. Memory stays bounded: in every reachable state the sessions, the discovery and launch
  records, and in every session the observations and the displays respect their configured limits.
\<close>

theorem capacity_bounds:
  assumes "reachable env s0 (pool, s)" "fresh_runtime env s0" "inj (e_uuid env)"
  shows "hm_len (r_sessions s) \<le> max_active_sessions (e_config env) \<and>
    hm_len (r_discovery s) \<le> max_discovery_records (e_config env) \<and>
    hm_len (r_launch_discovery s) \<le> max_launch_discovery_records (e_config env) \<and>
    list_all (\<lambda>ses. hm_len (observations (s_state ses)) \<le> max_observations_per_session (e_config env) \<and>
      hm_len (displays (s_state ses)) \<le> max_displays_per_session (e_config env)) (r_heap s)"
  using reachable_inv [OF assms]
  by (auto simp: rt_ok_def sessions_ok_def discovery_ok_def launch_ok_def heap_ok_def session_ok_def state_ok_def
      observations_ok_def list_all_length)

theorem capacity_bounds_witness:
  "hm_len (r_sessions ex_performed) \<le> max_active_sessions (e_config ex_env)"
proof -
  obtain pool where "reachable ex_env ex_start (pool, ex_performed)" using ex_reachable by blast
  from capacity_bounds [OF this ex_fresh ex_inj] show ?thesis by simp
qed

text \<open>
  Claim C16. The authority of a session never grows: its identifier, manifest, allowed applications
  and expiry stay as they were admitted, a closed session stays closed, and the first interruption
  of a session (a takeover by the user or a failed monitor) stays, whatever commands run.
\<close>

theorem session_authority_fixed:
  assumes "reachable env s0 (pool, s)" "fresh_runtime env s0" "inj (e_uuid env)" "steps env (pool, s) (pool', s')"
    and "a < length (r_heap s)"
  shows "a < length (r_heap s') \<and> s_id (r_heap s' ! a) = s_id (r_heap s ! a) \<and>
    s_manifest (r_heap s' ! a) = s_manifest (r_heap s ! a) \<and>
    s_allowed_applications (r_heap s' ! a) = s_allowed_applications (r_heap s ! a) \<and>
    s_expires_at (r_heap s' ! a) = s_expires_at (r_heap s ! a) \<and>
    (closed (cells (guard_of s a)) \<longrightarrow> closed (cells (guard_of s' a))) \<and>
    (interruption (cells (guard_of s a)) \<noteq> 0 \<longrightarrow>
       interruption (cells (guard_of s' a)) = interruption (cells (guard_of s a)))"
  using steps_guar [OF assms(1-4)] assms(5) by (auto simp: guar_def heap_ext_def same_session_def)

theorem session_authority_fixed_witness: "s_manifest (r_heap ex_performed ! 0) = ex_manifest"
proof -
  obtain pool where p: "4 \<le> t \<Longrightarrow> pool t = None" "reachable ex_env ex_start (pool, ex_observed)" for t
    using ex_reached unfolding reached_def by blast
  have run: "steps ex_env (pool, ex_observed) (pool(4 \<mapsto> Ret (R_Command (Inr (ActionPerformed ex_output)))), ex_performed)"
    by (rule steps_execute) (use p ex_perform in simp_all)
  from session_authority_fixed [OF p(2) ex_fresh ex_inj run, of 0] show ?thesis
    by (simp add: ex_observed_def ex_session_def)
qed





section \<open>Expiration\<close>

definition deadlines :: "'w runtime \<Rightarrow> instant set" where
  "deadlines s =
     {s_expires_at (r_heap s ! a) | sid a. (sid, a) \<in> set (r_sessions s)} \<union>
     {dr_expires_at r | d r. (d, r) \<in> set (r_discovery s)} \<union>
     {ldr_expires_at r | l r. (l, r) \<in> set (r_launch_discovery s)}"

lemma earliest_Min: "earliest xs = (if xs = [] then None else Some (Min (set xs)))"
  by (induction xs) (auto split: option.split)

lemma earliest_append:
  "earliest (xs @ ys) =
     (case earliest xs of None \<Rightarrow> earliest ys
      | Some x \<Rightarrow> (case earliest ys of None \<Rightarrow> Some x | Some y \<Rightarrow> Some (min x y)))"
  by (induction xs) (auto split: option.split simp: min.assoc)

lemma deadlines_alt:
  "deadlines s = set (map (\<lambda>a. s_expires_at (r_heap s ! a)) (hm_values (r_sessions s)) @
     map dr_expires_at (hm_values (r_discovery s)) @ map ldr_expires_at (hm_values (r_launch_discovery s)))"
  by (force simp: deadlines_def hm_values_def image_def)

text \<open>
  The expiration loop sleeps until the right moment: the nearest deadline is the least
  expiry of all sessions, discovery records and launch records, and there is none exactly when
  nothing can expire.
\<close>

theorem nearest_deadline_least:
  "finish rest nearest_deadline s = Some (if deadlines s = {} then None else Some (Min (deadlines s)), s)"
proof -
  let ?xs = "map (\<lambda>a. s_expires_at (r_heap s ! a)) (hm_values (r_sessions s))"
  let ?ys = "map dr_expires_at (hm_values (r_discovery s))" and ?zs = "map ldr_expires_at (hm_values (r_launch_discovery s))"
  have "finish rest nearest_deadline s = Some (earliest (?xs @ ?ys @ ?zs), s)"
    unfolding nearest_deadline_def earliest_append
    by (simp add: observe_def split: option.split)
  then show ?thesis unfolding deadlines_alt earliest_Min by simp
qed

lemma finish_remove_all:
  "\<exists>ar. finish rest (remove_all_artifacts env sids) s = Some ((), s\<lparr>r_artifacts := ar\<rparr>) \<and>
     (\<forall>sid. hm_get (ast_artifacts ar) sid =
        (if sid \<in> set sids then None else hm_get (ast_artifacts (r_artifacts s)) sid))"
proof (induction sids arbitrary: s)
  case Nil
  show ?case by (rule exI [of _ "r_artifacts s"]) simp
next
  case (Cons sid sids)
  let ?s = "s\<lparr>r_artifacts := remove_session (e_io env (r_world s)) sid (r_artifacts s)\<rparr>"
  obtain ar where "finish rest (remove_all_artifacts env sids) ?s = Some ((), ?s\<lparr>r_artifacts := ar\<rparr>)"
    "\<forall>x. hm_get (ast_artifacts ar) x = (if x \<in> set sids then None else hm_get (ast_artifacts (r_artifacts ?s)) x)"
    using Cons.IH [of ?s] by blast
  then show ?case
    by (intro exI [of _ ar]) (auto simp: remove_artifacts_def update_def remove_session_def Let_def)
qed

lemma close_all_effect:
  "length (r_heap (close_all env addrs s)) = length (r_heap s) \<and>
   r_discovery (close_all env addrs s) = r_discovery s \<and> r_launch_discovery (close_all env addrs s) = r_launch_discovery s \<and>
   (\<forall>a < length (r_heap s). closed (cells (guard_of s a)) \<or> a \<in> set addrs \<longrightarrow> closed (cells (guard_of (close_all env addrs s) a)))"
proof (induction addrs arbitrary: s)
  case (Cons b addrs)
  have "length (r_heap (close_at env b s)) = length (r_heap s)" "r_discovery (close_at env b s) = r_discovery s"
    "r_launch_discovery (close_at env b s) = r_launch_discovery s"
    by (simp_all add: close_at_def upd_session_def Let_def case_prod_beta)
  moreover have "closed (cells (guard_of (close_at env b s) a))"
    if "a < length (r_heap s)" "closed (cells (guard_of s a)) \<or> a = b" for a
    using that by (cases "a = b") (auto simp: close_at_def upd_session_def session_close_def Let_def case_prod_beta)
  ultimately show ?case using Cons.IH [of "close_at env b s"] by auto
qed simp

text \<open>
  Claim C27. A due round of the expiration loop removes exactly what has expired: a session, a
  discovery record or a launch record stays if and only if its expiry is later than the time of
  the round; an expired session is closed and its artifacts are forgotten.
\<close>

theorem reap_due_exact:
  assumes "reachable env s0 (pool, s)" "fresh_runtime env s0" "inj (e_uuid env)"
  shows "\<exists>s'. finish rest (reap_due env now) s = Some ((), s') \<and>
    (\<forall>sid a. hm_get (r_sessions s') sid = Some a \<longleftrightarrow> hm_get (r_sessions s) sid = Some a \<and> now < s_expires_at (r_heap s ! a)) \<and>
    (\<forall>d r. hm_get (r_discovery s') d = Some r \<longleftrightarrow> hm_get (r_discovery s) d = Some r \<and> now < dr_expires_at r) \<and>
    (\<forall>l r. hm_get (r_launch_discovery s') l = Some r \<longleftrightarrow> hm_get (r_launch_discovery s) l = Some r \<and> now < ldr_expires_at r) \<and>
    (\<forall>sid a. hm_get (r_sessions s) sid = Some a \<longrightarrow> s_expires_at (r_heap s ! a) \<le> now \<longrightarrow>
       closed (cells (guard_of s' a)) \<and> hm_get (ast_artifacts (r_artifacts s')) sid = None)"
proof -
  have ok: "rt_ok env s" by (rule reachable_inv [OF assms])
  have wf: "hm_wf (r_sessions s)" "hm_wf (r_discovery s)" "hm_wf (r_launch_discovery s)"
    using ok by (auto simp: rt_ok_def sessions_ok_def discovery_ok_def launch_ok_def)
  have heap: "a < length (r_heap s)" if "hm_get (r_sessions s) sid = Some a" for sid a
    using ok that by (auto simp: rt_ok_def sessions_ok_def)
  let ?x = "expired_sessions now s"
  let ?c = "close_all env (map snd ?x) s"
  let ?m = "fold (\<lambda>(sid, _). hm_remove sid) ?x (r_sessions s)"
  let ?t = "?c\<lparr>r_sessions := ?m, r_discovery := hm_retain (\<lambda>_ r. now < dr_expires_at r) (r_discovery s),
    r_launch_discovery := hm_retain (\<lambda>_ r. now < ldr_expires_at r) (r_launch_discovery s)\<rparr>"
  obtain ar where ar: "finish rest (remove_all_artifacts env (map fst ?x)) ?t = Some ((), ?t\<lparr>r_artifacts := ar\<rparr>)"
    "\<And>sid. hm_get (ast_artifacts ar) sid = (if sid \<in> set (map fst ?x) then None else hm_get (ast_artifacts (r_artifacts ?t)) sid)"
    using finish_remove_all [of rest env "map fst ?x" ?t] by blast
  have run: "finish rest (reap_due env now) s = Some ((), ?t\<lparr>r_artifacts := ar\<rparr>)"
    using ar(1) close_all_effect [of env "map snd ?x" s] by (simp add: reap_due_def update_def reap_sessions_def Let_def)
  have x: "sid \<in> fst ` set ?x \<longleftrightarrow> (\<exists>a. hm_get (r_sessions s) sid = Some a \<and> s_expires_at (r_heap s ! a) \<le> now)" for sid
    using expired_sessions_iff [OF wf(1)] by force
  have cl: "closed (cells (guard_of ?c a))" if "hm_get (r_sessions s) sid = Some a" "s_expires_at (r_heap s ! a) \<le> now" for sid a
  proof -
    have "(sid, a) \<in> set ?x" using that by (simp add: expired_sessions_iff [OF wf(1)])
    then have "a \<in> set (map snd ?x)" by force
    then show ?thesis using heap [OF that(1)] close_all_effect [of env "map snd ?x" s] by blast
  qed
  show ?thesis
    by (rule exI [of _ "?t\<lparr>r_artifacts := ar\<rparr>"])
      (use run cl x ar(2) in \<open>auto simp: fold_remove(3) hm_get_retain wf split: option.splits if_splits\<close>)
qed

theorem reap_due_exact_witness:
  "\<exists>s'. finish id (reap_due ex_env 60000000000) ex_performed = Some ((), s') \<and> hm_get (r_sessions s') ex_sid = None \<and>
     closed (cells (guard_of s' 0))"
proof -
  obtain pool where "reachable ex_env ex_start (pool, ex_performed)" using ex_reachable by blast
  from reap_due_exact [OF this ex_fresh ex_inj, of id 60000000000] obtain s' where
    s': "finish id (reap_due ex_env 60000000000) ex_performed = Some ((), s')"
      "\<And>sid a. hm_get (r_sessions s') sid = Some a \<Longrightarrow>
         hm_get (r_sessions ex_performed) sid = Some a \<and> 60000000000 < s_expires_at (r_heap ex_performed ! a)"
      "\<And>sid a. hm_get (r_sessions ex_performed) sid = Some a \<Longrightarrow> s_expires_at (r_heap ex_performed ! a) \<le> 60000000000 \<Longrightarrow>
         closed (cells (guard_of s' a))"
    by blast
  have ex: "hm_get (r_sessions ex_performed) ex_sid = Some 0" "s_expires_at (r_heap ex_performed ! 0) = 60000000000"
    by (simp_all add: ex_performed_def ex_observed_def ex_listed_def ex_opened_def ex_session_def hm_get_def)
  have "hm_get (r_sessions s') ex_sid = None" using s'(2) [of ex_sid] ex by (cases "hm_get (r_sessions s') ex_sid") auto
  then show ?thesis using s'(1) s'(3) [OF ex(1)] ex(2) by auto
qed

section \<open>Where the mutation status is lost\<close>

text \<open>
  A launch that the driver reports as successful, and whose discovery expiry can not be formatted
  afterwards, ends with an error whose status says that nothing was dispatched.
\<close>

lemma launch_success_reported_not_dispatched:
  assumes "hm_get (r_launch_discovery s) (lai_launch_ref input) = Some record"
    and "launch_application_call (e_driver env) current (lai_allow_foreground_activation input) (r_world s) = (Inr launched, w)"
    and "launched_check (lai_allow_foreground_activation input) current running_before launched = Inr ()"
    and "e_wall env w (discovery_ttl (e_config env)) = None" "as_secs (discovery_ttl (e_config env)) < 2 ^ 63"
  shows "\<exists>e s'. finish rest (mapP (map_err at_least_not_dispatched) (launch_consumed env t input current running_before)) s =
      Some (Inl e, s') \<and> ce_mutation_status e = MS_NotDispatched \<and>
      Returned t (T_Launch (lai_launch_ref input)) None \<in> set (r_trace s')"
  using assms
  by (auto simp: launch_consumed_def consume_launch_ref_def signal_reschedule_def update_def mutating_call_def emit_def
      send_replace_def admitted_launch_result_def status_of_def project_launched_application_def discovery_expiry_def
      observe_def expiry_section_def Let_def bindR_def ok_or_def expiry_format_error_def at_least_not_dispatched_def
      public_error_def with_mutation_status_def)

text \<open>
  A clipboard write whose driver call fails without a classification ends with an error whose
  status says that nothing was dispatched; an action in the same situation is indeterminate.
\<close>

lemma unclassified_write_reported_not_dispatched:
  assumes "take_clipboard_marker (wci_clipboard_ref input) (state_of s a) = (Some marker, st)"
    and "write_clipboard_call (e_driver env) marker (wci_text input) (max_clipboard_text_bytes (e_config env)) (r_world s) = (Inl e, w)"
    and "de_mutation_status e = MS_NotApplicable"
  shows "\<exists>e' s'. finish rest (mapP (map_err at_least_not_dispatched) (write_in_lane env t input a)) s = Some (Inl e', s') \<and>
      ce_mutation_status e' = MS_NotDispatched \<and>
      Dispatch t (T_Clipboard a (wci_clipboard_ref input)) (N_WriteClipboard input marker) \<in> set (r_trace s')"
  using assms
  by (auto simp: write_in_lane_def take_marker_def mutating_call_def update_def emit_def upd_state_def upd_session_def
      at_least_not_dispatched_def cua_error_from_def with_mutation_status_def)

end
