(* ===== verification/Transport.thy ===== *)
theory Transport
  imports Artifacts
begin

text \<open>
  The local transport below the dispatcher: length-prefixed frames over byte streams, the
  verification of the transport token, and the endpoint configuration.

  A stream that is read is the bytes that still arrive and what follows them: the end of the
  stream or a failure of the operating system. A stream that is written accepts a number of bytes
  before it fails. SHA-256 is a parameter.
\<close>

unbundle bit_operations_syntax

section \<open>Errors (error.rs)\<close>

datatype transport_error =
    InvalidConfiguration string
  | Io string
  | InvalidFrame string
  | InvalidPayload

section \<open>Frames (frame.rs)\<close>

text \<open>\<^verbatim>\<open>u32::to_be_bytes\<close>, \<^verbatim>\<open>u32::from_be_bytes\<close> and the decimal rendering of \<^verbatim>\<open>format!\<close>.\<close>

definition to_be_bytes :: "u32 \<Rightarrow> bytes" where
  "to_be_bytes w = map (\<lambda>i. ucast (drop_bit (8 * i) w)) [3, 2, 1, 0]"

fun from_be_bytes :: "bytes \<Rightarrow> u32" where
  "from_be_bytes [] = 0"
| "from_be_bytes (b # bs) = (push_bit (8 * length bs) (ucast b)) OR from_be_bytes bs"

fun decimal :: "nat \<Rightarrow> string" where
  "decimal n = (if n < 10 then [char_of (48 + n)] else decimal (n div 10) @ [char_of (48 + n mod 10)])"

declare decimal.simps [simp del]

record input_stream =
  in_bytes :: bytes
  in_fault :: "string option"

definition read_exact :: "nat \<Rightarrow> input_stream \<Rightarrow> string + bytes \<times> input_stream" where
  "read_exact n r =
     (if n \<le> length (in_bytes r) then Inr (take n (in_bytes r), r\<lparr>in_bytes := drop n (in_bytes r)\<rparr>)
      else Inl (case in_fault r of None \<Rightarrow> ''early eof'' | Some reason \<Rightarrow> reason))"

definition length_error :: "nat \<Rightarrow> transport_error" where
  "length_error n = InvalidFrame (''payload length '' @ decimal n @ '' is outside the configured bound'')"

definition read_frame :: "input_stream \<Rightarrow> nat \<Rightarrow> transport_error + bytes option \<times> input_stream" where
  "read_frame r max_frame_bytes =
     (case in_bytes r of
        [] \<Rightarrow> (case in_fault r of None \<Rightarrow> Inr (None, r) | Some reason \<Rightarrow> Inl (Io reason))
      | first # rest \<Rightarrow>
          bindR (map_err (\<lambda>e. InvalidFrame (''truncated length header: '' @ e))
                   (read_exact 3 (r\<lparr>in_bytes := rest\<rparr>))) (\<lambda>(header, r1).
          let n = unat (from_be_bytes (first # header))
          in if n = 0 \<or> max_frame_bytes < n then Inl (length_error n)
             else bindR (map_err (\<lambda>e. InvalidFrame (''truncated payload: '' @ e)) (read_exact n r1)) (\<lambda>(payload, r2).
                  Inr (Some payload, r2))))"

record output_stream =
  out_bytes :: bytes
  out_room :: "nat option"

definition write_all :: "bytes \<Rightarrow> output_stream \<Rightarrow> (transport_error + unit) \<times> output_stream" where
  "write_all data w =
     (case out_room w of
        None \<Rightarrow> (Inr (), w\<lparr>out_bytes := out_bytes w @ data\<rparr>)
      | Some room \<Rightarrow>
          (if length data \<le> room then Inr () else Inl (Io ''write failed''),
           w\<lparr>out_bytes := out_bytes w @ take room data, out_room := Some (room - length data)\<rparr>))"

definition write_frame :: "output_stream \<Rightarrow> bytes \<Rightarrow> nat \<Rightarrow> (transport_error + unit) \<times> output_stream" where
  "write_frame w payload max_frame_bytes =
     (if payload = [] \<or> max_frame_bytes < length payload \<or> u32_max < length payload
      then (Inl (length_error (length payload)), w)
      else case u32_try_from (length payload) of
             None \<Rightarrow> (Inl (InvalidFrame ''payload length exceeds the u32 framing limit''), w)
           | Some n \<Rightarrow>
               (case write_all (to_be_bytes n) w of
                  (Inl e, w1) \<Rightarrow> (Inl e, w1)
                | (Inr _, w1) \<Rightarrow> write_all payload w1))"

section \<open>Token (auth.rs)\<close>

definition MINIMUM_TOKEN_BYTES :: nat where "MINIMUM_TOKEN_BYTES = 32"
definition MAXIMUM_TOKEN_BYTES :: nat where "MAXIMUM_TOKEN_BYTES = 4 * 1024"

record token_verifier =
  tv_digest :: bytes

definition token_length_ok :: "authorization_token \<Rightarrow> bool" where
  "token_length_ok token \<longleftrightarrow>
     MINIMUM_TOKEN_BYTES \<le> length (expose_token token) \<and> length (expose_token token) \<le> MAXIMUM_TOKEN_BYTES"

definition token_verifier_new :: "(string \<Rightarrow> bytes) \<Rightarrow> authorization_token \<Rightarrow> token_verifier option" where
  "token_verifier_new sha token =
     (if token_length_ok token then Some \<lparr>tv_digest = sha (expose_token token)\<rparr> else None)"

definition accepts :: "(string \<Rightarrow> bytes) \<Rightarrow> token_verifier \<Rightarrow> authorization_token \<Rightarrow> bool" where
  "accepts sha self candidate =
     (if \<not> token_length_ok candidate then False else tv_digest self = sha (expose_token candidate))"

section \<open>Endpoint (endpoint.rs)\<close>

definition DEFAULT_MAX_FRAME_BYTES :: nat where "DEFAULT_MAX_FRAME_BYTES = 1024 * 1024"

datatype local_endpoint = LocalEndpoint string

definition local_endpoint_new :: "string \<Rightarrow> transport_error + local_endpoint" where
  "local_endpoint_new v =
     (if v = [] \<or> List.member v (CHR 0x00)
      then Inl (InvalidConfiguration ''endpoint must be non-empty and contain no NUL bytes'')
      else Inr (LocalEndpoint v))"

record server_config =
  sc_endpoint :: local_endpoint
  sc_max_frame_bytes :: nat
  sc_max_completed_requests :: nat
  sc_completed_request_ttl :: duration
  sc_max_inflight_requests :: nat
  sc_max_request_timeout_ms :: u32

definition server_config_new :: "local_endpoint \<Rightarrow> server_config" where
  "server_config_new endpoint =
     \<lparr>sc_endpoint = endpoint, sc_max_frame_bytes = DEFAULT_MAX_FRAME_BYTES, sc_max_completed_requests = 4096,
      sc_completed_request_ttl = from_secs (10 * 60), sc_max_inflight_requests = 64,
      sc_max_request_timeout_ms = 120000\<rparr>"

definition server_config_validate :: "server_config \<Rightarrow> transport_error + unit" where
  "server_config_validate self =
     (if sc_max_frame_bytes self = 0 \<or> u32_max < sc_max_frame_bytes self
      then Inl (InvalidConfiguration ''max_frame_bytes must fit in a non-zero u32'')
      else if sc_max_completed_requests self = 0 \<or> sc_max_inflight_requests self = 0 \<or>
              sc_completed_request_ttl self = 0
      then Inl (InvalidConfiguration ''request ledger bounds must be non-zero'')
      else if sc_max_request_timeout_ms self = 0
      then Inl (InvalidConfiguration ''max_request_timeout_ms must be non-zero'')
      else Inr ())"

section \<open>Round trips\<close>

lemma length_to_be_bytes [simp]: "length (to_be_bytes w) = 4"
  by (simp add: to_be_bytes_def)

lemma from_to_be_bytes [simp]: "from_be_bytes (to_be_bytes w) = w"
proof (rule bit_word_eqI)
  fix n assume "n < LENGTH(32)"
  then consider "n < 8" | "8 \<le> n" "n < 16" | "16 \<le> n" "n < 24" | "24 \<le> n" "n < 32" by force
  then show "bit (from_be_bytes (to_be_bytes w)) n = bit w n" by cases (auto simp: to_be_bytes_def bit_simps)
qed

lemma to_from_be_bytes:
  assumes "length bs = 4"
  shows "to_be_bytes (from_be_bytes bs) = bs"
proof -
  obtain a b c d where bs: "bs = [a, b, c, d]" using assms by (auto simp: length_Suc_conv numeral_eq_Suc)
  have "ucast (drop_bit (8 * i) (from_be_bytes bs)) = bs ! (3 - i)" if "i < 4" for i
  proof (rule bit_word_eqI)
    fix n assume n: "n < LENGTH(8)"
    have "i = 0 \<or> i = 1 \<or> i = 2 \<or> i = 3" using that by linarith
    then show "bit (ucast (drop_bit (8 * i) (from_be_bytes bs)) :: u8) n = bit (bs ! (3 - i)) n"
      using n by (auto simp: bs bit_simps dest: bit_imp_le_length)
  qed
  from this [of 3] this [of 2] this [of 1] this [of 0] show ?thesis by (simp add: to_be_bytes_def bs)
qed

text \<open>The bytes of one frame.\<close>

definition frame :: "bytes \<Rightarrow> bytes" where
  "frame payload = to_be_bytes (of_nat (length payload)) @ payload"

definition frameable :: "nat \<Rightarrow> bytes \<Rightarrow> bool" where
  "frameable max_frame_bytes payload \<longleftrightarrow>
     payload \<noteq> [] \<and> length payload \<le> max_frame_bytes \<and> length payload \<le> u32_max"

lemma write_frame_frame:
  "frameable m payload \<Longrightarrow> out_room w = None \<Longrightarrow>
     write_frame w payload m = (Inr (), w\<lparr>out_bytes := out_bytes w @ frame payload\<rparr>)"
  by (auto simp: frameable_def write_frame_def write_all_def frame_def u32_try_from_def)

lemma write_frame_refused: "\<not> frameable m payload \<Longrightarrow> write_frame w payload m = (Inl (length_error (length payload)), w)"
  by (auto simp: frameable_def write_frame_def)

lemma read_frame_frame:
  assumes "frameable m payload"
  shows "read_frame \<lparr>in_bytes = frame payload @ rest, in_fault = f\<rparr> m = Inr (Some payload, \<lparr>in_bytes = rest, in_fault = f\<rparr>)"
proof -
  let ?h = "to_be_bytes (of_nat (length payload))"
  obtain a b c d where h: "?h = [a, b, c, d]"
    using length_to_be_bytes [of "of_nat (length payload)"] by (auto simp: length_Suc_conv numeral_eq_Suc simp del: length_to_be_bytes)
  have "unat (of_nat (length payload) :: u32) = length payload"
    using assms by (simp add: frameable_def u32_max_def unat_of_nat)
  moreover have "from_be_bytes [a, b, c, d] = of_nat (length payload)" using from_to_be_bytes h by metis
  ultimately show ?thesis
    using assms unfolding read_frame_def frame_def h
    by (auto simp: read_exact_def frameable_def Let_def numeral_3_eq_3 simp del: from_be_bytes.simps)
qed

lemma read_frame_sound:
  assumes "read_frame r m = Inr (Some payload, r')"
  shows "in_bytes r = frame payload @ in_bytes r' \<and> frameable m payload \<and> in_fault r' = in_fault r"
proof -
  obtain a rest where r: "in_bytes r = a # rest"
    using assms by (cases "in_bytes r") (auto simp: read_frame_def split: option.splits)
  have l: "3 \<le> length rest" using assms by (auto simp: read_frame_def r read_exact_def split: if_splits)
  let ?n = "unat (from_be_bytes (a # take 3 rest))"
  have n: "?n \<noteq> 0" "?n \<le> m" "?n \<le> length (drop 3 rest)" "payload = take ?n (drop 3 rest)"
    "in_bytes r' = drop ?n (drop 3 rest)" "in_fault r' = in_fault r"
    using assms l by (auto simp: read_frame_def r read_exact_def Let_def split: if_splits simp del: from_be_bytes.simps)
  have "to_be_bytes (from_be_bytes (a # take 3 rest)) = a # take 3 rest" using l by (intro to_from_be_bytes) simp
  moreover have "length payload = ?n" using n(3,4) by (simp del: from_be_bytes.simps)
  moreover have "?n \<le> u32_max" using unsigned_less [of "from_be_bytes (a # take 3 rest)", where ?'a = nat] by (simp add: u32_max_def del: from_be_bytes.simps)
  moreover have "rest = take 3 rest @ payload @ in_bytes r'" using n(4,5) by (metis append_take_drop_id)
  ultimately show ?thesis using n r by (auto simp: frame_def frameable_def simp del: from_be_bytes.simps)
qed

text \<open>
  Claim C39. Frames survive the wire. A payload is written exactly when it is not empty and within
  both bounds, and nothing is written otherwise. What was written is read back as the same payload,
  with the bytes that follow untouched, so frames can be concatenated; and the reader returns a
  payload only where the stream holds exactly its frame, so a payload above the bound is never read.
\<close>

theorem frame_roundtrip:
  assumes "out_room w = None"
  shows "write_frame w payload m =
      (if frameable m payload then (Inr (), w\<lparr>out_bytes := out_bytes w @ frame payload\<rparr>)
       else (Inl (length_error (length payload)), w)) \<and>
    (read_frame \<lparr>in_bytes = bs, in_fault = f\<rparr> m = Inr (Some payload, \<lparr>in_bytes = rest, in_fault = f\<rparr>) \<longleftrightarrow>
       frameable m payload \<and> bs = frame payload @ rest)"
  using write_frame_frame [OF _ assms, of m payload] write_frame_refused [of m payload w] read_frame_frame [of m payload rest f]
    read_frame_sound [of "\<lparr>in_bytes = bs, in_fault = f\<rparr>" m payload "\<lparr>in_bytes = rest, in_fault = f\<rparr>"]
  by auto

theorem frame_roundtrip_witness:
  "write_frame \<lparr>out_bytes = [], out_room = None\<rparr> [7] 16 = (Inr (), \<lparr>out_bytes = frame [7], out_room = None\<rparr>) \<and>
   read_frame \<lparr>in_bytes = frame [7] @ [1], in_fault = None\<rparr> 16 = Inr (Some [7], \<lparr>in_bytes = [1], in_fault = None\<rparr>)"
  using frame_roundtrip [of "\<lparr>out_bytes = [], out_room = None\<rparr>" "[7]" 16 "frame [7] @ [1]" None "[1]"]
  by (simp add: frameable_def u32_max_def)

end
