(* ===== verification/Dispatcher.thy ===== *)
theory Dispatcher
  imports RuntimeProps Transport
begin

text \<open>
  The dispatcher: authenticated admission of requests, the ledger that makes a request identity
  execute at most once within the reconciliation horizon, and the reconciliation of mutations.

  \<^item> The state holds the runtime, the ledger, the watch channels of the pending requests (the value
    each holds) and the executions handed to \<^verbatim>\<open>tokio::spawn\<close> that no task has picked up yet. A
    receiver is the number of its channel.
  \<^item> \<open>d_owner\<close>, \<open>d_log\<close> and \<open>x_channel\<close> are records kept for the proofs: which task has to complete
    a pending request, the admissions, starts and completions in their order, and the channel of
    an execution. No operation reads them.
  \<^item> Parameters: SHA-256 and the JSON encoder of commands. Logging is left out.
\<close>

section \<open>State\<close>

datatype request_entry =
    Pending bytes bool nat
  | Complete bytes bool response_envelope instant

record request_ledger =
  entries :: "(request_id, request_entry) hm"
  inflight_requests :: nat
  max_inflight_requests :: nat
  max_completed_requests :: nat
  completed_request_ttl :: duration

record execution =
  x_request_id :: request_id
  x_digest :: bytes
  x_command :: command
  x_channel :: nat

datatype owner = O_Task nat | O_Queue

datatype ledger_event =
    Admitted nat request_id bytes nat instant
  | Started nat execution
  | Finished nat execution response_envelope instant

record 'w dispatcher =
  d_runtime :: "'w runtime"
  d_ledger :: request_ledger
  d_channels :: "response_envelope option list"
  d_spawned :: "execution list"
  d_owner :: "(request_id, owner) hm"
  d_log :: "ledger_event list"

text \<open>The immutable fields of the dispatcher and the parameters.\<close>

record 'w dispatch_env =
  p_runtime :: "'w rt_env"
  p_token :: token_verifier
  p_max_request_timeout_ms :: u32
  p_runtime_epoch :: string
  p_sha :: "string \<Rightarrow> bytes"
  p_json :: "command \<Rightarrow> string option"

definition MAX_REQUEST_ID_BYTES :: nat where "MAX_REQUEST_ID_BYTES = 128"
definition PROTOCOL_VERSION :: string where "PROTOCOL_VERSION = ''nexus.cua.v1''"

definition dispatcher_new ::
  "'w rt_env \<Rightarrow> (string \<Rightarrow> bytes) \<Rightarrow> (command \<Rightarrow> string option) \<Rightarrow> 'w runtime \<Rightarrow> authorization_token \<Rightarrow>
   nat \<Rightarrow> nat \<Rightarrow> duration \<Rightarrow> u32 \<Rightarrow> transport_error + 'w dispatch_env \<times> 'w dispatcher" where
  "dispatcher_new env sha json runtime token max_inflight max_completed ttl max_timeout =
     (if max_inflight = 0 \<or> max_completed = 0 \<or> ttl = 0 \<or> max_timeout = 0
      then Inl (InvalidConfiguration ''request ledger and timeout bounds must be non-zero'')
      else bindR (ok_or (InvalidConfiguration ''authorization token must contain at least 32 bytes'')
                    (token_verifier_new sha token)) (\<lambda>verifier.
           Inr (\<lparr>p_runtime = env, p_token = verifier, p_max_request_timeout_ms = max_timeout,
                 p_runtime_epoch = e_epoch env, p_sha = sha, p_json = json\<rparr>,
                \<lparr>d_runtime = runtime,
                 d_ledger = \<lparr>entries = [], inflight_requests = 0, max_inflight_requests = max_inflight,
                   max_completed_requests = max_completed, completed_request_ttl = ttl\<rparr>,
                 d_channels = [], d_spawned = [], d_owner = [], d_log = []\<rparr>)))"

abbreviation d_now :: "'w dispatcher \<Rightarrow> instant" where
  "d_now s \<equiv> r_now (d_runtime s)"

section \<open>Responses\<close>

definition failure :: "request_id \<Rightarrow> cua_error \<Rightarrow> response_envelope" where
  "failure request_id e =
     \<lparr>resp_protocol_version = PROTOCOL_VERSION, resp_request_id = request_id, resp_outcome = Error e\<rparr>"

definition success :: "request_id \<Rightarrow> command_result \<Rightarrow> response_envelope" where
  "success request_id result =
     \<lparr>resp_protocol_version = PROTOCOL_VERSION, resp_request_id = request_id, resp_outcome = Success result\<rparr>"

definition pre_admission_failure :: "request_id \<Rightarrow> cua_error \<Rightarrow> bool \<Rightarrow> response_envelope" where
  "pre_admission_failure request_id e is_mutation =
     failure request_id (with_mutation_status (if is_mutation then MS_NotDispatched else MS_NotApplicable) e)"

definition deadline_exceeded :: "request_id \<Rightarrow> bool \<Rightarrow> response_envelope" where
  "deadline_exceeded request_id is_mutation =
     failure request_id
       (with_mutation_status (if is_mutation then MS_Indeterminate else MS_NotApplicable)
         (public_error DeadlineExceeded
           ''request deadline elapsed; retry with the same request_id to reconcile'' True
           (Some ''retry_same_request_id'')))"

fun is_mutation_command :: "command \<Rightarrow> bool" where
  "is_mutation_command (PerformAction _) = True"
| "is_mutation_command (LaunchApplication _) = True"
| "is_mutation_command (WriteClipboard _) = True"
| "is_mutation_command _ = False"

fun request_id_str :: "request_id \<Rightarrow> string" where
  "request_id_str (RequestId v) = v"

definition valid_request_id :: "request_id \<Rightarrow> bool" where
  "valid_request_id request_id =
     (let v = request_id_str request_id
      in v \<noteq> [] \<and> length v \<le> MAX_REQUEST_ID_BYTES \<and>
         list_all (\<lambda>c. is_ascii_alphanumeric c \<or> List.member [CHR ''-'', CHR ''_'', CHR ''.'', CHR '':''] c) v)"

definition command_digest :: "'w dispatch_env \<Rightarrow> command \<Rightarrow> bytes option" where
  "command_digest env command = map_option (p_sha env) (p_json env command)"

definition validate_request :: "'w dispatch_env \<Rightarrow> request_envelope \<Rightarrow> cua_error + bytes" where
  "validate_request env request =
     (if req_protocol_version request \<noteq> PROTOCOL_VERSION
      then Inl (public_error ProtocolMismatch ''unsupported protocol version'' False
                  (Some ''negotiate_protocol_version''))
      else if \<not> accepts (p_sha env) (p_token env) (req_authorization request)
      then Inl (public_error Unauthorized ''invalid local transport authorization'' False None)
      else if \<not> valid_request_id (req_request_id request)
      then Inl (public_error InvalidRequest ''request_id is empty, too long, or not normalized'' False
                  (Some ''use_fresh_request_id''))
      else if req_timeout_ms request = 0 \<or> p_max_request_timeout_ms env < req_timeout_ms request
      then Inl (public_error InvalidRequest ''timeout_ms is outside the configured bound'' False
                  (Some ''use_bounded_timeout''))
      else ok_or (public_error Internal ''failed to compute request identity'' False None)
             (command_digest env (req_command request)))"

section \<open>Ledger\<close>

fun expired_entry :: "instant \<Rightarrow> request_entry \<Rightarrow> bool" where
  "expired_entry now (Complete _ _ _ expires_at) = (expires_at \<le> now)"
| "expired_entry now (Pending _ _ _) = False"

definition purge_expired :: "instant \<Rightarrow> request_ledger \<Rightarrow> request_ledger" where
  "purge_expired now self = self\<lparr>entries := hm_retain (\<lambda>_ entry. \<not> expired_entry now entry) (entries self)\<rparr>"

definition log :: "ledger_event \<Rightarrow> 'w dispatcher \<Rightarrow> 'w dispatcher" where
  "log e s = s\<lparr>d_log := d_log s @ [e]\<rparr>"

datatype begin_request = B_Execute nat | B_Replay response_envelope | B_Wait nat | B_Busy | B_Conflict

text \<open>Under the lock of the ledger. The task that admits a request owns its entry.\<close>

definition admit ::
  "nat \<Rightarrow> request_id \<Rightarrow> bytes \<Rightarrow> bool \<Rightarrow> 'w dispatcher \<Rightarrow> begin_request \<times> 'w dispatcher" where
  "admit t request_id digest is_mutation s =
     (let l = d_ledger s; c = length (d_channels s)
      in (B_Execute c,
          log (Admitted t request_id digest c (d_now s))
            (s\<lparr>d_channels := d_channels s @ [None],
               d_ledger := l\<lparr>entries := hm_insert request_id (Pending digest is_mutation c) (entries l),
                             inflight_requests := inflight_requests l + 1\<rparr>,
               d_owner := hm_insert request_id (O_Task t) (d_owner s)\<rparr>)))"

definition begin_section ::
  "nat \<Rightarrow> request_id \<Rightarrow> bytes \<Rightarrow> bool \<Rightarrow> 'w dispatcher \<Rightarrow> begin_request \<times> 'w dispatcher" where
  "begin_section t request_id digest is_mutation s =
     (let l = purge_expired (d_now s) (d_ledger s); s' = s\<lparr>d_ledger := l\<rparr>
      in case hm_get (entries l) request_id of
           Some (Pending existing _ c) \<Rightarrow> (if existing = digest then B_Wait c else B_Conflict, s')
         | Some (Complete existing _ response _) \<Rightarrow> (if existing = digest then B_Replay response else B_Conflict, s')
         | None \<Rightarrow>
             if max_inflight_requests l \<le> inflight_requests l then (B_Busy, s')
             else if max_completed_requests l \<le> hm_len (entries l) then (B_Busy, s')
             else admit t request_id digest is_mutation s')"

definition wait_for_response ::
  "nat \<Rightarrow> instant \<Rightarrow> ('w dispatcher, response_envelope option) prog" where
  "wait_for_response c deadline =
     bindP (atomic (\<lambda>s. (d_channels s ! c, s))) (\<lambda>now.
     case now of
       Some response \<Rightarrow> Ret (Some response)
     | None \<Rightarrow> blocking (\<lambda>s. d_channels s ! c \<noteq> None \<or> deadline \<le> d_now s) (\<lambda>s. (d_channels s ! c, s)))"

definition spawn_execution :: "execution \<Rightarrow> ('w dispatcher, unit) prog" where
  "spawn_execution x =
     atomic (\<lambda>s. ((), s\<lparr>d_spawned := x # d_spawned s, d_owner := hm_insert (x_request_id x) O_Queue (d_owner s)\<rparr>))"

definition busy_error :: cua_error where
  "busy_error =
     public_error Busy ''in-flight request capacity is exhausted'' True (Some ''retry_after_capacity'')"

definition conflict_error :: cua_error where
  "conflict_error =
     public_error InvalidRequest ''request_id was already used for a different command'' False
       (Some ''use_fresh_request_id'')"

definition resolve_request ::
  "begin_request \<Rightarrow> request_envelope \<Rightarrow> bytes \<Rightarrow> instant \<Rightarrow> bool \<Rightarrow> ('w dispatcher, response_envelope) prog" where
  "resolve_request begun request digest deadline is_mutation =
     (let request_id = req_request_id request;
          wait = (\<lambda>c. bindP (wait_for_response c deadline) (\<lambda>r.
                      Ret (case r of Some response \<Rightarrow> response | None \<Rightarrow> deadline_exceeded request_id is_mutation)))
      in case begun of
           B_Execute c \<Rightarrow>
             bindP (spawn_execution \<lparr>x_request_id = request_id, x_digest = digest, x_command = req_command request,
                      x_channel = c\<rparr>) (\<lambda>_.
             wait c)
         | B_Replay response \<Rightarrow> Ret response
         | B_Wait c \<Rightarrow> wait c
         | B_Busy \<Rightarrow> Ret (pre_admission_failure request_id busy_error is_mutation)
         | B_Conflict \<Rightarrow> Ret (pre_admission_failure request_id conflict_error is_mutation))"

section \<open>Reconciliation\<close>

datatype reconciliation_snapshot =
    RS_Missing | RS_NotMutation | RS_Pending nat | RS_Complete response_envelope

definition reconciliation ::
  "'w dispatch_env \<Rightarrow> request_id \<Rightarrow> mutation_admission \<Rightarrow> mutation_disposition \<Rightarrow> mutation_reconciliation" where
  "reconciliation env request_id admission disposition =
     \<lparr>mr_request_id = request_id, mr_runtime_epoch = p_runtime_epoch env, mr_worker_epoch = None,
      mr_admission = admission, mr_disposition = disposition, mr_dispatched = None, mr_effect_status = None,
      mr_evidence_kind = None, mr_error_code = None, mr_fresh_observation_required = False\<rparr>"

definition reconciliation_from_response ::
  "'w dispatch_env \<Rightarrow> response_envelope \<Rightarrow> mutation_reconciliation" where
  "reconciliation_from_response env response =
     (let result = reconciliation env (resp_request_id response) MA_Admitted MD_Succeeded
      in case resp_outcome response of
           Success (ActionPerformed out) \<Rightarrow>
             result\<lparr>mr_dispatched := Some (ao_dispatched out), mr_effect_status := Some (ao_effect_status out),
                    mr_evidence_kind := Some (ao_evidence_kind out),
                    mr_fresh_observation_required := ao_observation_invalidated out\<rparr>
         | Success (ClipboardWritten out) \<Rightarrow>
             result\<lparr>mr_dispatched := Some (cwo_dispatched out), mr_effect_status := Some (cwo_effect_status out),
                    mr_evidence_kind := Some (cwo_evidence_kind out)\<rparr>
         | Success (ApplicationLaunched out) \<Rightarrow>
             result\<lparr>mr_dispatched := Some (alo_dispatched out), mr_fresh_observation_required := True\<rparr>
         | Success _ \<Rightarrow> result\<lparr>mr_disposition := MD_NotMutation\<rparr>
         | Error e \<Rightarrow>
             result\<lparr>mr_disposition := (case ce_mutation_status e of
                        MS_NotDispatched \<Rightarrow> MD_NotDispatched
                      | MS_Indeterminate \<Rightarrow> MD_Indeterminate
                      | MS_NotApplicable \<Rightarrow> MD_NotMutation),
                    mr_error_code := Some (ce_code e),
                    mr_fresh_observation_required := (ce_mutation_status e = MS_Indeterminate)\<rparr>)"

definition snapshot_section :: "request_id \<Rightarrow> 'w dispatcher \<Rightarrow> reconciliation_snapshot \<times> 'w dispatcher" where
  "snapshot_section request_id s =
     (let l = purge_expired (d_now s) (d_ledger s)
      in (case hm_get (entries l) request_id of
            None \<Rightarrow> RS_Missing
          | Some (Pending _ is_mutation c) \<Rightarrow> if is_mutation then RS_Pending c else RS_NotMutation
          | Some (Complete _ is_mutation response _) \<Rightarrow> if is_mutation then RS_Complete response else RS_NotMutation,
          s\<lparr>d_ledger := l\<rparr>))"

definition reconcile_mutation ::
  "'w dispatch_env \<Rightarrow> request_id \<Rightarrow> duration \<Rightarrow> ('w dispatcher, cua_error + mutation_reconciliation) prog" where
  "reconcile_mutation env request_id wait =
     (if \<not> valid_request_id request_id \<or> from_millis (unat (p_max_request_timeout_ms env)) < wait
      then Ret (Inl (public_error InvalidRequest ''reconciliation request_id or wait is outside the configured bound''
                       False (Some ''fix_reconciliation_request'')))
      else bindP (atomic (snapshot_section request_id)) (\<lambda>snapshot.
           case snapshot of
             RS_Missing \<Rightarrow> Ret (Inr (reconciliation env request_id MA_Unknown MD_Unknown))
           | RS_NotMutation \<Rightarrow> Ret (Inr (reconciliation env request_id MA_Admitted MD_NotMutation))
           | RS_Complete response \<Rightarrow> Ret (Inr (reconciliation_from_response env response))
           | RS_Pending c \<Rightarrow>
               bindP (atomic (\<lambda>s. (d_now s, s))) (\<lambda>now.
               bindP (wait_for_response c (now + wait)) (\<lambda>r.
               Ret (Inr (case r of
                   Some response \<Rightarrow> reconciliation_from_response env response
                 | None \<Rightarrow> reconciliation env request_id MA_Admitted MD_Pending))))))"

section \<open>Dispatch\<close>

definition reconcile_bound_error :: cua_error where
  "reconcile_bound_error =
     public_error InvalidRequest ''reconciliation request_id or wait_ms is outside the configured bound''
       False (Some ''fix_reconciliation_request'')"

definition dispatch_reconcile ::
  "'w dispatch_env \<Rightarrow> request_id \<Rightarrow> reconcile_mutation_input \<Rightarrow> ('w dispatcher, response_envelope) prog" where
  "dispatch_reconcile env request_id input =
     (if \<not> valid_request_id (rmi_request_id input) \<or> p_max_request_timeout_ms env < rmi_wait_ms input
      then Ret (failure request_id reconcile_bound_error)
      else bindP (reconcile_mutation env (rmi_request_id input) (from_millis (unat (rmi_wait_ms input)))) (\<lambda>r.
           Ret (case r of
               Inl e \<Rightarrow> failure request_id e
             | Inr result \<Rightarrow> success request_id (MutationReconciled result))))"

definition dispatch_admitted ::
  "nat \<Rightarrow> request_envelope \<Rightarrow> bytes \<Rightarrow> ('w dispatcher, response_envelope) prog" where
  "dispatch_admitted t request digest =
     (let is_mutation = is_mutation_command (req_command request)
      in bindP (atomic (\<lambda>s. (d_now s + from_millis (unat (req_timeout_ms request)), s))) (\<lambda>deadline.
         bindP (atomic (begin_section t (req_request_id request) digest is_mutation)) (\<lambda>begun.
         resolve_request begun request digest deadline is_mutation)))"

definition dispatch ::
  "'w dispatch_env \<Rightarrow> nat \<Rightarrow> request_envelope \<Rightarrow> ('w dispatcher, response_envelope) prog" where
  "dispatch env t request =
     (case validate_request env request of
        Inl e \<Rightarrow> Ret (pre_admission_failure (req_request_id request) e (is_mutation_command (req_command request)))
      | Inr digest \<Rightarrow>
          (case req_command request of
             ReconcileMutation input \<Rightarrow> dispatch_reconcile env (req_request_id request) input
           | _ \<Rightarrow> dispatch_admitted t request digest))"

section \<open>Executions\<close>

definition complete_section :: "nat \<Rightarrow> execution \<Rightarrow> response_envelope \<Rightarrow> 'w dispatcher \<Rightarrow> 'w dispatcher" where
  "complete_section u x response s =
     (let l = d_ledger s; request_id = x_request_id x; now = d_now s;
          done = Complete (x_digest x) (is_mutation_command (x_command x)) response (now + completed_request_ttl l);
          entries' = hm_insert request_id done (hm_remove request_id (entries l))
      in case hm_get (entries l) request_id of
           Some (Pending _ _ c) \<Rightarrow>
             log (Finished u x response now)
               (s\<lparr>d_ledger := l\<lparr>entries := entries', inflight_requests := inflight_requests l - 1\<rparr>,
                  d_channels := (d_channels s)[c := Some response],
                  d_owner := hm_remove request_id (d_owner s)\<rparr>)
         | _ \<Rightarrow> s\<lparr>d_ledger := l\<lparr>entries := entries'\<rparr>\<rparr>)"

text \<open>A program of the runtime inside the dispatcher.\<close>

primrec in_runtime :: "('w runtime, 'a) prog \<Rightarrow> ('w dispatcher, 'a) prog" where
  "in_runtime (Ret x) = Ret x"
| "in_runtime (Step c f) =
     Step (\<lambda>s. c (d_runtime s)) (\<lambda>s. case map_prod in_runtime id (f (d_runtime s)) of (p, r) \<Rightarrow> (p, s\<lparr>d_runtime := r\<rparr>))"

text \<open>The future that \<^verbatim>\<open>spawn_execution\<close> hands to the scheduler, picked up by the task \<open>u\<close>.\<close>

definition start_section :: "nat \<Rightarrow> execution \<Rightarrow> 'w dispatcher \<Rightarrow> 'w dispatcher" where
  "start_section u x s =
     log (Started u x)
       (s\<lparr>d_spawned := remove1 x (d_spawned s), d_owner := hm_insert (x_request_id x) (O_Task u) (d_owner s)\<rparr>)"

definition response_of :: "request_id \<Rightarrow> cua_error + command_result \<Rightarrow> response_envelope" where
  "response_of request_id r = (case r of Inl e \<Rightarrow> failure request_id e | Inr result \<Rightarrow> success request_id result)"

definition complete_request :: "nat \<Rightarrow> execution \<Rightarrow> cua_error + command_result \<Rightarrow> ('w dispatcher, unit) prog" where
  "complete_request u x r =
     atomic (\<lambda>s. ((), complete_section u x (response_of (x_request_id x) r) s))"

definition execution_task :: "'w dispatch_env \<Rightarrow> nat \<Rightarrow> execution \<Rightarrow> ('w dispatcher, unit) prog" where
  "execution_task env u x =
     bindP (blocking (\<lambda>s. x \<in> set (d_spawned s)) (\<lambda>s. ((), start_section u x s))) (\<lambda>_.
     bindP (in_runtime (execute (p_runtime env) u (x_command x))) (\<lambda>r.
     complete_request u x r))"

section \<open>The system\<close>

datatype dispatch_result =
    D_Response response_envelope
  | D_Reconciled "cua_error + mutation_reconciliation"
  | D_Executed
  | D_Runtime task_result

inductive dispatcher_task :: "'w dispatch_env \<Rightarrow> nat \<Rightarrow> ('w dispatcher, dispatch_result) prog \<Rightarrow> bool" for env t where
  dt_dispatch: "dispatcher_task env t (mapP D_Response (dispatch env t request))"
| dt_reconcile: "dispatcher_task env t (mapP D_Reconciled (reconcile_mutation env request_id wait))"
| dt_execution: "dispatcher_task env t (mapP (\<lambda>_. D_Executed) (execution_task env t x))"
| dt_runtime: "runtime_task (p_runtime env) t p \<Longrightarrow> dispatcher_task env t (mapP D_Runtime (in_runtime p))"

inductive dispatcher_surroundings :: "'w dispatcher \<Rightarrow> 'w dispatcher \<Rightarrow> bool" where
  ds_runtime: "surroundings (d_runtime s) r \<Longrightarrow> dispatcher_surroundings s (s\<lparr>d_runtime := r\<rparr>)"

definition dispatcher_reachable ::
  "'w dispatch_env \<Rightarrow> 'w dispatcher \<Rightarrow> ('w dispatcher, dispatch_result) config \<Rightarrow> bool" where
  "dispatcher_reachable env s0 cfg \<longleftrightarrow>
     (pool_step (dispatcher_task env) dispatcher_surroundings)\<^sup>*\<^sup>* (Map.empty, s0) cfg"

end
