(* ===== verification/DispatcherInv.thy ===== *)
theory DispatcherInv
  imports Dispatcher
begin

text \<open>
  The invariant of the dispatcher and the guarantee of its tasks. Both contain those of the
  runtime, so a task of the runtime that is safe by itself is safe inside the dispatcher, and what
  it ends with there holds here (\<open>safe_in_runtime\<close>).
\<close>

section \<open>Events\<close>

definition admitted_channels :: "ledger_event list \<Rightarrow> nat list" where
  "admitted_channels lg = concat (map (\<lambda>e. case e of Admitted t rid d c now \<Rightarrow> [c] | _ \<Rightarrow> []) lg)"

definition started_channels :: "ledger_event list \<Rightarrow> nat list" where
  "started_channels lg = concat (map (\<lambda>e. case e of Started u x \<Rightarrow> [x_channel x] | _ \<Rightarrow> []) lg)"

definition finished_channels :: "ledger_event list \<Rightarrow> nat list" where
  "finished_channels lg = concat (map (\<lambda>e. case e of Finished u x r now \<Rightarrow> [x_channel x] | _ \<Rightarrow> []) lg)"

fun ledger_task :: "ledger_event \<Rightarrow> nat" where
  "ledger_task (Admitted t rid d c now) = t"
| "ledger_task (Started u x) = u"
| "ledger_task (Finished u x r now) = u"

lemma channels_append [simp]:
  "admitted_channels (xs @ ys) = admitted_channels xs @ admitted_channels ys"
  "started_channels (xs @ ys) = started_channels xs @ started_channels ys"
  "finished_channels (xs @ ys) = finished_channels xs @ finished_channels ys"
  "admitted_channels [] = []" "started_channels [] = []" "finished_channels [] = []"
  "admitted_channels [Admitted t rid d c now] = [c]" "admitted_channels [Started u x] = []"
  "admitted_channels [Finished u x r now] = []" "started_channels [Admitted t rid d c now] = []"
  "started_channels [Started u x] = [x_channel x]" "started_channels [Finished u x r now] = []"
  "finished_channels [Admitted t rid d c now] = []" "finished_channels [Started u x] = []"
  "finished_channels [Finished u x r now] = [x_channel x]"
  by (simp_all add: admitted_channels_def started_channels_def finished_channels_def)

lemma in_channels:
  "c \<in> set (admitted_channels lg) \<longleftrightarrow> (\<exists>t rid d now. Admitted t rid d c now \<in> set lg)"
  "c \<in> set (started_channels lg) \<longleftrightarrow> (\<exists>u x. Started u x \<in> set lg \<and> x_channel x = c)"
  "c \<in> set (finished_channels lg) \<longleftrightarrow> (\<exists>u x r now. Finished u x r now \<in> set lg \<and> x_channel x = c)"
  by (force simp: admitted_channels_def started_channels_def finished_channels_def split: ledger_event.splits)+

lemma concat_once:
  assumes "distinct (concat (map f xs))" "x \<in> set xs" "y \<in> set xs" "c \<in> set (f x)" "c \<in> set (f y)"
  shows "x = y"
  using assms by (induction xs) auto

lemma events_once:
  "distinct (admitted_channels lg) \<Longrightarrow> Admitted t rid d c now \<in> set lg \<Longrightarrow> Admitted t' rid' d' c now' \<in> set lg \<Longrightarrow>
     t = t' \<and> rid = rid' \<and> d = d' \<and> now = now'"
  "distinct (finished_channels lg) \<Longrightarrow> Finished u x r now \<in> set lg \<Longrightarrow> Finished u' x' r' now' \<in> set lg \<Longrightarrow>
     x_channel x = x_channel x' \<Longrightarrow> u = u' \<and> x = x' \<and> r = r' \<and> now = now'"
  unfolding admitted_channels_def finished_channels_def
  by (drule concat_once, assumption, assumption, simp, simp, simp)+

section \<open>The invariant\<close>

definition pending :: "(request_id, request_entry) hm \<Rightarrow> request_id \<Rightarrow> (bytes \<times> bool \<times> nat) option" where
  "pending m rid = (case hm_get m rid of Some (Pending d b c) \<Rightarrow> Some (d, b, c) | _ \<Rightarrow> None)"

lemma pending_eq: "pending m rid = Some (d, b, c) \<longleftrightarrow> hm_get m rid = Some (Pending d b c)"
  by (auto simp: pending_def split: option.splits request_entry.splits)

lemma pending_updates [simp]:
  "pending (hm_insert rid (Pending d b c) m) = (pending m)(rid \<mapsto> (d, b, c))"
  "pending (hm_insert rid (Complete d b r x) m) = (pending m)(rid := None)"
  "pending (hm_remove rid m) = (pending m)(rid := None)"
  by (auto simp: pending_def fun_eq_iff)

lemma pending_purge [simp]: "hm_wf (entries l) \<Longrightarrow> pending (entries (purge_expired now l)) = pending (entries l)"
  by (auto simp: pending_def purge_expired_def hm_get_retain fun_eq_iff split: option.split request_entry.split)

lemma finite_pending: "finite (dom (pending m))"
proof (rule finite_subset)
  show "dom (pending m) \<subseteq> fst ` set m"
    by (force simp: pending_def hm_get_def split: option.splits dest: map_of_SomeD)
qed simp

definition ledger_ok :: "request_ledger \<Rightarrow> bool" where
  "ledger_ok l \<longleftrightarrow>
     hm_wf (entries l) \<and> hm_len (entries l) \<le> max_completed_requests l \<and>
     inflight_requests l = card (dom (pending (entries l))) \<and> inflight_requests l \<le> max_inflight_requests l"

definition log_ok :: "'w dispatch_env \<Rightarrow> response_envelope option list \<Rightarrow> instant \<Rightarrow> ledger_event list \<Rightarrow> bool" where
  "log_ok env chs now lg \<longleftrightarrow>
     admitted_channels lg = [0..<length chs] \<and> distinct (started_channels lg) \<and> distinct (finished_channels lg) \<and>
     (\<forall>u x. Started u x \<in> set lg \<longrightarrow> command_digest env (x_command x) = Some (x_digest x) \<and>
        (\<exists>t at'. Admitted t (x_request_id x) (x_digest x) (x_channel x) at' \<in> set lg)) \<and>
     (\<forall>u x r at'. Finished u x r at' \<in> set lg \<longrightarrow> Started u x \<in> set lg \<and> at' \<le> now \<and> chs ! x_channel x = Some r) \<and>
     (\<forall>c r. c < length chs \<longrightarrow> chs ! c = Some r \<longrightarrow> (\<exists>u x at'. Finished u x r at' \<in> set lg \<and> x_channel x = c))"

definition entries_ok ::
  "(request_id, request_entry) hm \<Rightarrow> duration \<Rightarrow> response_envelope option list \<Rightarrow> ledger_event list \<Rightarrow> bool" where
  "entries_ok m ttl chs lg \<longleftrightarrow>
     (\<forall>rid d b c. pending m rid = Some (d, b, c) \<longrightarrow> chs ! c = None \<and> (\<exists>t at'. Admitted t rid d c at' \<in> set lg)) \<and>
     (\<forall>rid d b r ex. hm_get m rid = Some (Complete d b r ex) \<longrightarrow>
        (\<exists>u x at'. Finished u x r at' \<in> set lg \<and> x_request_id x = rid \<and> x_digest x = d \<and>
           b = is_mutation_command (x_command x) \<and> ex = at' + ttl))"

definition queue_ok ::
  "'w dispatch_env \<Rightarrow> (request_id, request_entry) hm \<Rightarrow> execution list \<Rightarrow> (request_id, owner) hm \<Rightarrow> ledger_event list \<Rightarrow> bool" where
  "queue_ok env m spawned owners lg \<longleftrightarrow>
     hm_wf owners \<and> dom (hm_get owners) = dom (pending m) \<and> distinct (map x_request_id spawned) \<and>
     (\<forall>x \<in> set spawned. hm_get owners (x_request_id x) = Some O_Queue \<and> x_channel x \<notin> set (started_channels lg) \<and>
        command_digest env (x_command x) = Some (x_digest x) \<and>
        pending m (x_request_id x) = Some (x_digest x, is_mutation_command (x_command x), x_channel x))"

text \<open>An admission that is neither pending nor retained is beyond the reconciliation horizon.\<close>

definition retired ::
  "(request_id, request_entry) hm \<Rightarrow> duration \<Rightarrow> instant \<Rightarrow> ledger_event list \<Rightarrow> request_id \<Rightarrow> bytes \<Rightarrow> nat \<Rightarrow> bool" where
  "retired m ttl now lg rid d c \<longleftrightarrow>
     (\<exists>u x r done. Finished u x r done \<in> set lg \<and> x_channel x = c \<and>
        (done + ttl \<le> now \<or> (\<exists>b. hm_get m rid = Some (Complete d b r (done + ttl)))))"

definition horizon_ok ::
  "(request_id, request_entry) hm \<Rightarrow> duration \<Rightarrow> instant \<Rightarrow> ledger_event list \<Rightarrow> bool" where
  "horizon_ok m ttl now lg \<longleftrightarrow>
     (\<forall>t rid d c at'. Admitted t rid d c at' \<in> set lg \<longrightarrow>
        (\<exists>b. pending m rid = Some (d, b, c)) \<or> retired m ttl now lg rid d c)"

lemma retired_step:
  assumes "retired m ttl now lg rid d c" "set lg \<subseteq> set lg'" "now \<le> now'"
    and "\<And>b r n. hm_get m rid = Some (Complete d b r n) \<Longrightarrow> n \<le> now' \<or> hm_get m' rid = Some (Complete d b r n)"
  shows "retired m' ttl now' lg' rid d c"
proof -
  obtain u x r done' where f: "Finished u x r done' \<in> set lg" "x_channel x = c"
    and e: "done' + ttl \<le> now \<or> (\<exists>b. hm_get m rid = Some (Complete d b r (done' + ttl)))"
    using assms(1) unfolding retired_def by blast
  have "done' + ttl \<le> now' \<or> (\<exists>b. hm_get m' rid = Some (Complete d b r (done' + ttl)))"
    using e assms(3,4) by (meson order_trans)
  then show ?thesis unfolding retired_def using f assms(2) by blast
qed

text \<open>Two admissions of one identity: the first was completed, and its horizon has passed.\<close>

definition spaced :: "duration \<Rightarrow> ledger_event list \<Rightarrow> bool" where
  "spaced ttl lg \<longleftrightarrow>
     (\<forall>xs ys t rid d c at' t' d' c' at''. lg = xs @ Admitted t rid d c at' # ys \<longrightarrow> Admitted t' rid d' c' at'' \<in> set xs \<longrightarrow>
        (\<exists>u x r done. Finished u x r done \<in> set xs \<and> x_channel x = c' \<and> done + ttl \<le> at'))"

definition results_ok :: "'w dispatch_env \<Rightarrow> 'w runtime \<Rightarrow> ledger_event list \<Rightarrow> bool" where
  "results_ok env rt lg \<longleftrightarrow>
     (\<forall>u x r at'. Finished u x r at' \<in> set lg \<longrightarrow>
        (\<exists>res. r = response_of (x_request_id x) res \<and> finished u (faithful (p_runtime env) u res) rt))"

definition dok :: "'w dispatch_env \<Rightarrow> 'w dispatcher \<Rightarrow> bool" where
  "dok env s \<longleftrightarrow>
     rt_ok (p_runtime env) (d_runtime s) \<and> ledger_ok (d_ledger s) \<and>
     log_ok env (d_channels s) (d_now s) (d_log s) \<and>
     entries_ok (entries (d_ledger s)) (completed_request_ttl (d_ledger s)) (d_channels s) (d_log s) \<and>
     queue_ok env (entries (d_ledger s)) (d_spawned s) (d_owner s) (d_log s) \<and>
     horizon_ok (entries (d_ledger s)) (completed_request_ttl (d_ledger s)) (d_now s) (d_log s) \<and>
     spaced (completed_request_ttl (d_ledger s)) (d_log s) \<and> results_ok env (d_runtime s) (d_log s)"

section \<open>The guarantee\<close>

definition bounds_of :: "request_ledger \<Rightarrow> nat \<times> nat \<times> duration" where
  "bounds_of l = (max_inflight_requests l, max_completed_requests l, completed_request_ttl l)"

definition log_ext :: "nat set \<Rightarrow> ledger_event list \<Rightarrow> ledger_event list \<Rightarrow> bool" where
  "log_ext T lg lg' \<longleftrightarrow> (\<exists>new. lg' = lg @ new \<and> (\<forall>e \<in> set new. ledger_task e \<in> T))"

definition owns :: "nat \<Rightarrow> request_id \<Rightarrow> bytes \<Rightarrow> bool \<Rightarrow> nat \<Rightarrow> bool \<Rightarrow> 'w dispatcher \<Rightarrow> bool" where
  "owns u rid d b c started s \<longleftrightarrow>
     hm_get (d_owner s) rid = Some (O_Task u) \<and> pending (entries (d_ledger s)) rid = Some (d, b, c) \<and>
     (c \<in> set (started_channels (d_log s)) \<longleftrightarrow> started)"

definition dguar :: "'w dispatch_env \<Rightarrow> nat set \<Rightarrow> 'w dispatcher \<Rightarrow> 'w dispatcher \<Rightarrow> bool" where
  "dguar env T s s' \<longleftrightarrow>
     guar (p_runtime env) T (d_runtime s) (d_runtime s') \<and> log_ext T (d_log s) (d_log s') \<and>
     bounds_of (d_ledger s') = bounds_of (d_ledger s) \<and> length (d_channels s) \<le> length (d_channels s') \<and>
     (\<forall>c r. c < length (d_channels s) \<longrightarrow> d_channels s ! c = Some r \<longrightarrow> d_channels s' ! c = Some r) \<and>
     (\<forall>u rid d b c started. u \<notin> T \<longrightarrow> owns u rid d b c started s \<longrightarrow> owns u rid d b c started s')"

lemma log_ext_refl [simp]: "log_ext T lg lg"
  by (auto simp: log_ext_def)

lemma log_ext_trans: "log_ext T a b \<Longrightarrow> log_ext T b c \<Longrightarrow> log_ext T a c"
  by (fastforce simp: log_ext_def)

interpretation dp: interleaving "dok env" "dguar env" for env
proof
  show "dguar env T s s" for T and s :: "'a dispatcher" by (simp add: dguar_def guar_refl_rt)
  show "dguar env T s s''" if "dguar env T s s'" "dguar env T s' s''" for T and s s' s'' :: "'a dispatcher"
    unfolding dguar_def
  proof (intro conjI)
    show "guar (p_runtime env) T (d_runtime s) (d_runtime s'')"
      using that by (auto simp: dguar_def intro: guar_trans_rt)
    show "log_ext T (d_log s) (d_log s'')" using that by (auto simp: dguar_def intro: log_ext_trans)
  qed (use that in \<open>auto simp: dguar_def\<close>)
  show "dguar env U s s'" if "T \<subseteq> U" "dguar env T s s'" for T U and s s' :: "'a dispatcher"
    unfolding dguar_def
  proof (intro conjI)
    show "guar (p_runtime env) U (d_runtime s) (d_runtime s')"
      using that by (auto simp: dguar_def intro: guar_mono_rt)
    show "log_ext U (d_log s) (d_log s')" using that by (auto simp: dguar_def log_ext_def)
  qed (use that in \<open>auto simp: dguar_def\<close>)
qed

section \<open>Steps of the runtime\<close>

lemma log_ok_mono: "log_ok env chs now lg \<Longrightarrow> now \<le> now' \<Longrightarrow> log_ok env chs now' lg"
  unfolding log_ok_def by (meson order_trans)

lemma horizon_ok_mono: "horizon_ok m ttl now lg \<Longrightarrow> now \<le> now' \<Longrightarrow> horizon_ok m ttl now' lg"
  unfolding horizon_ok_def using retired_step [OF _ subset_refl, of m ttl now lg] by blast

lemma finished_guar:
  assumes "finished u \<Phi> r" "guar env T r r'" "rt_ok env r'" "u \<notin> T"
  shows "finished u \<Phi> r'"
  by (rule rt.stableD [OF robust_stable [OF robust_finished] assms(1) guar_mono_rt [OF _ assms(2)] assms(3)]) (use assms(4) in auto)

definition unfinished :: "nat \<Rightarrow> 'w dispatcher \<Rightarrow> bool" where
  "unfinished t s \<longleftrightarrow> (\<forall>e \<in> set (d_log s). ledger_task e = t \<longrightarrow> (\<forall>x r now. e \<noteq> Finished t x r now))"

lemma runtime_step:
  assumes ok: "dok env s" and r: "rt_ok (p_runtime env) r" "guar (p_runtime env) T (d_runtime s) r"
    and u: "\<And>u. u \<in> T \<Longrightarrow> unfinished u s"
  shows "dok env (s\<lparr>d_runtime := r\<rparr>)" "dguar env T s (s\<lparr>d_runtime := r\<rparr>)"
proof -
  have now: "d_now s \<le> r_now r" using r(2) by (simp add: guar_def)
  have "results_ok env r (d_log s)"
    unfolding results_ok_def
  proof (intro allI impI)
    fix u x a at' assume f: "Finished u x a at' \<in> set (d_log s)"
    then obtain res where res: "a = response_of (x_request_id x) res" "finished u (faithful (p_runtime env) u res) (d_runtime s)"
      using ok unfolding dok_def results_ok_def by blast
    have "u \<notin> T" using u [of u] f unfolding unfinished_def by force
    from finished_guar [OF res(2) r(2,1) this] res(1)
    show "\<exists>res. a = response_of (x_request_id x) res \<and> finished u (faithful (p_runtime env) u res) r" by blast
  qed
  moreover have "log_ok env (d_channels s) (r_now r) (d_log s)"
    by (rule log_ok_mono [OF _ now]) (use ok in \<open>simp add: dok_def\<close>)
  moreover have "horizon_ok (entries (d_ledger s)) (completed_request_ttl (d_ledger s)) (r_now r) (d_log s)"
    by (rule horizon_ok_mono [OF _ now]) (use ok in \<open>simp add: dok_def\<close>)
  ultimately show "dok env (s\<lparr>d_runtime := r\<rparr>)" using ok r(1) by (simp add: dok_def)
  show "dguar env T s (s\<lparr>d_runtime := r\<rparr>)" using r(2) by (simp add: dguar_def owns_def)
qed

text \<open>A program of the runtime that is safe there is safe in the dispatcher.\<close>

lemma safe_in_runtime:
  assumes "safe (rt_ok (p_runtime env)) (guar (p_runtime env)) t Q p (d_runtime s)" "F s" "dp.stable env t F"
    and F: "\<And>s r. F s \<Longrightarrow> F (s\<lparr>d_runtime := r\<rparr>)" "\<And>s. F s \<Longrightarrow> unfinished t s"
  shows "safe (dok env) (dguar env) t (\<lambda>x s. Q x (d_runtime s) \<and> F s) (in_runtime p) s"
  using assms(1,2)
proof (induction p "d_runtime s" arbitrary: s rule: safe.induct)
  case (safe_Ret x)
  show ?case unfolding in_runtime.simps
  proof (rule safe.safe_Ret)
    fix s' assume g: "dguar env (- {t}) s s'" "dok env s'"
    then show "Q x (d_runtime s') \<and> F s'"
      using safe_Ret dp.stableD [OF assms(3)] by (simp add: dguar_def dok_def)
  qed
next
  case (safe_Step c f)
  show ?case unfolding in_runtime.simps
  proof (rule safe.safe_Step)
    fix s' assume g: "dguar env (- {t}) s s'" "dok env s'" "c (d_runtime s')"
    let ?r = "snd (f (d_runtime s'))" and ?p = "fst (f (d_runtime s'))"
    have Fs: "F s'" by (rule dp.stableD [OF assms(3) safe_Step.prems g(1,2)])
    have h: "rt_ok (p_runtime env) ?r" "guar (p_runtime env) {t} (d_runtime s') ?r"
      "\<And>s''. ?r = d_runtime s'' \<Longrightarrow> F s'' \<Longrightarrow>
         safe (dok env) (dguar env) t (\<lambda>x s. Q x (d_runtime s) \<and> F s) (in_runtime ?p) s''"
      using safe_Step.hyps [of "d_runtime s'"] g by (auto simp: dguar_def dok_def)
    have "dok env (s'\<lparr>d_runtime := ?r\<rparr>)" "dguar env {t} s' (s'\<lparr>d_runtime := ?r\<rparr>)"
      using runtime_step [OF g(2) h(1,2)] F(2) [OF Fs] by simp_all
    moreover have "safe (dok env) (dguar env) t (\<lambda>x s. Q x (d_runtime s) \<and> F s) (in_runtime ?p) (s'\<lparr>d_runtime := ?r\<rparr>)"
      by (rule h(3)) (simp_all add: F(1) Fs)
    ultimately show "dok env (snd (case map_prod in_runtime id (f (d_runtime s')) of (p, r) \<Rightarrow> (p, s'\<lparr>d_runtime := r\<rparr>))) \<and>
        dguar env {t} s' (snd (case map_prod in_runtime id (f (d_runtime s')) of (p, r) \<Rightarrow> (p, s'\<lparr>d_runtime := r\<rparr>))) \<and>
        safe (dok env) (dguar env) t (\<lambda>x s. Q x (d_runtime s) \<and> F s)
          (fst (case map_prod in_runtime id (f (d_runtime s')) of (p, r) \<Rightarrow> (p, s'\<lparr>d_runtime := r\<rparr>)))
          (snd (case map_prod in_runtime id (f (d_runtime s')) of (p, r) \<Rightarrow> (p, s'\<lparr>d_runtime := r\<rparr>)))"
      by (simp add: case_prod_beta map_prod_def)
  qed
qed

section \<open>Sections of the ledger\<close>

lemma purge_simps [simp]:
  "inflight_requests (purge_expired now l) = inflight_requests l" "bounds_of (purge_expired now l) = bounds_of l"
  "max_inflight_requests (purge_expired now l) = max_inflight_requests l"
  "max_completed_requests (purge_expired now l) = max_completed_requests l"
  "completed_request_ttl (purge_expired now l) = completed_request_ttl l"
  by (simp_all add: purge_expired_def bounds_of_def)

lemma purge_get:
  "hm_wf (entries l) \<Longrightarrow> hm_get (entries (purge_expired now l)) rid =
     (case hm_get (entries l) rid of Some e \<Rightarrow> if expired_entry now e then None else Some e | None \<Rightarrow> None)"
  by (simp add: purge_expired_def hm_get_retain split: option.split)

lemma purge_section:
  assumes ok: "dok env s"
  shows "dok env (s\<lparr>d_ledger := purge_expired (d_now s) (d_ledger s)\<rparr>)"
    "dguar env T s (s\<lparr>d_ledger := purge_expired (d_now s) (d_ledger s)\<rparr>)"
proof -
  let ?l = "d_ledger s" and ?p = "purge_expired (d_now s) (d_ledger s)"
  have l: "ledger_ok ?l" using ok by (simp add: dok_def)
  then have wf: "hm_wf (entries ?l)" by (simp add: ledger_ok_def)
  have "hm_len (entries ?p) \<le> hm_len (entries ?l)" by (simp add: purge_expired_def hm_retain_def hm_len_def)
  then have "ledger_ok ?p"
    using l pending_purge [OF wf] by (auto simp: ledger_ok_def) (simp add: purge_expired_def)
  moreover have "entries_ok (entries ?p) (completed_request_ttl ?l) (d_channels s) (d_log s)"
  proof -
    have "entries_ok (entries ?l) (completed_request_ttl ?l) (d_channels s) (d_log s)" using ok by (simp add: dok_def)
    moreover have "hm_get (entries ?l) rid = Some e" if "hm_get (entries ?p) rid = Some e" for rid e
      using that by (simp add: purge_get [OF wf] split: option.splits if_splits)
    ultimately show ?thesis unfolding entries_ok_def pending_purge [OF wf] by blast
  qed
  moreover have "horizon_ok (entries ?p) (completed_request_ttl ?l) (d_now s) (d_log s)"
  proof -
    have h: "horizon_ok (entries ?l) (completed_request_ttl ?l) (d_now s) (d_log s)" using ok by (simp add: dok_def)
    have "n \<le> d_now s \<or> hm_get (entries ?p) rid = Some (Complete d b r n)"
      if "hm_get (entries ?l) rid = Some (Complete d b r n)" for rid d b r n
      using that by (simp add: purge_get [OF wf])
    then show ?thesis
      using h retired_step [OF _ subset_refl order_refl] unfolding horizon_ok_def pending_purge [OF wf] by metis
  qed
  moreover have "queue_ok env (entries ?p) (d_spawned s) (d_owner s) (d_log s)"
    using ok by (simp add: dok_def queue_ok_def pending_purge [OF wf])
  ultimately show "dok env (s\<lparr>d_ledger := ?p\<rparr>)" using ok by (simp add: dok_def)
  show "dguar env T s (s\<lparr>d_ledger := ?p\<rparr>)"
    by (simp add: dguar_def guar_refl_rt owns_def pending_purge [OF wf])
qed

lemma spaced_snoc:
  assumes "spaced ttl lg"
    and "\<And>t rid d c at' t' d' c' at''. e = Admitted t rid d c at' \<Longrightarrow> Admitted t' rid d' c' at'' \<in> set lg \<Longrightarrow>
      \<exists>u x r done. Finished u x r done \<in> set lg \<and> x_channel x = c' \<and> done + ttl \<le> at'"
  shows "spaced ttl (lg @ [e])"
  unfolding spaced_def
proof (intro allI impI)
  fix xs ys t rid d c at' t' d' c' at''
  assume a: "lg @ [e] = xs @ Admitted t rid d c at' # ys" "Admitted t' rid d' c' at'' \<in> set xs"
  show "\<exists>u x r done. Finished u x r done \<in> set xs \<and> x_channel x = c' \<and> done + ttl \<le> at'"
  proof (cases ys rule: rev_cases)
    case Nil
    then show ?thesis using a assms(2) by simp
  next
    case (snoc zs z)
    then have "lg = xs @ Admitted t rid d c at' # zs" using a(1) by simp
    then show ?thesis using a(2) assms(1) unfolding spaced_def by blast
  qed
qed

lemma log_channel:
  assumes "log_ok env chs now lg"
  shows "Admitted t rid d c at' \<in> set lg \<Longrightarrow> c < length chs" "Started u x \<in> set lg \<Longrightarrow> x_channel x < length chs"
    "Finished u x r at' \<in> set lg \<Longrightarrow> x_channel x < length chs"
proof -
  have a: "c < length chs" if "Admitted t rid d c at' \<in> set lg" for t rid d c at'
    using assms that in_channels(1) [of c lg] by (auto simp: log_ok_def)
  then show "Admitted t rid d c at' \<in> set lg \<Longrightarrow> c < length chs" .
  show s: "Started u x \<in> set lg \<Longrightarrow> x_channel x < length chs" for u x
    using assms a unfolding log_ok_def by blast
  show "Finished u x r at' \<in> set lg \<Longrightarrow> x_channel x < length chs"
    using assms s unfolding log_ok_def by blast
qed

lemma dokD:
  assumes "dok env s"
  shows "rt_ok (p_runtime env) (d_runtime s)" "ledger_ok (d_ledger s)" "log_ok env (d_channels s) (d_now s) (d_log s)"
    "entries_ok (entries (d_ledger s)) (completed_request_ttl (d_ledger s)) (d_channels s) (d_log s)"
    "queue_ok env (entries (d_ledger s)) (d_spawned s) (d_owner s) (d_log s)"
    "horizon_ok (entries (d_ledger s)) (completed_request_ttl (d_ledger s)) (d_now s) (d_log s)"
    "spaced (completed_request_ttl (d_ledger s)) (d_log s)" "results_ok env (d_runtime s) (d_log s)"
  using assms by (simp_all add: dok_def)

lemma log_ok_admit:
  assumes "log_ok env chs now lg"
  shows "log_ok env (chs @ [None]) now (lg @ [Admitted t rid d (length chs) now])"
proof -
  have "\<exists>t' at'. Admitted t' (x_request_id x) (x_digest x) (x_channel x) at' \<in> set (lg @ [Admitted t rid d (length chs) now])"
    if "Started u x \<in> set lg" for u x
    using assms that unfolding log_ok_def by (metis UnCI set_append)
  then show ?thesis
    using assms log_channel(3) [OF assms] unfolding log_ok_def by (auto simp: nth_append less_Suc_eq)
qed

definition retains ::
  "duration \<Rightarrow> ledger_event list \<Rightarrow> request_id \<Rightarrow> bytes \<Rightarrow> bool \<Rightarrow> response_envelope \<Rightarrow> instant \<Rightarrow> bool" where
  "retains ttl lg rid d b r ex \<longleftrightarrow>
     (\<exists>u x at'. Finished u x r at' \<in> set lg \<and> x_request_id x = rid \<and> x_digest x = d \<and>
        b = is_mutation_command (x_command x) \<and> ex = at' + ttl)"

lemma entries_okI:
  assumes "\<And>rid d b c. pending m rid = Some (d, b, c) \<Longrightarrow> chs ! c = None \<and> (\<exists>t at'. Admitted t rid d c at' \<in> set lg)"
    and "\<And>rid d b r ex. hm_get m rid = Some (Complete d b r ex) \<Longrightarrow> retains ttl lg rid d b r ex"
  shows "entries_ok m ttl chs lg"
  unfolding entries_ok_def using assms by (simp add: retains_def)

lemma entries_pending:
  assumes "entries_ok m ttl chs lg" "pending m rid = Some (d, b, c)"
  shows "chs ! c = None" "\<exists>t at'. Admitted t rid d c at' \<in> set lg"
  using assms by (auto simp: entries_ok_def)

lemma entries_complete:
  "entries_ok m ttl chs lg \<Longrightarrow> hm_get m rid = Some (Complete d b r ex) \<Longrightarrow> retains ttl lg rid d b r ex"
  by (simp add: entries_ok_def retains_def)

lemma retains_ext: "retains ttl lg rid d b r ex \<Longrightarrow> set lg \<subseteq> set lg' \<Longrightarrow> retains ttl lg' rid d b r ex"
  unfolding retains_def by blast

lemma horizonD:
  "horizon_ok m ttl now lg \<Longrightarrow> Admitted t rid d c at' \<in> set lg \<Longrightarrow>
     (\<exists>b. pending m rid = Some (d, b, c)) \<or> retired m ttl now lg rid d c"
  unfolding horizon_ok_def by blast

lemma admit_section:
  assumes ok: "dok env s" and fresh: "hm_get (entries (d_ledger s)) rid = None"
    and room: "inflight_requests (d_ledger s) < max_inflight_requests (d_ledger s)"
      "hm_len (entries (d_ledger s)) < max_completed_requests (d_ledger s)"
  shows "dok env (snd (admit t rid d b s))" "dguar env {t} s (snd (admit t rid d b s))"
    "owns t rid d b (length (d_channels s)) False (snd (admit t rid d b s))"
proof -
  let ?l = "d_ledger s" and ?c = "length (d_channels s)" and ?s = "snd (admit t rid d b s)"
  note D = dokD [OF ok]
  have none: "pending (entries ?l) rid = None" using fresh by (simp add: pending_def)
  have st: "d_runtime ?s = d_runtime s" "d_channels ?s = d_channels s @ [None]" "d_spawned ?s = d_spawned s"
    "d_log ?s = d_log s @ [Admitted t rid d ?c (d_now s)]" "d_owner ?s = hm_insert rid (O_Task t) (d_owner s)"
    "entries (d_ledger ?s) = hm_insert rid (Pending d b ?c) (entries ?l)" "bounds_of (d_ledger ?s) = bounds_of ?l"
    "inflight_requests (d_ledger ?s) = inflight_requests ?l + 1"
    by (simp_all add: admit_def log_def Let_def bounds_of_def)
  have bounds: "completed_request_ttl (d_ledger ?s) = completed_request_ttl ?l"
    "max_inflight_requests (d_ledger ?s) = max_inflight_requests ?l" "max_completed_requests (d_ledger ?s) = max_completed_requests ?l"
    using st(7) by (simp_all add: bounds_of_def)
  have fresh_c: "?c \<notin> set (started_channels (d_log s))" using log_channel(2) [OF D(3)] by (metis in_channels(2) less_irrefl)
  have "ledger_ok (d_ledger ?s)"
    using D(2) room none fresh finite_pending [of "entries ?l"]
    by (simp add: ledger_ok_def st bounds card_insert_disjoint domIff hm.len_insert_new)
  moreover have "log_ok env (d_channels ?s) (d_now ?s) (d_log ?s)" using log_ok_admit [OF D(3)] by (simp add: st)
  moreover have "entries_ok (entries (d_ledger ?s)) (completed_request_ttl (d_ledger ?s)) (d_channels ?s) (d_log ?s)"
  proof (rule entries_okI)
    fix r' d' b' c' assume p: "pending (entries (d_ledger ?s)) r' = Some (d', b', c')"
    show "d_channels ?s ! c' = None \<and> (\<exists>t at'. Admitted t r' d' c' at' \<in> set (d_log ?s))"
    proof (cases "r' = rid")
      case True
      then have "d' = d \<and> c' = ?c" using p by (simp add: st)
      then show ?thesis using True unfolding st by auto
    next
      case False
      then have "pending (entries ?l) r' = Some (d', b', c')" using p by (simp add: st)
      from entries_pending [OF D(4) this] show ?thesis using log_channel(1) [OF D(3)] by (auto simp: st nth_append)
    qed
  next
    fix r' d' b' r ex assume "hm_get (entries (d_ledger ?s)) r' = Some (Complete d' b' r ex)"
    then have "hm_get (entries ?l) r' = Some (Complete d' b' r ex)" by (simp add: st split: if_splits)
    from entries_complete [OF D(4) this]
    show "retains (completed_request_ttl (d_ledger ?s)) (d_log ?s) r' d' b' r ex"
      unfolding st bounds by (rule retains_ext) auto
  qed
  moreover have "queue_ok env (entries (d_ledger ?s)) (d_spawned ?s) (d_owner ?s) (d_log ?s)"
    using D(5) none by (auto simp: queue_ok_def st hm.dom_insert_at)
  moreover have keep: "retired (entries (d_ledger ?s)) (completed_request_ttl ?l) (d_now s) (d_log ?s) r' d' c'"
    if "retired (entries ?l) (completed_request_ttl ?l) (d_now s) (d_log s) r' d' c'" for r' d' c'
    by (rule retired_step [OF that]) (use fresh in \<open>auto simp: st split: if_splits\<close>)
  have "horizon_ok (entries (d_ledger ?s)) (completed_request_ttl (d_ledger ?s)) (d_now ?s) (d_log ?s)"
    unfolding horizon_ok_def bounds st(1)
  proof (intro allI impI)
    fix t' r' d' c' at' assume a: "Admitted t' r' d' c' at' \<in> set (d_log ?s)"
    show "(\<exists>b. pending (entries (d_ledger ?s)) r' = Some (d', b, c')) \<or>
        retired (entries (d_ledger ?s)) (completed_request_ttl ?l) (d_now s) (d_log ?s) r' d' c'"
    proof (cases "Admitted t' r' d' c' at' \<in> set (d_log s)")
      case True
      from horizonD [OF D(6) this] show ?thesis using keep none by (auto simp: st)
    next
      case False
      then show ?thesis using a by (simp add: st)
    qed
  qed
  moreover have "spaced (completed_request_ttl (d_ledger ?s)) (d_log ?s)"
    unfolding st bounds
  proof (rule spaced_snoc [OF D(7)])
    fix t' rid' d' c' a' t2 d2 c2 a2
    assume e: "Admitted t rid d ?c (d_now s) = Admitted t' rid' d' c' a'" "Admitted t2 rid' d2 c2 a2 \<in> set (d_log s)"
    then have "retired (entries ?l) (completed_request_ttl ?l) (d_now s) (d_log s) rid d2 c2"
      using horizonD [OF D(6)] none by fastforce
    then show "\<exists>u x r done. Finished u x r done \<in> set (d_log s) \<and> x_channel x = c2 \<and> done + completed_request_ttl ?l \<le> a'"
      using e fresh unfolding retired_def by auto
  qed
  moreover have "results_ok env (d_runtime ?s) (d_log ?s)" using D(8) by (auto simp: results_ok_def st)
  ultimately show "dok env ?s" using D(1) by (simp add: dok_def st)
  show "dguar env {t} s ?s"
    using none fresh_c by (auto simp: dguar_def st guar_refl_rt log_ext_def owns_def nth_append)
  show "owns t rid d b ?c False ?s" using fresh_c by (simp add: owns_def st)
qed

lemma entries_ok_ext: "entries_ok m ttl chs lg \<Longrightarrow> set lg \<subseteq> set lg' \<Longrightarrow> entries_ok m ttl chs lg'"
  unfolding entries_ok_def by (meson subsetD)

lemma horizon_ok_snoc:
  assumes "horizon_ok m ttl now lg" "\<And>t rid d c at'. e \<noteq> Admitted t rid d c at'"
  shows "horizon_ok m ttl now (lg @ [e])"
proof -
  have "retired m ttl now (lg @ [e]) rid d c" if "retired m ttl now lg rid d c" for rid d c
    by (rule retired_step [OF that]) auto
  moreover have "Admitted t rid d c at' \<in> set lg" if "Admitted t rid d c at' \<in> set (lg @ [e])" for t rid d c at'
    using that assms(2) [of t rid d c at'] by simp
  ultimately show ?thesis using assms(1) unfolding horizon_ok_def by metis
qed

lemma distinct_map_remove1: "distinct (map f xs) \<Longrightarrow> distinct (map f (remove1 x xs))"
  by (induction xs) (auto dest!: subsetD [OF set_remove1_subset])

lemma queued:
  assumes "queue_ok env m spawned owners lg" "x \<in> set spawned"
  shows "hm_get owners (x_request_id x) = Some O_Queue" "x_channel x \<notin> set (started_channels lg)"
    "command_digest env (x_command x) = Some (x_digest x)"
    "pending m (x_request_id x) = Some (x_digest x, is_mutation_command (x_command x), x_channel x)"
  using assms by (simp_all add: queue_ok_def)

lemma pending_channel_once:
  assumes "log_ok env chs now lg" "entries_ok m ttl chs lg"
    and "pending m rid = Some (d, b, c)" "pending m rid' = Some (d', b', c)"
  shows "rid = rid'"
proof -
  obtain t at' t' at'' where "Admitted t rid d c at' \<in> set lg" "Admitted t' rid' d' c at'' \<in> set lg"
    using entries_pending(2) [OF assms(2,3)] entries_pending(2) [OF assms(2,4)] by blast
  moreover have "distinct (admitted_channels lg)" using assms(1) by (simp add: log_ok_def)
  ultimately show ?thesis by (metis events_once(1))
qed

lemma spawn_section:
  assumes ok: "dok env s" and own: "owns t (x_request_id x) (x_digest x) (is_mutation_command (x_command x)) (x_channel x) False s"
    and dg: "command_digest env (x_command x) = Some (x_digest x)"
  shows "dok env (s\<lparr>d_spawned := x # d_spawned s, d_owner := hm_insert (x_request_id x) O_Queue (d_owner s)\<rparr>)"
    "dguar env {t} s (s\<lparr>d_spawned := x # d_spawned s, d_owner := hm_insert (x_request_id x) O_Queue (d_owner s)\<rparr>)"
proof -
  let ?s = "s\<lparr>d_spawned := x # d_spawned s, d_owner := hm_insert (x_request_id x) O_Queue (d_owner s)\<rparr>"
  note Q = dokD(5) [OF ok]
  have new: "x_request_id y \<noteq> x_request_id x" if "y \<in> set (d_spawned s)" for y
    using queued(1) [OF Q that] own by (auto simp: owns_def)
  have "dom (hm_get (hm_insert (x_request_id x) O_Queue (d_owner s))) = dom (pending (entries (d_ledger s)))"
    using Q own by (simp add: queue_ok_def owns_def hm.dom_insert_at insert_absorb domI)
  then have "queue_ok env (entries (d_ledger s)) (x # d_spawned s) (hm_insert (x_request_id x) O_Queue (d_owner s)) (d_log s)"
    unfolding queue_ok_def using Q own dg new queued [OF Q]
    by (auto simp: queue_ok_def owns_def)
  then show "dok env ?s" using ok by (simp add: dok_def)
  show "dguar env {t} s ?s" using own by (auto simp: dguar_def guar_refl_rt owns_def)
qed

lemma start_ok:
  assumes ok: "dok env s" and x: "x \<in> set (d_spawned s)"
  shows "dok env (start_section u x s)" "dguar env {u} s (start_section u x s)"
    "owns u (x_request_id x) (x_digest x) (is_mutation_command (x_command x)) (x_channel x) True (start_section u x s)"
    "Started u x \<in> set (d_log (start_section u x s))"
proof -
  let ?s = "start_section u x s"
  note D = dokD [OF ok]
  note q = queued [OF D(5) x]
  have st: "d_runtime ?s = d_runtime s" "d_ledger ?s = d_ledger s" "d_channels ?s = d_channels s"
    "d_log ?s = d_log s @ [Started u x]" "d_spawned ?s = remove1 x (d_spawned s)"
    "d_owner ?s = hm_insert (x_request_id x) (O_Task u) (d_owner s)"
    by (simp_all add: start_section_def log_def)
  have pend: "rid = x_request_id x" if "pending (entries (d_ledger s)) rid = Some (d, b, x_channel x)" for rid d b
    by (rule pending_channel_once [OF D(3,4) that q(4)])
  have dist: "distinct (map x_request_id (d_spawned s))" using D(5) by (simp add: queue_ok_def)
  have other: "y \<in> set (d_spawned s) \<and> x_request_id y \<noteq> x_request_id x" if "y \<in> set (remove1 x (d_spawned s))" for y
  proof -
    have "y \<in> set (d_spawned s)" using that notin_set_remove1 by metis
    moreover have "y \<noteq> x" using that dist by (auto simp: distinct_map)
    ultimately show ?thesis using dist x by (auto simp: distinct_map inj_on_def)
  qed
  have adm: "\<exists>t at'. Admitted t (x_request_id x) (x_digest x) (x_channel x) at' \<in> set (d_log s)"
    by (rule entries_pending(2) [OF D(4) q(4)])
  have log: "log_ok env (d_channels s) (d_now s) (d_log s @ [Started u x])"
    using D(3) q(2,3) adm by (auto simp: log_ok_def)
  have entr: "entries_ok (entries (d_ledger s)) (completed_request_ttl (d_ledger s)) (d_channels s) (d_log s @ [Started u x])"
    by (rule entries_ok_ext [OF D(4)]) auto
  have "x_request_id x \<in> dom (pending (entries (d_ledger s)))" using q(4) by blast
  then have "dom (hm_get (d_owner ?s)) = dom (pending (entries (d_ledger s)))"
    using D(5) insert_absorb by (simp add: queue_ok_def st hm.dom_insert_at)
  moreover have "hm_get (d_owner ?s) (x_request_id y) = Some O_Queue \<and> x_channel y \<notin> set (started_channels (d_log s @ [Started u x])) \<and>
      command_digest env (x_command y) = Some (x_digest y) \<and>
      pending (entries (d_ledger s)) (x_request_id y) = Some (x_digest y, is_mutation_command (x_command y), x_channel y)"
    if "y \<in> set (remove1 x (d_spawned s))" for y
  proof -
    note y = other [OF that]
    note qy = queued [OF D(5) conjunct1 [OF y]]
    have "x_channel y \<noteq> x_channel x" using y qy(4) pend [of "x_request_id y"] by auto
    then show ?thesis using y qy by (simp add: st)
  qed
  ultimately have "queue_ok env (entries (d_ledger s)) (remove1 x (d_spawned s)) (d_owner ?s) (d_log s @ [Started u x])"
    using D(5) distinct_map_remove1 [OF dist, of x] by (simp add: queue_ok_def st)
  moreover have "horizon_ok (entries (d_ledger s)) (completed_request_ttl (d_ledger s)) (d_now s) (d_log s @ [Started u x])"
    by (rule horizon_ok_snoc [OF D(6)]) simp
  moreover have "spaced (completed_request_ttl (d_ledger s)) (d_log s @ [Started u x])" by (rule spaced_snoc [OF D(7)]) simp
  moreover have "results_ok env (d_runtime s) (d_log s @ [Started u x])" using D(8) by (auto simp: results_ok_def)
  ultimately show "dok env ?s" using D(1,2) log entr by (simp add: dok_def st)
  have "owns v rid d b c st ?s" if "owns v rid d b c st s" for v rid d b c st
  proof -
    have "rid \<noteq> x_request_id x" using that q(1) by (auto simp: owns_def)
    moreover have "c \<noteq> x_channel x" using that pend [of rid d b] calculation by (auto simp: owns_def)
    ultimately show ?thesis using that by (simp add: owns_def st)
  qed
  then show "dguar env {u} s ?s" by (simp add: dguar_def st guar_refl_rt log_ext_def)
  show "owns u (x_request_id x) (x_digest x) (is_mutation_command (x_command x)) (x_channel x) True ?s"
    using q(4) by (simp add: owns_def st)
  show "Started u x \<in> set (d_log ?s)" by (simp add: st)
qed

lemma log_ok_finish:
  assumes ok: "log_ok env chs now lg" and run: "Started t x \<in> set lg" and unf: "x_channel x \<notin> set (finished_channels lg)"
  shows "log_ok env (chs[x_channel x := Some r]) now (lg @ [Finished t x r now])"
proof -
  let ?chs = "chs[x_channel x := Some r]" and ?lg = "lg @ [Finished t x r now]"
  have c: "x_channel x < length chs" by (rule log_channel(2) [OF ok run])
  have new: "x_channel y \<noteq> x_channel x" if "Finished u y a at' \<in> set lg" for u y a at'
    using that unf in_channels(3) by metis
  have "Started u y \<in> set ?lg \<and> at' \<le> now \<and> ?chs ! x_channel y = Some a" if f: "Finished u y a at' \<in> set ?lg" for u y a at'
  proof (cases "Finished u y a at' \<in> set lg")
    case True
    then show ?thesis using ok new [OF True] unfolding log_ok_def by auto
  next
    case False
    then show ?thesis using f run c by auto
  qed
  moreover have "\<exists>u y at'. Finished u y a at' \<in> set ?lg \<and> x_channel y = c'" if "c' < length ?chs" "?chs ! c' = Some a" for c' a
  proof (cases "c' = x_channel x")
    case True
    then show ?thesis using that by auto
  next
    case False
    then have "\<exists>u y at'. Finished u y a at' \<in> set lg \<and> x_channel y = c'"
      using that ok unfolding log_ok_def by simp
    then show ?thesis by auto
  qed
  ultimately show ?thesis using ok unf unfolding log_ok_def by auto
qed

lemma results_ok_finish:
  assumes "results_ok env rt lg" "finished t (faithful (p_runtime env) t res) rt"
  shows "results_ok env rt (lg @ [Finished t x (response_of (x_request_id x) res) now])"
  unfolding results_ok_def
proof (intro allI impI)
  fix u y r at' assume f: "Finished u y r at' \<in> set (lg @ [Finished t x (response_of (x_request_id x) res) now])"
  show "\<exists>res. r = response_of (x_request_id y) res \<and> finished u (faithful (p_runtime env) u res) rt"
  proof (cases "Finished u y r at' \<in> set lg")
    case True
    then show ?thesis using assms(1) unfolding results_ok_def by blast
  next
    case False
    then show ?thesis using f assms(2) by auto
  qed
qed

lemma complete_ok:
  assumes ok: "dok env s" and own: "owns t (x_request_id x) (x_digest x) (is_mutation_command (x_command x)) (x_channel x) True s"
    and run: "Started t x \<in> set (d_log s)"
    and res: "finished t (faithful (p_runtime env) t res) (d_runtime s)"
  shows "dok env (complete_section t x (response_of (x_request_id x) res) s)"
    "dguar env {t} s (complete_section t x (response_of (x_request_id x) res) s)"
proof -
  let ?r = "response_of (x_request_id x) res" and ?l = "d_ledger s" and ?rid = "x_request_id x" and ?c = "x_channel x"
  let ?s = "complete_section t x ?r s" and ?b = "is_mutation_command (x_command x)" and ?ttl = "completed_request_ttl (d_ledger s)"
  let ?done = "Complete (x_digest x) ?b ?r (d_now s + ?ttl)" and ?e = "Finished t x ?r (d_now s)"
  note D = dokD [OF ok]
  have pend: "pending (entries ?l) ?rid = Some (x_digest x, ?b, ?c)" using own by (simp add: owns_def)
  have st: "d_runtime ?s = d_runtime s" "d_channels ?s = (d_channels s)[?c := Some ?r]" "d_spawned ?s = d_spawned s"
    "d_log ?s = d_log s @ [?e]" "d_owner ?s = hm_remove ?rid (d_owner s)"
    "entries (d_ledger ?s) = hm_insert ?rid ?done (hm_remove ?rid (entries ?l))" "bounds_of (d_ledger ?s) = bounds_of ?l"
    "inflight_requests (d_ledger ?s) = inflight_requests ?l - 1"
    using pend by (simp_all add: pending_eq complete_section_def log_def Let_def bounds_of_def)
  have bounds: "completed_request_ttl (d_ledger ?s) = ?ttl" "max_inflight_requests (d_ledger ?s) = max_inflight_requests ?l"
    "max_completed_requests (d_ledger ?s) = max_completed_requests ?l"
    using st(7) by (simp_all add: bounds_of_def)
  have pends: "pending (entries (d_ledger ?s)) = (pending (entries ?l))(?rid := None)" by (simp add: st)
  have open': "d_channels s ! ?c = None" by (rule entries_pending(1) [OF D(4) pend])
  have c: "?c < length (d_channels s)" by (rule log_channel(2) [OF D(3) run])
  have unf: "?c \<notin> set (finished_channels (d_log s))"
  proof
    assume "?c \<in> set (finished_channels (d_log s))"
    then obtain u y r at' where "Finished u y r at' \<in> set (d_log s)" "x_channel y = ?c" using in_channels(3) by blast
    then show False using D(3) open' unfolding log_ok_def by force
  qed
  have wf: "hm_wf (entries ?l)" using D(2) by (simp add: ledger_ok_def)
  have "hm_get (entries ?l) ?rid \<noteq> None" using pend by (simp add: pending_eq)
  then have len: "hm_len (entries (d_ledger ?s)) = hm_len (entries ?l)"
    unfolding st using hm.len_remove [OF wf, of ?rid] wf by (simp add: hm.len_insert_new)
  have rid: "?rid \<in> dom (pending (entries ?l))" using pend by blast
  have "card (dom (pending (entries (d_ledger ?s)))) = card (dom (pending (entries ?l))) - 1"
    unfolding pends using rid finite_pending [of "entries ?l"] by (simp add: card_Diff_singleton)
  then have "ledger_ok (d_ledger ?s)"
    using D(2) len unfolding ledger_ok_def bounds st(8) by (auto simp: st(6) wf)
  moreover have "log_ok env (d_channels ?s) (d_now ?s) (d_log ?s)"
    using log_ok_finish [OF D(3) run unf] by (simp add: st)
  moreover have "entries_ok (entries (d_ledger ?s)) (completed_request_ttl (d_ledger ?s)) (d_channels ?s) (d_log ?s)"
  proof (rule entries_okI)
    fix r' d' b' c' assume "pending (entries (d_ledger ?s)) r' = Some (d', b', c')"
    then have p: "r' \<noteq> ?rid" "pending (entries ?l) r' = Some (d', b', c')" by (auto simp: pends split: if_splits)
    have "c' \<noteq> ?c" using pending_channel_once [OF D(3,4) p(2)] pend p(1) by auto
    then show "d_channels ?s ! c' = None \<and> (\<exists>t at'. Admitted t r' d' c' at' \<in> set (d_log ?s))"
      using entries_pending [OF D(4) p(2)] unfolding st by auto
  next
    fix r' d' b' r ex assume g: "hm_get (entries (d_ledger ?s)) r' = Some (Complete d' b' r ex)"
    show "retains (completed_request_ttl (d_ledger ?s)) (d_log ?s) r' d' b' r ex"
    proof (cases "r' = ?rid")
      case True
      then show ?thesis using g unfolding st bounds retains_def by auto
    next
      case False
      then have "hm_get (entries ?l) r' = Some (Complete d' b' r ex)" using g by (simp add: st)
      from entries_complete [OF D(4) this] show ?thesis unfolding st bounds by (rule retains_ext) auto
    qed
  qed
  moreover have "x_request_id y \<noteq> ?rid" if "y \<in> set (d_spawned s)" for y
    using queued(1) [OF D(5) that] own by (auto simp: owns_def)
  then have "queue_ok env (entries (d_ledger ?s)) (d_spawned ?s) (d_owner ?s) (d_log ?s)"
    using D(5) unfolding queue_ok_def pends by (auto simp: st hm.dom_remove_at)
  moreover have keep: "retired (entries (d_ledger ?s)) ?ttl (d_now s) (d_log ?s) r' d' c'"
    if "retired (entries ?l) ?ttl (d_now s) (d_log s) r' d' c'" for r' d' c'
    by (rule retired_step [OF that]) (use pend in \<open>auto simp: st pending_eq split: if_splits\<close>)
  have "horizon_ok (entries (d_ledger ?s)) (completed_request_ttl (d_ledger ?s)) (d_now ?s) (d_log ?s)"
    unfolding horizon_ok_def bounds st(1)
  proof (intro allI impI)
    fix t' r' d' c' at' assume "Admitted t' r' d' c' at' \<in> set (d_log ?s)"
    then have a: "Admitted t' r' d' c' at' \<in> set (d_log s)" by (simp add: st)
    have "retired (entries (d_ledger ?s)) ?ttl (d_now s) (d_log ?s) r' d' c'"
      if "r' = ?rid" "pending (entries ?l) r' = Some (d', b', c')" for b'
      using that pend unfolding retired_def st by auto
    then show "(\<exists>b. pending (entries (d_ledger ?s)) r' = Some (d', b, c')) \<or>
        retired (entries (d_ledger ?s)) ?ttl (d_now s) (d_log ?s) r' d' c'"
      using horizonD [OF D(6) a] keep unfolding pends by auto
  qed
  moreover have "spaced (completed_request_ttl (d_ledger ?s)) (d_log ?s)"
    unfolding st bounds by (rule spaced_snoc [OF D(7)]) simp
  moreover have "results_ok env (d_runtime ?s) (d_log ?s)" using results_ok_finish [OF D(8) res] by (simp add: st)
  ultimately show "dok env ?s" using D(1) by (simp add: dok_def st)
  have "owns v r' d' b' c' st' ?s" if "v \<noteq> t" "owns v r' d' b' c' st' s" for v r' d' b' c' st'
    using that own by (auto simp: owns_def pends st)
  moreover have "(d_channels s)[?c := Some ?r] ! c' = Some r" if "d_channels s ! c' = Some r" for c' r
    using that open' by (cases "c' = ?c") auto
  ultimately show "dguar env {t} s ?s" by (simp add: dguar_def st guar_refl_rt log_ext_def)
qed

end
