(* ===== verification/DispatcherLife.thy ===== *)
theory DispatcherLife
  imports DispatcherInv
begin

text \<open>
  Every task of the dispatcher keeps the invariant and its guarantee, and what its results mean:
  an answer is a refusal, a passed deadline, or the response that the one execution of the same
  request identity and command recorded.
\<close>

section \<open>Assertions\<close>

definition fresh_task :: "nat \<Rightarrow> 'w dispatcher \<Rightarrow> bool" where
  "fresh_task t s \<longleftrightarrow> untouched t (d_runtime s) \<and> (\<forall>e \<in> set (d_log s). ledger_task e \<noteq> t)"

definition admitted_by :: "nat \<Rightarrow> 'w dispatcher \<Rightarrow> bool" where
  "admitted_by t s \<longleftrightarrow> (\<exists>rid d c now. Admitted t rid d c now \<in> set (d_log s))"

definition watches :: "request_id \<Rightarrow> bytes \<Rightarrow> nat \<Rightarrow> 'w dispatcher \<Rightarrow> bool" where
  "watches rid d c s \<longleftrightarrow> (\<exists>t now. Admitted t rid d c now \<in> set (d_log s))"

definition replied :: "request_id \<Rightarrow> bytes \<Rightarrow> response_envelope \<Rightarrow> 'w dispatcher \<Rightarrow> bool" where
  "replied rid d r s \<longleftrightarrow> (\<exists>u x now. Finished u x r now \<in> set (d_log s) \<and> x_request_id x = rid \<and> x_digest x = d)"

text \<open>Every admission of the identity up to some moment was completed, and its horizon has passed.\<close>

definition forgotten :: "request_id \<Rightarrow> 'w dispatcher \<Rightarrow> bool" where
  "forgotten rid s \<longleftrightarrow>
     (\<exists>lg later. d_log s = lg @ later \<and>
        (\<forall>t d c at'. Admitted t rid d c at' \<in> set lg \<longrightarrow>
           (\<exists>u x r done. Finished u x r done \<in> set lg \<and> x_channel x = c \<and>
              done + completed_request_ttl (d_ledger s) \<le> d_now s)))"

definition executing :: "nat \<Rightarrow> execution \<Rightarrow> 'w dispatcher \<Rightarrow> bool" where
  "executing u x s \<longleftrightarrow>
     owns u (x_request_id x) (x_digest x) (is_mutation_command (x_command x)) (x_channel x) True s \<and>
     Started u x \<in> set (d_log s) \<and> unfinished u s"

lemma log_grows:
  assumes "dguar env T s s'"
  shows "set (d_log s) \<subseteq> set (d_log s')" "e \<in> set (d_log s') \<Longrightarrow> e \<notin> set (d_log s) \<Longrightarrow> ledger_task e \<in> T"
  using assms by (auto simp: dguar_def log_ext_def)

lemma stable_log: "(\<And>lg lg'. \<Phi> lg \<Longrightarrow> set lg \<subseteq> set lg' \<Longrightarrow> \<Phi> lg') \<Longrightarrow> dp.stable env t (\<lambda>s. \<Phi> (d_log s))"
  by (rule dp.stableI) (use log_grows(1) in blast)

lemma stable_watches: "dp.stable env t (watches rid d c)"
  unfolding watches_def [abs_def] by (rule stable_log) blast

lemma stable_replied: "dp.stable env t (replied rid d r)"
  unfolding replied_def [abs_def] by (rule stable_log) blast

lemma stable_quiet_log:
  assumes "\<And>lg lg'. \<Phi> lg \<Longrightarrow> (\<And>e. e \<in> set lg' \<Longrightarrow> ledger_task e = t \<Longrightarrow> e \<in> set lg) \<Longrightarrow> \<Phi> lg'"
  shows "dp.stable env t (\<lambda>s. \<Phi> (d_log s))"
proof (rule dp.stableI)
  fix s s' :: "'a dispatcher" assume a: "\<Phi> (d_log s)" "dguar env (- {t}) s s'"
  show "\<Phi> (d_log s')" by (rule assms [OF a(1)]) (use log_grows(2) [OF a(2)] in blast)
qed

lemma stable_not_admitted: "dp.stable env t (\<lambda>s. \<not> admitted_by t s)"
  unfolding admitted_by_def by (rule stable_quiet_log) (metis ledger_task.simps(1))

lemma stable_unfinished: "dp.stable env t (unfinished t)"
  unfolding unfinished_def [abs_def] by (rule stable_quiet_log) blast

lemma stable_runtime: "rt.stable (p_runtime env) t P \<Longrightarrow> dp.stable env t (\<lambda>s. P (d_runtime s))"
  by (rule dp.stableI) (auto simp: dguar_def dok_def dest: rt.stableD)

lemma stable_fresh: "dp.stable env t (fresh_task t)"
  unfolding fresh_task_def [abs_def]
  by (intro dp.stable_conj stable_runtime robust_stable [OF robust_untouched] stable_quiet_log) blast

lemma stable_owns: "dp.stable env t (owns t rid d b c st)"
  by (rule dp.stableI) (simp add: dguar_def)

lemma stable_executing: "dp.stable env u (executing u x)"
proof -
  have "dp.stable env u (\<lambda>s. Started u x \<in> set (d_log s))" by (rule stable_log) blast
  then show ?thesis
    unfolding executing_def [abs_def] by (intro dp.stable_conj stable_owns stable_unfinished)
qed

lemma stable_forgotten: "dp.stable env t (forgotten rid)"
proof (rule dp.stableI)
  fix s s' :: "'a dispatcher" assume a: "forgotten rid s" "dguar env (- {t}) s s'"
  obtain lg later where lg: "d_log s = lg @ later"
    "\<And>t d c at'. Admitted t rid d c at' \<in> set lg \<Longrightarrow>
       \<exists>u x r done. Finished u x r done \<in> set lg \<and> x_channel x = c \<and> done + completed_request_ttl (d_ledger s) \<le> d_now s"
    using a(1) unfolding forgotten_def by blast
  have g: "d_now s \<le> d_now s'" "completed_request_ttl (d_ledger s') = completed_request_ttl (d_ledger s)" "log_ext (- {t}) (d_log s) (d_log s')"
    using a(2) by (simp_all add: dguar_def guar_def bounds_of_def)
  then obtain new where new: "d_log s' = lg @ (later @ new)" using lg(1) by (auto simp: log_ext_def)
  have "\<exists>u x r done. Finished u x r done \<in> set lg \<and> x_channel x = c \<and> done + completed_request_ttl (d_ledger s) \<le> d_now s'"
    if a: "Admitted v rid d c at' \<in> set lg" for v d c at'
  proof -
    obtain u x r done' where f: "Finished u x r done' \<in> set lg" "x_channel x = c" "done' + completed_request_ttl (d_ledger s) \<le> d_now s"
      using lg(2) [OF a] by blast
    show ?thesis
      by (intro exI [of _ u] exI [of _ x] exI [of _ r] exI [of _ done'] conjI f(1,2) order_trans [OF f(3) g(1)])
  qed
  then show "forgotten rid s'" unfolding forgotten_def g(2) by (intro exI [of _ lg] exI [of _ "later @ new"]) (simp add: new)
qed

section \<open>Executions\<close>

lemma start_fresh:
  assumes ok: "dok env s" and f: "fresh_task u s" and x: "x \<in> set (d_spawned s)"
  shows "executing u x (start_section u x s) \<and> untouched u (d_runtime (start_section u x s))"
proof -
  have l: "d_log (start_section u x s) = d_log s @ [Started u x]" "d_runtime (start_section u x s) = d_runtime s"
    by (simp_all add: start_section_def log_def)
  have "unfinished u (start_section u x s)" using f by (auto simp: unfinished_def fresh_task_def l)
  then show ?thesis using start_ok(3,4) [OF ok x, of u] f by (simp add: executing_def fresh_task_def l)
qed

lemma execution_triple: "dp.triple env u (fresh_task u) (execution_task env u x) (\<lambda>_ _. True)"
  unfolding execution_task_def
proof (intro dp.triple_bindP)
  show "dp.triple env u (fresh_task u) (blocking (\<lambda>s. x \<in> set (d_spawned s)) (\<lambda>s. ((), start_section u x s)))
      (\<lambda>_ s. executing u x s \<and> untouched u (d_runtime s))"
  proof (rule dp.triple_blocking [OF stable_fresh])
    show "dp.stable env u (\<lambda>s. executing u x s \<and> untouched u (d_runtime s))"
      by (intro dp.stable_conj stable_executing stable_runtime robust_stable [OF robust_untouched])
  qed (simp add: start_ok start_fresh)
  show "dp.triple env u (\<lambda>s. executing u x s \<and> untouched u (d_runtime s))
      (in_runtime (execute (p_runtime env) u (x_command x)))
      (\<lambda>r s. finished u (faithful (p_runtime env) u r) (d_runtime s) \<and> executing u x s)" for a :: unit
  proof (rule dp.tripleI)
    fix s assume s: "dok env s" "executing u x s \<and> untouched u (d_runtime s)"
    have "safe (rt_ok (p_runtime env)) (guar (p_runtime env)) u (\<lambda>r. finished u (faithful (p_runtime env) u r))
        (execute (p_runtime env) u (x_command x)) (d_runtime s)"
      using rt.tripleD [OF triple_execute] s dokD(1) by blast
    then show "safe (dok env) (dguar env) u (\<lambda>r s. finished u (faithful (p_runtime env) u r) (d_runtime s) \<and> executing u x s)
        (in_runtime (execute (p_runtime env) u (x_command x))) s"
      by (rule safe_in_runtime [where F = "executing u x"])
        (use s stable_executing in \<open>simp_all add: executing_def owns_def unfinished_def\<close>)
  qed
  show "dp.triple env u (\<lambda>s. finished u (faithful (p_runtime env) u r) (d_runtime s) \<and> executing u x s)
      (complete_request u x r) (\<lambda>_ _. True)" for r
    unfolding complete_request_def
  proof (rule dp.triple_atomic)
    show "dp.stable env u (\<lambda>s. finished u (faithful (p_runtime env) u r) (d_runtime s) \<and> executing u x s)"
      by (intro dp.stable_conj stable_executing stable_runtime robust_stable [OF robust_finished])
  qed (auto simp: executing_def complete_ok dp.stable_def)
qed

section \<open>Waiting and reconciliation\<close>

lemma channel_value:
  assumes "dok env s" "watches rid d c s" "d_channels s ! c = Some r"
  shows "replied rid d r s"
proof -
  note L = dokD(3) [OF assms(1)]
  obtain t now where a: "Admitted t rid d c now \<in> set (d_log s)" using assms(2) unfolding watches_def by blast
  have "c < length (d_channels s)" by (rule log_channel(1) [OF L a])
  then obtain u x at' where f: "Finished u x r at' \<in> set (d_log s)" "x_channel x = c"
    using L assms(3) unfolding log_ok_def by blast
  then have "Started u x \<in> set (d_log s)" using L unfolding log_ok_def by blast
  then obtain t' at'' where b: "Admitted t' (x_request_id x) (x_digest x) c at'' \<in> set (d_log s)"
    using L f(2) unfolding log_ok_def by blast
  have "distinct (admitted_channels (d_log s))" using L by (simp add: log_ok_def)
  from events_once(1) [OF this b a] show ?thesis using f(1) unfolding replied_def by blast
qed

definition waited :: "request_id \<Rightarrow> bytes \<Rightarrow> nat \<Rightarrow> response_envelope option \<Rightarrow> 'w dispatcher \<Rightarrow> bool" where
  "waited rid d c v s = (case v of None \<Rightarrow> watches rid d c s | Some r \<Rightarrow> replied rid d r s)"

lemma stable_waited: "dp.stable env t (waited rid d c v)"
  unfolding waited_def [abs_def] by (cases v) (simp_all add: stable_watches stable_replied)

lemma observe_dispatcher:
  assumes "dp.stable env t P" "\<And>x. dp.stable env t (Q x)" "\<And>s. dok env s \<Longrightarrow> P s \<Longrightarrow> Q (f s) s"
  shows "dp.triple env t P (blocking b (\<lambda>s. (f s, s))) Q"
  by (rule dp.triple_blocking [OF assms(1,2)]) (simp add: assms(3) dp.guar_refl)

lemma wait_triple: "dp.triple env t (watches rid d c) (wait_for_response c deadline) (waited rid d c)"
proof -
  have v: "waited rid d c (d_channels s ! c) s" if "dok env s" "watches rid d c s" for s :: "'a dispatcher"
    using that channel_value [OF that] by (simp add: waited_def split: option.split)
  show ?thesis
    unfolding wait_for_response_def atomic_def
  proof (rule dp.triple_bindP)
    show "dp.triple env t (watches rid d c) (blocking (\<lambda>_. True) (\<lambda>s. (d_channels s ! c, s))) (waited rid d c)"
      by (rule observe_dispatcher) (simp_all add: stable_watches stable_waited v)
    show "dp.triple env t (waited rid d c now)
        (case now of None \<Rightarrow> blocking (\<lambda>s. d_channels s ! c \<noteq> None \<or> deadline \<le> d_now s) (\<lambda>s. (d_channels s ! c, s))
          | Some response \<Rightarrow> Ret (Some response)) (waited rid d c)" for now
    proof (cases now)
      case None
      have "dp.triple env t (watches rid d c)
          (blocking (\<lambda>s. d_channels s ! c \<noteq> None \<or> deadline \<le> d_now s) (\<lambda>s. (d_channels s ! c, s))) (waited rid d c)"
        by (rule observe_dispatcher) (simp_all add: stable_watches stable_waited v)
      then show ?thesis using None by (simp add: waited_def [abs_def])
    next
      case (Some r)
      then show ?thesis by (simp add: dp.triple_Ret [OF stable_waited])
    qed
  qed
qed

section \<open>Admission\<close>

text \<open>What the section under the lock of the ledger leaves behind, by its answer.\<close>

definition begun_ok :: "nat \<Rightarrow> request_id \<Rightarrow> bytes \<Rightarrow> bool \<Rightarrow> begin_request \<Rightarrow> 'w dispatcher \<Rightarrow> bool" where
  "begun_ok t rid d b r s \<longleftrightarrow>
     (case r of
        B_Execute c \<Rightarrow> owns t rid d b c False s
      | B_Wait c \<Rightarrow> watches rid d c s
      | B_Replay response \<Rightarrow> replied rid d response s
      | _ \<Rightarrow> \<not> admitted_by t s)"

lemma stable_begun: "dp.stable env t (begun_ok t rid d b r)"
  unfolding begun_ok_def [abs_def]
  by (cases r) (simp_all add: stable_owns stable_watches stable_replied stable_not_admitted)

lemma pending_watches:
  assumes "dok env s" "pending (entries (d_ledger s)) rid = Some (d, b, c)"
  shows "watches rid d c s"
  using entries_pending(2) [OF dokD(4) [OF assms(1)] assms(2)] by (simp add: watches_def)

lemma complete_replied:
  assumes "dok env s" "hm_get (entries (d_ledger s)) rid = Some (Complete d b r ex)"
  shows "replied rid d r s"
  using entries_complete [OF dokD(4) [OF assms(1)] assms(2)] unfolding retains_def replied_def by blast

lemma begin_cases:
  assumes ok: "dok env s" and fresh: "\<not> admitted_by t s"
  shows "dok env (snd (begin_section t rid d b s))" "dguar env {t} s (snd (begin_section t rid d b s))"
    "begun_ok t rid d b (fst (begin_section t rid d b s)) (snd (begin_section t rid d b s))"
proof -
  define p where "p = s\<lparr>d_ledger := purge_expired (d_now s) (d_ledger s)\<rparr>"
  have P: "dok env p" "dguar env {t} s p" "\<not> admitted_by t p"
    using purge_section [OF ok] fresh by (simp_all add: p_def admitted_by_def)
  let ?e = "hm_get (entries (d_ledger p)) rid"
  let ?full = "max_inflight_requests (d_ledger p) \<le> inflight_requests (d_ledger p) \<or>
    max_completed_requests (d_ledger p) \<le> hm_len (entries (d_ledger p))"
  have eq: "begin_section t rid d b s =
      (case ?e of
         Some (Pending existing _ c) \<Rightarrow> (if existing = d then B_Wait c else B_Conflict, p)
       | Some (Complete existing _ response _) \<Rightarrow> (if existing = d then B_Replay response else B_Conflict, p)
       | None \<Rightarrow> if ?full then (B_Busy, p) else admit t rid d b p)"
    by (simp add: begin_section_def Let_def p_def split: option.split request_entry.split)
  have "dok env (snd (begin_section t rid d b s)) \<and> dguar env {t} s (snd (begin_section t rid d b s)) \<and>
    begun_ok t rid d b (fst (begin_section t rid d b s)) (snd (begin_section t rid d b s))"
  proof (cases ?e)
    case None
    show ?thesis
    proof (cases ?full)
      case True
      then show ?thesis using None P by (simp add: eq begun_ok_def)
    next
      case False
      then have room: "inflight_requests (d_ledger p) < max_inflight_requests (d_ledger p)"
        "hm_len (entries (d_ledger p)) < max_completed_requests (d_ledger p)" by simp_all
      have "begin_section t rid d b s = admit t rid d b p" using None False by (simp add: eq)
      moreover have "fst (admit t rid d b p) = B_Execute (length (d_channels p))" by (simp add: admit_def Let_def)
      ultimately show ?thesis
        using admit_section [OF P(1) None room, of t d b] dp.guar_trans [OF P(2)] by (simp add: begun_ok_def)
    qed
  next
    case (Some e)
    show ?thesis
    proof (cases e)
      case (Pending d' b' c)
      then have "d' = d \<Longrightarrow> watches rid d c p" using pending_watches [OF P(1)] Some by (simp add: pending_eq)
      then show ?thesis using Some Pending P by (simp add: eq begun_ok_def)
    next
      case (Complete d' b' r ex)
      then have "d' = d \<Longrightarrow> replied rid d r p" using complete_replied [OF P(1)] Some by simp
      then show ?thesis using Some Complete P by (simp add: eq begun_ok_def)
    qed
  qed
  then show "dok env (snd (begin_section t rid d b s))" "dguar env {t} s (snd (begin_section t rid d b s))"
    "begun_ok t rid d b (fst (begin_section t rid d b s)) (snd (begin_section t rid d b s))" by simp_all
qed

text \<open>
  The answers to an authenticated request: a refusal without admission, a passed deadline of an
  admitted identity, or the response that an execution of this identity and command recorded.
\<close>

definition answered :: "nat \<Rightarrow> request_envelope \<Rightarrow> bytes \<Rightarrow> response_envelope \<Rightarrow> 'w dispatcher \<Rightarrow> bool" where
  "answered t request d response s \<longleftrightarrow>
     (let rid = req_request_id request; b = is_mutation_command (req_command request)
      in (\<not> admitted_by t s \<and>
            (response = pre_admission_failure rid busy_error b \<or> response = pre_admission_failure rid conflict_error b)) \<or>
         (response = deadline_exceeded rid b \<and> (\<exists>c. watches rid d c s)) \<or>
         replied rid d response s)"

lemma stable_disj: "dp.stable env t P \<Longrightarrow> dp.stable env t Q \<Longrightarrow> dp.stable env t (\<lambda>s. P s \<or> Q s)"
  by (rule dp.stableI) (use dp.stableD in blast)

lemma stable_ex: "(\<And>x. dp.stable env t (P x)) \<Longrightarrow> dp.stable env t (\<lambda>s. \<exists>x. P x s)"
  by (rule dp.stableI) (use dp.stableD in blast)

lemma stable_const: "dp.stable env t (\<lambda>s. b)"
  by (rule dp.stableI) simp

lemmas stable_intros = dp.stable_conj stable_disj stable_ex stable_const stable_watches stable_replied stable_not_admitted
  stable_forgotten stable_owns stable_fresh stable_unfinished

lemma stable_answered: "dp.stable env t (answered t request d response)"
  unfolding answered_def [abs_def] Let_def by (intro stable_intros)

lemma resolve_triple:
  assumes "command_digest env (req_command request) = Some d"
  shows "dp.triple env t (begun_ok t (req_request_id request) d (is_mutation_command (req_command request)) r)
    (resolve_request r request d deadline (is_mutation_command (req_command request))) (answered t request d)"
proof -
  let ?rid = "req_request_id request" and ?b = "is_mutation_command (req_command request)"
  have wait: "dp.triple env t (watches ?rid d c) (bindP (wait_for_response c deadline) (\<lambda>r.
      Ret (case r of Some response \<Rightarrow> response | None \<Rightarrow> deadline_exceeded ?rid ?b))) (answered t request d)" for c
  proof (rule dp.triple_bindP [OF wait_triple])
    show "dp.triple env t (waited ?rid d c v)
        (Ret (case v of Some response \<Rightarrow> response | None \<Rightarrow> deadline_exceeded ?rid ?b)) (answered t request d)" for v
      by (rule dp.triple_Ret [OF stable_answered]) (auto simp: answered_def Let_def waited_def split: option.splits)
  qed
  show ?thesis
  proof (cases r)
    case (B_Execute c)
    let ?x = "\<lparr>x_request_id = ?rid, x_digest = d, x_command = req_command request, x_channel = c\<rparr>"
    have "dp.triple env t (owns t ?rid d ?b c False) (spawn_execution ?x) (\<lambda>_. watches ?rid d c)"
      unfolding spawn_execution_def
    proof (rule dp.triple_atomic [OF stable_owns stable_watches])
      fix s assume s: "dok env s" "owns t ?rid d ?b c False s"
      have "watches ?rid d c s" by (rule pending_watches [OF s(1)]) (use s(2) in \<open>simp add: owns_def\<close>)
      then show "dok env (snd ((), s\<lparr>d_spawned := ?x # d_spawned s, d_owner := hm_insert (x_request_id ?x) O_Queue (d_owner s)\<rparr>)) \<and>
          dguar env {t} s (snd ((), s\<lparr>d_spawned := ?x # d_spawned s, d_owner := hm_insert (x_request_id ?x) O_Queue (d_owner s)\<rparr>)) \<and>
          watches ?rid d c (snd ((), s\<lparr>d_spawned := ?x # d_spawned s, d_owner := hm_insert (x_request_id ?x) O_Queue (d_owner s)\<rparr>))"
        using spawn_section [OF s(1), of t ?x] s(2) assms by (simp add: watches_def)
    qed
    then show ?thesis
      unfolding B_Execute by (simp add: resolve_request_def Let_def begun_ok_def [abs_def] dp.triple_bindP [OF _ wait])
  next
    case (B_Replay response)
    then show ?thesis
      by (auto simp: resolve_request_def begun_ok_def answered_def Let_def intro!: dp.triple_Ret stable_answered)
  next
    case (B_Wait c)
    then show ?thesis using wait [of c] by (simp add: resolve_request_def Let_def begun_ok_def [abs_def])
  qed (auto simp: resolve_request_def begun_ok_def answered_def Let_def intro!: dp.triple_Ret stable_answered)
qed

lemma admitted_triple:
  assumes "command_digest env (req_command request) = Some d"
  shows "dp.triple env t (\<lambda>s. \<not> admitted_by t s) (dispatch_admitted t request d) (answered t request d)"
  unfolding dispatch_admitted_def Let_def
proof (intro dp.triple_bindP)
  let ?b = "is_mutation_command (req_command request)"
  show "dp.triple env t (\<lambda>s. \<not> admitted_by t s)
      (atomic (\<lambda>s. (d_now s + from_millis (unat (req_timeout_ms request)), s))) (\<lambda>_ s. \<not> admitted_by t s)"
    unfolding atomic_def by (rule observe_dispatcher) (simp_all add: stable_not_admitted)
  show "dp.triple env t (\<lambda>s. \<not> admitted_by t s) (atomic (begin_section t (req_request_id request) d ?b))
      (begun_ok t (req_request_id request) d ?b)" for deadline :: nat
    by (rule dp.triple_atomic [OF stable_not_admitted stable_begun]) (simp add: begin_cases)
qed (rule resolve_triple [OF assms])

section \<open>Reconciliation\<close>

text \<open>
  What a reconciliation reports: an identity whose admissions all lie beyond the horizon is
  unknown; an admitted one is no mutation, still pending, or described by its recorded response.
\<close>

definition reconciled ::
  "'w dispatch_env \<Rightarrow> request_id \<Rightarrow> mutation_reconciliation \<Rightarrow> 'w dispatcher \<Rightarrow> bool" where
  "reconciled env rid m s \<longleftrightarrow>
     (m = reconciliation env rid MA_Unknown MD_Unknown \<and> forgotten rid s) \<or>
     (m = reconciliation env rid MA_Admitted MD_NotMutation \<and> (\<exists>d c. watches rid d c s)) \<or>
     (m = reconciliation env rid MA_Admitted MD_Pending \<and> (\<exists>d c. watches rid d c s)) \<or>
     (\<exists>d response. m = reconciliation_from_response env response \<and> replied rid d response s)"

lemma stable_reconciled: "dp.stable env t (reconciled env' rid m)"
  unfolding reconciled_def [abs_def] by (intro stable_intros)

definition snapshot_ok :: "request_id \<Rightarrow> reconciliation_snapshot \<Rightarrow> 'w dispatcher \<Rightarrow> bool" where
  "snapshot_ok rid r s \<longleftrightarrow>
     (case r of
        RS_Missing \<Rightarrow> forgotten rid s
      | RS_NotMutation \<Rightarrow> (\<exists>d c. watches rid d c s)
      | RS_Pending c \<Rightarrow> (\<exists>d. watches rid d c s)
      | RS_Complete response \<Rightarrow> (\<exists>d. replied rid d response s))"

lemma stable_snapshot: "dp.stable env t (snapshot_ok rid r)"
  unfolding snapshot_ok_def [abs_def] by (cases r) (simp_all add: stable_ex stable_intros)

lemma replied_watches:
  assumes "dok env s" "replied rid d r s"
  shows "\<exists>c. watches rid d c s"
proof -
  note L = dokD(3) [OF assms(1)]
  obtain u x now where x: "Finished u x r now \<in> set (d_log s)" "x_request_id x = rid" "x_digest x = d"
    using assms(2) unfolding replied_def by blast
  have "Started u x \<in> set (d_log s)" using L x(1) unfolding log_ok_def by blast
  then show ?thesis using L x(2,3) unfolding log_ok_def watches_def by blast
qed

lemma missing_forgotten:
  assumes "dok env s" "hm_get (entries (d_ledger s)) rid = None"
  shows "forgotten rid s"
proof -
  have "\<exists>u x r done. Finished u x r done \<in> set (d_log s) \<and> x_channel x = c \<and> done + completed_request_ttl (d_ledger s) \<le> d_now s"
    if "Admitted t rid d c at' \<in> set (d_log s)" for t d c at'
    using horizonD [OF dokD(6) [OF assms(1)] that] assms(2) by (auto simp: pending_def retired_def)
  then show ?thesis unfolding forgotten_def by (intro exI [of _ "d_log s"] exI [of _ "[]"]) simp
qed

lemma snapshot_cases:
  assumes ok: "dok env s"
  shows "dok env (snd (snapshot_section rid s))" "dguar env {t} s (snd (snapshot_section rid s))"
    "snapshot_ok rid (fst (snapshot_section rid s)) (snd (snapshot_section rid s))"
proof -
  define p where "p = s\<lparr>d_ledger := purge_expired (d_now s) (d_ledger s)\<rparr>"
  have P: "dok env p" "dguar env {t} s p" using purge_section [OF ok] by (simp_all add: p_def)
  have snd: "snd (snapshot_section rid s) = p" by (simp add: snapshot_section_def Let_def p_def)
  show "dok env (snd (snapshot_section rid s))" "dguar env {t} s (snd (snapshot_section rid s))"
    using P by (simp_all add: snd)
  let ?e = "hm_get (entries (d_ledger p)) rid"
  have fst: "fst (snapshot_section rid s) =
      (case ?e of
         None \<Rightarrow> RS_Missing
       | Some (Pending _ is_mutation c) \<Rightarrow> if is_mutation then RS_Pending c else RS_NotMutation
       | Some (Complete _ is_mutation response _) \<Rightarrow> if is_mutation then RS_Complete response else RS_NotMutation)"
    by (simp add: snapshot_section_def Let_def p_def)
  show "snapshot_ok rid (fst (snapshot_section rid s)) (snd (snapshot_section rid s))"
  proof (cases ?e)
    case None
    then show ?thesis using missing_forgotten [OF P(1)] by (simp add: fst snd snapshot_ok_def)
  next
    case (Some e)
    show ?thesis
    proof (cases e)
      case (Pending d b c)
      then have "watches rid d c p" using pending_watches [OF P(1)] Some by (simp add: pending_eq)
      then show ?thesis unfolding fst snd snapshot_ok_def using Some Pending by auto
    next
      case (Complete d b r ex)
      then have r: "replied rid d r p" using complete_replied [OF P(1)] Some by simp
      then show ?thesis unfolding fst snd snapshot_ok_def using Some Complete replied_watches [OF P(1) r] by auto
    qed
  qed
qed

definition reconcile_ok ::
  "'w dispatch_env \<Rightarrow> request_id \<Rightarrow> duration \<Rightarrow> cua_error + mutation_reconciliation \<Rightarrow> 'w dispatcher \<Rightarrow> bool" where
  "reconcile_ok env rid wait r s \<longleftrightarrow>
     (case r of
        Inl e \<Rightarrow> \<not> valid_request_id rid \<or> from_millis (unat (p_max_request_timeout_ms env)) < wait
      | Inr m \<Rightarrow> reconciled env rid m s)"

lemma stable_reconcile: "dp.stable env t (reconcile_ok env' rid wait r)"
  unfolding reconcile_ok_def [abs_def] by (cases r) (simp_all add: stable_const stable_reconciled)

lemma reconcile_pending_triple:
  "dp.triple env t (\<lambda>s. \<exists>d. watches rid d c s)
     (bindP (wait_for_response c deadline) (\<lambda>r.
        Ret (Inr (case r of
            Some response \<Rightarrow> reconciliation_from_response env response
          | None \<Rightarrow> reconciliation env rid MA_Admitted MD_Pending))))
     (reconcile_ok env rid wait)"
proof (rule dp.tripleI)
  fix s assume s: "dok env s" "\<exists>d. watches rid d c s"
  then obtain d where d: "watches rid d c s" by blast
  have "dp.triple env t (watches rid d c)
     (bindP (wait_for_response c deadline) (\<lambda>r.
        Ret (Inr (case r of
            Some response \<Rightarrow> reconciliation_from_response env response
          | None \<Rightarrow> reconciliation env rid MA_Admitted MD_Pending))))
     (reconcile_ok env rid wait)"
    by (rule dp.triple_bindP [OF wait_triple], rule dp.triple_Ret [OF stable_reconcile])
      (auto simp: reconcile_ok_def reconciled_def waited_def split: option.splits)
  from dp.tripleD [OF this s(1) d]
  show "safe (dok env) (dguar env) t (reconcile_ok env rid wait)
     (bindP (wait_for_response c deadline) (\<lambda>r.
        Ret (Inr (case r of
            Some response \<Rightarrow> reconciliation_from_response env response
          | None \<Rightarrow> reconciliation env rid MA_Admitted MD_Pending)))) s" .
qed

lemma reconcile_triple: "dp.triple env t (\<lambda>_. True) (reconcile_mutation env rid wait) (reconcile_ok env rid wait)"
  unfolding reconcile_mutation_def
proof (rule dp.triple_if)
  show "dp.triple env t (\<lambda>_. True) (Ret (Inl e)) (reconcile_ok env rid wait)"
    if "\<not> valid_request_id rid \<or> from_millis (unat (p_max_request_timeout_ms env)) < wait" for e
    using that by (intro dp.triple_Ret stable_reconcile) (simp add: reconcile_ok_def)
  show "dp.triple env t (\<lambda>_. True) (bindP (atomic (snapshot_section rid)) (\<lambda>snapshot.
           case snapshot of
             RS_Missing \<Rightarrow> Ret (Inr (reconciliation env rid MA_Unknown MD_Unknown))
           | RS_NotMutation \<Rightarrow> Ret (Inr (reconciliation env rid MA_Admitted MD_NotMutation))
           | RS_Pending c \<Rightarrow>
               bindP (atomic (\<lambda>s. (d_now s, s))) (\<lambda>now.
               bindP (wait_for_response c (now + wait)) (\<lambda>r.
               Ret (Inr (case r of
                   None \<Rightarrow> reconciliation env rid MA_Admitted MD_Pending
                 | Some response \<Rightarrow> reconciliation_from_response env response))))
           | RS_Complete response \<Rightarrow> Ret (Inr (reconciliation_from_response env response)))) (reconcile_ok env rid wait)"
  proof (rule dp.triple_bindP)
    show "dp.triple env t (\<lambda>_. True) (atomic (snapshot_section rid)) (snapshot_ok rid)"
      by (rule dp.triple_atomic [OF stable_const stable_snapshot]) (simp add: snapshot_cases)
    fix snapshot
    show "dp.triple env t (snapshot_ok rid snapshot)
      (case snapshot of
             RS_Missing \<Rightarrow> Ret (Inr (reconciliation env rid MA_Unknown MD_Unknown))
           | RS_NotMutation \<Rightarrow> Ret (Inr (reconciliation env rid MA_Admitted MD_NotMutation))
           | RS_Pending c \<Rightarrow>
               bindP (atomic (\<lambda>s. (d_now s, s))) (\<lambda>now.
               bindP (wait_for_response c (now + wait)) (\<lambda>r.
               Ret (Inr (case r of
                   None \<Rightarrow> reconciliation env rid MA_Admitted MD_Pending
                 | Some response \<Rightarrow> reconciliation_from_response env response))))
           | RS_Complete response \<Rightarrow> Ret (Inr (reconciliation_from_response env response))) (reconcile_ok env rid wait)"
    proof (cases snapshot)
      case (RS_Pending c)
      have "dp.triple env t (\<lambda>s. \<exists>d. watches rid d c s) (atomic (\<lambda>s. (d_now s, s))) (\<lambda>_ s. \<exists>d. watches rid d c s)"
        unfolding atomic_def by (rule observe_dispatcher) (simp_all add: stable_ex stable_watches)
      then show ?thesis
        unfolding RS_Pending by (simp add: snapshot_ok_def [abs_def] dp.triple_bindP [OF _ reconcile_pending_triple])
    qed (auto simp: snapshot_ok_def reconcile_ok_def reconciled_def intro!: dp.triple_Ret stable_reconcile)
  qed
qed

section \<open>Dispatch\<close>

definition response_ok ::
  "'w dispatch_env \<Rightarrow> nat \<Rightarrow> request_envelope \<Rightarrow> response_envelope \<Rightarrow> 'w dispatcher \<Rightarrow> bool" where
  "response_ok env t request response s \<longleftrightarrow>
     (let rid = req_request_id request
      in case validate_request env request of
           Inl e \<Rightarrow> response = pre_admission_failure rid e (is_mutation_command (req_command request)) \<and> \<not> admitted_by t s
         | Inr d \<Rightarrow>
             (case req_command request of
                ReconcileMutation input \<Rightarrow>
                  \<not> admitted_by t s \<and>
                  (response = failure rid reconcile_bound_error \<or>
                   (\<exists>m. response = success rid (MutationReconciled m) \<and> reconciled env (rmi_request_id input) m s))
              | _ \<Rightarrow> answered t request d response s))"

lemma stable_response: "dp.stable env t (response_ok env' t request response)"
  unfolding response_ok_def [abs_def] Let_def
  by (cases "validate_request env' request"; cases "req_command request")
    (simp, intro stable_intros stable_answered stable_reconciled)+

lemma reconcile_quiet:
  "dp.under env (\<lambda>s. \<not> admitted_by t s) t (reconcile_mutation env rid wait)"
proof -
  have w: "dp.under env (\<lambda>s. \<not> admitted_by t s) t (wait_for_response c deadline)" for c deadline
    unfolding wait_for_response_def
    by (intro dp.under_intros dp.under_atomic dp.under_blocking) (auto split: option.split intro!: dp.under_intros dp.under_blocking simp: dp.guar_refl)
  have q: "\<not> admitted_by t (snd (snapshot_section rid s))" if "\<not> admitted_by t s" for s :: "'a dispatcher"
    using that by (simp add: snapshot_section_def Let_def admitted_by_def)
  show ?thesis
    unfolding reconcile_mutation_def
    by (intro dp.under_intros dp.under_atomic)
      (auto split: reconciliation_snapshot.split intro!: dp.under_intros dp.under_atomic w simp: snapshot_cases q dp.guar_refl)
qed

lemma safe_both:
  assumes "safe I G t Q p s" "safe I G t R p s"
  shows "safe I G t (\<lambda>x s. Q x s \<and> R x s) p s"
  using assms
proof (induction rule: safe.induct)
  case (safe_Ret s x)
  show ?case
  proof (rule safe.safe_Ret)
    fix s' assume g: "G (- {t}) s s'" "I s'"
    show "Q x s' \<and> R x s'" by (rule conjI [OF safe_Ret.hyps [OF g] safe_RetD [OF safe_Ret.prems g]])
  qed
next
  case (safe_Step s c f)
  show ?case
  proof (rule safe.safe_Step)
    fix s' assume g: "G (- {t}) s s'" "I s'" "c s'"
    show "I (snd (f s')) \<and> G {t} s' (snd (f s')) \<and> safe I G t (\<lambda>x s. Q x s \<and> R x s) (fst (f s')) (snd (f s'))"
      using safe_Step.IH [OF g] safe_StepD [OF safe_Step.prems g] by simp
  qed
qed

lemma reconcile_both:
  "dp.triple env t (\<lambda>s. \<not> admitted_by t s) (reconcile_mutation env rid wait)
     (\<lambda>r s. reconcile_ok env rid wait r s \<and> \<not> admitted_by t s)"
proof (rule dp.tripleI)
  fix s assume s: "dok env s" "\<not> admitted_by t s"
  show "safe (dok env) (dguar env) t (\<lambda>r s. reconcile_ok env rid wait r s \<and> \<not> admitted_by t s) (reconcile_mutation env rid wait) s"
    by (rule safe_both [OF dp.tripleD [OF reconcile_triple s(1) TrueI]
          dp.underD [OF reconcile_quiet stable_not_admitted s]])
qed

lemma response_reconcile:
  assumes "validate_request env request = Inr d" "req_command request = ReconcileMutation input"
  shows "dp.triple env t (\<lambda>s. \<not> admitted_by t s) (dispatch_reconcile env (req_request_id request) input) (response_ok env t request)"
  unfolding dispatch_reconcile_def
proof (rule dp.triple_if)
  show "dp.triple env t (\<lambda>s. \<not> admitted_by t s) (Ret (failure (req_request_id request) reconcile_bound_error)) (response_ok env t request)"
    by (rule dp.triple_Ret [OF stable_response]) (simp add: response_ok_def Let_def assms)
  assume "\<not> (\<not> valid_request_id (rmi_request_id input) \<or> p_max_request_timeout_ms env < rmi_wait_ms input)"
  then have b: "valid_request_id (rmi_request_id input)"
    "from_millis (unat (rmi_wait_ms input)) \<le> from_millis (unat (p_max_request_timeout_ms env))"
    by (simp_all add: from_millis_def word_le_nat_alt not_less)
  show "dp.triple env t (\<lambda>s. \<not> admitted_by t s)
      (bindP (reconcile_mutation env (rmi_request_id input) (from_millis (unat (rmi_wait_ms input)))) (\<lambda>r.
        Ret (case r of Inl e \<Rightarrow> failure (req_request_id request) e
             | Inr result \<Rightarrow> success (req_request_id request) (MutationReconciled result)))) (response_ok env t request)"
    by (rule dp.triple_bindP [OF reconcile_both], rule dp.triple_Ret [OF stable_response])
      (use b in \<open>auto simp: reconcile_ok_def response_ok_def Let_def assms split: sum.splits\<close>)
qed

lemma validated_digest: "validate_request env request = Inr d \<Longrightarrow> command_digest env (req_command request) = Some d"
  by (simp add: validate_request_def ok_or_def split: if_splits option.splits)

lemma dispatch_triple: "dp.triple env t (\<lambda>s. \<not> admitted_by t s) (dispatch env t request) (response_ok env t request)"
proof (cases "validate_request env request")
  case (Inl e)
  then show ?thesis
    by (auto simp: dispatch_def response_ok_def Let_def intro!: dp.triple_Ret stable_response)
next
  case (Inr d)
  show ?thesis
  proof (cases "\<exists>input. req_command request = ReconcileMutation input")
    case True
    then show ?thesis using response_reconcile [OF Inr] Inr by (auto simp: dispatch_def)
  next
    case False
    then have "dispatch env t request = dispatch_admitted t request d" "response_ok env t request = answered t request d"
      using Inr by (auto simp: dispatch_def response_ok_def Let_def fun_eq_iff split: command.splits)
    then show ?thesis using admitted_triple [OF validated_digest [OF Inr]] by simp
  qed
qed

section \<open>Reachable configurations\<close>

definition concluded :: "'w dispatch_env \<Rightarrow> nat \<Rightarrow> dispatch_result \<Rightarrow> 'w dispatcher \<Rightarrow> bool" where
  "concluded env t res s \<longleftrightarrow> (case res of D_Runtime r \<Rightarrow> reported (p_runtime env) t r (d_runtime s) | _ \<Rightarrow> True)"

lemma stable_concluded: "dp.stable env t (concluded env t res)"
  unfolding concluded_def [abs_def]
  by (cases res) (simp_all add: stable_const stable_runtime [OF stable_reported])

lemma runtime_in_dispatcher:
  assumes "runtime_task (p_runtime env) t p"
  shows "dp.triple env t (fresh_task t) (in_runtime p) (\<lambda>x s. reported (p_runtime env) t x (d_runtime s) \<and> unfinished t s)"
proof (rule dp.tripleI)
  fix s assume s: "dok env s" "fresh_task t s"
  have "safe (rt_ok (p_runtime env)) (guar (p_runtime env)) t (reported (p_runtime env) t) p (d_runtime s)"
    using rt.tripleD [OF runtime_task_triple [OF assms] dokD(1) [OF s(1)]] s(2) by (simp add: fresh_task_def)
  then show "safe (dok env) (dguar env) t (\<lambda>x s. reported (p_runtime env) t x (d_runtime s) \<and> unfinished t s) (in_runtime p) s"
    by (rule safe_in_runtime [where F = "unfinished t"])
      (use s(2) in \<open>auto simp: unfinished_def fresh_task_def stable_unfinished\<close>)
qed

lemma fresh_not_admitted: "fresh_task t s \<Longrightarrow> \<not> admitted_by t s"
  by (force simp: fresh_task_def admitted_by_def)

lemma dispatcher_task_triple:
  assumes "dispatcher_task env t p"
  shows "dp.triple env t (fresh_task t) p (concluded env t)"
  using assms
proof (cases rule: dispatcher_task.cases)
  case (dt_dispatch request)
  have "dp.triple env t (fresh_task t) (dispatch env t request) (\<lambda>x. concluded env t (D_Response x))"
    by (rule dp.triple_weaken [OF dispatch_triple]) (simp_all add: fresh_not_admitted concluded_def)
  then show ?thesis unfolding dt_dispatch by (rule dp.triple_mapP [OF _ stable_concluded])
next
  case (dt_reconcile rid wait)
  have "dp.triple env t (fresh_task t) (reconcile_mutation env rid wait) (\<lambda>x. concluded env t (D_Reconciled x))"
    by (rule dp.triple_weaken [OF reconcile_triple]) (simp_all add: concluded_def)
  then show ?thesis unfolding dt_reconcile by (rule dp.triple_mapP [OF _ stable_concluded])
next
  case (dt_execution x)
  have "dp.triple env t (fresh_task t) (execution_task env t x) (\<lambda>_. concluded env t D_Executed)"
    by (rule dp.triple_weaken [OF execution_triple]) (simp_all add: concluded_def)
  then show ?thesis unfolding dt_execution by (rule dp.triple_mapP [OF _ stable_concluded])
next
  case (dt_runtime q)
  have "dp.triple env t (fresh_task t) (in_runtime q) (\<lambda>x. concluded env t (D_Runtime x))"
    by (rule dp.triple_weaken [OF runtime_in_dispatcher [OF dt_runtime(2)]]) (simp_all add: concluded_def)
  then show ?thesis unfolding dt_runtime by (rule dp.triple_mapP [OF _ stable_concluded])
qed

lemma dispatcher_surroundings_ok:
  assumes "dispatcher_surroundings s s'" "dok env s"
  shows "dok env s' \<and> dguar env {} s s'"
  using assms
proof (cases rule: dispatcher_surroundings.cases)
  case (ds_runtime r)
  from surroundings_ok [OF ds_runtime(2) dokD(1) [OF assms(2)]]
  show ?thesis unfolding ds_runtime(1) using runtime_step [OF assms(2), of r "{}"] by simp
qed

text \<open>A dispatcher with a fresh runtime, as its constructor returns it.\<close>

definition fresh_dispatcher :: "'w dispatch_env \<Rightarrow> 'w dispatcher \<Rightarrow> bool" where
  "fresh_dispatcher env s \<longleftrightarrow>
     (\<exists>rt token max_inflight max_completed ttl.
        fresh_runtime (p_runtime env) rt \<and>
        dispatcher_new (p_runtime env) (p_sha env) (p_json env) rt token max_inflight max_completed ttl
          (p_max_request_timeout_ms env) = Inr (env, s))"

lemma fresh_dispatcher_ok:
  assumes "fresh_dispatcher env s" "inj (e_uuid (p_runtime env))"
  shows "dok env s \<and> d_log s = [] \<and> r_trace (d_runtime s) = []"
proof -
  obtain rt l where rt: "fresh_runtime (p_runtime env) rt" and s: "s = \<lparr>d_runtime = rt, d_ledger = l, d_channels = [], d_spawned = [],
      d_owner = [], d_log = []\<rparr>" "entries l = []" "inflight_requests l = 0"
    using assms(1)
    by (auto simp: fresh_dispatcher_def dispatcher_new_def ok_or_def bindR_def split: if_splits option.splits)
  have "rt_ok (p_runtime env) rt" "r_trace rt = []" using fresh_runtime_ok [OF rt assms(2)] by simp_all
  moreover have "hm_get [] = Map.empty" "pending [] = Map.empty" by (simp_all add: pending_def fun_eq_iff hm_get_def)
  ultimately show ?thesis
    by (simp add: s dok_def ledger_ok_def log_ok_def entries_ok_def queue_ok_def horizon_ok_def spaced_def results_ok_def
        hm_wf_def hm_len_def)
qed

theorem dispatcher_config:
  assumes "dispatcher_reachable env s0 cfg" "fresh_dispatcher env s0" "inj (e_uuid (p_runtime env))"
  shows "dp.config_ok env fresh_task (concluded env) cfg \<and> dguar env UNIV s0 (snd cfg)"
proof -
  have "dp.config_ok env fresh_task (concluded env) (Map.empty, s0)"
    using fresh_dispatcher_ok [OF assms(2,3)] by (simp add: dp.config_ok_def fresh_task_def untouched_def history_def)
  from dp.reachable_ok [OF assms(1) [unfolded dispatcher_reachable_def] this stable_fresh
      dp.tripleD [OF dispatcher_task_triple] dispatcher_surroundings_ok]
  show ?thesis by simp
qed

end
