(* ===== verification/DispatcherExample.thy ===== *)
theory DispatcherExample
  imports DispatcherLife
begin

text \<open>
  A concrete dispatcher over the example runtime: a client asks for an action, its deadline passes
  while the execution is still queued, the execution runs, and the client repeats the request.
\<close>

section \<open>Runs\<close>

abbreviation dispatcher_steps ::
  "'w dispatch_env \<Rightarrow> ('w dispatcher, dispatch_result) config \<Rightarrow> ('w dispatcher, dispatch_result) config \<Rightarrow> bool" where
  "dispatcher_steps env \<equiv> (pool_step (dispatcher_task env) dispatcher_surroundings)\<^sup>*\<^sup>*"

text \<open>A wait of the runtime inside the dispatcher. The clock moves on in \<open>rest_for\<close>.\<close>

definition in_rest :: "('w runtime \<Rightarrow> 'w runtime) \<Rightarrow> 'w dispatcher \<Rightarrow> 'w dispatcher" where
  "in_rest rest s = s\<lparr>d_runtime := rest (d_runtime s)\<rparr>"

definition later :: "duration \<Rightarrow> 'w runtime \<Rightarrow> 'w runtime" where
  "later d r = r\<lparr>r_now := r_now r + d\<rparr>"

abbreviation rest_for :: "duration \<Rightarrow> 'w dispatcher \<Rightarrow> 'w dispatcher" where
  "rest_for d \<equiv> in_rest (later d)"

lemma rest_for_simps [simp]:
  "d_now (rest_for d s) = d_now s + d" "d_ledger (in_rest rest s) = d_ledger s" "d_channels (in_rest rest s) = d_channels s"
  "d_log (in_rest rest s) = d_log s" "d_spawned (in_rest rest s) = d_spawned s" "d_owner (in_rest rest s) = d_owner s"
  by (simp_all add: in_rest_def later_def)

lemma in_rest_steps:
  assumes "surroundings\<^sup>*\<^sup>* (d_runtime s) r"
  shows "dispatcher_surroundings\<^sup>*\<^sup>* s (s\<lparr>d_runtime := r\<rparr>)"
  using assms
proof (induction rule: rtranclp_induct)
  case (step q r)
  have "dispatcher_surroundings (s\<lparr>d_runtime := q\<rparr>) ((s\<lparr>d_runtime := q\<rparr>)\<lparr>d_runtime := r\<rparr>)"
    by (rule ds_runtime) (simp add: step(2))
  then show ?case using step(3) by (simp add: rtranclp.rtrancl_into_rtrancl)
qed simp

lemma later_steps: "surroundings\<^sup>*\<^sup>* r (later d r)"
  unfolding later_def by (intro r_into_rtranclp su_time) simp

lemma dispatcher_run:
  assumes "dispatcher_task env t (mapP f p)" "pool t = None" "finish (in_rest rest) p s = Some (x, s')"
    and "\<And>r. surroundings\<^sup>*\<^sup>* r (rest r)"
  shows "dispatcher_steps env (pool(t \<mapsto> mapP f p), s) (pool(t \<mapsto> Ret (f x)), s')"
    "dispatcher_steps env (pool, s) (pool(t \<mapsto> Ret (f x)), s')"
proof -
  have "dispatcher_surroundings\<^sup>*\<^sup>* s (in_rest rest s)" for s :: "'a dispatcher"
    unfolding in_rest_def by (rule in_rest_steps [OF assms(4)])
  then have "dispatcher_steps env (pool(t \<mapsto> mapP f p), s) ((pool(t \<mapsto> mapP f p))(t \<mapsto> Ret (f x)), s')"
    using assms(3) by (intro finish_steps [where rest = "in_rest rest" and p = "mapP f p"]) simp_all
  then show run: "dispatcher_steps env (pool(t \<mapsto> mapP f p), s) (pool(t \<mapsto> Ret (f x)), s')" by simp
  have "pool_step (dispatcher_task env) dispatcher_surroundings (pool, s) (pool(t \<mapsto> mapP f p), s)"
    using assms(1,2) by (intro ps_spawn)
  then show "dispatcher_steps env (pool, s) (pool(t \<mapsto> Ret (f x)), s')" using run by (rule converse_rtranclp_into_rtranclp)
qed

lemma finish_in_runtime:
  assumes "finish rest p (d_runtime s) = Some (x, r)"
  shows "finish (in_rest rest) (in_runtime p) s = Some (x, s\<lparr>d_runtime := r\<rparr>)"
  using assms
proof (induction p arbitrary: s)
  case (Step c f)
  let ?r = "if c (d_runtime s) then d_runtime s else rest (d_runtime s)"
  have h: "c ?r" "finish rest (fst (f ?r)) (snd (f ?r)) = Some (x, r)"
    using Step(2) by (simp_all add: finish_Step Let_def split: if_splits)
  have "finish (in_rest rest) (in_runtime (fst (f ?r))) (s\<lparr>d_runtime := snd (f ?r)\<rparr>) = Some (x, s\<lparr>d_runtime := snd (f ?r)\<rparr>\<lparr>d_runtime := r\<rparr>)"
    by (rule Step(1) [OF rangeI]) (simp_all add: h(2) Basic_BNFs.fsts.simps)
  then show ?case 
    using h(1) by (cases "c (d_runtime s)") (simp_all add: finish_Step Let_def case_prod_beta, simp_all add: in_rest_def)
qed simp

section \<open>The example\<close>

definition dx_token :: authorization_token where
  "dx_token = AuthorizationToken (replicate 32 CHR ''x'')"

definition dx_sha :: "string \<Rightarrow> bytes" where
  "dx_sha v = map of_char v"

definition dx_json :: "command \<Rightarrow> string option" where
  "dx_json c = Some (if is_mutation_command c then ''mutation'' else ''query'')"

definition dx_env :: "unit dispatch_env" where
  "dx_env =
     \<lparr>p_runtime = ex_env, p_token = \<lparr>tv_digest = dx_sha (expose_token dx_token)\<rparr>, p_max_request_timeout_ms = 1000,
      p_runtime_epoch = ''e'', p_sha = dx_sha, p_json = dx_json\<rparr>"

definition dx_ledger :: request_ledger where
  "dx_ledger =
     \<lparr>entries = [], inflight_requests = 0, max_inflight_requests = 4, max_completed_requests = 8,
      completed_request_ttl = from_secs 60\<rparr>"

definition dx_start :: "unit dispatcher" where
  "dx_start =
     \<lparr>d_runtime = ex_start, d_ledger = dx_ledger, d_channels = [], d_spawned = [], d_owner = [], d_log = []\<rparr>"

lemma dx_fresh: "fresh_dispatcher dx_env dx_start"
  unfolding fresh_dispatcher_def
  by (rule exI [of _ ex_start], rule exI [of _ dx_token], rule exI [of _ 4], rule exI [of _ 8], rule exI [of _ "from_secs 60"])
    (simp add: dx_env_def dx_start_def dx_ledger_def ex_fresh dispatcher_new_def token_verifier_new_def token_length_ok_def
      dx_token_def MINIMUM_TOKEN_BYTES_def MAXIMUM_TOKEN_BYTES_def ok_or_def bindR_def from_secs_def, simp add: ex_env_def)

lemma dx_inj: "inj (e_uuid (p_runtime dx_env))"
  using ex_inj by (simp add: dx_env_def)

definition dx_id :: request_id where "dx_id = RequestId ''r''"

definition dx_request :: request_envelope where
  "dx_request =
     \<lparr>req_protocol_version = PROTOCOL_VERSION, req_request_id = dx_id, req_timeout_ms = 1000,
      req_authorization = dx_token, req_command = PerformAction ex_input\<rparr>"

definition dx_digest :: bytes where "dx_digest = dx_sha ''mutation''"

lemma dx_validated: "validate_request dx_env dx_request = Inr dx_digest"
proof -
  have "valid_request_id dx_id" by (simp add: dx_id_def) code_simp
  then show ?thesis
    by (simp add: validate_request_def dx_env_def dx_request_def accepts_def token_length_ok_def dx_token_def ok_or_def
        MINIMUM_TOKEN_BYTES_def MAXIMUM_TOKEN_BYTES_def command_digest_def dx_json_def dx_digest_def)
qed

definition dx_execution :: execution where
  "dx_execution =
     \<lparr>x_request_id = dx_id, x_digest = dx_digest, x_command = PerformAction ex_input, x_channel = 0\<rparr>"

definition dx_waited :: "unit dispatcher" where
  "dx_waited =
     \<lparr>d_runtime = ex_start\<lparr>r_now := 1000000000\<rparr>,
      d_ledger = dx_ledger\<lparr>entries := [(dx_id, Pending dx_digest True 0)], inflight_requests := 1\<rparr>,
      d_channels = [None], d_spawned = [dx_execution], d_owner = [(dx_id, O_Queue)],
      d_log = [Admitted 0 dx_id dx_digest 0 0]\<rparr>"

lemma dx_wait:
  "finish (rest_for (from_millis 1000)) (dispatch dx_env 0 dx_request) dx_start = Some (deadline_exceeded dx_id True, dx_waited)"
proof -
  have "dispatch dx_env 0 dx_request = dispatch_admitted 0 dx_request dx_digest"
    by (simp add: dispatch_def dx_validated) (simp add: dx_request_def)
  then show ?thesis
    by (simp add: dispatch_admitted_def Let_def resolve_request_def begin_section_def admit_def purge_expired_def log_def
        spawn_execution_def wait_for_response_def finish_blocking dx_request_def dx_start_def dx_ledger_def ex_start_def
        hm_get_def hm_retain_def hm_len_def hm_insert_def hm_remove_def from_millis_def in_rest_def later_def dx_waited_def dx_execution_def)
qed

definition dx_error :: cua_error where
  "dx_error = at_least_not_dispatched session_unavailable"

definition dx_runtime :: "unit runtime" where
  "dx_runtime = ex_start\<lparr>r_now := 1000000000, r_scheduler := True\<rparr>"

lemma dx_execute:
  "finish rest (execute ex_env 1 (PerformAction ex_input)) (ex_start\<lparr>r_now := 1000000000\<rparr>) =
     Some (Inl dx_error, dx_runtime)"
proof -
  have p: "policy_authorize (policy (e_config ex_env)) (PerformAction ex_input) = Inr ()"
    by (simp add: policy_authorize_def stack_layers_def ex_env_def default_config_def)
  show ?thesis
    by (simp add: execute_def observe_def update_def enter_lifecycle_def leave_lifecycle_def ex_start_def p
        admitted_command_def ensure_scheduler_def perform_action_def after_command_def perform_action_only_def
        session_lookup_def session_section_def hm_get_def ok_or_def map_err_def dx_runtime_def dx_error_def)
      (simp add: ex_input_def session_section_def hm_get_def)
qed

definition dx_response :: response_envelope where
  "dx_response = response_of dx_id (Inl dx_error)"

definition dx_done :: "unit dispatcher" where
  "dx_done =
     \<lparr>d_runtime = dx_runtime,
      d_ledger = dx_ledger\<lparr>entries := [(dx_id, Complete dx_digest True dx_response 61000000000)]\<rparr>,
      d_channels = [Some dx_response], d_spawned = [], d_owner = [],
      d_log = [Admitted 0 dx_id dx_digest 0 0, Started 1 dx_execution, Finished 1 dx_execution dx_response 1000000000]\<rparr>"

lemma dx_run: "finish (in_rest rest) (execution_task dx_env 1 dx_execution) dx_waited = Some ((), dx_done)"
proof -
  let ?s = "start_section 1 dx_execution dx_waited"
  have r: "d_runtime ?s = ex_start\<lparr>r_now := 1000000000\<rparr>" by (simp add: start_section_def log_def dx_waited_def)
  have e: "p_runtime dx_env = ex_env" "x_command dx_execution = PerformAction ex_input" "x_request_id dx_execution = dx_id"
    by (simp_all add: dx_env_def dx_execution_def)
  have f: "finish (in_rest rest) (in_runtime (execute ex_env 1 (PerformAction ex_input))) ?s = Some (Inl dx_error, ?s\<lparr>d_runtime := dx_runtime\<rparr>)"
    by (rule finish_in_runtime) (simp only: r dx_execute)
  have "complete_section 1 dx_execution dx_response (?s\<lparr>d_runtime := dx_runtime\<rparr>) = dx_done"
    by (simp add: complete_section_def start_section_def log_def dx_waited_def dx_done_def dx_execution_def dx_runtime_def
        dx_ledger_def hm_get_def hm_insert_def hm_remove_def from_secs_def)
  moreover have "dx_execution \<in> set (d_spawned dx_waited)" by (simp add: dx_waited_def)
  ultimately show ?thesis
    by (simp add: execution_task_def complete_request_def e f [simplified] flip: dx_response_def)
qed

lemma dx_replay: "finish (in_rest rest) (dispatch dx_env 2 dx_request) dx_done = Some (dx_response, dx_done)"
proof -
  have "dispatch dx_env 2 dx_request = dispatch_admitted 2 dx_request dx_digest"
    by (simp add: dispatch_def dx_validated) (simp add: dx_request_def)
  then show ?thesis
    by (simp add: dispatch_admitted_def Let_def resolve_request_def begin_section_def purge_expired_def dx_request_def dx_done_def
        dx_ledger_def dx_runtime_def ex_start_def hm_get_def hm_retain_def)
qed

lemma dx_reconcile:
  "finish (in_rest rest) (reconcile_mutation dx_env dx_id 0) dx_done =
     Some (Inr (reconciliation_from_response dx_env dx_response), dx_done)"
proof -
  have "valid_request_id dx_id" by (simp add: dx_id_def) code_simp
  then show ?thesis
    by (simp add: reconcile_mutation_def snapshot_section_def Let_def purge_expired_def dx_done_def
        dx_ledger_def dx_runtime_def ex_start_def hm_get_def hm_retain_def)
qed

definition dx_pool :: "nat \<rightharpoonup> (unit dispatcher, dispatch_result) prog" where
  "dx_pool = [0 \<mapsto> Ret (D_Response (deadline_exceeded dx_id True)), 1 \<mapsto> Ret D_Executed]"

lemma dx_reachable: "dispatcher_reachable dx_env dx_start (dx_pool, dx_done)"
proof -
  have "dispatcher_steps dx_env (Map.empty, dx_start) ([0 \<mapsto> Ret (D_Response (deadline_exceeded dx_id True))], dx_waited)"
    by (rule dispatcher_run(2) [OF dt_dispatch _ dx_wait later_steps]) simp
  moreover have "dispatcher_steps dx_env ([0 \<mapsto> Ret (D_Response (deadline_exceeded dx_id True))], dx_waited) (dx_pool, dx_done)"
    unfolding dx_pool_def by (rule dispatcher_run(2) [OF dt_execution _ dx_run later_steps]) simp
  ultimately show ?thesis unfolding dispatcher_reachable_def by (rule rtranclp_trans)
qed

end
