(* ===== verification/Embedding.thy ===== *)
theory Embedding
  imports Tasks
begin

text \<open>
  Systems inside systems. The state of an outer system has a part that is the state of an inner
  one, and a task of the outer system runs the sections of at most one task of the inner system,
  between sections of its own that leave the part alone. The locale \<open>embedding\<close> concludes that the
  part is always in a state that the inner system reaches by itself, so that everything proved of
  the inner system holds inside the outer one.
\<close>

section \<open>Programs of the inner system\<close>

primrec lift_prog :: "('o \<Rightarrow> 'i) \<Rightarrow> ('i \<Rightarrow> 'o \<Rightarrow> 'o) \<Rightarrow> ('i, 'a) prog \<Rightarrow> ('o, 'a) prog" where
  "lift_prog get put (Ret x) = Ret x"
| "lift_prog get put (Step c f) =
     Step (\<lambda>s. c (get s)) (\<lambda>s. case map_prod (lift_prog get put) id (f (get s)) of (p, i) \<Rightarrow> (p, put i s))"

lemma prog_steps_induct [case_names Ret Step]:
  assumes "\<And>x. P (Ret x)" "\<And>c f. (\<And>s. P (fst (f s))) \<Longrightarrow> P (Step c f)"
  shows "P p"
proof (induction p)
  case (Step c f)
  show ?case by (rule assms(2), rule Step [OF rangeI]) (simp add: Basic_BNFs.fsts.simps)
qed (rule assms(1))

lemma bindP_assoc: "bindP (bindP p k) h = bindP p (\<lambda>x. bindP (k x) h)"
  by (induction p rule: prog_steps_induct) (simp_all add: fun_eq_iff map_prod_def case_prod_beta)

lemma bindP_Ret: "bindP p Ret = p"
  by (induction p rule: prog_steps_induct) (simp_all add: fun_eq_iff map_prod_def case_prod_beta)

lemma mapP_bindP: "mapP f (bindP p k) = bindP p (\<lambda>x. mapP f (k x))"
  unfolding mapP_def by (rule bindP_assoc)

lemma lift_lift:
  "lift_prog get put (lift_prog get' put' p) = lift_prog (\<lambda>s. get' (get s)) (\<lambda>i s. put (put' i (get s)) s) p"
  by (induction p rule: prog_steps_induct) (simp_all add: fun_eq_iff map_prod_def case_prod_beta)

lemma lift_mapP: "lift_prog get put (mapP f p) = mapP f (lift_prog get put p)"
  unfolding mapP_def
  by (induction p rule: prog_steps_induct) (simp_all add: fun_eq_iff map_prod_def case_prod_beta)

text \<open>What a program of the inner system does alone, seen from outside.\<close>

lemma finish_lift:
  assumes "\<And>i s. get (put i s) = i" "\<And>i j s. put i (put j s) = put i s" "\<And>s. put (get s) s = s"
  shows "finish (\<lambda>s. put (rest (get s)) s) (lift_prog get put p) s = map_option (\<lambda>(x, i). (x, put i s)) (finish rest p (get s))"
proof (induction p arbitrary: s rule: prog_steps_induct)
  case (Ret x)
  show ?case by (simp add: assms(3))
next
  case (Step c f)
  then show ?case by (simp add: finish_Step Let_def case_prod_beta assms(1,2))
qed

text \<open>Programs that never touch the part, and programs that run an inner task at most once.\<close>

inductive inert :: "('o \<Rightarrow> 'i) \<Rightarrow> ('o \<Rightarrow> bool) \<Rightarrow> ('o, 'a) prog \<Rightarrow> bool" for get ok where
  inert_Ret: "inert get ok (Ret x)"
| inert_Step: "(\<And>s. ok s \<Longrightarrow> c s \<Longrightarrow> get (snd (f s)) = get s \<and> inert get ok (fst (f s))) \<Longrightarrow> inert get ok (Step c f)"

inductive implements ::
  "('o \<Rightarrow> 'i) \<Rightarrow> ('o \<Rightarrow> bool) \<Rightarrow> (nat \<Rightarrow> ('i, 'r) prog \<Rightarrow> bool) \<Rightarrow> nat \<Rightarrow> ('o, 'a) prog \<Rightarrow> ('i, 'r) prog option \<Rightarrow> bool"
  for get ok task t where
  impl_inert: "inert get ok p \<Longrightarrow> implements get ok task t p q"
| impl_start: "(\<And>s. ok s \<Longrightarrow> c s \<Longrightarrow> get (snd (f s)) = get s \<and>
      (implements get ok task t (fst (f s)) None \<or> (\<exists>q. task t q \<and> implements get ok task t (fst (f s)) (Some q)))) \<Longrightarrow>
    implements get ok task t (Step c f) None"
| impl_run: "(\<And>s. ok s \<Longrightarrow> c s \<Longrightarrow> c' (get s) \<and> get (snd (f s)) = snd (f' (get s)) \<and>
      implements get ok task t (fst (f s)) (Some (fst (f' (get s))))) \<Longrightarrow>
    implements get ok task t (Step c f) (Some (Step c' f'))"

inductive_cases inert_StepE: "inert get ok (Step c f)"

lemma inert_bindP: "inert get ok p \<Longrightarrow> (\<And>x. inert get ok (k x)) \<Longrightarrow> inert get ok (bindP p k)"
  by (induction rule: inert.induct) (auto intro: inert_Step)

lemma inert_blocking: "(\<And>s. c s \<Longrightarrow> get (snd (f s)) = get s) \<Longrightarrow> inert get ok (blocking c f)"
  unfolding blocking_def by (rule inert_Step) (simp add: inert_Ret)

lemma inert_atomic: "(\<And>s. get (snd (f s)) = get s) \<Longrightarrow> inert get ok (atomic f)"
  unfolding atomic_def by (rule inert_blocking)

lemma inert_mapP: "inert get ok p \<Longrightarrow> inert get ok (mapP f p)"
  unfolding mapP_def by (rule inert_bindP) (simp_all add: inert_Ret)

lemmas inert_intros = inert_Ret inert_bindP inert_atomic inert_blocking inert_mapP

lemma inert_lift: "(\<And>i s. ok s \<Longrightarrow> get (put' i s) = get s) \<Longrightarrow> inert get ok (lift_prog get' put' p)"
  by (induction p rule: prog_steps_induct) (auto intro!: inert.intros simp: case_prod_beta)

lemma implements_lift:
  assumes "\<And>i s. ok s \<Longrightarrow> get (put i s) = i" "\<And>x. inert get ok (k x)"
  shows "implements get ok task t (bindP (lift_prog get put p) k) (Some (bindP p h))"
proof (induction p rule: prog_steps_induct)
  case (Ret x)
  then show ?case by (simp add: impl_inert assms(2))
next
  case (Step c f)
  show ?case unfolding lift_prog.simps bindP.simps
    by (rule impl_run) (simp add: case_prod_beta assms(1) Step)
qed

lemma implements_after:
  assumes "\<And>s. get (snd (f s)) = get s"
    and "\<And>s. ok s \<Longrightarrow> implements get ok task t (k (fst (f s))) None \<or>
       (\<exists>q. task t q \<and> implements get ok task t (k (fst (f s))) (Some q))"
  shows "implements get ok task t (bindP (atomic f) k) None"
  unfolding atomic_def blocking_def bindP.simps by (rule impl_start) (simp add: assms)

section \<open>Simulation\<close>

definition simulates ::
  "('o \<Rightarrow> 'i) \<Rightarrow> ('o \<Rightarrow> bool) \<Rightarrow> (nat \<Rightarrow> ('i, 'r) prog \<Rightarrow> bool) \<Rightarrow> ('o, 'a) config \<Rightarrow> ('i, 'r) config \<Rightarrow> bool" where
  "simulates get ok task d r \<longleftrightarrow>
     snd r = get (snd d) \<and>
     (\<forall>u. (fst d u = None \<longrightarrow> fst r u = None) \<and> (\<forall>p. fst d u = Some p \<longrightarrow> implements get ok task u p (fst r u)))"

lemma simulates_update:
  assumes "simulates get ok task (pool, s) (rpool, get s)" "implements get ok task u p (rpool' u)" "\<And>v. v \<noteq> u \<Longrightarrow> rpool' v = rpool v"
  shows "simulates get ok task (pool(u \<mapsto> p), s') (rpool', get s')"
  using assms(1,2) assms(3) unfolding simulates_def by (simp split: if_splits)

locale embedding =
  fixes get :: "'o \<Rightarrow> 'i" and ok :: "'o \<Rightarrow> bool"
    and task :: "nat \<Rightarrow> ('i, 'r) prog \<Rightarrow> bool" and around :: "'i \<Rightarrow> 'i \<Rightarrow> bool"
    and otask :: "nat \<Rightarrow> ('o, 'a) prog \<Rightarrow> bool" and oaround :: "'o \<Rightarrow> 'o \<Rightarrow> bool" and start :: "'o \<Rightarrow> bool"
  assumes tasks: "otask t p \<Longrightarrow> implements get ok task t p None \<or> (\<exists>q. task t q \<and> implements get ok task t p (Some q))"
    and surround: "oaround s s' \<Longrightarrow> ok s \<Longrightarrow> around\<^sup>*\<^sup>* (get s) (get s')"
    and invariant: "start s0 \<Longrightarrow> (pool_step otask oaround)\<^sup>*\<^sup>* (Map.empty, s0) (pool, s) \<Longrightarrow> ok s"
begin

lemma simulation_start:
  assumes "simulates get ok task (pool, s) (rpool, get s)" "pool t = None" "otask t p"
  shows "\<exists>rpool'. (pool_step task around)\<^sup>*\<^sup>* (rpool, get s) (rpool', get s) \<and>
     simulates get ok task (pool(t \<mapsto> p), s) (rpool', get s)"
proof -
  have none: "rpool t = None" using assms(1,2) by (simp add: simulates_def)
  from tasks [OF assms(3)] show ?thesis
  proof (elim disjE exE conjE)
    assume "implements get ok task t p None"
    then show ?thesis using simulates_update [OF assms(1), of t p rpool] none by (intro exI [of _ rpool]) simp
  next
    fix q assume q: "task t q" "implements get ok task t p (Some q)"
    then show ?thesis
      using simulates_update [OF assms(1), of t p "rpool(t \<mapsto> q)"] ps_spawn [of rpool t task q around "get s", OF none q(1)]
      by (intro exI [of _ "rpool(t \<mapsto> q)"]) (simp add: r_into_rtranclp)
  qed
qed

lemma simulation_run:
  assumes "simulates get ok task (pool, s) (rpool, get s)" "pool t = Some (Step c f)" "c s" "ok s"
  shows "\<exists>rpool'. (pool_step task around)\<^sup>*\<^sup>* (rpool, get s) (rpool', get (snd (f s))) \<and>
     simulates get ok task (pool(t \<mapsto> fst (f s)), snd (f s)) (rpool', get (snd (f s)))"
proof -
  let ?run = "pool_step task around" and ?s = "snd (f s)"
  have "implements get ok task t (Step c f) (rpool t)" using assms(1,2) by (simp add: simulates_def)
  then show ?thesis
  proof (cases rule: implements.cases)
    case impl_inert
    then have h: "get ?s = get s" "inert get ok (fst (f s))" using assms(3,4) by (auto elim: inert_StepE)
    show ?thesis
      by (rule exI [of _ rpool], rule conjI)
        (simp_all add: h simulates_update [OF assms(1) implements.impl_inert [OF h(2)], where s' = ?s, unfolded h(1)])
  next
    case impl_start
    have g: "get ?s = get s" using impl_start(2) [OF assms(4,3)] by simp
    consider "implements get ok task t (fst (f s)) None" | q where "task t q" "implements get ok task t (fst (f s)) (Some q)"
      using impl_start(2) [OF assms(4,3)] by blast
    then show ?thesis
    proof cases
      case 1
      have "simulates get ok task (pool(t \<mapsto> fst (f s)), ?s) (rpool, get ?s)"
        by (rule simulates_update [OF assms(1)]) (simp_all add: 1 impl_start(1))
      then show ?thesis unfolding g by (intro exI [of _ rpool]) simp
    next
      case q: 2
      have "?run (rpool, get s) (rpool(t \<mapsto> q), get s)" by (rule ps_spawn [of rpool t task q, OF impl_start(1) q(1)])
      moreover have "simulates get ok task (pool(t \<mapsto> fst (f s)), ?s) (rpool(t \<mapsto> q), get ?s)"
        by (rule simulates_update [OF assms(1)]) (simp_all add: q(2))
      ultimately show ?thesis unfolding g by (intro exI [of _ "rpool(t \<mapsto> q)"]) (simp add: r_into_rtranclp)
    qed
  next
    case (impl_run c' f')
    let ?r = "get s"
    have q: "c' ?r" "get ?s = snd (f' ?r)" "implements get ok task t (fst (f s)) (Some (fst (f' ?r)))"
      using impl_run(2) [OF assms(4,3)] by simp_all
    have "?run (rpool, ?r) (rpool(t \<mapsto> fst (f' ?r)), get ?s)"
      by (rule ps_run [of rpool t c' f' ?r]) (simp_all add: impl_run(1) q(1,2))
    moreover have "simulates get ok task (pool(t \<mapsto> fst (f s)), ?s) (rpool(t \<mapsto> fst (f' ?r)), get ?s)"
      by (rule simulates_update [OF assms(1)]) (simp_all add: q(3))
    ultimately show ?thesis by (intro exI [of _ "rpool(t \<mapsto> fst (f' ?r))"]) (simp add: r_into_rtranclp)
  qed
qed

lemma surround_steps: "around\<^sup>*\<^sup>* i i' \<Longrightarrow> (pool_step task around)\<^sup>*\<^sup>* (rpool, i) (rpool, i')"
  by (induction rule: rtranclp_induct) (auto intro: rtranclp.rtrancl_into_rtrancl ps_env)

lemma simulation_step:
  assumes "pool_step otask oaround d d'" "simulates get ok task d r" "ok (snd d)"
  shows "\<exists>r'. (pool_step task around)\<^sup>*\<^sup>* r r' \<and> simulates get ok task d' r'"
proof -
  have r: "r = (fst r, get (snd d))" using assms(2) by (simp add: simulates_def prod_eq_iff)
  from assms(1) show ?thesis
  proof (cases rule: pool_step.cases)
    case (ps_run pool t c f s p' s')
    then have "simulates get ok task (pool, s) (fst r, get s)" "ok s" using assms(2,3) r by simp_all
    from simulation_run [OF this(1) ps_run(3,4) this(2)] show ?thesis using r ps_run by auto
  next
    case (ps_spawn pool t p s)
    then have "simulates get ok task (pool, s) (fst r, get s)" using assms(2) r by simp
    from simulation_start [OF this ps_spawn(3,4)] show ?thesis using r ps_spawn by auto
  next
    case (ps_env s s' pool)
    then have "around\<^sup>*\<^sup>* (get s) (get s')" using surround assms(3) by simp
    from surround_steps [OF this, of "fst r"] have "(pool_step task around)\<^sup>*\<^sup>* r (fst r, get s')" using r ps_env(1) by simp
    moreover have "simulates get ok task d' (fst r, get s')" using assms(2) ps_env by (simp add: simulates_def)
    ultimately show ?thesis by blast
  qed
qed

lemma simulation:
  assumes "(pool_step otask oaround)\<^sup>*\<^sup>* (Map.empty, s0) d" "start s0"
  shows "\<exists>r. (pool_step task around)\<^sup>*\<^sup>* (Map.empty, get s0) r \<and> simulates get ok task d r"
  using assms(1)
proof (induction rule: rtranclp_induct)
  case base
  show ?case by (intro exI [of _ "(Map.empty, get s0)"]) (simp add: simulates_def)
next
  case (step d d')
  then obtain r where r: "(pool_step task around)\<^sup>*\<^sup>* (Map.empty, get s0) r" "simulates get ok task d r" by blast
  have "ok (snd d)" by (rule invariant [OF assms(2), of "fst d"]) (simp add: step(1))
  then obtain r' where "(pool_step task around)\<^sup>*\<^sup>* r r'" "simulates get ok task d' r'"
    using simulation_step [OF step(2) r(2)] by blast
  then show ?case using rtranclp_trans [OF r(1)] by blast
qed

lemma inner_reachable:
  assumes "(pool_step otask oaround)\<^sup>*\<^sup>* (Map.empty, s0) (pool, s)" "start s0"
  shows "\<exists>rpool. (pool_step task around)\<^sup>*\<^sup>* (Map.empty, get s0) (rpool, get s) \<and> {u. rpool u \<noteq> None} \<subseteq> {u. pool u \<noteq> None}"
proof -
  obtain r where r: "(pool_step task around)\<^sup>*\<^sup>* (Map.empty, get s0) r" "simulates get ok task (pool, s) r"
    using simulation [OF assms] by blast
  then have "r = (fst r, get s)" "{u. fst r u \<noteq> None} \<subseteq> {u. pool u \<noteq> None}"
    by (auto simp: simulates_def prod_eq_iff)
  then show ?thesis using r(1) by (intro exI [of _ "fst r"]) simp
qed

end

end
