(* ===== verification/DispatcherProps.thy ===== *)
theory DispatcherProps
  imports DispatcherExample Embedding
begin

text \<open>
  The properties of the dispatcher: it refines the runtime, its ledger stays bounded, an identity
  executes at most once within the reconciliation horizon, every answer means what it says, and a
  reconciliation reports what is recorded.
\<close>

section \<open>The runtime inside the dispatcher\<close>

lemma in_runtime_lift: "in_runtime p = lift_prog d_runtime (\<lambda>r s. s\<lparr>d_runtime := r\<rparr>) p"
  by (induction p rule: prog_steps_induct) (simp_all add: fun_eq_iff map_prod_def case_prod_beta)

lemma section_runtime [simp]:
  "d_runtime (snd (begin_section t rid d b s)) = d_runtime s" "d_runtime (snd (snapshot_section rid s)) = d_runtime s"
  "d_runtime (start_section u x s) = d_runtime s" "d_runtime (complete_section u x r s) = d_runtime s"
  by (simp_all add: begin_section_def snapshot_section_def start_section_def complete_section_def admit_def log_def Let_def
      split: option.split request_entry.split)

lemma inert_wait: "inert d_runtime ok (wait_for_response c deadline)"
  unfolding wait_for_response_def by (auto intro!: inert_intros split: option.split)

lemma inert_reconcile: "inert d_runtime ok (reconcile_mutation env rid wait)"
  unfolding reconcile_mutation_def by (auto intro!: inert_intros inert_wait split: reconciliation_snapshot.split)

lemma inert_dispatch: "inert d_runtime ok (dispatch env t request)"
proof -
  have "inert d_runtime ok (dispatch_admitted t request d)" for d
    unfolding dispatch_admitted_def resolve_request_def spawn_execution_def Let_def
    by (auto intro!: inert_intros inert_wait split: begin_request.split)
  moreover have "inert d_runtime ok (dispatch_reconcile env rid input)" for rid input
    unfolding dispatch_reconcile_def by (auto intro!: inert_intros inert_reconcile)
  ultimately show ?thesis by (auto simp: dispatch_def inert_Ret split: sum.split command.split)
qed

lemma implements_in_runtime:
  "(\<And>x. inert d_runtime ok (k x)) \<Longrightarrow> implements d_runtime ok task t (bindP (in_runtime p) k) (Some (bindP p h))"
  unfolding in_runtime_lift by (rule implements_lift) simp_all

lemma implements_execution: "implements d_runtime ok (runtime_task (p_runtime env)) u (mapP f (execution_task env u x)) None"
proof -
  have "implements d_runtime ok (runtime_task (p_runtime env)) u
      (mapP f (bindP (in_runtime (execute (p_runtime env) u (x_command x))) (complete_request u x)))
      (Some (mapP R_Command (execute (p_runtime env) u (x_command x))))"
    unfolding mapP_def bindP_assoc
    by (rule implements_in_runtime) (auto simp: complete_request_def intro!: inert_intros)
  then show ?thesis
    unfolding execution_task_def blocking_def mapP_def bindP.simps
    by (intro impl_start) (auto intro: rt_execute simp: mapP_def)
qed

lemma implements_task:
  assumes "dispatcher_task env t p"
  shows "implements d_runtime ok (runtime_task (p_runtime env)) t p None \<or>
    (\<exists>q. runtime_task (p_runtime env) t q \<and> implements d_runtime ok (runtime_task (p_runtime env)) t p (Some q))"
  using assms
proof (cases rule: dispatcher_task.cases)
  case (dt_runtime q)
  have "implements d_runtime ok (runtime_task (p_runtime env)) t p (Some q)"
    unfolding dt_runtime(1) mapP_def by (rule subst [OF bindP_Ret], rule implements_in_runtime) (rule inert_Ret)
  then show ?thesis using dt_runtime(2) by blast
qed (auto intro: impl_inert inert_intros inert_dispatch inert_reconcile implements_execution)

interpretation dr: embedding d_runtime "\<lambda>_. True" "runtime_task (p_runtime env)" surroundings "dispatcher_task env"
  dispatcher_surroundings "\<lambda>_. True" for env
proof
  show "surroundings\<^sup>*\<^sup>* (d_runtime s) (d_runtime s')" if "dispatcher_surroundings s s'" for s s' :: "'a dispatcher"
    using that by cases (simp add: r_into_rtranclp)
qed (simp_all add: implements_task)

section \<open>Properties\<close>

text \<open>
  Claim C17. The dispatcher refines the runtime: whatever requests, reconciliations and executions
  interleave, the runtime inside is in a state its own service reaches, with the commands that were
  executed as its tasks. Everything that holds of the reachable runtimes holds behind the
  dispatcher.
\<close>

theorem dispatcher_refines_runtime:
  assumes "dispatcher_reachable env s0 (pool, s)"
  shows "\<exists>rpool. reachable (p_runtime env) (d_runtime s0) (rpool, d_runtime s) \<and> {u. rpool u \<noteq> None} \<subseteq> {u. pool u \<noteq> None}"
  using dr.inner_reachable [of env s0 pool s] assms unfolding dispatcher_reachable_def reachable_def by simp

theorem dispatcher_refines_runtime_witness:
  "\<exists>rpool. reachable ex_env ex_start (rpool, dx_runtime) \<and> {u. rpool u \<noteq> None} \<subseteq> {u. dx_pool u \<noteq> None}"
  using dispatcher_refines_runtime [OF dx_reachable] by (simp add: dx_env_def dx_start_def dx_done_def)

lemma dispatcher_inv:
  "dispatcher_reachable env s0 (pool, s) \<Longrightarrow> fresh_dispatcher env s0 \<Longrightarrow> inj (e_uuid (p_runtime env)) \<Longrightarrow>
     dok env s \<and> dguar env UNIV s0 s"
  using dispatcher_config [of env s0 "(pool, s)"] by (simp add: dp.config_ok_def)

text \<open>
  Claim C18. The ledger is well formed and bounded in every reachable state: its keys are unique,
  the in-flight counter is exactly the number of pending entries and within its bound, so it never
  underflows; the entries are within theirs; and the bounds are those of the start.
\<close>

theorem ledger_bounded:
  assumes "dispatcher_reachable env s0 (pool, s)" "fresh_dispatcher env s0" "inj (e_uuid (p_runtime env))"
  shows "distinct (map fst (entries (d_ledger s))) \<and>
    inflight_requests (d_ledger s) = card {rid. \<exists>d b c. hm_get (entries (d_ledger s)) rid = Some (Pending d b c)} \<and>
    inflight_requests (d_ledger s) \<le> max_inflight_requests (d_ledger s0) \<and>
    hm_len (entries (d_ledger s)) \<le> max_completed_requests (d_ledger s0)"
proof -
  have "ledger_ok (d_ledger s)" "bounds_of (d_ledger s) = bounds_of (d_ledger s0)"
    using dispatcher_inv [OF assms] dokD(2) by (auto simp: dguar_def)
  moreover have "dom (pending m) = {rid. \<exists>d b c. hm_get m rid = Some (Pending d b c)}" for m
    using pending_eq [of m] by (auto simp: dom_def)
  ultimately show ?thesis by (simp add: ledger_ok_def bounds_of_def hm_wf_def)
qed

theorem ledger_bounded_witness:
  "inflight_requests (d_ledger dx_done) \<le> 4 \<and> hm_len (entries (d_ledger dx_done)) \<le> 8"
  using ledger_bounded [OF dx_reachable dx_fresh dx_inj] by (simp add: dx_start_def dx_ledger_def)

text \<open>
  Claim C4. A request executes at most once: no two executions, and no two completions, have the
  same admission; every execution runs a command with the digest and the identity that were
  admitted; and an identity is admitted again only after the previous admission was completed and
  the reconciliation horizon has passed since.
\<close>

theorem requests_execute_once:
  assumes "dispatcher_reachable env s0 (pool, s)" "fresh_dispatcher env s0" "inj (e_uuid (p_runtime env))"
  shows "distinct (admitted_channels (d_log s)) \<and> distinct (started_channels (d_log s)) \<and> distinct (finished_channels (d_log s)) \<and>
    (\<forall>u x. Started u x \<in> set (d_log s) \<longrightarrow> command_digest env (x_command x) = Some (x_digest x) \<and>
       (\<exists>t now. Admitted t (x_request_id x) (x_digest x) (x_channel x) now \<in> set (d_log s))) \<and>
    (\<forall>xs ys t rid d c now t' d' c' now'. d_log s = xs @ Admitted t rid d c now # ys \<longrightarrow> Admitted t' rid d' c' now' \<in> set xs \<longrightarrow>
       (\<exists>u x r done. Finished u x r done \<in> set xs \<and> x_channel x = c' \<and> done + completed_request_ttl (d_ledger s0) \<le> now))"
proof -
  have d: "dok env s" "bounds_of (d_ledger s) = bounds_of (d_ledger s0)"
    using dispatcher_inv [OF assms] by (simp_all add: dguar_def)
  then have "spaced (completed_request_ttl (d_ledger s0)) (d_log s)" using dokD(7) [OF d(1)] by (simp add: bounds_of_def)
  moreover have "distinct (admitted_channels (d_log s))" using dokD(3) [OF d(1)] by (simp add: log_ok_def)
  ultimately show ?thesis using dokD(3) [OF d(1)] unfolding log_ok_def spaced_def by simp
qed

theorem requests_execute_once_witness:
  "distinct (started_channels (d_log dx_done)) \<and>
   command_digest dx_env (x_command dx_execution) = Some (x_digest dx_execution)"
proof -
  have "Started 1 dx_execution \<in> set (d_log dx_done)" by (simp add: dx_done_def)
  then show ?thesis using requests_execute_once [OF dx_reachable dx_fresh dx_inj] by simp
qed

text \<open>
  The response an execution records for a request is the result of its command in the
  runtime, with a mutation status that is faithful to the native calls the execution made.
\<close>

theorem recorded_responses_faithful:
  assumes "dispatcher_reachable env s0 (pool, s)" "fresh_dispatcher env s0" "inj (e_uuid (p_runtime env))"
    and "Finished u x r now \<in> set (d_log s)"
  shows "\<exists>result. r = response_of (x_request_id x) result \<and>
    faithful (p_runtime env) u result (history u (r_trace (d_runtime s)))"
proof -
  have "results_ok env (d_runtime s) (d_log s)" using dispatcher_inv [OF assms(1-3)] dokD(8) by blast
  then show ?thesis using assms(4) unfolding results_ok_def finished_def by blast
qed

theorem recorded_responses_faithful_witness:
  "\<exists>result. dx_response = response_of dx_id result \<and> faithful ex_env 1 result (history 1 (r_trace dx_runtime))"
  using recorded_responses_faithful [OF dx_reachable dx_fresh dx_inj, of 1 dx_execution dx_response 1000000000]
  by (simp add: dx_done_def dx_execution_def dx_env_def)

text \<open>The task \<open>t\<close> is the one whose result is followed; \<open>Q\<close> is what it ends with.\<close>

lemma followed_task:
  assumes r: "dispatcher_reachable env s0 (pool, s)" and f: "fresh_dispatcher env s0" "inj (e_uuid (p_runtime env))"
    and new: "pool t = None" and p: "dp.triple env t (fresh_task t) p Q"
    and run: "dispatcher_steps env (pool(t \<mapsto> p), s) (pool', s')" and ret: "pool' t = Some (Ret x)"
  shows "Q x s'"
proof -
  let ?Q = "\<lambda>u x s. u = t \<longrightarrow> Q x s" and ?N = "\<lambda>u s. u \<noteq> t \<and> fresh_task u s"
  have ok: "dp.config_ok env fresh_task (concluded env) (pool, s)" using dispatcher_config [OF r f] by simp
  then have I: "dok env s" "fresh_task t s" using new by (simp_all add: dp.config_ok_def)
  have "safe (dok env) (dguar env) u (?Q u) q s" if "(pool(t \<mapsto> p)) u = Some q" for u q
  proof (cases "u = t")
    case True
    then show ?thesis using dp.tripleD [OF p I] that by simp
  next
    case False
    then have "safe (dok env) (dguar env) u (concluded env u) q s" using ok that by (simp add: dp.config_ok_def)
    then show ?thesis by (rule dp.safe_weaken) (simp add: False)
  qed
  then have start: "dp.config_ok env ?N ?Q (pool(t \<mapsto> p), s)" using ok I by (auto simp: dp.config_ok_def)
  have st: "dp.stable env u (?N u)" for u by (intro stable_intros)
  have sp: "safe (dok env) (dguar env) u (?Q u) q s" if "dispatcher_task env u q" "dok env s" "?N u s" for u q s
    by (rule dp.safe_weaken [OF dp.tripleD [OF dispatcher_task_triple [OF that(1)] that(2)]]) (use that(3) in simp_all)
  have "dp.config_ok env ?N ?Q (pool', s')"
    using dp.reachable_ok [OF run start st sp dispatcher_surroundings_ok] by simp
  then have "dok env s'" "safe (dok env) (dguar env) t (?Q t) (Ret x) s'"
    unfolding dp.config_ok_def fst_conv snd_conv using ret by (blast, blast)
  from dp.safe_result [OF this(2,1)] show ?thesis by simp
qed

text \<open>
  Claim C5. Every answer means what it says, whatever runs beside it. A request that does not
  validate is refused and admits nothing. A busy or conflict answer admitted nothing. A passed
  deadline belongs to an admitted identity with the same command digest. Every other answer is the
  response recorded by the one execution of that identity and digest, also for repeated requests.
  A reconciliation command admits nothing and reports what is recorded.
\<close>

theorem dispatch_answers:
  assumes "dispatcher_reachable env s0 (pool, s)" "fresh_dispatcher env s0" "inj (e_uuid (p_runtime env))" "pool t = None"
    and "dispatcher_steps env (pool(t \<mapsto> mapP D_Response (dispatch env t request)), s) (pool', s')"
    and "pool' t = Some (Ret (D_Response response))"
  shows "response_ok env t request response s'"
proof -
  let ?Q = "\<lambda>x s. case x of D_Response r \<Rightarrow> response_ok env t request r s | _ \<Rightarrow> True"
  have "dp.triple env t (fresh_task t) (dispatch env t request) (\<lambda>x. ?Q (D_Response x))"
    by (rule dp.triple_weaken [OF dispatch_triple]) (simp_all add: fresh_not_admitted)
  then have "dp.triple env t (fresh_task t) (mapP D_Response (dispatch env t request)) ?Q"
    by (rule dp.triple_mapP) (case_tac x; simp add: stable_response stable_const)
  from followed_task [OF assms(1-4) this assms(5,6)] show ?thesis by simp
qed

theorem dispatch_answers_witness: "response_ok dx_env 2 dx_request dx_response dx_done"
proof -
  have new: "dx_pool 2 = None" by (simp add: dx_pool_def)
  have "dispatcher_steps dx_env (dx_pool(2 \<mapsto> mapP D_Response (dispatch dx_env 2 dx_request)), dx_done)
      (dx_pool(2 \<mapsto> Ret (D_Response dx_response)), dx_done)"
    by (rule dispatcher_run(1) [of dx_env 2 D_Response _ dx_pool "later 0", OF dt_dispatch new dx_replay later_steps])
  from dispatch_answers [OF dx_reachable dx_fresh dx_inj new this] show ?thesis by simp
qed



section \<open>Progress\<close>

text \<open>A program that comes to its end by itself, at most \<open>d\<close> later.\<close>

definition ends :: "duration \<Rightarrow> ('w dispatcher, 'a) prog \<Rightarrow> 'w dispatcher \<Rightarrow> bool" where
  "ends d p s \<longleftrightarrow> (\<exists>r s'. finish (rest_for d) p s = Some (r, s') \<and> d_now s' \<le> d_now s + d)"

lemma ends_Ret [simp]: "ends d (Ret x) s"
  by (simp add: ends_def)

lemma ends_atomic:
  assumes "d_runtime (snd (f s)) = d_runtime s" "ends d (k (fst (f s))) (snd (f s))"
  shows "ends d (bindP (atomic f) k) s"
  using assms by (simp add: ends_def case_prod_beta)

lemma ends_wait:
  assumes "deadline \<le> d_now s + d"
  shows "ends d (bindP (wait_for_response c deadline) (\<lambda>v. Ret (f v))) s"
  using assms by (cases "d_channels s ! c") (simp_all add: ends_def wait_for_response_def finish_blocking)

lemma ends_resolve:
  assumes "deadline \<le> d_now s + d"
  shows "ends d (resolve_request begun request digest deadline b) s"
  using assms
  by (cases begun) (auto simp: resolve_request_def Let_def spawn_execution_def intro!: ends_atomic ends_wait)

lemma ends_reconcile: "wait \<le> d \<Longrightarrow> ends d (bindP (reconcile_mutation env rid wait) (\<lambda>r. Ret (f r))) s"
  by (auto simp: reconcile_mutation_def bindP_assoc split: reconciliation_snapshot.split
      intro!: ends_atomic ends_wait)

lemma ends_dispatch: "ends (from_millis (unat (p_max_request_timeout_ms env))) (dispatch env t request) s"
proof (cases "validate_request env request")
  case (Inl e)
  then show ?thesis by (simp add: dispatch_def)
next
  case (Inr d)
  then have "from_millis (unat (req_timeout_ms request)) \<le> from_millis (unat (p_max_request_timeout_ms env))"
    by (auto simp: validate_request_def from_millis_def word_le_nat_alt not_less split: if_splits)
  then have "ends (from_millis (unat (p_max_request_timeout_ms env))) (dispatch_admitted t request d) s"
    unfolding dispatch_admitted_def Let_def by (intro ends_atomic ends_resolve) simp_all
  moreover have "ends (from_millis (unat (p_max_request_timeout_ms env))) (dispatch_reconcile env rid input) s" for rid input
    unfolding dispatch_reconcile_def
    by (auto intro!: ends_reconcile simp: from_millis_def word_le_nat_alt not_less)
  ultimately show ?thesis using Inr by (auto simp: dispatch_def split: command.split)
qed

text \<open>
  Claim C25. Every request is answered within the configured bound of the timeouts, from every
  state of the dispatcher and even if nothing else runs: a request is refused at once, replayed,
  or waits until its deadline at the latest.
\<close>

theorem dispatch_returns:
  "\<exists>r s'. dispatcher_steps env (pool(t \<mapsto> mapP D_Response (dispatch env t request)), s) (pool(t \<mapsto> Ret (D_Response r)), s') \<and>
    d_now s' \<le> d_now s + from_millis (unat (p_max_request_timeout_ms env))"
proof -
  let ?d = "from_millis (unat (p_max_request_timeout_ms env))"
  obtain r s' where r: "finish (rest_for ?d) (dispatch env t request) s = Some (r, s')" "d_now s' \<le> d_now s + ?d"
    using ends_dispatch [of env t request s] unfolding ends_def by blast
  from dispatcher_run(1) [of env t D_Response _ "pool(t := None)" "later ?d", OF dt_dispatch _ r(1) later_steps] r(2)
  show ?thesis by auto
qed




end
