(* ===== verification/HostGateway.thy ===== *)
theory HostGateway
  imports HostRegistry DispatcherProps
begin

text \<open>
  The gateway above the registry of workers (host/src/gateway.rs) and the embedded worker
  (host/src/local.rs): authenticated execution on the worker of one lease and epoch, the projection
  of observations to tickets, and the retrieval of an artifact for its ticket.

  \<^item> The state holds the registry, the tickets, the free permits of the semaphore, the clock and the
    state of the workers; a worker's operation runs on that state as a program of its own.
  \<^item> \<open>gw_holders\<close> and \<open>gw_log\<close> are records kept for the proofs: the tasks that hold a permit, and the
    dispatches and tickets in their order. No operation reads them.
  \<^item> Parameters: the source of fresh names and the base64 encoder.
\<close>

section \<open>Types\<close>

definition GATEWAY_PROTOCOL_VERSION :: string where "GATEWAY_PROTOCOL_VERSION = ''nexus.cua.gateway.v1''"
definition GATEWAY_MAX_REQUEST_ID_BYTES :: nat where "GATEWAY_MAX_REQUEST_ID_BYTES = 128"
definition MIN_TOKEN_BYTES :: nat where "MIN_TOKEN_BYTES = 32"
definition MAX_TOKEN_BYTES :: nat where "MAX_TOKEN_BYTES = 4 * 1024"

record gateway_execute_request =
  gx_protocol_version :: string
  gx_request_id :: request_id
  gx_timeout_ms :: u32
  gx_authorization :: authorization_token
  gx_lease_id :: worker_lease_id
  gx_worker_epoch :: worker_epoch
  gx_command :: command

record gateway_artifact_request =
  ga_protocol_version :: string
  ga_authorization :: authorization_token
  ga_lease_id :: worker_lease_id
  ga_worker_epoch :: worker_epoch
  ga_ticket_ref :: string

record remote_screenshot_artifact =
  rsa_artifact_ref :: artifact_ref
  rsa_ticket_ref :: string
  rsa_mime_type :: string
  rsa_pixel_size :: pixel_size
  rsa_byte_length :: u64
  rsa_sha256 :: string

record remote_window_observation =
  rwo_observation_id :: observation_id
  rwo_window_ref :: window_ref
  rwo_captured_at :: string
  rwo_window_screen_bounds :: screen_rect
  rwo_screenshot :: "remote_screenshot_artifact option"
  rwo_elements :: "accessibility_element list"
  rwo_elements_complete :: bool
  rwo_elements_truncation :: "observation_truncation option"

datatype gateway_result = GR_Core command_result | GR_WindowObserved remote_window_observation

datatype gateway_outcome = GO_Success gateway_result | GO_Error cua_error

record gateway_execute_response =
  gr_protocol_version :: string
  gr_request_id :: request_id
  gr_worker_id :: "worker_id option"
  gr_worker_epoch :: "worker_epoch option"
  gr_outcome :: gateway_outcome

record gateway_artifact_response =
  gar_artifact_ref :: artifact_ref
  gar_mime_type :: string
  gar_byte_length :: u64
  gar_sha256 :: string
  gar_data_base64 :: string

record worker_gateway_config =
  gc_max_inflight_requests :: nat
  gc_max_artifact_tickets :: nat
  gc_artifact_ticket_ttl :: duration
  gc_max_artifact_bytes :: u64
  gc_max_request_timeout_ms :: u32

definition default_gateway_config :: worker_gateway_config where
  "default_gateway_config =
     \<lparr>gc_max_inflight_requests = 64, gc_max_artifact_tickets = 256, gc_artifact_ticket_ttl = from_secs (5 * 60),
      gc_max_artifact_bytes = 16 * 1024 * 1024, gc_max_request_timeout_ms = 120000\<rparr>"

datatype gateway_token = GatewayToken string

record artifact_ticket =
  at_lease_id :: worker_lease_id
  at_worker_epoch :: worker_epoch
  at_artifact :: screenshot_artifact
  at_expires_at :: instant

datatype 's gateway_event =
    Dispatched nat worker_lease instant "'s registry_state"
  | Minted string worker_lease_id worker_epoch screenshot_artifact

record 's gateway =
  gw_registry :: "'s registry_state"
  gw_tickets :: "(string, artifact_ticket) hm"
  gw_permits :: nat
  gw_workers :: 's
  gw_now :: instant
  gw_next :: nat
  gw_holders :: "nat list"
  gw_log :: "'s gateway_event list"

record gateway_env =
  ge_registry :: registry_env
  ge_token :: gateway_token
  ge_config :: worker_gateway_config
  ge_uuid :: "nat \<Rightarrow> string"
  ge_base64 :: "bytes \<Rightarrow> string"

section \<open>Construction\<close>

definition gateway_token_new :: "authorization_token \<Rightarrow> gateway_token option" where
  "gateway_token_new token =
     (let b = expose_token token
      in if MIN_TOKEN_BYTES \<le> length b \<and> length b \<le> MAX_TOKEN_BYTES then Some (GatewayToken b) else None)"

fun gateway_accepts :: "gateway_token \<Rightarrow> authorization_token \<Rightarrow> bool" where
  "gateway_accepts (GatewayToken b) candidate \<longleftrightarrow>
     length (expose_token candidate) = length b \<and> b = expose_token candidate"

definition gateway_new ::
  "registry_env \<Rightarrow> (nat \<Rightarrow> string) \<Rightarrow> (bytes \<Rightarrow> string) \<Rightarrow> 's registry_state \<Rightarrow> 's \<Rightarrow> instant \<Rightarrow> authorization_token \<Rightarrow>
   worker_gateway_config \<Rightarrow> worker_error + gateway_env \<times> 's gateway" where
  "gateway_new env uuid base64 registry workers now token config =
     (if gc_max_inflight_requests config = 0 \<or> gc_max_artifact_tickets config = 0 \<or> gc_artifact_ticket_ttl config = 0 \<or>
         gc_max_artifact_bytes config = 0 \<or> gc_max_request_timeout_ms config = 0
      then Inl (WE_Invalid ''gateway resource and lifetime bounds must be non-zero'')
      else bindR (ok_or (WE_Invalid ''gateway token must contain 32 to 4096 bytes'') (gateway_token_new token)) (\<lambda>verifier.
           Inr (\<lparr>ge_registry = env, ge_token = verifier, ge_config = config, ge_uuid = uuid, ge_base64 = base64\<rparr>,
                \<lparr>gw_registry = registry, gw_tickets = [], gw_permits = gc_max_inflight_requests config,
                 gw_workers = workers, gw_now = now, gw_next = 0, gw_holders = [], gw_log = []\<rparr>)))"

section \<open>Errors\<close>

datatype gateway_failure =
    GF_Protocol | GF_Unauthorized | GF_Invalid | GF_Busy | GF_StaleArtifact | GF_Worker worker_error

fun gateway_error_parts :: "gateway_failure \<Rightarrow> error_code \<times> string \<times> bool \<times> string option" where
  "gateway_error_parts GF_Protocol =
     (ProtocolMismatch, ''unsupported worker gateway protocol'', False, Some ''negotiate_gateway_protocol'')"
| "gateway_error_parts GF_Unauthorized = (Unauthorized, ''invalid worker gateway authorization'', False, None)"
| "gateway_error_parts GF_Invalid = (InvalidRequest, ''worker gateway request is invalid'', False, None)"
| "gateway_error_parts GF_Busy = (Busy, ''worker gateway capacity is busy'', True, Some ''retry_after_capacity'')"
| "gateway_error_parts (GF_Worker WE_Busy) =
     (Busy, ''worker gateway capacity is busy'', True, Some ''retry_after_capacity'')"
| "gateway_error_parts GF_StaleArtifact =
     (ReferenceNotFound, ''remote screenshot artifact is stale'', False, Some ''observe_window_again'')"
| "gateway_error_parts (GF_Worker WE_StaleLease) =
     (SessionUnavailable, ''desktop worker lease or epoch is stale'', False, Some ''acquire_worker_lease'')"
| "gateway_error_parts (GF_Worker _) =
     (Internal, ''desktop worker registry is unavailable'', True, Some ''retry_after_worker_recovery'')"

definition gateway_error :: "gateway_failure \<Rightarrow> bool \<Rightarrow> cua_error" where
  "gateway_error f is_mutation =
     (case gateway_error_parts f of (code, message, may_retry, recovery) \<Rightarrow>
        \<lparr>ce_code = code, ce_message = message, ce_retryable = may_retry, ce_recovery_action = recovery,
         ce_mutation_status = (if is_mutation then MS_NotDispatched else MS_NotApplicable)\<rparr>)"

section \<open>Permits, leases and tickets\<close>

definition try_permit :: "nat \<Rightarrow> 's gateway \<Rightarrow> bool \<times> 's gateway" where
  "try_permit t s =
     (if gw_permits s = 0 then (False, s)
      else (True, s\<lparr>gw_permits := gw_permits s - 1, gw_holders := t # gw_holders s\<rparr>))"

definition drop_permit :: "nat \<Rightarrow> 's gateway \<Rightarrow> 's gateway" where
  "drop_permit t s = s\<lparr>gw_permits := gw_permits s + 1, gw_holders := remove1 t (gw_holders s)\<rparr>"

definition resolve_section ::
  "worker_lease_id \<Rightarrow> worker_epoch \<Rightarrow> 's gateway \<Rightarrow> (worker_error + worker_lease \<times> 's desktop_worker) \<times> 's gateway" where
  "resolve_section l e s = (case resolve (gw_now s) l e (gw_registry s) of (r, reg) \<Rightarrow> (r, s\<lparr>gw_registry := reg\<rparr>))"

definition dispatch_section ::
  "nat \<Rightarrow> worker_lease_id \<Rightarrow> worker_epoch \<Rightarrow> 's gateway \<Rightarrow> (worker_error + worker_lease \<times> 's desktop_worker) \<times> 's gateway" where
  "dispatch_section t l e s =
     (case resolve_section l e s of (r, s') \<Rightarrow>
        (r, case r of Inl _ \<Rightarrow> s'
              | Inr (lease, _) \<Rightarrow> s'\<lparr>gw_log := gw_log s' @ [Dispatched t lease (gw_now s) (gw_registry s)]\<rparr>))"

definition purge_tickets :: "instant \<Rightarrow> (string, artifact_ticket) hm \<Rightarrow> (string, artifact_ticket) hm" where
  "purge_tickets now tickets = hm_retain (\<lambda>_ ticket. now < at_expires_at ticket) tickets"

definition ticket_name :: "gateway_env \<Rightarrow> nat \<Rightarrow> string" where
  "ticket_name env n = ''ticket_'' @ ge_uuid env n"

definition mint_section ::
  "gateway_env \<Rightarrow> worker_lease_id \<Rightarrow> worker_epoch \<Rightarrow> screenshot_artifact \<Rightarrow> 's gateway \<Rightarrow>
   (cua_error + remote_screenshot_artifact) \<times> 's gateway" where
  "mint_section env l e artifact s =
     (let tickets = purge_tickets (gw_now s) (gw_tickets s); ticket_ref = ticket_name env (gw_next s)
      in if gc_max_artifact_tickets (ge_config env) \<le> hm_len tickets
         then (Inl (gateway_error GF_Busy False), s\<lparr>gw_tickets := tickets\<rparr>)
         else (Inr \<lparr>rsa_artifact_ref = sa_artifact_ref artifact, rsa_ticket_ref = ticket_ref,
                    rsa_mime_type = sa_mime_type artifact, rsa_pixel_size = sm_pixel_size (sa_mapping artifact),
                    rsa_byte_length = sa_byte_length artifact, rsa_sha256 = sa_sha256 artifact\<rparr>,
               s\<lparr>gw_next := gw_next s + 1,
                 gw_tickets := hm_insert ticket_ref
                   \<lparr>at_lease_id = l, at_worker_epoch = e, at_artifact = artifact,
                    at_expires_at = gw_now s + gc_artifact_ticket_ttl (ge_config env)\<rparr> tickets,
                 gw_log := gw_log s @ [Minted ticket_ref l e artifact]\<rparr>))"

definition mint_ticket ::
  "gateway_env \<Rightarrow> worker_lease_id \<Rightarrow> worker_epoch \<Rightarrow> screenshot_artifact \<Rightarrow>
   ('s gateway, cua_error + remote_screenshot_artifact) prog" where
  "mint_ticket env l e artifact =
     (if sa_byte_length artifact = 0 \<or> gc_max_artifact_bytes (ge_config env) < sa_byte_length artifact
      then Ret (Inl (gateway_error GF_StaleArtifact False))
      else atomic (mint_section env l e artifact))"

definition ticket_section ::
  "gateway_artifact_request \<Rightarrow> 's gateway \<Rightarrow> (cua_error + screenshot_artifact) \<times> 's gateway" where
  "ticket_section request s =
     (let tickets = purge_tickets (gw_now s) (gw_tickets s)
      in (bindR (ok_or (gateway_error GF_StaleArtifact False) (hm_get tickets (ga_ticket_ref request))) (\<lambda>ticket.
          if at_lease_id ticket \<noteq> ga_lease_id request \<or> at_worker_epoch ticket \<noteq> ga_worker_epoch request
          then Inl (gateway_error GF_StaleArtifact False) else Inr (at_artifact ticket)), s\<lparr>gw_tickets := tickets\<rparr>))"

section \<open>Requests\<close>

abbreviation in_workers :: "('s, 'a) prog \<Rightarrow> ('s gateway, 'a) prog" where
  "in_workers p \<equiv> lift_prog gw_workers (\<lambda>w s. s\<lparr>gw_workers := w\<rparr>) p"

definition remote_observation :: "window_observation \<Rightarrow> remote_screenshot_artifact option \<Rightarrow> gateway_result" where
  "remote_observation obs screenshot =
     GR_WindowObserved
       \<lparr>rwo_observation_id = wo_observation_id obs, rwo_window_ref = wo_window_ref obs, rwo_captured_at = wo_captured_at obs,
        rwo_window_screen_bounds = wo_window_screen_bounds obs, rwo_screenshot = screenshot, rwo_elements = wo_elements obs,
        rwo_elements_complete = wo_elements_complete obs, rwo_elements_truncation = wo_elements_truncation obs\<rparr>"

definition project_result ::
  "gateway_env \<Rightarrow> worker_lease_id \<Rightarrow> worker_epoch \<Rightarrow> command_result \<Rightarrow> ('s gateway, cua_error + gateway_result) prog" where
  "project_result env l e result =
     (case result of
        MutationReconciled r \<Rightarrow> Ret (Inr (GR_Core (MutationReconciled (r\<lparr>mr_worker_epoch := Some (worker_epoch_str e)\<rparr>))))
      | WindowObserved obs \<Rightarrow>
          (case wo_screenshot obs of
             Some artifact \<Rightarrow>
               bindE (mint_ticket env l e artifact) (\<lambda>projected. Ret (Inr (remote_observation obs (Some projected))))
           | None \<Rightarrow> Ret (Inr (remote_observation obs None)))
      | other \<Rightarrow> Ret (Inr (GR_Core other)))"

definition gateway_failed :: "gateway_execute_request \<Rightarrow> gateway_failure \<Rightarrow> gateway_execute_response" where
  "gateway_failed request f =
     \<lparr>gr_protocol_version = GATEWAY_PROTOCOL_VERSION, gr_request_id = gx_request_id request, gr_worker_id = None,
      gr_worker_epoch = None, gr_outcome = GO_Error (gateway_error f (is_mutation_command (gx_command request)))\<rparr>"

definition project_outcome ::
  "gateway_env \<Rightarrow> worker_lease \<Rightarrow> response_outcome \<Rightarrow> ('s gateway, gateway_outcome) prog" where
  "project_outcome env lease answer =
     (case answer of
        Success result \<Rightarrow>
          bindP (project_result env (wl_lease_id lease) (wl_worker_epoch lease) result) (\<lambda>projected.
          Ret (case projected of Inr result \<Rightarrow> GO_Success result | Inl e \<Rightarrow> GO_Error e))
      | Error e \<Rightarrow> Ret (GO_Error e))"

definition execute_on ::
  "gateway_env \<Rightarrow> nat \<Rightarrow> gateway_execute_request \<Rightarrow> worker_lease \<Rightarrow> 's desktop_worker \<Rightarrow>
   ('s gateway, gateway_execute_response) prog" where
  "execute_on env t request lease worker =
     bindP (in_workers (dk_dispatch worker t (gx_request_id request) (gx_timeout_ms request) (gx_command request))) (\<lambda>response.
     bindP (project_outcome env lease (resp_outcome response)) (\<lambda>outcome.
     Ret \<lparr>gr_protocol_version = GATEWAY_PROTOCOL_VERSION, gr_request_id = resp_request_id response,
          gr_worker_id = Some (wl_worker_id lease), gr_worker_epoch = Some (wl_worker_epoch lease), gr_outcome = outcome\<rparr>))"

definition execute_leased ::
  "gateway_env \<Rightarrow> nat \<Rightarrow> gateway_execute_request \<Rightarrow> ('s gateway, gateway_execute_response) prog" where
  "execute_leased env t request =
     bindP (atomic (dispatch_section t (gx_lease_id request) (gx_worker_epoch request))) (\<lambda>r.
     case r of
       Inl e \<Rightarrow> Ret (gateway_failed request (GF_Worker e))
     | Inr (lease, worker) \<Rightarrow> execute_on env t request lease worker)"

definition invalid_execute :: "gateway_env \<Rightarrow> gateway_execute_request \<Rightarrow> bool" where
  "invalid_execute env request \<longleftrightarrow>
     (let v = request_id_str (gx_request_id request)
      in v = [] \<or> GATEWAY_MAX_REQUEST_ID_BYTES < length v \<or> trim v \<noteq> v \<or> gx_timeout_ms request = 0 \<or>
         gc_max_request_timeout_ms (ge_config env) < gx_timeout_ms request)"

definition holding_permit :: "nat \<Rightarrow> 'a \<Rightarrow> ('s gateway, 'a) prog \<Rightarrow> ('s gateway, 'a) prog" where
  "holding_permit t busy p =
     bindP (atomic (try_permit t)) (\<lambda>ok.
     if \<not> ok then Ret busy
     else bindP p (\<lambda>r. bindP (atomic (\<lambda>s. ((), drop_permit t s))) (\<lambda>_. Ret r)))"

definition gateway_execute ::
  "gateway_env \<Rightarrow> nat \<Rightarrow> gateway_execute_request \<Rightarrow> ('s gateway, gateway_execute_response) prog" where
  "gateway_execute env t request =
     (if gx_protocol_version request \<noteq> GATEWAY_PROTOCOL_VERSION then Ret (gateway_failed request GF_Protocol)
      else if \<not> gateway_accepts (ge_token env) (gx_authorization request) then Ret (gateway_failed request GF_Unauthorized)
      else if invalid_execute env request then Ret (gateway_failed request GF_Invalid)
      else holding_permit t (gateway_failed request GF_Busy) (execute_leased env t request))"

definition fetch_from ::
  "gateway_env \<Rightarrow> gateway_artifact_request \<Rightarrow> 's desktop_worker \<Rightarrow> ('s gateway, cua_error + gateway_artifact_response) prog" where
  "fetch_from env request worker =
     bindE (atomic (ticket_section request)) (\<lambda>artifact.
     bindE (in_workers (dk_read_artifact worker artifact (gc_max_artifact_bytes (ge_config env)))) (\<lambda>content.
     Ret (Inr \<lparr>gar_artifact_ref = sa_artifact_ref artifact, gar_mime_type = sa_mime_type artifact,
               gar_byte_length = sa_byte_length artifact, gar_sha256 = sa_sha256 artifact,
               gar_data_base64 = ge_base64 env content\<rparr>)))"

definition fetch_leased ::
  "gateway_env \<Rightarrow> gateway_artifact_request \<Rightarrow> ('s gateway, cua_error + gateway_artifact_response) prog" where
  "fetch_leased env request =
     bindP (atomic (resolve_section (ga_lease_id request) (ga_worker_epoch request))) (\<lambda>r.
     case r of
       Inl e \<Rightarrow> Ret (Inl (gateway_error (GF_Worker e) False))
     | Inr (_, worker) \<Rightarrow> fetch_from env request worker)"

definition gateway_fetch_artifact ::
  "gateway_env \<Rightarrow> nat \<Rightarrow> gateway_artifact_request \<Rightarrow> ('s gateway, cua_error + gateway_artifact_response) prog" where
  "gateway_fetch_artifact env t request =
     (if ga_protocol_version request \<noteq> GATEWAY_PROTOCOL_VERSION then Ret (Inl (gateway_error GF_Protocol False))
      else if \<not> gateway_accepts (ge_token env) (ga_authorization request)
      then Ret (Inl (gateway_error GF_Unauthorized False))
      else holding_permit t (Inl (gateway_error GF_Busy False)) (fetch_leased env request))"

section \<open>The system\<close>

text \<open>
  What each task does: a request, or a task of a worker, which one of the programs \<open>inner t\<close> is. The
  registry is used by the host meanwhile, which registers endpoints of the set \<open>W\<close>.
\<close>

datatype gateway_call = GC_Execute gateway_execute_request | GC_Fetch gateway_artifact_request | GC_Worker

datatype gateway_reply =
    GP_Executed gateway_execute_response
  | GP_Fetched "cua_error + gateway_artifact_response"
  | GP_Worker

inductive gateway_task ::
  "gateway_env \<Rightarrow> (nat \<Rightarrow> ('s, unit) prog \<Rightarrow> bool) \<Rightarrow> (nat \<Rightarrow> gateway_call) \<Rightarrow> nat \<Rightarrow> ('s gateway, gateway_reply) prog \<Rightarrow> bool"
  for env inner calls t where
  gt_execute: "calls t = GC_Execute request \<Longrightarrow>
    gateway_task env inner calls t (mapP GP_Executed (gateway_execute env t request))"
| gt_fetch: "calls t = GC_Fetch request \<Longrightarrow>
    gateway_task env inner calls t (mapP GP_Fetched (gateway_fetch_artifact env t request))"
| gt_worker: "calls t = GC_Worker \<Longrightarrow> inner t p \<Longrightarrow>
    gateway_task env inner calls t (mapP (\<lambda>_. GP_Worker) (in_workers p))"

fun registers :: "'s desktop_worker set \<Rightarrow> 's registry_op \<Rightarrow> bool" where
  "registers W (Op_Register endpoint _) \<longleftrightarrow> endpoint \<in> W"
| "registers W _ \<longleftrightarrow> True"

inductive gateway_surroundings ::
  "gateway_env \<Rightarrow> 's desktop_worker set \<Rightarrow> ('s \<Rightarrow> 's \<Rightarrow> bool) \<Rightarrow> 's gateway \<Rightarrow> 's gateway \<Rightarrow> bool" for env W around where
  gs_host: "registers W op \<Longrightarrow>
    gateway_surroundings env W around s (s\<lparr>gw_registry := registry_apply (ge_registry env) (gw_now s) op (gw_registry s)\<rparr>)"
| gs_time: "gw_now s \<le> now \<Longrightarrow> gateway_surroundings env W around s (s\<lparr>gw_now := now\<rparr>)"
| gs_workers: "around (gw_workers s) w \<Longrightarrow> gateway_surroundings env W around s (s\<lparr>gw_workers := w\<rparr>)"

definition gateway_reachable ::
  "gateway_env \<Rightarrow> 's desktop_worker set \<Rightarrow> (nat \<Rightarrow> ('s, unit) prog \<Rightarrow> bool) \<Rightarrow> ('s \<Rightarrow> 's \<Rightarrow> bool) \<Rightarrow> (nat \<Rightarrow> gateway_call) \<Rightarrow>
   's gateway \<Rightarrow> ('s gateway, gateway_reply) config \<Rightarrow> bool" where
  "gateway_reachable env W inner around calls s0 cfg \<longleftrightarrow>
     (pool_step (gateway_task env inner calls) (gateway_surroundings env W around))\<^sup>*\<^sup>* (Map.empty, s0) cfg"

section \<open>The embedded worker\<close>

record local_runtime_worker_config =
  lc_max_inflight_requests :: nat
  lc_max_completed_requests :: nat
  lc_completed_request_ttl :: duration
  lc_max_request_timeout_ms :: u32
  lc_max_artifact_bytes :: u64

definition default_local_config :: local_runtime_worker_config where
  "default_local_config =
     \<lparr>lc_max_inflight_requests = 64, lc_max_completed_requests = 1024, lc_completed_request_ttl = from_secs (10 * 60),
      lc_max_request_timeout_ms = 120000, lc_max_artifact_bytes = 16 * 1024 * 1024\<rparr>"

text \<open>The state of the embedded workers has a dispatcher for every place; a worker knows its place.\<close>

record 'w local_runtime_worker =
  lw_place :: nat
  lw_dispatcher :: "'w dispatch_env"
  lw_token :: authorization_token
  lw_platform :: platform
  lw_environment :: environment_descriptor
  lw_max_artifact_bytes :: u64

definition local_worker_new ::
  "'w rt_env \<Rightarrow> (string \<Rightarrow> bytes) \<Rightarrow> (command \<Rightarrow> string option) \<Rightarrow> string \<Rightarrow> string \<Rightarrow> nat \<Rightarrow> 'w runtime \<Rightarrow> platform \<Rightarrow>
   environment_descriptor \<Rightarrow> local_runtime_worker_config \<Rightarrow> transport_error + 'w local_runtime_worker \<times> 'w dispatcher" where
  "local_worker_new env sha json uuid1 uuid2 place runtime platform environment config =
     (if lc_max_artifact_bytes config = 0
      then Inl (InvalidConfiguration ''worker artifact bound must be non-zero'')
      else let token = AuthorizationToken (uuid1 @ uuid2)
           in bindR (dispatcher_new env sha json runtime token (lc_max_inflight_requests config)
                       (lc_max_completed_requests config) (lc_completed_request_ttl config)
                       (lc_max_request_timeout_ms config)) (\<lambda>(d_env, dispatcher).
              Inr (\<lparr>lw_place = place, lw_dispatcher = d_env, lw_token = token, lw_platform = platform,
                    lw_environment = environment, lw_max_artifact_bytes = lc_max_artifact_bytes config\<rparr>, dispatcher)))"

abbreviation in_place :: "nat \<Rightarrow> ('d, 'a) prog \<Rightarrow> (nat \<Rightarrow> 'd, 'a) prog" where
  "in_place i p \<equiv> lift_prog (\<lambda>ds. ds i) (\<lambda>d ds. ds(i := d)) p"

definition local_request ::
  "'w local_runtime_worker \<Rightarrow> request_id \<Rightarrow> u32 \<Rightarrow> command \<Rightarrow> request_envelope" where
  "local_request self request_id timeout_ms command =
     \<lparr>req_protocol_version = PROTOCOL_VERSION, req_request_id = request_id, req_timeout_ms = timeout_ms,
      req_authorization = lw_token self, req_command = command\<rparr>"

definition worker_endpoint :: "'w local_runtime_worker \<Rightarrow> (nat \<Rightarrow> 'w dispatcher) desktop_worker" where
  "worker_endpoint self =
     \<lparr>dk_platform = lw_platform self, dk_environment = lw_environment self,
      dk_dispatch = (\<lambda>t request_id timeout_ms command.
        in_place (lw_place self) (dispatch (lw_dispatcher self) t (local_request self request_id timeout_ms command))),
      dk_read_artifact = (\<lambda>artifact max_bytes.
        in_place (lw_place self) (in_runtime (runtime_read_artifact (p_runtime (lw_dispatcher self)) artifact
          (min max_bytes (lw_max_artifact_bytes self)))))\<rparr>"

text \<open>A system of embedded workers, one for every place below the length of the list.\<close>

definition local_endpoints :: "'w local_runtime_worker list \<Rightarrow> (nat \<Rightarrow> 'w dispatcher) desktop_worker set" where
  "local_endpoints ws = worker_endpoint ` set ws"

inductive local_task :: "'w local_runtime_worker list \<Rightarrow> nat \<Rightarrow> (nat \<Rightarrow> 'w dispatcher, unit) prog \<Rightarrow> bool" for ws t where
  lt_worker: "i < length ws \<Longrightarrow> dispatcher_task (lw_dispatcher (ws ! i)) t p \<Longrightarrow> local_task ws t (mapP (\<lambda>_. ()) (in_place i p))"

inductive local_surroundings :: "(nat \<Rightarrow> 'w dispatcher) \<Rightarrow> (nat \<Rightarrow> 'w dispatcher) \<Rightarrow> bool" where
  ls_worker: "dispatcher_surroundings (ds i) d \<Longrightarrow> local_surroundings ds (ds(i := d))"

definition local_reachable ::
  "gateway_env \<Rightarrow> 'w local_runtime_worker list \<Rightarrow> (nat \<Rightarrow> gateway_call) \<Rightarrow> (nat \<Rightarrow> 'w dispatcher) gateway \<Rightarrow>
   ((nat \<Rightarrow> 'w dispatcher) gateway, gateway_reply) config \<Rightarrow> bool" where
  "local_reachable env ws = gateway_reachable env (local_endpoints ws) (local_task ws) local_surroundings"

end
