(* ===== verification/HostGatewayProps.thy ===== *)
theory HostGatewayProps
  imports HostGateway
begin

text \<open>
  The properties of the gateway: bounded permits and tickets, dispatch only for an authorised
  request on a live lease, answers and tickets that mean what they say, and the embedding of the
  dispatcher of a local worker.
\<close>

section \<open>The registry behind the gateway\<close>

definition endpoints_in :: "'s desktop_worker set \<Rightarrow> 's registry_state \<Rightarrow> bool" where
  "endpoints_in W s \<longleftrightarrow> (\<forall>w e. hm_get (rs_workers s) w = Some e \<longrightarrow> we_endpoint e \<in> W)"

lemma endpoints_inD: "endpoints_in W s \<Longrightarrow> hm_get (rs_workers s) w = Some e \<Longrightarrow> we_endpoint e \<in> W"
  by (simp add: endpoints_in_def)

lemma set_active_endpoint [simp]: "we_endpoint (set_active f e) = we_endpoint e"
  by (simp add: set_active_def)

lemma endpoints_purge:
  assumes "regok env s" "endpoints_in W s"
  shows "endpoints_in W (purge_leases now s)"
  unfolding endpoints_in_def
proof (intro allI impI)
  fix w e assume "hm_get (rs_workers (purge_leases now s)) w = Some e"
  then obtain e' where "hm_get (rs_workers s) w = Some e'" "we_endpoint e' = we_endpoint e"
    using purge_leases_ok(4) [OF assms(1), of now w] by (cases "hm_get (rs_workers s) w") auto
  then show "we_endpoint e \<in> W" using endpoints_inD [OF assms(2)] by metis
qed

lemma endpoints_modify:
  "endpoints_in W s \<Longrightarrow> endpoints_in W (s\<lparr>rs_workers := hm_modify w (set_active f) (rs_workers s)\<rparr>)"
  by (auto simp: endpoints_in_def split: if_splits)

lemma endpoints_grant: "endpoints_in W s \<Longrightarrow> endpoints_in W (grant lease t s)"
  using endpoints_modify [of W s] by (simp add: grant_def endpoints_in_def)

lemma endpoints_apply:
  assumes ok: "regok env s" and e: "endpoints_in W s" "registers W op"
  shows "endpoints_in W (registry_apply env now op s)"
proof (cases op)
  case (Op_Register endpoint n)
  then show ?thesis
    using e endpoints_purge [OF ok e(1), of now]
    by (auto simp: register_def Let_def endpoints_in_def split: sum.split if_splits)
next
  case (Op_Unregister w)
  then show ?thesis using e by (auto simp: unregister_def Let_def endpoints_in_def split: if_splits)
next
  case (Op_Acquire r ttl)
  have p: "endpoints_in W (purge_leases now s)" by (rule endpoints_purge [OF ok e(1)])
  then have "endpoints_in W (purge_leases now s\<lparr>rs_next := n\<rparr>)" for n by (simp add: endpoints_in_def)
  then show ?thesis
    using Op_Acquire e(1) p endpoints_grant [OF p] by (simp add: acquire_cases [OF ok refl] Let_def split: option.split sum.split)
next
  case (Op_Release l)
  have "endpoints_in W (s\<lparr>rs_leases := m\<rparr>)" for m using e(1) by (simp add: endpoints_in_def)
  then show ?thesis
    using Op_Release endpoints_modify [of W "s\<lparr>rs_leases := m\<rparr>" for m]
    by (simp add: release_def drop_lease_entry_def decrement_worker_def split: option.split)
qed (simp_all add: list_workers_def resolve_def Let_def endpoints_purge [OF ok e(1)])

lemma resolved:
  assumes ok: "regok env s" and r: "fst (resolve now l expected s) = Inr (lease, worker)"
  shows "wl_lease_id lease = l" "wl_worker_epoch lease = expected" "\<exists>e. live now s l = Some e \<and> le_lease e = lease"
    "endpoints_in W s \<Longrightarrow> worker \<in> W"
proof -
  note eq = r [unfolded resolve_live [OF ok]]
  then obtain e w where e: "live now s l = Some e" "wl_worker_epoch (le_lease e) = expected"
    "hm_get (rs_workers s) (wl_worker_id (le_lease e)) = Some w" "lease = le_lease e" "worker = we_endpoint w"
    by (auto split: option.splits if_splits)
  have "hm_get (rs_leases s) l = Some e" using e(1) by (simp add: live_def split: option.splits if_splits)
  from regokD(6) [OF ok this] show "wl_lease_id lease = l" using e(4) by (simp add: lease_ok_def)
  show "wl_worker_epoch lease = expected" "\<exists>e. live now s l = Some e \<and> le_lease e = lease" using e by simp_all
  show "endpoints_in W s \<Longrightarrow> worker \<in> W" using endpoints_inD e(3,5) by metis
qed

section \<open>The invariant\<close>

fun dispatched_by :: "nat \<Rightarrow> 's gateway_event \<Rightarrow> bool" where
  "dispatched_by t (Dispatched u _ _ _) \<longleftrightarrow> u = t"
| "dispatched_by t (Minted _ _ _ _) \<longleftrightarrow> False"

definition dispatches :: "nat \<Rightarrow> 's gateway_event list \<Rightarrow> 's gateway_event list" where
  "dispatches t evs = filter (dispatched_by t) evs"

fun minted_ref :: "'s gateway_event \<Rightarrow> string option" where
  "minted_ref (Minted r _ _ _) = Some r"
| "minted_ref (Dispatched _ _ _ _) = None"

definition minted_refs :: "'s gateway_event list \<Rightarrow> string list" where
  "minted_refs evs = List.map_filter minted_ref evs"

lemma dispatches_append [simp]: "dispatches t (xs @ ys) = dispatches t xs @ dispatches t ys"
  by (simp add: dispatches_def)

lemma dispatches_simps [simp]:
  "dispatches t [] = []" "dispatches t [Dispatched u l n r] = (if u = t then [Dispatched u l n r] else [])"
  "dispatches t [Minted a b c d] = []"
  by (simp_all add: dispatches_def)

lemma minted_append [simp]: "minted_refs (xs @ ys) = minted_refs xs @ minted_refs ys"
  by (simp add: minted_refs_def List.map_filter_def)

lemma minted_simps [simp]:
  "minted_refs [] = []" "minted_refs [Dispatched u l n r] = []" "minted_refs [Minted a b c d] = [a]"
  by (simp_all add: minted_refs_def List.map_filter_def)

definition authorized_execute :: "gateway_env \<Rightarrow> gateway_execute_request \<Rightarrow> bool" where
  "authorized_execute env request \<longleftrightarrow>
     gx_protocol_version request = GATEWAY_PROTOCOL_VERSION \<and> gateway_accepts (ge_token env) (gx_authorization request) \<and>
     \<not> invalid_execute env request"

fun event_ok :: "gateway_env \<Rightarrow> (nat \<Rightarrow> gateway_call) \<Rightarrow> 's gateway_event list \<Rightarrow> 's gateway_event \<Rightarrow> bool" where
  "event_ok env calls evs (Dispatched t lease now reg) \<longleftrightarrow>
     (\<exists>request e. calls t = GC_Execute request \<and> authorized_execute env request \<and>
        wl_lease_id lease = gx_lease_id request \<and> wl_worker_epoch lease = gx_worker_epoch request \<and>
        live now reg (gx_lease_id request) = Some e \<and> le_lease e = lease)"
| "event_ok env calls evs (Minted r l e artifact) \<longleftrightarrow>
     (\<exists>t lease now reg. Dispatched t lease now reg \<in> set evs \<and> wl_lease_id lease = l \<and> wl_worker_epoch lease = e)"

definition tickets_ok :: "gateway_env \<Rightarrow> 's gateway \<Rightarrow> bool" where
  "tickets_ok env s \<longleftrightarrow>
     hm_wf (gw_tickets s) \<and> hm_len (gw_tickets s) \<le> gc_max_artifact_tickets (ge_config env) \<and>
     (\<forall>r k. hm_get (gw_tickets s) r = Some k \<longrightarrow>
        Minted r (at_lease_id k) (at_worker_epoch k) (at_artifact k) \<in> set (gw_log s)) \<and>
     distinct (minted_refs (gw_log s)) \<and> set (minted_refs (gw_log s)) \<subseteq> ticket_name env ` {..<gw_next s}"

definition permits_ok :: "gateway_env \<Rightarrow> 's gateway \<Rightarrow> bool" where
  "permits_ok env s \<longleftrightarrow>
     gw_permits s + length (gw_holders s) = gc_max_inflight_requests (ge_config env) \<and> distinct (gw_holders s)"

definition gwok :: "gateway_env \<Rightarrow> 's desktop_worker set \<Rightarrow> (nat \<Rightarrow> gateway_call) \<Rightarrow> 's gateway \<Rightarrow> bool" where
  "gwok env W calls s \<longleftrightarrow>
     inj (ge_uuid env) \<and> inj (re_uuid (ge_registry env)) \<and>
     regok (ge_registry env) (gw_registry s) \<and> endpoints_in W (gw_registry s) \<and>
     permits_ok env s \<and> tickets_ok env s \<and> (\<forall>t. length (dispatches t (gw_log s)) \<le> 1) \<and>
     (\<forall>e \<in> set (gw_log s). event_ok env calls (gw_log s) e)"

definition gwguar :: "nat set \<Rightarrow> 's gateway \<Rightarrow> 's gateway \<Rightarrow> bool" where
  "gwguar T s s' \<longleftrightarrow>
     (\<forall>t. t \<notin> T \<longrightarrow> (t \<in> set (gw_holders s') \<longleftrightarrow> t \<in> set (gw_holders s)) \<and> dispatches t (gw_log s') = dispatches t (gw_log s)) \<and>
     (\<exists>xs. gw_log s' = gw_log s @ xs)"

interpretation gw: interleaving "gwok env W calls" gwguar for env W calls
proof
  show "gwguar T s s''" if "gwguar T s s'" "gwguar T s' s''" for T and s s' s'' :: "'a gateway"
    using that unfolding gwguar_def by auto
qed (auto simp: gwguar_def)

text \<open>What a task knows: whether it holds a permit, what it has dispatched, and events of the past.\<close>

definition lasting :: "('s gateway_event list \<Rightarrow> 's gateway_event set \<Rightarrow> bool) \<Rightarrow> bool" where
  "lasting R \<longleftrightarrow> (\<forall>ds A B. R ds A \<longrightarrow> A \<subseteq> B \<longrightarrow> R ds B)"

definition knows :: "nat \<Rightarrow> bool \<Rightarrow> ('s gateway_event list \<Rightarrow> 's gateway_event set \<Rightarrow> bool) \<Rightarrow> 's gateway \<Rightarrow> bool" where
  "knows t h R s \<longleftrightarrow> (t \<in> set (gw_holders s) \<longleftrightarrow> h) \<and> R (dispatches t (gw_log s)) (set (gw_log s))"

lemma lastingI: "(\<And>ds A B. R ds A \<Longrightarrow> A \<subseteq> B \<Longrightarrow> R ds B) \<Longrightarrow> lasting R"
  by (simp add: lasting_def)

lemma lastingD: "lasting R \<Longrightarrow> R ds A \<Longrightarrow> A \<subseteq> B \<Longrightarrow> R ds B"
  by (simp add: lasting_def)

lemma stable_knows:
  assumes "lasting R"
  shows "gw.stable env W calls t (knows t h R)"
proof (rule gw.stableI)
  fix s s' assume a: "knows t h R s" "gwguar (- {t}) s s'"
  have "set (gw_log s) \<subseteq> set (gw_log s')" using a(2) by (auto simp: gwguar_def)
  then show "knows t h R s'" using a assms unfolding knows_def gwguar_def lasting_def by auto
qed

lemma section_triple:
  assumes "lasting R" "\<And>x. lasting (R' x)"
    and "\<And>s. gwok env W calls s \<Longrightarrow> knows t h R s \<Longrightarrow>
       gwok env W calls (snd (f s)) \<and> gwguar {t} s (snd (f s)) \<and> knows t (h' (fst (f s))) (R' (fst (f s))) (snd (f s))"
  shows "gw.triple env W calls t (knows t h R) (atomic f) (\<lambda>x. knows t (h' x) (R' x))"
  by (rule gw.triple_atomic [OF stable_knows [OF assms(1)] stable_knows [OF assms(2)]]) (rule assms(3))

lemma ret_triple: "lasting (R' x) \<Longrightarrow> (\<And>ds A. R ds A \<Longrightarrow> R' x ds A) \<Longrightarrow>
    gw.triple env W calls t (knows t h R) (Ret x) (\<lambda>x. knows t h (R' x))"
  by (rule gw.triple_Ret [OF stable_knows]) (simp_all add: knows_def)

lemma keep_triple: "lasting R \<Longrightarrow> gw.triple env W calls t (knows t h R) (Ret x) (\<lambda>_. knows t h R)"
  by (rule ret_triple [where R' = "\<lambda>_. R"])

lemma in_workers_triple:
  assumes "lasting R"
  shows "gw.triple env W calls t (knows t h R) (in_workers p) (\<lambda>_. knows t h R)"
proof -
  have "gw.under env W calls (knows t h R) t (in_workers p)"
  proof (induction p rule: prog_steps_induct)
    case (Ret x)
    show ?case by (simp add: gw.under_Ret)
  next
    case (Step c f)
    have "gwok env W calls (s\<lparr>gw_workers := w\<rparr>) = gwok env W calls s" for s w
      by (simp add: gwok_def permits_ok_def tickets_ok_def)
    moreover have "knows t h R (s\<lparr>gw_workers := w\<rparr>) = knows t h R s" for s w by (simp add: knows_def)
    ultimately show ?case unfolding lift_prog.simps
      by (intro gw.under_Step) (simp add: case_prod_beta Step gwguar_def)
  qed
  then show ?thesis by (rule gw.triple_under) (rule stable_knows [OF assms])
qed

lemma event_ok_mono: "event_ok env calls evs e \<Longrightarrow> event_ok env calls (evs @ xs) e"
  by (cases e) auto

lemma events_extend:
  "\<forall>e \<in> set evs. event_ok env calls evs e \<Longrightarrow> event_ok env calls (evs @ [e']) e' \<Longrightarrow>
     \<forall>e \<in> set (evs @ [e']). event_ok env calls (evs @ [e']) e"
  by (auto intro: event_ok_mono)

section \<open>Sections\<close>

definition nothing_sent :: "'s gateway_event list \<Rightarrow> 's gateway_event set \<Rightarrow> bool" where
  "nothing_sent ds A \<longleftrightarrow> ds = []"

definition sent :: "nat \<Rightarrow> worker_lease \<Rightarrow> 's gateway_event list \<Rightarrow> 's gateway_event set \<Rightarrow> bool" where
  "sent t lease ds A \<longleftrightarrow> (\<exists>now reg. ds = [Dispatched t lease now reg])"

lemma lasting_sent [simp]: "lasting nothing_sent" "lasting (sent t lease)"
  by (simp_all add: lasting_def nothing_sent_def sent_def)

lemma try_permit_triple:
  "lasting R \<Longrightarrow> gw.triple env W calls t (knows t False R) (atomic (try_permit t)) (\<lambda>ok. knows t ok R)"
  by (rule section_triple [where R' = "\<lambda>_. R" and h' = "\<lambda>ok. ok"])
    (auto simp: try_permit_def gwok_def permits_ok_def tickets_ok_def gwguar_def knows_def)

lemma drop_permit_triple:
  "lasting R \<Longrightarrow> gw.triple env W calls t (knows t True R) (atomic (\<lambda>s. ((), drop_permit t s))) (\<lambda>_. knows t False R)"
proof (rule section_triple [where R' = "\<lambda>_. R" and h' = "\<lambda>_. False"])
  fix s assume a: "gwok env W calls s" "knows t True R s"
  obtain n where n: "length (gw_holders s) = Suc n" using a(2) by (cases "gw_holders s") (auto simp: knows_def)
  then show "gwok env W calls (snd ((), drop_permit t s)) \<and> gwguar {t} s (snd ((), drop_permit t s)) \<and>
      knows t False R (snd ((), drop_permit t s))"
    using a by (auto simp: drop_permit_def gwok_def permits_ok_def tickets_ok_def gwguar_def knows_def length_remove1 in_set_remove1)
qed

lemma registry_section:
  assumes "gwok env W calls s" "registers W op"
  shows "gwok env W calls (s\<lparr>gw_registry := registry_apply (ge_registry env) now op (gw_registry s)\<rparr>)"
  using assms registry_apply_ok [of "ge_registry env" "gw_registry s" now op] endpoints_apply [of "ge_registry env" "gw_registry s" W op now]
  by (simp add: gwok_def permits_ok_def tickets_ok_def)

lemma resolve_apply: "snd (resolve now l e reg) = registry_apply env now (Op_Resolve l e) reg"
  by simp

lemma resolve_section_ok:
  assumes "gwok env W calls s"
  shows "gwok env W calls (snd (resolve_section l e s))"
  using registry_section [OF assms, of "Op_Resolve l e" "gw_now s"] by (simp add: resolve_section_def case_prod_beta)

lemma resolve_section_fields [simp]:
  "gw_log (snd (resolve_section l e s)) = gw_log s" "gw_holders (snd (resolve_section l e s)) = gw_holders s"
  "fst (resolve_section l e s) = fst (resolve (gw_now s) l e (gw_registry s))"
  by (simp_all add: resolve_section_def case_prod_beta)

lemma gateway_resolve_triple:
  "lasting R \<Longrightarrow> gw.triple env W calls t (knows t h R) (atomic (resolve_section l e)) (\<lambda>_. knows t h R)"
  by (rule section_triple [where R' = "\<lambda>_. R" and h' = "\<lambda>_. h"]) (auto simp: resolve_section_ok gwguar_def knows_def)

lemma gateway_dispatch_triple:
  assumes "calls t = GC_Execute request" "authorized_execute env request"
  shows "gw.triple env W calls t (knows t True nothing_sent) (atomic (dispatch_section t (gx_lease_id request) (gx_worker_epoch request)))
     (\<lambda>r. knows t True (case r of Inl _ \<Rightarrow> nothing_sent | Inr (lease, _) \<Rightarrow>
        (\<lambda>ds A. sent t lease ds A \<and> wl_lease_id lease = gx_lease_id request \<and> wl_worker_epoch lease = gx_worker_epoch request)))"
proof (rule section_triple)
  let ?l = "gx_lease_id request" and ?e = "gx_worker_epoch request"
  fix s assume a: "gwok env W calls s" "knows t True nothing_sent s"
  define r where "r = fst (resolve (gw_now s) ?l ?e (gw_registry s))"
  define s' where "s' = snd (resolve_section ?l ?e s)"
  have s': "gwok env W calls s'" "gw_log s' = gw_log s" "gw_holders s' = gw_holders s"
    unfolding s'_def by (simp_all add: resolve_section_ok [OF a(1)])
  have eq: "dispatch_section t ?l ?e s =
      (r, case r of Inl _ \<Rightarrow> s' | Inr (lease, _) \<Rightarrow> s'\<lparr>gw_log := gw_log s @ [Dispatched t lease (gw_now s) (gw_registry s)]\<rparr>)"
    unfolding dispatch_section_def case_prod_beta by (simp add: r_def s'_def split: sum.split)
  show "gwok env W calls (snd (dispatch_section t ?l ?e s)) \<and> gwguar {t} s (snd (dispatch_section t ?l ?e s)) \<and>
      knows t True (case fst (dispatch_section t ?l ?e s) of Inl _ \<Rightarrow> nothing_sent | Inr (lease, _) \<Rightarrow>
        (\<lambda>ds A. sent t lease ds A \<and> wl_lease_id lease = ?l \<and> wl_worker_epoch lease = ?e)) (snd (dispatch_section t ?l ?e s))"
  proof (cases r)
    case (Inl err)
    then show ?thesis using a(2) s' unfolding eq by (simp add: gwguar_def knows_def)
  next
    case (Inr x)
    obtain lease worker where x: "x = (lease, worker)" by (cases x)
    let ?d = "Dispatched t lease (gw_now s) (gw_registry s)"
    have reg: "regok (ge_registry env) (gw_registry s)" using a(1) by (simp add: gwok_def)
    note res = resolved [OF reg, of "gw_now s" ?l ?e lease worker]
    have l: "wl_lease_id lease = ?l" "wl_worker_epoch lease = ?e"
      "\<exists>e. live (gw_now s) (gw_registry s) ?l = Some e \<and> le_lease e = lease"
      using res(1-3) Inr x r_def by simp_all
    have "event_ok env calls (gw_log s @ [?d]) ?d" using assms l by auto
    moreover have "\<forall>e \<in> set (gw_log s). event_ok env calls (gw_log s) e" using a(1) by (simp add: gwok_def)
    ultimately have "\<forall>e \<in> set (gw_log s @ [?d]). event_ok env calls (gw_log s @ [?d]) e" by (rule events_extend [rotated])
    moreover have "\<forall>u. length (dispatches u (gw_log s @ [?d])) \<le> 1"
      using a by (simp add: gwok_def knows_def nothing_sent_def)
    ultimately have "gwok env W calls (s'\<lparr>gw_log := gw_log s @ [?d]\<rparr>)"
      using s'(1,2) by (auto simp: gwok_def permits_ok_def tickets_ok_def)
    then show ?thesis using a(2) s'(2,3) l(1,2) unfolding eq Inr x by (auto simp: gwguar_def knows_def nothing_sent_def sent_def)
  qed
qed (auto simp: lasting_def nothing_sent_def sent_def split: sum.split)

lemma purge_tickets_ok:
  assumes "tickets_ok env s"
  shows "tickets_ok env (s\<lparr>gw_tickets := purge_tickets now (gw_tickets s)\<rparr>)"
proof -
  have w: "hm_wf (gw_tickets s)" using assms by (simp add: tickets_ok_def)
  then have "hm_get (purge_tickets now (gw_tickets s)) r = Some k \<Longrightarrow> hm_get (gw_tickets s) r = Some k" for r k
    by (simp add: purge_tickets_def hm_get_retain split: option.splits if_splits)
  moreover have "hm_len (purge_tickets now (gw_tickets s)) \<le> hm_len (gw_tickets s)"
    unfolding purge_tickets_def by (rule hm.len_retain_le [OF w])
  moreover have "hm_wf (purge_tickets now (gw_tickets s))" using w by (simp add: purge_tickets_def)
  ultimately show ?thesis using assms by (auto simp: tickets_ok_def)
qed

lemma ticket_minted:
  "tickets_ok env s \<Longrightarrow> hm_get (gw_tickets s) r = Some k \<Longrightarrow>
     Minted r (at_lease_id k) (at_worker_epoch k) (at_artifact k) \<in> set (gw_log s)"
  by (simp add: tickets_ok_def)

lemma fresh_ticket:
  assumes "tickets_ok env s" "inj (ge_uuid env)"
  shows "ticket_name env (gw_next s) \<notin> set (minted_refs (gw_log s))" "hm_get (gw_tickets s) (ticket_name env (gw_next s)) = None"
proof -
  have "ticket_name env (gw_next s) \<notin> ticket_name env ` {..<gw_next s}"
    using assms(2) by (auto simp: ticket_name_def inj_def)
  then show m: "ticket_name env (gw_next s) \<notin> set (minted_refs (gw_log s))"
    using assms(1) unfolding tickets_ok_def by blast
  have "Minted r a b c \<in> set (gw_log s) \<Longrightarrow> r \<in> set (minted_refs (gw_log s))" for r a b c
    by (force simp: minted_refs_def List.map_filter_def)
  then show "hm_get (gw_tickets s) (ticket_name env (gw_next s)) = None"
    using m ticket_minted [OF assms(1), of "ticket_name env (gw_next s)"]
    by (cases "hm_get (gw_tickets s) (ticket_name env (gw_next s))") auto
qed

lemma mint_tickets_ok:
  assumes ok: "tickets_ok env s" "inj (ge_uuid env)" and room: "hm_len (gw_tickets s) < gc_max_artifact_tickets (ge_config env)"
    and k: "at_lease_id k = l" "at_worker_epoch k = e" "at_artifact k = a"
  shows "tickets_ok env (s\<lparr>gw_next := Suc (gw_next s), gw_tickets := hm_insert (ticket_name env (gw_next s)) k (gw_tickets s),
     gw_log := gw_log s @ [Minted (ticket_name env (gw_next s)) l e a]\<rparr>)"
proof -
  note f = fresh_ticket [OF ok]
  have "set (minted_refs (gw_log s)) \<subseteq> ticket_name env ` {..<Suc (gw_next s)}" using ok(1) by (auto simp: tickets_ok_def)
  moreover have "hm_len (hm_insert (ticket_name env (gw_next s)) k (gw_tickets s)) \<le> gc_max_artifact_tickets (ge_config env)"
    using ok(1) room hm.len_insert_new [OF _ f(2)] by (simp add: tickets_ok_def)
  ultimately show ?thesis using ok(1) f(1) k by (auto simp: tickets_ok_def)
qed

lemma mint_triple:
  assumes "lasting R" "\<And>ds A. R ds A \<Longrightarrow> sent t lease ds A" "wl_lease_id lease = l" "wl_worker_epoch lease = e"
  shows "gw.triple env W calls t (knows t True R) (mint_ticket env l e a) (\<lambda>_. knows t True R)"
proof -
  have "gw.triple env W calls t (knows t True R) (atomic (mint_section env l e a)) (\<lambda>_. knows t True R)"
  proof (rule section_triple [where R' = "\<lambda>_. R" and h' = "\<lambda>_. True"])
    fix s assume a: "gwok env W calls s" "knows t True R s"
    define p where "p = s\<lparr>gw_tickets := purge_tickets (gw_now s) (gw_tickets s)\<rparr>"
    have p: "tickets_ok env p" "inj (ge_uuid env)" using a(1) purge_tickets_ok by (auto simp: p_def gwok_def)
    then have gp: "gwok env W calls p" using a(1) by (simp add: gwok_def p_def permits_ok_def)
    let ?m = "Minted (ticket_name env (gw_next s)) l e a"
    have "sent t lease (dispatches t (gw_log s)) (set (gw_log s))" by (rule assms(2)) (use a(2) in \<open>simp add: knows_def\<close>)
    then obtain now reg where "dispatches t (gw_log s) = [Dispatched t lease now reg]" by (auto simp: sent_def)
    then have "Dispatched t lease now reg \<in> set (dispatches t (gw_log s))" by simp
    then have "Dispatched t lease now reg \<in> set (gw_log s)" by (simp add: dispatches_def)
    then have "event_ok env calls (gw_log s @ [?m]) ?m" using assms(3,4) by auto
    then have ev: "\<forall>x \<in> set (gw_log s @ [?m]). event_ok env calls (gw_log s @ [?m]) x"
      using a(1) by (intro events_extend) (simp_all add: gwok_def)
    show "gwok env W calls (snd (mint_section env l e a s)) \<and> gwguar {t} s (snd (mint_section env l e a s)) \<and>
        knows t True R (snd (mint_section env l e a s))"
    proof (cases "gc_max_artifact_tickets (ge_config env) \<le> hm_len (gw_tickets p)")
      case True
      then have "snd (mint_section env l e a s) = p" by (simp add: mint_section_def Let_def p_def)
      then show ?thesis using gp a(2) by (simp add: p_def gwguar_def knows_def)
    next
      case False
      let ?k = "\<lparr>at_lease_id = l, at_worker_epoch = e, at_artifact = a,
         at_expires_at = gw_now s + gc_artifact_ticket_ttl (ge_config env)\<rparr>"
      let ?s = "p\<lparr>gw_next := Suc (gw_next p), gw_tickets := hm_insert (ticket_name env (gw_next p)) ?k (gw_tickets p),
         gw_log := gw_log p @ [Minted (ticket_name env (gw_next p)) l e a]\<rparr>"
      have eq: "snd (mint_section env l e a s) = ?s" using False by (simp add: mint_section_def Let_def p_def)
      have "tickets_ok env ?s" by (rule mint_tickets_ok [OF p]) (use False in simp_all)
      then have "gwok env W calls ?s" using gp ev by (simp add: gwok_def permits_ok_def p_def)
      moreover have "R (dispatches t (gw_log s)) (insert ?m (set (gw_log s)))"
        using a(2) assms(1) unfolding knows_def lasting_def by blast
      ultimately show ?thesis using a(2) unfolding eq by (simp add: p_def gwguar_def knows_def)
    qed
  qed (simp_all add: assms(1))
  then show ?thesis unfolding mint_ticket_def by (simp add: keep_triple [OF assms(1)])
qed

lemma ticket_triple:
  "gw.triple env W calls t (knows t True nothing_sent) (atomic (ticket_section request))
     (\<lambda>r. knows t True (\<lambda>ds A. nothing_sent ds A \<and> (\<forall>a. r = Inr a \<longrightarrow>
        Minted (ga_ticket_ref request) (ga_lease_id request) (ga_worker_epoch request) a \<in> A)))"
proof (rule section_triple [where h' = "\<lambda>_. True"])
  fix s assume a: "gwok env W calls s" "knows t True nothing_sent s"
  let ?p = "s\<lparr>gw_tickets := purge_tickets (gw_now s) (gw_tickets s)\<rparr>"
  have p: "tickets_ok env ?p" "snd (ticket_section request s) = ?p"
    using a(1) purge_tickets_ok by (auto simp: gwok_def ticket_section_def Let_def)
  have "Minted (ga_ticket_ref request) (ga_lease_id request) (ga_worker_epoch request) x \<in> set (gw_log s)"
    if x: "fst (ticket_section request s) = Inr x" for x
  proof -
    obtain k where "hm_get (gw_tickets ?p) (ga_ticket_ref request) = Some k" "at_lease_id k = ga_lease_id request"
      "at_worker_epoch k = ga_worker_epoch request" "at_artifact k = x"
      using x by (auto simp: ticket_section_def Let_def bindR_eq_Inr ok_or_def split: option.splits if_splits)
    then show ?thesis using ticket_minted [OF p(1)] by fastforce
  qed
  then show "gwok env W calls (snd (ticket_section request s)) \<and> gwguar {t} s (snd (ticket_section request s)) \<and>
      knows t True (\<lambda>ds A. nothing_sent ds A \<and> (\<forall>a. fst (ticket_section request s) = Inr a \<longrightarrow>
        Minted (ga_ticket_ref request) (ga_lease_id request) (ga_worker_epoch request) a \<in> A)) (snd (ticket_section request s))"
    using a p by (simp add: gwok_def permits_ok_def gwguar_def knows_def)
qed (auto simp: lasting_def nothing_sent_def)

section \<open>Tasks\<close>

lemma holding_triple:
  assumes "\<And>x. lasting (Q x)" "\<And>ds A. nothing_sent ds A \<Longrightarrow> Q busy ds A"
    and "gw.triple env W calls t (knows t True nothing_sent) p (\<lambda>x. knows t True (Q x))"
  shows "gw.triple env W calls t (knows t False nothing_sent) (holding_permit t busy p) (\<lambda>x. knows t False (Q x))"
proof -
  have "gw.triple env W calls t (knows t True nothing_sent) (bindP p (\<lambda>r. bindP (atomic (\<lambda>s. ((), drop_permit t s))) (\<lambda>_. Ret r)))
      (\<lambda>x. knows t False (Q x))"
    by (rule gw.triple_bindP [OF assms(3)], rule gw.triple_bindP [OF drop_permit_triple])
      (simp_all add: assms(1) ret_triple)
  then show ?thesis
    unfolding holding_permit_def
    by (intro gw.triple_bindP [OF try_permit_triple] gw.triple_if) (simp_all add: assms(1,2) ret_triple)
qed

text \<open>What the answer to a request says.\<close>

definition execute_answer ::
  "gateway_env \<Rightarrow> nat \<Rightarrow> gateway_execute_request \<Rightarrow> gateway_execute_response \<Rightarrow>
   's gateway_event list \<Rightarrow> 's gateway_event set \<Rightarrow> bool" where
  "execute_answer env t request response ds A \<longleftrightarrow>
     (nothing_sent ds A \<and> (\<exists>f. response = gateway_failed request f)) \<or>
     (\<exists>lease. sent t lease ds A \<and> wl_lease_id lease = gx_lease_id request \<and> wl_worker_epoch lease = gx_worker_epoch request \<and>
        gr_protocol_version response = GATEWAY_PROTOCOL_VERSION \<and>
        gr_worker_id response = Some (wl_worker_id lease) \<and> gr_worker_epoch response = Some (gx_worker_epoch request))"

definition fetch_answer ::
  "gateway_env \<Rightarrow> gateway_artifact_request \<Rightarrow> cua_error + gateway_artifact_response \<Rightarrow>
   's gateway_event list \<Rightarrow> 's gateway_event set \<Rightarrow> bool" where
  "fetch_answer env request reply ds A \<longleftrightarrow>
     nothing_sent ds A \<and>
     (\<forall>response. reply = Inr response \<longrightarrow>
        ga_protocol_version request = GATEWAY_PROTOCOL_VERSION \<and> gateway_accepts (ge_token env) (ga_authorization request) \<and>
        (\<exists>a content. Minted (ga_ticket_ref request) (ga_lease_id request) (ga_worker_epoch request) a \<in> A \<and>
           response = \<lparr>gar_artifact_ref = sa_artifact_ref a, gar_mime_type = sa_mime_type a, gar_byte_length = sa_byte_length a,
                       gar_sha256 = sa_sha256 a, gar_data_base64 = ge_base64 env content\<rparr>))"

lemma lasting_answers [simp]: "lasting (execute_answer env t request response)" "lasting (fetch_answer env r reply)"
  by (auto simp: lasting_def execute_answer_def fetch_answer_def nothing_sent_def sent_def; blast)+

lemma project_triple:
  assumes "lasting R" "\<And>ds A. R ds A \<Longrightarrow> sent t lease ds A" "wl_lease_id lease = l" "wl_worker_epoch lease = e"
  shows "gw.triple env W calls t (knows t True R) (project_result env l e result) (\<lambda>_. knows t True R)"
proof -
  have "gw.triple env W calls t (knows t True R) (bindE (mint_ticket env l e a) (\<lambda>x. Ret (Inr (remote_observation obs (Some x)))))
      (\<lambda>_. knows t True R)" for obs a
    unfolding bindE_def
    by (rule gw.triple_bindP [OF mint_triple [OF assms]])
      (auto split: sum.split intro: keep_triple [OF assms(1)])
  then show ?thesis unfolding project_result_def
    by (auto split: command_result.split option.split intro: keep_triple [OF assms(1)])
qed

lemma execute_on_triple:
  assumes "wl_lease_id lease = gx_lease_id request" "wl_worker_epoch lease = gx_worker_epoch request"
  shows "gw.triple env W calls t (knows t True (sent t lease)) (execute_on env t request lease worker)
     (\<lambda>x. knows t True (execute_answer env t request x))"
proof -
  have out: "gw.triple env W calls t (knows t True (sent t lease)) (project_outcome env lease out) (\<lambda>_. knows t True (sent t lease))" for out
    unfolding project_outcome_def
    by (cases out) (auto intro!: gw.triple_bindP [OF project_triple [where lease = lease]] keep_triple)
  show ?thesis
    unfolding execute_on_def
    by (rule gw.triple_bindP [OF in_workers_triple [OF lasting_sent(2)]], rule gw.triple_bindP [OF out], rule ret_triple)
      (use assms in \<open>auto simp: execute_answer_def\<close>)
qed

lemma execute_leased_triple:
  assumes "calls t = GC_Execute request" "authorized_execute env request"
  shows "gw.triple env W calls t (knows t True nothing_sent) (execute_leased env t request)
     (\<lambda>x. knows t True (execute_answer env t request x))"
  unfolding execute_leased_def
proof (rule gw.triple_bindP [OF gateway_dispatch_triple [of calls t request env W, OF assms]], goal_cases)
  case (1 r)
  show ?case
  proof (cases r)
    case (Inl e)
    then show ?thesis by (auto simp: execute_answer_def intro!: ret_triple)
  next
    case (Inr x)
    obtain lease worker where x: "x = (lease, worker)" by (cases x)
    have "gw.triple env W calls t
       (knows t True (\<lambda>ds A. sent t lease ds A \<and> wl_lease_id lease = gx_lease_id request \<and> wl_worker_epoch lease = gx_worker_epoch request))
       (execute_on env t request lease worker) (\<lambda>x. knows t True (execute_answer env t request x))"
      using execute_on_triple [of lease request env W calls t worker] by (auto simp: gw.triple_def knows_def)
    then show ?thesis by (simp add: Inr x)
  qed
qed

lemma fetch_leased_triple:
  assumes "ga_protocol_version request = GATEWAY_PROTOCOL_VERSION" "gateway_accepts (ge_token env) (ga_authorization request)"
  shows "gw.triple env W calls t (knows t True nothing_sent) (fetch_leased env request) (\<lambda>x. knows t True (fetch_answer env request x))"
proof -
  let ?M = "\<lambda>a ds A. nothing_sent ds A \<and> Minted (ga_ticket_ref request) (ga_lease_id request) (ga_worker_epoch request) a \<in> A"
  let ?Q = "\<lambda>x. knows t True (fetch_answer env request x)"
  have M: "lasting (?M a)" for a by (auto simp: lasting_def nothing_sent_def)
  have failed: "gw.triple env W calls t (knows t True R) (Ret (Inl e)) ?Q" if "\<And>ds A. R ds A \<Longrightarrow> nothing_sent ds A" for R e
    by (rule ret_triple) (simp_all add: fetch_answer_def that)
  have fetched: "fetch_answer env request (Inr \<lparr>gar_artifact_ref = sa_artifact_ref a, gar_mime_type = sa_mime_type a,
        gar_byte_length = sa_byte_length a, gar_sha256 = sa_sha256 a, gar_data_base64 = ge_base64 env content\<rparr>) ds A"
    if "nothing_sent ds A" "Minted (ga_ticket_ref request) (ga_lease_id request) (ga_worker_epoch request) a \<in> A" for a content ds A
    unfolding fetch_answer_def using that assms by (auto intro!: exI [of _ a])
  have read: "gw.triple env W calls t (knows t True (?M a))
     (bindE (in_workers p) (\<lambda>content. Ret (Inr \<lparr>gar_artifact_ref = sa_artifact_ref a, gar_mime_type = sa_mime_type a,
        gar_byte_length = sa_byte_length a, gar_sha256 = sa_sha256 a, gar_data_base64 = ge_base64 env content\<rparr>))) ?Q" for a p
    unfolding bindE_def
    by (rule gw.triple_bindP [OF in_workers_triple [OF M]])
      (auto split: sum.split intro!: failed ret_triple fetched)
  have "gw.triple env W calls t (knows t True nothing_sent) (fetch_from env request worker) ?Q" for worker
    unfolding fetch_from_def bindE_def [of "atomic _"]
  proof (rule gw.triple_bindP [OF ticket_triple], goal_cases)
    case (1 r)
    then show ?case using read failed by (cases r) auto
  qed
  then show ?thesis
    unfolding fetch_leased_def
    by (intro gw.triple_bindP [OF gateway_resolve_triple]) (auto split: sum.split intro!: failed)
qed

fun reply_ok ::
  "gateway_env \<Rightarrow> (nat \<Rightarrow> gateway_call) \<Rightarrow> nat \<Rightarrow> gateway_reply \<Rightarrow> 's gateway_event list \<Rightarrow> 's gateway_event set \<Rightarrow> bool" where
  "reply_ok env calls t (GP_Executed response) ds A \<longleftrightarrow>
     (\<exists>request. calls t = GC_Execute request \<and> execute_answer env t request response ds A)"
| "reply_ok env calls t (GP_Fetched reply) ds A \<longleftrightarrow> (\<exists>request. calls t = GC_Fetch request \<and> fetch_answer env request reply ds A)"
| "reply_ok env calls t GP_Worker ds A \<longleftrightarrow> nothing_sent ds A"

lemma lasting_reply [simp]: "lasting (reply_ok env calls t reply)"
proof (rule lastingI)
  fix ds A B assume a: "reply_ok env calls t reply ds A" "A \<subseteq> B"
  have "execute_answer env t q x ds A \<Longrightarrow> execute_answer env t q x ds B" for q x
    by (rule lastingD [OF lasting_answers(1) _ a(2)])
  moreover have "fetch_answer env q x ds A \<Longrightarrow> fetch_answer env q x ds B" for q x
    by (rule lastingD [OF lasting_answers(2) _ a(2)])
  ultimately show "reply_ok env calls t reply ds B" using a(1) by (cases reply) (auto simp: nothing_sent_def)
qed

lemma reply_triple:
  assumes "\<And>x. lasting (Q x)" "\<And>x ds A. Q x ds A \<Longrightarrow> reply_ok env calls t (f x) ds A"
    and "gw.triple env W calls t (knows t False nothing_sent) p (\<lambda>x. knows t False (Q x))"
  shows "gw.triple env W calls t (knows t False nothing_sent) (mapP f p) (\<lambda>x. knows t False (reply_ok env calls t x))"
proof (rule gw.triple_mapP)
  show "gw.triple env W calls t (knows t False nothing_sent) p (\<lambda>x. knows t False (reply_ok env calls t (f x)))"
    by (rule gw.triple_weaken [OF assms(3)]) (simp_all add: knows_def assms(2))
qed (rule stable_knows [OF lasting_reply])

lemma gateway_task_triple:
  assumes "gateway_task env inner calls t p"
  shows "gw.triple env W calls t (knows t False nothing_sent) p (\<lambda>x. knows t False (reply_ok env calls t x))"
  using assms
proof (cases rule: gateway_task.cases)
  case (gt_execute request)
  have failed: "execute_answer env t request (gateway_failed request f) ds A" if "nothing_sent ds A" for f and ds :: "'a gateway_event list" and A
    using that by (auto simp: execute_answer_def)
  have "gw.triple env W calls t (knows t False nothing_sent) (gateway_execute env t request)
      (\<lambda>x. knows t False (execute_answer env t request x))"
    unfolding gateway_execute_def
    by (intro gw.triple_if holding_triple execute_leased_triple ret_triple) (simp_all add: failed authorized_execute_def gt_execute(2))
  then show ?thesis unfolding gt_execute(1) by (rule reply_triple [rotated 2]) (simp_all add: gt_execute(2))
next
  case (gt_fetch request)
  have failed: "fetch_answer env request (Inl e) ds A" if "nothing_sent ds A" for e and ds :: "'a gateway_event list" and A
    using that by (auto simp: fetch_answer_def)
  have "gw.triple env W calls t (knows t False nothing_sent) (gateway_fetch_artifact env t request)
      (\<lambda>x. knows t False (fetch_answer env request x))"
    unfolding gateway_fetch_artifact_def
    by (intro gw.triple_if holding_triple fetch_leased_triple ret_triple) (simp_all add: failed)
  then show ?thesis unfolding gt_fetch(1) by (rule reply_triple [rotated 2]) (simp_all add: gt_fetch(2))
next
  case (gt_worker q)
  show ?thesis unfolding gt_worker(1)
    by (rule reply_triple [where Q = "\<lambda>_. nothing_sent"]) (simp_all add: in_workers_triple)
qed

lemma gateway_surroundings_ok:
  assumes "gateway_surroundings env W around s s'" "gwok env W calls s"
  shows "gwok env W calls s' \<and> gwguar {} s s'"
  using assms(1)
proof cases
  case (gs_host op)
  then show ?thesis using registry_section [OF assms(2)] by (simp add: gwguar_def)
qed (use assms(2) in \<open>simp_all add: gwok_def permits_ok_def tickets_ok_def gwguar_def\<close>)

definition fresh_gateway :: "gateway_env \<Rightarrow> 's desktop_worker set \<Rightarrow> 's gateway \<Rightarrow> bool" where
  "fresh_gateway env W s \<longleftrightarrow>
     inj (ge_uuid env) \<and> inj (re_uuid (ge_registry env)) \<and> regok (ge_registry env) (gw_registry s) \<and>
     endpoints_in W (gw_registry s) \<and> gw_tickets s = [] \<and> gw_permits s = gc_max_inflight_requests (ge_config env) \<and>
     gw_holders s = [] \<and> gw_log s = []"

lemma gateway_config:
  assumes "gateway_reachable env W inner around calls s0 cfg" "fresh_gateway env W s0"
  shows "gw.config_ok env W calls (\<lambda>t. knows t False nothing_sent) (\<lambda>t x. knows t False (reply_ok env calls t x)) cfg"
proof -
  have "gw.config_ok env W calls (\<lambda>t. knows t False nothing_sent) (\<lambda>t x. knows t False (reply_ok env calls t x)) (Map.empty, s0)"
    using assms(2)
    by (simp add: gw.config_ok_def fresh_gateway_def gwok_def permits_ok_def tickets_ok_def knows_def nothing_sent_def hm_len_def)
  from gw.reachable_ok [OF assms(1) [unfolded gateway_reachable_def] this] show ?thesis
    using stable_knows [OF lasting_sent(1)] gw.tripleD [OF gateway_task_triple] gateway_surroundings_ok by blast
qed

section \<open>The dispatchers of the embedded workers\<close>

abbreviation worker_at :: "nat \<Rightarrow> (nat \<Rightarrow> 'd) gateway \<Rightarrow> 'd" where
  "worker_at i s \<equiv> gw_workers s i"

lemma in_workers_in_place:
  "in_workers (in_place i p) = lift_prog (worker_at i) (\<lambda>d s. s\<lparr>gw_workers := (gw_workers s)(i := d)\<rparr>) p"
  by (simp add: lift_lift)

lemma section_workers [simp]:
  "gw_workers (snd (try_permit t s)) = gw_workers s" "gw_workers (drop_permit t s) = gw_workers s"
  "gw_workers (snd (resolve_section l e s)) = gw_workers s" "gw_workers (snd (dispatch_section t l e s)) = gw_workers s"
  "gw_workers (snd (mint_section env l e a s)) = gw_workers s" "gw_workers (snd (ticket_section r s)) = gw_workers s"
  by (simp_all add: try_permit_def drop_permit_def resolve_section_def dispatch_section_def mint_section_def ticket_section_def
      Let_def case_prod_beta split: sum.split)

lemma inert_elsewhere: "i \<noteq> j \<Longrightarrow> inert (worker_at i) ok (in_workers (in_place j p))"
  unfolding in_workers_in_place by (rule inert_lift) simp

lemma inert_project: "inert (worker_at i) ok (project_outcome env lease out)"
proof -
  have "inert (worker_at i) ok (mint_ticket env l e a)" for l e a
    unfolding mint_ticket_def by (auto intro!: inert_intros)
  then have "inert (worker_at i) ok (project_result env l e r)" for l e r
    unfolding project_result_def bindE_def by (auto intro!: inert_intros split: command_result.split option.split sum.split)
  then show ?thesis unfolding project_outcome_def by (auto intro!: inert_intros split: response_outcome.split)
qed

lemma implements_worker:
  assumes "j = i \<Longrightarrow> dispatcher_task denv t (bindP q g)" "\<And>x. inert (worker_at i) ok (k x)"
  shows "implements (worker_at i) ok (dispatcher_task denv) t (bindP (in_workers (in_place j q)) k) None \<or>
    (\<exists>q'. dispatcher_task denv t q' \<and> implements (worker_at i) ok (dispatcher_task denv) t (bindP (in_workers (in_place j q)) k) (Some q'))"
proof (cases "j = i")
  case True
  have "implements (worker_at i) ok (dispatcher_task denv) t (bindP (in_workers (in_place i q)) k) (Some (bindP q g))"
    unfolding in_workers_in_place by (rule implements_lift) (simp_all add: assms(2))
  then show ?thesis unfolding True using assms(1) [OF True] by blast
next
  case False
  then show ?thesis by (intro disjI1 impl_inert inert_bindP inert_elsewhere assms(2)) simp
qed

lemma implements_dispatch:
  assumes "lw_place w = i \<Longrightarrow> lw_dispatcher w = denv" "\<And>x. inert (worker_at i) ok (h x)"
  shows "implements (worker_at i) ok (dispatcher_task denv) t (bindP (execute_on env t request lease (worker_endpoint w)) h) None \<or>
    (\<exists>q. dispatcher_task denv t q \<and>
       implements (worker_at i) ok (dispatcher_task denv) t (bindP (execute_on env t request lease (worker_endpoint w)) h) (Some q))"
  unfolding execute_on_def bindP_assoc worker_endpoint_def desktop_worker.simps
  by (rule implements_worker [where g = "\<lambda>x. Ret (D_Response x)"])
    (use assms(1) dt_dispatch [unfolded mapP_def] in \<open>auto intro!: inert_intros inert_project assms(2)\<close>)

lemma read_task:
  "dispatcher_task denv t (bindP (in_runtime (runtime_read_artifact (p_runtime denv) a n)) (\<lambda>x. Ret (D_Runtime (R_Bytes x))))"
  using dt_runtime [OF rt_read, of denv t a n] unfolding in_runtime_lift lift_mapP unfolding mapP_def by (simp add: bindP_assoc)

lemma implements_read:
  assumes "lw_place w = i \<Longrightarrow> lw_dispatcher w = denv" "\<And>x. inert (worker_at i) ok (h x)"
  shows "implements (worker_at i) ok (dispatcher_task denv) t (bindP (fetch_from env request (worker_endpoint w)) h) None"
  unfolding fetch_from_def bindE_def bindP_assoc
proof (rule implements_after, goal_cases)
  case (2 s)
  show ?case
  proof (cases "fst (ticket_section request s)")
    case (Inl e)
    then show ?thesis by (simp add: impl_inert assms(2))
  next
    case (Inr a)
    show ?thesis
      unfolding Inr sum.case bindP_assoc worker_endpoint_def desktop_worker.simps
      by (rule implements_worker [where g = "\<lambda>x. Ret (D_Runtime (R_Bytes x))"])
        (use assms(1) read_task in \<open>auto split: sum.split intro: assms(2)\<close>)
  qed
qed simp

lemma implements_holding:
  fixes f :: "'x \<Rightarrow> 'b"
  assumes "\<And>h :: 'x \<Rightarrow> (_, 'b) prog. (\<And>x. inert (worker_at i) ok (h x)) \<Longrightarrow> implements (worker_at i) ok task t (bindP p h) None"
  shows "implements (worker_at i) ok task t (mapP f (holding_permit t busy p)) None"
  unfolding holding_permit_def mapP_def bindP_assoc
proof (rule implements_after, goal_cases)
  case (2 s)
  show ?case
  proof (cases "fst (try_permit t s)")
    case True
    have "inert (worker_at i) ok (bindP (atomic (\<lambda>s. ((), drop_permit t s))) (\<lambda>_. Ret (f x)))" for x
      by (intro inert_intros) simp
    from assms [OF this] show ?thesis using True by (simp add: bindP_assoc)
  qed (simp add: impl_inert inert_Ret)
qed simp

lemma implements_gateway_task:
  assumes i: "i < length ws" and places: "map lw_place ws = [0..<length ws]" and p: "gateway_task env (local_task ws) calls t p"
    and ok_def: "ok = gwok env (local_endpoints ws) calls" and denv: "denv = lw_dispatcher (ws ! i)"
  shows "implements (worker_at i) ok (dispatcher_task denv) t p None \<or>
    (\<exists>q. dispatcher_task denv t q \<and> implements (worker_at i) ok (dispatcher_task denv) t p (Some q))"
proof -
  let ?impl = "implements (worker_at i) ok (dispatcher_task denv) t"
  have lw: "lw_place (ws ! j) = j" if "j < length ws" for j using arg_cong [OF places, of "\<lambda>xs. xs ! j"] that by simp
  have at_i: "lw_dispatcher w = denv" if "w \<in> set ws" "lw_place w = i" for w
    using that lw i by (auto simp: in_set_conv_nth denv)
  have endpoint: "\<exists>w \<in> set ws. worker = worker_endpoint w"
    if "ok s" "fst (resolve (gw_now s) l e (gw_registry s)) = Inr (lease, worker)" for s l e lease worker
    using resolved(4) [of "ge_registry env" "gw_registry s" "gw_now s" l e lease worker "local_endpoints ws"] that
    by (auto simp: ok_def gwok_def local_endpoints_def)
  have exec: "?impl (bindP (execute_leased env t request) h) None" if h: "\<And>x. inert (worker_at i) ok (h x)"
    for request and h :: "_ \<Rightarrow> (_, gateway_reply) prog"
    unfolding execute_leased_def bindP_assoc
  proof (rule implements_after, goal_cases)
    case (2 s)
    let ?r = "fst (resolve (gw_now s) (gx_lease_id request) (gx_worker_epoch request) (gw_registry s))"
    have r: "fst (dispatch_section t (gx_lease_id request) (gx_worker_epoch request) s) = ?r"
      by (simp add: dispatch_section_def case_prod_beta)
    show ?case
    proof (cases ?r)
      case (Inr x)
      obtain lease worker where x: "x = (lease, worker)" by (cases x)
      then obtain w where w: "w \<in> set ws" "worker = worker_endpoint w" using endpoint [OF 2] Inr by blast
      show ?thesis unfolding r Inr x w(2) sum.case prod.case by (rule implements_dispatch [OF at_i [OF w(1)] h])
    qed (simp add: r h impl_inert)
  qed simp
  have fetch: "?impl (bindP (fetch_leased env request) h) None" if h: "\<And>x. inert (worker_at i) ok (h x)"
    for request and h :: "_ \<Rightarrow> (_, gateway_reply) prog"
    unfolding fetch_leased_def bindP_assoc
  proof (rule implements_after, goal_cases)
    case (2 s)
    let ?r = "fst (resolve (gw_now s) (ga_lease_id request) (ga_worker_epoch request) (gw_registry s))"
    show ?case
    proof (cases ?r)
      case (Inr x)
      obtain lease worker where x: "x = (lease, worker)" by (cases x)
      then obtain w where w: "w \<in> set ws" "worker = worker_endpoint w" using endpoint [OF 2] Inr by blast
      show ?thesis unfolding resolve_section_fields Inr x w(2) sum.case prod.case
        by (rule disjI1, rule implements_read [OF at_i [OF w(1)] h])
    qed (simp add: h impl_inert)
  qed simp
  from p show ?thesis
  proof (cases rule: gateway_task.cases)
    case (gt_execute request)
    show ?thesis unfolding gt_execute(1) gateway_execute_def
      by (simp add: mapP_def [of _ "Ret _"] impl_inert inert_Ret implements_holding [OF exec])
  next
    case (gt_fetch request)
    show ?thesis unfolding gt_fetch(1) gateway_fetch_artifact_def
      by (simp add: mapP_def [of _ "Ret _"] impl_inert inert_Ret implements_holding [OF fetch])
  next
    case (gt_worker q)
    then obtain j r where q: "q = mapP (\<lambda>_. ()) (in_place j r)" "j < length ws" "dispatcher_task (lw_dispatcher (ws ! j)) t r"
      by (auto elim: local_task.cases)
    have "dispatcher_task denv t (bindP r Ret)" if "j = i" using q(3) that by (simp add: bindP_Ret denv)
    from implements_worker [of j i denv t r Ret ok "\<lambda>_. Ret GP_Worker", OF this] show ?thesis
      unfolding gt_worker(1) q(1) lift_mapP unfolding mapP_def bindP_assoc by (simp add: inert_Ret)
  qed
qed

lemma local_inner:
  assumes "i < length ws" "map lw_place ws = [0..<length ws]"
  shows "embedding (worker_at i) (gwok env (local_endpoints ws) calls) (dispatcher_task (lw_dispatcher (ws ! i))) dispatcher_surroundings
    (gateway_task env (local_task ws) calls) (gateway_surroundings env (local_endpoints ws) local_surroundings)
    (fresh_gateway env (local_endpoints ws))"
proof
  show "implements (worker_at i) (gwok env (local_endpoints ws) calls) (dispatcher_task (lw_dispatcher (ws ! i))) t p None \<or>
    (\<exists>q. dispatcher_task (lw_dispatcher (ws ! i)) t q \<and>
       implements (worker_at i) (gwok env (local_endpoints ws) calls) (dispatcher_task (lw_dispatcher (ws ! i))) t p (Some q))"
    if "gateway_task env (local_task ws) calls t p" for t p
    by (rule implements_gateway_task [OF assms that refl refl])
  show "dispatcher_surroundings\<^sup>*\<^sup>* (worker_at i s) (worker_at i s')"
    if "gateway_surroundings env (local_endpoints ws) local_surroundings s s'" for s s' :: "(nat \<Rightarrow> 'a dispatcher) gateway"
    using that by cases (auto elim!: local_surroundings.cases)
  show "gwok env (local_endpoints ws) calls s"
    if "fresh_gateway env (local_endpoints ws) s0"
      "(pool_step (gateway_task env (local_task ws) calls) (gateway_surroundings env (local_endpoints ws) local_surroundings))\<^sup>*\<^sup>* (Map.empty, s0) (pool, s)"
    for s0 pool s
    using gateway_config [of env "local_endpoints ws" "local_task ws" local_surroundings calls s0 "(pool, s)"] that
    by (simp add: gateway_reachable_def gw.config_ok_def)
qed

section \<open>A request that runs alone\<close>

text \<open>While a worker waits, only the workers move.\<close>

abbreviation workers_rest :: "('s \<Rightarrow> 's) \<Rightarrow> 's gateway \<Rightarrow> 's gateway" where
  "workers_rest rest \<equiv> (\<lambda>s. s\<lparr>gw_workers := rest (gw_workers s)\<rparr>)"

lemma finish_in_workers:
  "finish (workers_rest rest) (in_workers p) s = map_option (\<lambda>(x, w). (x, s\<lparr>gw_workers := w\<rparr>)) (finish rest p (gw_workers s))"
  by (rule finish_lift) simp_all

lemma finish_holding:
  "finish rest (holding_permit t busy p) s =
    (if gw_permits s = 0 then Some (busy, s)
     else map_option (map_prod id (drop_permit t)) (finish rest p (snd (try_permit t s))))"
  by (simp add: holding_permit_def try_permit_def split: option.split)

lemma finish_mint:
  assumes "finish rest (mint_ticket env l e a) s = Some (Inr r, s')"
  shows "\<exists>k. hm_get (gw_tickets s') (rsa_ticket_ref r) = Some k \<and> at_lease_id k = l \<and> at_worker_epoch k = e \<and>
    at_expires_at k = gw_now s + gc_artifact_ticket_ttl (ge_config env) \<and> rsa_artifact_ref r = sa_artifact_ref (at_artifact k) \<and>
    rsa_mime_type r = sa_mime_type (at_artifact k) \<and> rsa_byte_length r = sa_byte_length (at_artifact k) \<and>
    rsa_sha256 r = sa_sha256 (at_artifact k)"
  using assms by (auto simp: mint_ticket_def mint_section_def Let_def split: if_splits)

lemma finish_project:
  assumes "finish rest (project_outcome env lease out) s = Some (GO_Success (GR_WindowObserved ro), s')" "rwo_screenshot ro = Some r"
  shows "\<exists>a. finish rest (mint_ticket env (wl_lease_id lease) (wl_worker_epoch lease) a) s = Some (Inr r, s')"
  using assms
  by (auto simp: project_outcome_def project_result_def remote_observation_def
      split: response_outcome.splits command_result.splits option.splits sum.splits)
    blast

lemma finish_gateway_execute:
  assumes ok: "regok (ge_registry env) (gw_registry s)"
    and run: "finish (workers_rest rest) (gateway_execute env t request) s = Some (response, s')"
    and ro: "gr_outcome response = GO_Success (GR_WindowObserved ro)" "rwo_screenshot ro = Some r"
  shows "\<exists>k. hm_get (gw_tickets s') (rsa_ticket_ref r) = Some k \<and> at_lease_id k = gx_lease_id request \<and>
    at_worker_epoch k = gx_worker_epoch request \<and> at_expires_at k = gw_now s + gc_artifact_ticket_ttl (ge_config env) \<and>
    rsa_artifact_ref r = sa_artifact_ref (at_artifact k) \<and> rsa_mime_type r = sa_mime_type (at_artifact k) \<and>
    rsa_byte_length r = sa_byte_length (at_artifact k) \<and> rsa_sha256 r = sa_sha256 (at_artifact k)"
proof -
  let ?l = "gx_lease_id request" and ?e = "gx_worker_epoch request"
  define p where "p = snd (try_permit t s)"
  define d where "d = dispatch_section t ?l ?e p"
  have p: "gw_registry p = gw_registry s" "gw_now p = gw_now s" by (simp_all add: p_def try_permit_def)
  have failed: "gr_outcome (gateway_failed request f) \<noteq> GO_Success x" for f x by (simp add: gateway_failed_def)
  obtain s1 where s1: "finish (workers_rest rest) (execute_leased env t request) p = Some (response, s1)" "s' = drop_permit t s1"
    using run ro failed by (auto simp: gateway_execute_def finish_holding p_def split: if_splits)
  obtain lease worker where d: "fst d = Inr (lease, worker)" "finish (workers_rest rest) (execute_on env t request lease worker) (snd d) = Some (response, s1)"
    using s1(1) ro failed unfolding execute_leased_def d_def by (auto simp: case_prod_beta split: sum.splits)
  then obtain out s2 where out: "finish (workers_rest rest) (project_outcome env lease out) s2 = Some (gr_outcome response, s1)" "gw_now s2 = gw_now (snd d)"
    by (auto simp: execute_on_def finish_in_workers split: option.splits)
  have "gw_now (snd d) = gw_now s"
    by (simp add: d_def dispatch_section_def resolve_section_def case_prod_beta p(2) split: sum.split)
  moreover have "fst (resolve (gw_now s) ?l ?e (gw_registry s)) = Inr (lease, worker)"
    using d(1) by (simp add: d_def dispatch_section_def resolve_section_def case_prod_beta p)
  ultimately have eq: "gw_now s2 = gw_now s" "wl_lease_id lease = ?l" "wl_worker_epoch lease = ?e"
    using out(2) resolved(1,2) [OF ok] by auto
  obtain a where m: "finish (workers_rest rest) (mint_ticket env (wl_lease_id lease) (wl_worker_epoch lease) a) s2 = Some (Inr r, s1)"
    using finish_project [OF out(1) [unfolded ro(1)] ro(2)] by blast
  have "gw_tickets s' = gw_tickets s1" by (simp add: s1(2) drop_permit_def)
  then show ?thesis using finish_mint [OF m] unfolding eq by simp
qed

section \<open>An example\<close>

definition desk_token :: authorization_token where
  "desk_token = AuthorizationToken (replicate 32 CHR ''k'')"

definition desk_gateway_env :: gateway_env where
  "desk_gateway_env = \<lparr>ge_registry = desk_env, ge_token = GatewayToken (replicate 32 CHR ''k''),
     ge_config = \<lparr>gc_max_inflight_requests = 1, gc_max_artifact_tickets = 1, gc_artifact_ticket_ttl = 50,
       gc_max_artifact_bytes = 10, gc_max_request_timeout_ms = 1000\<rparr>,
     ge_uuid = (\<lambda>n. replicate n CHR ''v''), ge_base64 = map (\<lambda>_. CHR ''A'')\<rparr>"

definition desk_gateway :: "unit gateway" where
  "desk_gateway = \<lparr>gw_registry = desk_leased, gw_tickets = [], gw_permits = 1, gw_workers = (), gw_now = 5, gw_next = 0,
     gw_holders = [], gw_log = []\<rparr>"

definition desk_request :: gateway_execute_request where
  "desk_request = \<lparr>gx_protocol_version = GATEWAY_PROTOCOL_VERSION, gx_request_id = RequestId ''r'', gx_timeout_ms = 10,
     gx_authorization = desk_token, gx_lease_id = WorkerLeaseId ''lease_uu'', gx_worker_epoch = WorkerEpoch ''epoch_u'',
     gx_command = GetCapabilities\<rparr>"

definition desk_fetch :: gateway_artifact_request where
  "desk_fetch = \<lparr>ga_protocol_version = GATEWAY_PROTOCOL_VERSION, ga_authorization = desk_token,
     ga_lease_id = WorkerLeaseId ''lease_uu'', ga_worker_epoch = WorkerEpoch ''epoch_u'', ga_ticket_ref = ''ticket_''\<rparr>"

definition desk_ticket :: artifact_ticket where
  "desk_ticket = \<lparr>at_lease_id = WorkerLeaseId ''lease_uu'', at_worker_epoch = WorkerEpoch ''epoch_u'',
     at_artifact = small_artifact, at_expires_at = 55\<rparr>"

definition desk_events :: "unit gateway_event list" where
  "desk_events = [Dispatched 0 desk_lease 5 desk_leased,
     Minted ''ticket_'' (WorkerLeaseId ''lease_uu'') (WorkerEpoch ''epoch_u'') small_artifact]"

definition desk_sent :: "unit gateway" where
  "desk_sent = desk_gateway\<lparr>gw_tickets := [(''ticket_'', desk_ticket)], gw_next := 1, gw_log := desk_events\<rparr>"

definition desk_remote :: remote_screenshot_artifact where
  "desk_remote = \<lparr>rsa_artifact_ref = sa_artifact_ref small_artifact, rsa_ticket_ref = ''ticket_'',
     rsa_mime_type = sa_mime_type small_artifact, rsa_pixel_size = sm_pixel_size (sa_mapping small_artifact),
     rsa_byte_length = sa_byte_length small_artifact, rsa_sha256 = sa_sha256 small_artifact\<rparr>"

definition desk_answer :: gateway_execute_response where
  "desk_answer = \<lparr>gr_protocol_version = GATEWAY_PROTOCOL_VERSION, gr_request_id = RequestId ''r'',
     gr_worker_id = Some (WorkerId ''worker_''), gr_worker_epoch = Some (WorkerEpoch ''epoch_u''),
     gr_outcome = GO_Success (remote_observation desk_observation (Some desk_remote))\<rparr>"

definition desk_content :: gateway_artifact_response where
  "desk_content = \<lparr>gar_artifact_ref = sa_artifact_ref small_artifact, gar_mime_type = sa_mime_type small_artifact,
     gar_byte_length = sa_byte_length small_artifact, gar_sha256 = sa_sha256 small_artifact, gar_data_base64 = ''AAA''\<rparr>"

lemma desk_resolves: "resolve 5 (WorkerLeaseId ''lease_uu'') (WorkerEpoch ''epoch_u'') desk_leased = (Inr (desk_lease, desk), desk_leased)"
  by (simp add: resolve_def Let_def purge_leases_def expired_leases_def desk_leased_def hm_get_def ok_or_def desk_lease_def desk_worker_def)

lemma desk_authorized: "authorized_execute desk_gateway_env desk_request"
  by (simp add: authorized_execute_def invalid_execute_def desk_request_def desk_gateway_env_def desk_token_def
      GATEWAY_MAX_REQUEST_ID_BYTES_def) code_simp

lemma desk_executes:
  "finish rest (gateway_execute desk_gateway_env 0 desk_request) desk_gateway = Some (desk_answer, desk_sent)"
proof -
  have "finish rest (execute_leased desk_gateway_env 0 desk_request) (snd (try_permit 0 desk_gateway)) =
      Some (desk_answer, snd (try_permit 0 desk_sent))"
    by (simp add: execute_leased_def dispatch_section_def resolve_section_def desk_request_def desk_gateway_def try_permit_def
        desk_resolves execute_on_def desk_def project_outcome_def project_result_def desk_observation_def mint_ticket_def
        mint_section_def purge_tickets_def hm_retain_def hm_len_def hm_insert_def desk_gateway_env_def small_artifact_def
        ticket_name_def desk_sent_def desk_ticket_def desk_events_def desk_answer_def desk_remote_def remote_observation_def desk_lease_def Let_def)
  then show ?thesis
    using desk_authorized
    by (simp add: gateway_execute_def authorized_execute_def finish_holding)
      (simp add: desk_gateway_def desk_sent_def try_permit_def drop_permit_def)
qed

lemma desk_fetches: "finish rest (gateway_fetch_artifact desk_gateway_env 1 desk_fetch) desk_sent = Some (Inr desk_content, desk_sent)"
  by (simp add: gateway_fetch_artifact_def finish_holding desk_fetch_def desk_gateway_env_def desk_token_def fetch_leased_def
      resolve_section_def desk_sent_def desk_gateway_def try_permit_def desk_resolves fetch_from_def ticket_section_def
      purge_tickets_def hm_retain_def hm_get_def desk_ticket_def ok_or_def Let_def desk_def desk_content_def drop_permit_def)

definition desk_calls :: "nat \<Rightarrow> gateway_call" where
  "desk_calls t = (if t = 0 then GC_Execute desk_request else GC_Fetch desk_fetch)"

definition desk_pool :: "nat \<rightharpoonup> (unit gateway, gateway_reply) prog" where
  "desk_pool = [0 \<mapsto> Ret (GP_Executed desk_answer), 1 \<mapsto> Ret (GP_Fetched (Inr desk_content))]"

lemma desk_fresh: "fresh_gateway desk_gateway_env {desk} desk_gateway"
  using registry_reachable_ok [OF desk_runs(2) desk_new desk_env_ok] desk_env_ok
  by (auto simp: fresh_gateway_def desk_gateway_env_def desk_gateway_def endpoints_in_def desk_leased_def desk_worker_def hm_get_def inj_def
      split: if_splits dest: arg_cong [of _ _ length])

lemma desk_reachable:
  "gateway_reachable desk_gateway_env {desk} (\<lambda>_ _. False) (\<lambda>_ _. False) desk_calls desk_gateway (desk_pool, desk_sent)"
proof -
  let ?task = "gateway_task desk_gateway_env (\<lambda>_ _. False) desk_calls"
  let ?env = "gateway_surroundings desk_gateway_env {desk} (\<lambda>_ _. False)"
  let ?p = "mapP GP_Executed (gateway_execute desk_gateway_env 0 desk_request)"
  let ?q = "mapP GP_Fetched (gateway_fetch_artifact desk_gateway_env 1 desk_fetch)"
  let ?run = "(pool_step ?task ?env)\<^sup>*\<^sup>*"
  let ?one = "[0 \<mapsto> Ret (GP_Executed desk_answer)]"
  have t: "?task 0 ?p" "?task 1 ?q" by (auto intro!: gt_execute gt_fetch simp: desk_calls_def)
  have f: "finish (\<lambda>s. s) ?p desk_gateway = Some (GP_Executed desk_answer, desk_sent)"
    "finish (\<lambda>s. s) ?q desk_sent = Some (GP_Fetched (Inr desk_content), desk_sent)"
    by (simp_all add: desk_executes desk_fetches [unfolded One_nat_def])
  have "?run (Map.empty, desk_gateway) ([0 \<mapsto> ?p], desk_gateway)"
    by (rule r_into_rtranclp, rule ps_spawn) (simp_all add: t)
  also have "?run ([0 \<mapsto> ?p], desk_gateway) (?one, desk_sent)"
    using finish_steps [of ?env "\<lambda>s. s" ?p desk_gateway "GP_Executed desk_answer" desk_sent "[0 \<mapsto> ?p]" 0 ?task] f(1) by simp
  also have "?run (?one, desk_sent) (?one(1 \<mapsto> ?q), desk_sent)"
    by (rule r_into_rtranclp, rule ps_spawn, simp, rule t(2))
  also have "?run (?one(1 \<mapsto> ?q), desk_sent) (?one(1 \<mapsto> Ret (GP_Fetched (Inr desk_content))), desk_sent)"
    using finish_steps [of ?env "\<lambda>s. s" ?q desk_sent "GP_Fetched (Inr desk_content)" desk_sent "?one(1 \<mapsto> ?q)" 1 ?task] f(2) by simp
  finally show ?thesis by (simp add: gateway_reachable_def desk_pool_def)
qed

text \<open>The dispatcher of the example behind a gateway.\<close>

definition local_worker :: "unit local_runtime_worker" where
  "local_worker = \<lparr>lw_place = 0, lw_dispatcher = dx_env, lw_token = dx_token, lw_platform = P_Macos,
     lw_environment = local_user_desktop, lw_max_artifact_bytes = 10\<rparr>"

definition local_gateway :: "(nat \<Rightarrow> unit dispatcher) gateway" where
  "local_gateway = \<lparr>gw_registry = \<lparr>rs_workers = [], rs_leases = [], rs_next = 0\<rparr>, gw_tickets = [], gw_permits = 1,
     gw_workers = (\<lambda>_. dx_start), gw_now = 5, gw_next = 0, gw_holders = [], gw_log = []\<rparr>"

lemma local_fresh: "fresh_gateway desk_gateway_env (local_endpoints [local_worker]) local_gateway"
  using desk_fresh registry_reachable_ok [OF rtranclp.rtrancl_refl desk_new desk_env_ok]
  by (simp add: fresh_gateway_def local_gateway_def endpoints_in_def desk_gateway_env_def)

lemma local_run: "local_reachable desk_gateway_env [local_worker] calls local_gateway (Map.empty, local_gateway\<lparr>gw_now := 9\<rparr>)"
  unfolding local_reachable_def gateway_reachable_def
  by (rule r_into_rtranclp, rule ps_env, rule gs_time) (simp add: local_gateway_def)

section \<open>Properties\<close>

text \<open>
  Claim C11. The gateway stays within its bounds under every interleaving of requests: a permit is
  free or held by exactly one unfinished request, so permits are never lost or made up, and there
  are never more tickets than configured; every ticket stands for one artifact.
\<close>

theorem gateway_bounded:
  assumes "gateway_reachable env W inner around calls s0 (pool, s)" "fresh_gateway env W s0"
  shows "gw_permits s + length (gw_holders s) = gc_max_inflight_requests (ge_config env) \<and> distinct (gw_holders s) \<and>
    (\<forall>t. t \<in> set (gw_holders s) \<longrightarrow> (\<exists>c f. pool t = Some (Step c f))) \<and>
    hm_len (gw_tickets s) \<le> gc_max_artifact_tickets (ge_config env) \<and> distinct (minted_refs (gw_log s))"
proof -
  note c = gateway_config [OF assms, unfolded gw.config_ok_def fst_conv snd_conv]
  have ok: "permits_ok env s" "tickets_ok env s" and I: "gwok env W calls s" using c by (simp_all add: gwok_def)
  have "\<exists>c f. pool t = Some (Step c f)" if "t \<in> set (gw_holders s)" for t
  proof (cases "pool t")
    case None
    then show ?thesis using c that by (simp add: knows_def)
  next
    case (Some p)
    have "t \<notin> set (gw_holders s)" if "p = Ret x" for x
      using c Some that gw.safe_result [OF _ I, of t "\<lambda>x. knows t False (reply_ok env calls t x)" x] by (simp add: knows_def)
    then show ?thesis using Some \<open>t \<in> set (gw_holders s)\<close> by (cases p) auto
  qed
  then show ?thesis using ok by (simp add: permits_ok_def tickets_ok_def)
qed

theorem gateway_bounded_witness:
  "gw_permits desk_sent + length (gw_holders desk_sent) = 1 \<and> hm_len (gw_tickets desk_sent) \<le> 1 \<and>
   distinct (minted_refs (gw_log desk_sent))"
  using gateway_bounded [OF desk_reachable desk_fresh] by (simp add: desk_gateway_env_def)





text \<open>
  Claim C10. An artifact leaves the gateway only for its ticket: a successful retrieval carried the
  gateway's token, its ticket was minted for the lease and the epoch that the request names and on
  which a command had been dispatched, and what it returns describes the artifact of that ticket.
\<close>

theorem fetch_bound_to_ticket:
  assumes "gateway_reachable env W inner around calls s0 (pool, s)" "fresh_gateway env W s0"
    and "pool t = Some (Ret (GP_Fetched (Inr response)))"
  shows "\<exists>request a. calls t = GC_Fetch request \<and> gateway_accepts (ge_token env) (ga_authorization request) \<and>
    Minted (ga_ticket_ref request) (ga_lease_id request) (ga_worker_epoch request) a \<in> set (gw_log s) \<and>
    gar_artifact_ref response = sa_artifact_ref a \<and> gar_byte_length response = sa_byte_length a \<and>
    gar_sha256 response = sa_sha256 a \<and>
    (\<exists>u lease now registry. Dispatched u lease now registry \<in> set (gw_log s) \<and> wl_lease_id lease = ga_lease_id request \<and>
       wl_worker_epoch lease = ga_worker_epoch request)"
proof -
  note c = gateway_config [OF assms(1,2), unfolded gw.config_ok_def fst_conv snd_conv]
  have I: "\<forall>e \<in> set (gw_log s). event_ok env calls (gw_log s) e" using c by (simp add: gwok_def)
  have "knows t False (reply_ok env calls t (GP_Fetched (Inr response))) s"
    using c assms(3) gw.safe_result [of env W calls t "\<lambda>x. knows t False (reply_ok env calls t x)" "GP_Fetched (Inr response)" s] by simp
  then obtain request where r: "calls t = GC_Fetch request" "fetch_answer env request (Inr response) (dispatches t (gw_log s)) (set (gw_log s))"
    by (auto simp: knows_def)
  then obtain a where a: "Minted (ga_ticket_ref request) (ga_lease_id request) (ga_worker_epoch request) a \<in> set (gw_log s)"
    "gar_artifact_ref response = sa_artifact_ref a" "gar_byte_length response = sa_byte_length a" "gar_sha256 response = sa_sha256 a"
    "gateway_accepts (ge_token env) (ga_authorization request)"
    by (auto simp: fetch_answer_def)
  from bspec [OF I a(1)] show ?thesis using r(1) a by (intro exI [of _ request] exI [of _ a]) simp
qed

theorem fetch_bound_to_ticket_witness:
  "\<exists>a. Minted ''ticket_'' (WorkerLeaseId ''lease_uu'') (WorkerEpoch ''epoch_u'') a \<in> set desk_events \<and>
     sa_sha256 a = gar_sha256 desk_content"
  using fetch_bound_to_ticket [OF desk_reachable desk_fresh, of 1 desk_content]
  by (auto simp: desk_pool_def desk_calls_def desk_fetch_def desk_sent_def)

text \<open>
  A ticket can be redeemed: when an execution returns an observation with a ticket, a
  retrieval with that ticket that starts before the ticket expires, on the same lease and epoch
  while it is live and a permit is free, returns the encoding of the bytes that the worker reads
  for it, under the description that came with the ticket.
\<close>

theorem ticket_round_trip:
  assumes "regok (ge_registry env) (gw_registry s)"
    and "finish (workers_rest rest) (gateway_execute env t request) s = Some (response, s1)"
    and "gr_outcome response = GO_Success (GR_WindowObserved ro)" "rwo_screenshot ro = Some r"
    and "gw_tickets s2 = gw_tickets s1" "hm_wf (gw_tickets s2)" "gw_now s2 < gw_now s + gc_artifact_ticket_ttl (ge_config env)" "gw_permits s2 \<noteq> 0"
    and "fst (resolve (gw_now s2) (gx_lease_id request) (gx_worker_epoch request) (gw_registry s2)) = Inr (lease, worker)"
    and "gateway_accepts (ge_token env) token"
  shows "\<exists>a. sa_artifact_ref a = rsa_artifact_ref r \<and> sa_sha256 a = rsa_sha256 r \<and>
    (\<forall>content w. finish rest (dk_read_artifact worker a (gc_max_artifact_bytes (ge_config env))) (gw_workers s2) = Some (Inr content, w) \<longrightarrow>
       map_option fst (finish (workers_rest rest) (gateway_fetch_artifact env u
         \<lparr>ga_protocol_version = GATEWAY_PROTOCOL_VERSION, ga_authorization = token, ga_lease_id = gx_lease_id request,
          ga_worker_epoch = gx_worker_epoch request, ga_ticket_ref = rsa_ticket_ref r\<rparr>) s2) =
       Some (Inr \<lparr>gar_artifact_ref = rsa_artifact_ref r, gar_mime_type = rsa_mime_type r, gar_byte_length = rsa_byte_length r,
                  gar_sha256 = rsa_sha256 r, gar_data_base64 = ge_base64 env content\<rparr>))"
proof -
  obtain k where k: "hm_get (gw_tickets s1) (rsa_ticket_ref r) = Some k" "at_lease_id k = gx_lease_id request"
    "at_worker_epoch k = gx_worker_epoch request" "at_expires_at k = gw_now s + gc_artifact_ticket_ttl (ge_config env)"
    and d: "rsa_artifact_ref r = sa_artifact_ref (at_artifact k)" "rsa_mime_type r = sa_mime_type (at_artifact k)"
    "rsa_byte_length r = sa_byte_length (at_artifact k)" "rsa_sha256 r = sa_sha256 (at_artifact k)"
    using finish_gateway_execute [OF assms(1-4)] by blast
  have t: "hm_get (purge_tickets (gw_now s2) (gw_tickets s2)) (rsa_ticket_ref r) = Some k"
    using k(1,4) assms(5-7) by (simp add: purge_tickets_def hm_get_retain)
  show ?thesis
    using assms(8-10) k(2,3) t d
    by (intro exI [of _ "at_artifact k"])
      (simp add: gateway_fetch_artifact_def finish_holding fetch_leased_def resolve_section_def case_prod_beta try_permit_def
        fetch_from_def ticket_section_def ok_or_def Let_def finish_in_workers)
qed

theorem ticket_round_trip_witness:
  "map_option fst (finish (workers_rest id) (gateway_fetch_artifact desk_gateway_env 7 desk_fetch) (desk_sent\<lparr>gw_now := 54\<rparr>)) =
     Some (Inr desk_content)"
proof -
  have reg: "regok (ge_registry desk_gateway_env) (gw_registry desk_gateway)" using desk_fresh by (simp add: fresh_gateway_def)
  let ?s = "desk_sent\<lparr>gw_now := 54\<rparr>"
  have "fst (resolve 54 (WorkerLeaseId ''lease_uu'') (WorkerEpoch ''epoch_u'') desk_leased) = Inr (desk_lease, desk)"
    by (simp add: resolve_def Let_def purge_leases_def expired_leases_def desk_leased_def hm_get_def ok_or_def desk_lease_def desk_worker_def)
  then have "fst (resolve (gw_now ?s) (gx_lease_id desk_request) (gx_worker_epoch desk_request) (gw_registry ?s)) = Inr (desk_lease, desk)"
    by (simp add: desk_request_def desk_sent_def desk_gateway_def)
  moreover obtain ro where "gr_outcome desk_answer = GO_Success (GR_WindowObserved ro)" "rwo_screenshot ro = Some desk_remote"
    by (simp add: desk_answer_def remote_observation_def)
  moreover note ticket_round_trip [where rest = id and ?s2.0 = ?s and token = desk_token and u = 7, OF reg desk_executes]
  ultimately
  have "\<exists>a. \<forall>content w. finish id (dk_read_artifact desk a 10) () = Some (Inr content, w) \<longrightarrow>
      map_option fst (finish (workers_rest id) (gateway_fetch_artifact desk_gateway_env 7 desk_fetch) ?s) =
      Some (Inr \<lparr>gar_artifact_ref = rsa_artifact_ref desk_remote, gar_mime_type = rsa_mime_type desk_remote,
        gar_byte_length = rsa_byte_length desk_remote, gar_sha256 = rsa_sha256 desk_remote, gar_data_base64 = map (\<lambda>_. CHR ''A'') content\<rparr>)"
    by (fastforce simp: desk_sent_def desk_gateway_def desk_gateway_env_def desk_request_def desk_fetch_def desk_token_def
        desk_remote_def hm_wf_def)
  then show ?thesis by (simp add: desk_def desk_remote_def desk_content_def)
qed

text \<open>
  Claim C8. Behind the gateway the dispatcher of an embedded worker is a dispatcher: whatever
  requests, retrievals and leases interleave, its state is one that it reaches by itself. So what
  holds of every reachable dispatcher, a request identity executing at most once among them, holds
  for commands that arrive through the gateway.
\<close>

theorem gateway_refines_dispatcher:
  assumes "local_reachable env ws calls s0 (pool, s)" "fresh_gateway env (local_endpoints ws) s0"
    and "i < length ws" "map lw_place ws = [0..<length ws]"
  shows "\<exists>dpool. dispatcher_reachable (lw_dispatcher (ws ! i)) (gw_workers s0 i) (dpool, gw_workers s i) \<and>
    {u. dpool u \<noteq> None} \<subseteq> {u. pool u \<noteq> None}"
  using embedding.inner_reachable [OF local_inner [OF assms(3,4)] _ assms(2), of calls pool s] assms(1)
  by (simp add: local_reachable_def gateway_reachable_def dispatcher_reachable_def)

theorem gateway_refines_dispatcher_witness:
  "\<exists>dpool. dispatcher_reachable dx_env dx_start (dpool, gw_workers (local_gateway\<lparr>gw_now := 9\<rparr>) 0)"
  using gateway_refines_dispatcher [OF local_run local_fresh, of 0] by (auto simp: local_worker_def local_gateway_def)

text \<open>
  The embedded worker is never locked out of its own dispatcher: every command that a
  gateway hands to it passes the dispatcher's protocol and token checks, so that it is refused only
  for its identity, its deadline or a command that cannot be encoded.
\<close>

theorem local_requests_authorized:
  assumes "local_worker_new rt sha json uuid1 uuid2 place runtime platform environment config = Inr (w, d)"
    and "length uuid1 = 32" "length uuid2 = 32"
  shows "accepts sha (p_token (lw_dispatcher w)) (req_authorization (local_request w request_id timeout_ms command)) \<and>
    (\<forall>e. validate_request (lw_dispatcher w) (local_request w request_id timeout_ms command) = Inl e \<longrightarrow>
       ce_code e \<noteq> ProtocolMismatch \<and> ce_code e \<noteq> Unauthorized)"
proof -
  have w: "lw_token w = AuthorizationToken (uuid1 @ uuid2)"
    "p_token (lw_dispatcher w) = \<lparr>tv_digest = sha (uuid1 @ uuid2)\<rparr>" "p_sha (lw_dispatcher w) = sha"
    using assms by (auto simp: local_worker_new_def dispatcher_new_def Let_def bindR_eq_Inr ok_or_def token_verifier_new_def split: if_splits option.splits)
  then have "accepts sha (p_token (lw_dispatcher w)) (lw_token w)"
    using assms(2,3) by (simp add: accepts_def token_length_ok_def MINIMUM_TOKEN_BYTES_def MAXIMUM_TOKEN_BYTES_def)
  then show ?thesis using w(3)
    by (auto simp: local_request_def validate_request_def public_error_def ok_or_def split: if_splits option.splits)
qed

theorem local_requests_authorized_witness:
  "\<exists>w d. local_worker_new ex_env dx_sha dx_json (replicate 32 CHR ''a'') (replicate 32 CHR ''b'') 0 ex_start P_Macos
       local_user_desktop default_local_config = Inr (w, d) \<and> accepts dx_sha (p_token (lw_dispatcher w)) (lw_token w)"
proof -
  obtain w d where w: "local_worker_new ex_env dx_sha dx_json (replicate 32 CHR ''a'') (replicate 32 CHR ''b'') 0 ex_start P_Macos
       local_user_desktop default_local_config = Inr (w, d)"
    by (simp add: local_worker_new_def dispatcher_new_def default_local_config_def token_verifier_new_def token_length_ok_def
        MINIMUM_TOKEN_BYTES_def MAXIMUM_TOKEN_BYTES_def ok_or_def bindR_def from_secs_def Let_def)
  have "accepts dx_sha (p_token (lw_dispatcher w)) (lw_token w)"
    using local_requests_authorized [OF w, of dx_id 1000 GetCapabilities] by (simp add: local_request_def)
  then show ?thesis using w by blast
qed

end
