(* ===== verification/HostWire.thy ===== *)
theory HostWire
  imports HostGatewayProps
begin

text \<open>
  The gateway over a byte stream (host/src/wire.rs): length-prefixed JSON frames, the loop that
  serves the requests of one stream, and the client's round trip. The JSON codec is a parameter; the
  streams are those of the local transport.
\<close>

section \<open>Types\<close>

definition HARD_MAX_GATEWAY_FRAME_BYTES :: nat where "HARD_MAX_GATEWAY_FRAME_BYTES = 64 * 1024 * 1024"

datatype gateway_wire_request = WR_Execute gateway_execute_request | WR_FetchArtifact gateway_artifact_request

datatype gateway_artifact_outcome = GA_Success gateway_artifact_response | GA_Error cua_error

datatype gateway_wire_response = WS_Execute gateway_execute_response | WS_Artifact gateway_artifact_outcome

datatype gateway_transport_error =
    GT_InvalidConfiguration | GT_FrameTooLarge | GT_UnexpectedEof | GT_InvalidJson | GT_Io string

record wire_codec =
  wc_decode_request :: "bytes \<Rightarrow> gateway_wire_request option"
  wc_encode_request :: "gateway_wire_request \<Rightarrow> bytes option"
  wc_decode_response :: "bytes \<Rightarrow> gateway_wire_response option"
  wc_encode_response :: "gateway_wire_response \<Rightarrow> bytes option"

section \<open>Frames\<close>

definition validate_frame_bound :: "nat \<Rightarrow> gateway_transport_error + unit" where
  "validate_frame_bound max_frame_bytes =
     (if max_frame_bytes = 0 \<or> HARD_MAX_GATEWAY_FRAME_BYTES < max_frame_bytes then Inl GT_InvalidConfiguration else Inr ())"

text \<open>\<^verbatim>\<open>read_exact\<close> with the errors of \<^verbatim>\<open>map_frame_read_error\<close>.\<close>

definition wire_read_exact :: "nat \<Rightarrow> input_stream \<Rightarrow> gateway_transport_error + bytes \<times> input_stream" where
  "wire_read_exact n r =
     (if n \<le> length (in_bytes r) then Inr (take n (in_bytes r), r\<lparr>in_bytes := drop n (in_bytes r)\<rparr>)
      else Inl (case in_fault r of None \<Rightarrow> GT_UnexpectedEof | Some reason \<Rightarrow> GT_Io reason))"

definition wire_read_frame ::
  "(bytes \<Rightarrow> 'a option) \<Rightarrow> input_stream \<Rightarrow> nat \<Rightarrow> gateway_transport_error + ('a \<times> input_stream) option" where
  "wire_read_frame decode r max_frame_bytes =
     (case in_bytes r of
        [] \<Rightarrow> (case in_fault r of None \<Rightarrow> Inr None | Some reason \<Rightarrow> Inl (GT_Io reason))
      | first # rest \<Rightarrow>
          bindR (wire_read_exact 3 (r\<lparr>in_bytes := rest\<rparr>)) (\<lambda>(header, r1).
          let n = unat (from_be_bytes (first # header))
          in if n = 0 \<or> max_frame_bytes < n then Inl GT_FrameTooLarge
             else bindR (wire_read_exact n r1) (\<lambda>(payload, r2).
                  bindR (ok_or GT_InvalidJson (decode payload)) (\<lambda>value. Inr (Some (value, r2))))))"

definition wire_write_all :: "bytes \<Rightarrow> output_stream \<Rightarrow> (gateway_transport_error + unit) \<times> output_stream" where
  "wire_write_all data w =
     (case out_room w of
        None \<Rightarrow> (Inr (), w\<lparr>out_bytes := out_bytes w @ data\<rparr>)
      | Some room \<Rightarrow>
          (if length data \<le> room then Inr () else Inl (GT_Io ''write failed''),
           w\<lparr>out_bytes := out_bytes w @ take room data, out_room := Some (room - length data)\<rparr>))"

definition wire_write_frame ::
  "('a \<Rightarrow> bytes option) \<Rightarrow> output_stream \<Rightarrow> 'a \<Rightarrow> nat \<Rightarrow> (gateway_transport_error + unit) \<times> output_stream" where
  "wire_write_frame encode w value max_frame_bytes =
     (case encode value of
        None \<Rightarrow> (Inl GT_InvalidJson, w)
      | Some payload \<Rightarrow>
          if payload = [] \<or> max_frame_bytes < length payload then (Inl GT_FrameTooLarge, w)
          else case u32_try_from (length payload) of
            None \<Rightarrow> (Inl GT_FrameTooLarge, w)
          | Some n \<Rightarrow>
              (case wire_write_all (to_be_bytes n) w of
                 (Inl e, w1) \<Rightarrow> (Inl e, w1)
               | (Inr _, w1) \<Rightarrow> wire_write_all payload w1))"

section \<open>Serving\<close>






text \<open>The client's side: what it reads is the stream after its request was written.\<close>

definition gateway_round_trip ::
  "wire_codec \<Rightarrow> gateway_wire_request \<Rightarrow> nat \<Rightarrow> (bytes \<Rightarrow> input_stream) \<Rightarrow> output_stream \<Rightarrow>
   (gateway_transport_error + gateway_wire_response) \<times> output_stream" where
  "gateway_round_trip codec request max_frame_bytes peer w =
     (case validate_frame_bound max_frame_bytes of
        Inl e \<Rightarrow> (Inl e, w)
      | Inr _ \<Rightarrow>
          (case wire_write_frame (wc_encode_request codec) w request max_frame_bytes of
             (Inl e, w') \<Rightarrow> (Inl e, w')
           | (Inr _, w') \<Rightarrow>
               (bindR (wire_read_frame (wc_decode_response codec) (peer (out_bytes w')) max_frame_bytes) (\<lambda>frame.
                ok_or GT_UnexpectedEof (map_option fst frame)), w')))"

section \<open>Frames of values\<close>








section \<open>An example\<close>


section \<open>Properties\<close>



end
