(* ===== verification/McpAuthority.thy ===== *)
theory McpAuthority
  imports Policy Validation
begin

text \<open>
  The host authority of the MCP adapter (mcp/src/authority.rs): the ceiling a host writes, its
  validation and loading, the challenge of an adapter, the resolution of a provider's grant, and
  the checks of a live adapter; with the manifest that the adapter opens its session with
  (mcp/src/server.rs).

  The file that is read is a record of what the file system returns, as for the runtime policy. The
  JSON decoder, the adapter nonce, the clock and the provider are parameters.
\<close>

section \<open>Types\<close>

definition AUTHORITY_SCHEMA_VERSION :: u32 where "AUTHORITY_SCHEMA_VERSION = 1"
definition PROVIDER_GRANT_SCHEMA_VERSION :: u32 where "PROVIDER_GRANT_SCHEMA_VERSION = 1"
definition MAX_AUTHORITY_BYTES :: nat where "MAX_AUTHORITY_BYTES = 64 * 1024"
definition MAX_APPLICATIONS :: nat where "MAX_APPLICATIONS = 32"
definition MAX_APPLICATION_ID_BYTES :: nat where "MAX_APPLICATION_ID_BYTES = 512"
definition MAX_AUTHORITY_ACTIONS :: nat where "MAX_AUTHORITY_ACTIONS = 32"
definition MAX_TTL_SECONDS :: u32 where "MAX_TTL_SECONDS = 60 * 60"
definition MAX_BINDING_BYTES :: nat where "MAX_BINDING_BYTES = 256"
definition MAX_REQUEST_NAMESPACE_BYTES :: nat where "MAX_REQUEST_NAMESPACE_BYTES = 64"
definition MAX_CLOCK_SKEW_MS :: u64 where "MAX_CLOCK_SKEW_MS = 30000"
definition MIN_REMAINING_GRANT_MS :: u64 where "MIN_REMAINING_GRANT_MS = 1000"

record authority_policy =
  ap_schema_version :: u32
  ap_mode :: permission_mode
  ap_application_ids :: "string list"
  ap_allowed_actions :: "action_kind list"
  ap_allow_foreground_input :: bool
  ap_restore_foreground_after_input :: bool
  ap_allow_display_capture :: bool
  ap_allow_clipboard_read :: bool
  ap_allow_clipboard_write :: bool
  ap_allow_application_launch :: bool
  ap_allow_application_launch_activation :: bool
  ap_ttl_seconds :: u32

datatype authority_provider_error = PV_Unavailable | PV_Denied | PV_AuthenticationFailed | PV_InvalidResponse

datatype authority_error =
    AE_Io string
  | AE_Json
  | AE_UnsafeFile string
  | AE_Invalid string
  | AE_Provider authority_provider_error
  | AE_InvalidGrant string

record authority_challenge =
  ch_registration_id :: string
  ch_adapter_nonce :: string
  ch_runtime_epoch :: string
  ch_worker_epoch :: "string option"

record authority_grant =
  ag_schema_version :: u32
  ag_provider_id :: string
  ag_registration_id :: string
  ag_adapter_nonce :: string
  ag_runtime_epoch :: string
  ag_worker_epoch :: "string option"
  ag_principal :: string
  ag_work_scope :: string
  ag_request_namespace :: string
  ag_issued_at_unix_ms :: u64
  ag_expires_at_unix_ms :: u64
  ag_authority :: authority_policy

record authority_grant_metadata =
  gm_provider_id :: string
  gm_registration_id :: string
  gm_principal :: string
  gm_work_scope :: string
  gm_request_namespace :: string
  gm_runtime_epoch :: string
  gm_worker_epoch :: "string option"
  gm_expires_at_unix_ms :: u64

text \<open>
  A provider is a handle; what it answers to a validation is an argument of the operation that asks,
  \<open>None\<close> while it does not answer.
\<close>

type_synonym provider_answers = "nat \<Rightarrow> authority_grant_metadata \<Rightarrow> (authority_provider_error + unit) option"

record authority_context =
  ac_policy :: authority_policy
  ac_provider :: "authority_grant_metadata option"
  ac_provider_client :: "nat option"

section \<open>Policies\<close>

definition authority_validate :: "authority_policy \<Rightarrow> authority_error + unit" where
  "authority_validate self =
     (if ap_schema_version self \<noteq> AUTHORITY_SCHEMA_VERSION
      then Inl (AE_Invalid ''unsupported authority schema_version'')
      else if (\<not> ap_allow_display_capture self \<and> \<not> ap_allow_clipboard_read self \<and> \<not> ap_allow_clipboard_write self \<and>
               ap_application_ids self = []) \<or> MAX_APPLICATIONS < length (ap_application_ids self)
      then Inl (AE_Invalid ''application_ids must contain 1 to 32 identities unless display or clipboard-only access is authorized'')
      else if list_ex (\<lambda>v. v = [] \<or> v \<noteq> trim v \<or> MAX_APPLICATION_ID_BYTES < length v) (ap_application_ids self)
      then Inl (AE_Invalid ''application_ids must be normalized non-empty values of at most 512 bytes'')
      else if \<not> all_unique (ap_application_ids self)
      then Inl (AE_Invalid ''application_ids contains duplicates'')
      else if MAX_AUTHORITY_ACTIONS < length (ap_allowed_actions self)
      then Inl (AE_Invalid ''allowed_actions exceeds the supported bound'')
      else if \<not> all_unique (ap_allowed_actions self)
      then Inl (AE_Invalid ''allowed_actions contains duplicates'')
      else if ap_ttl_seconds self = 0 \<or> MAX_TTL_SECONDS < ap_ttl_seconds self
      then Inl (AE_Invalid ''ttl_seconds must be between 1 and 3600'')
      else if ap_mode self = ReadOnly \<and>
              (ap_allowed_actions self \<noteq> [] \<or> ap_allow_foreground_input self \<or> ap_restore_foreground_after_input self \<or>
               ap_allow_clipboard_write self \<or> ap_allow_application_launch self)
      then Inl (AE_Invalid ''read_only authority cannot contain actions or foreground input'')
      else if ap_allow_clipboard_write self \<and> \<not> ap_allow_clipboard_read self
      then Inl (AE_Invalid ''clipboard write authority requires clipboard read authority'')
      else if ap_allow_application_launch self \<and> ap_application_ids self = []
      then Inl (AE_Invalid ''application launch authority requires at least one application identity'')
      else if ap_allow_application_launch_activation self \<and> \<not> ap_allow_application_launch self
      then Inl (AE_Invalid ''launch activation requires application launch authority'')
      else if ap_restore_foreground_after_input self \<and> \<not> ap_allow_foreground_input self
      then Inl (AE_Invalid ''foreground restoration requires foreground input authority'')
      else Inr ())"

definition validate_file_permissions :: "file_view \<Rightarrow> authority_error + unit" where
  "validate_file_permissions file =
     (if Bit_Operations.and (fv_mode file) 18 \<noteq> 0
      then Inl (AE_UnsafeFile ''authority file must not be writable by group or other users'') else Inr ())"

definition load_private_file :: "(string \<Rightarrow> authority_policy option) \<Rightarrow> file_view \<Rightarrow> authority_error + authority_policy" where
  "load_private_file decode file =
     bindR (map_err AE_Io (fv_metadata file)) (\<lambda>_.
     if fv_is_symlink file \<or> \<not> fv_is_file file
     then Inl (AE_UnsafeFile ''authority path must be a regular file, not a symlink'')
     else if MAX_AUTHORITY_BYTES < fv_len file
     then Inl (AE_UnsafeFile ''authority file exceeds the 64 KiB limit'')
     else bindR (validate_file_permissions file) (\<lambda>_.
          bindR (map_err AE_Io (fv_bytes file)) (\<lambda>bytes.
          bindR (ok_or AE_Json (decode bytes)) (\<lambda>policy.
          bindR (authority_validate policy) (\<lambda>_.
          Inr policy)))))"

section \<open>Grants\<close>

definition validate_binding :: "string \<Rightarrow> string \<Rightarrow> authority_error + unit" where
  "validate_binding v field =
     (if v = [] \<or> MAX_BINDING_BYTES < length v \<or> v \<noteq> trim v \<or> has_control v
      then Inl (AE_InvalidGrant (field @ '' is empty, unnormalized, or exceeds the bounded size'')) else Inr ())"

definition validate_request_namespace :: "string \<Rightarrow> authority_error + unit" where
  "validate_request_namespace v =
     (if length v < 16 \<or> MAX_REQUEST_NAMESPACE_BYTES < length v \<or>
         \<not> list_all (\<lambda>b. is_ascii_alphanumeric b \<or> b = CHR ''_'' \<or> b = CHR ''-'') v
      then Inl (AE_InvalidGrant ''request_namespace must be 16 to 64 normalized ASCII bytes'') else Inr ())"

definition challenge_new ::
  "string \<Rightarrow> string \<Rightarrow> string \<Rightarrow> string option \<Rightarrow> authority_error + authority_challenge" where
  "challenge_new uuid registration_id runtime_epoch worker_epoch =
     (let challenge = \<lparr>ch_registration_id = registration_id, ch_adapter_nonce = ''adapter_'' @ uuid,
                       ch_runtime_epoch = runtime_epoch, ch_worker_epoch = worker_epoch\<rparr>
      in bindR (validate_binding (ch_registration_id challenge) ''registration_id'') (\<lambda>_.
         bindR (validate_binding (ch_adapter_nonce challenge) ''adapter_nonce'') (\<lambda>_.
         bindR (validate_binding (ch_runtime_epoch challenge) ''runtime_epoch'') (\<lambda>_.
         bindR (case ch_worker_epoch challenge of
                  None \<Rightarrow> Inr ()
                | Some e \<Rightarrow> validate_binding e ''worker_epoch'') (\<lambda>_.
         Inr challenge)))))"

text \<open>Saturating arithmetic of \<^verbatim>\<open>u64\<close>.\<close>

definition u64_saturating_add :: "u64 \<Rightarrow> u64 \<Rightarrow> u64" where
  "u64_saturating_add a b = (if unat a + unat b < 2 ^ 64 then a + b else - 1)"

definition u64_saturating_sub :: "u64 \<Rightarrow> u64 \<Rightarrow> u64" where
  "u64_saturating_sub a b = (if b \<le> a then a - b else 0)"

definition grant_times_ok :: "authority_grant \<Rightarrow> u64 \<Rightarrow> bool" where
  "grant_times_ok self now \<longleftrightarrow>
     \<not> (u64_saturating_add now MAX_CLOCK_SKEW_MS < ag_issued_at_unix_ms self \<or>
        ag_expires_at_unix_ms self \<le> ag_issued_at_unix_ms self \<or>
        ucast MAX_TTL_SECONDS * 1000 < u64_saturating_sub (ag_expires_at_unix_ms self) (ag_issued_at_unix_ms self) \<or>
        u64_saturating_sub (ag_expires_at_unix_ms self) now < MIN_REMAINING_GRANT_MS)"

definition remaining_seconds :: "authority_grant \<Rightarrow> u64 \<Rightarrow> u32" where
  "remaining_seconds self now =
     min (case u32_try_from (unat (u64_saturating_sub (ag_expires_at_unix_ms self) now div 1000)) of
            Some n \<Rightarrow> n | None \<Rightarrow> MAX_TTL_SECONDS) MAX_TTL_SECONDS"

definition grant_metadata :: "authority_grant \<Rightarrow> authority_grant_metadata" where
  "grant_metadata self =
     \<lparr>gm_provider_id = ag_provider_id self, gm_registration_id = ag_registration_id self, gm_principal = ag_principal self,
      gm_work_scope = ag_work_scope self, gm_request_namespace = ag_request_namespace self,
      gm_runtime_epoch = ag_runtime_epoch self, gm_worker_epoch = ag_worker_epoch self,
      gm_expires_at_unix_ms = ag_expires_at_unix_ms self\<rparr>"

definition grant_resolve :: "authority_grant \<Rightarrow> authority_challenge \<Rightarrow> u64 \<Rightarrow> authority_error + authority_context" where
  "grant_resolve self challenge now =
     (if ag_schema_version self \<noteq> PROVIDER_GRANT_SCHEMA_VERSION
      then Inl (AE_InvalidGrant ''unsupported provider grant schema_version'')
      else bindR (validate_binding (ag_provider_id self) ''provider_id'') (\<lambda>_.
           bindR (validate_binding (ag_principal self) ''principal'') (\<lambda>_.
           bindR (validate_binding (ag_work_scope self) ''work_scope'') (\<lambda>_.
           bindR (validate_request_namespace (ag_request_namespace self)) (\<lambda>_.
           if ag_registration_id self \<noteq> ch_registration_id challenge \<or> ag_adapter_nonce self \<noteq> ch_adapter_nonce challenge \<or>
              ag_runtime_epoch self \<noteq> ch_runtime_epoch challenge \<or> ag_worker_epoch self \<noteq> ch_worker_epoch challenge
           then Inl (AE_InvalidGrant ''provider grant does not match the adapter challenge'')
           else if \<not> grant_times_ok self now
           then Inl (AE_InvalidGrant ''provider grant timestamps are expired or outside the bounded lifetime'')
           else bindR (authority_validate (ag_authority self)) (\<lambda>_.
                let ttl = min (ap_ttl_seconds (ag_authority self)) (remaining_seconds self now);
                    authority = (ag_authority self)\<lparr>ap_ttl_seconds := ttl\<rparr>
                in if ttl = 0
                   then Inl (AE_InvalidGrant ''provider grant has no usable session lifetime'')
                   else Inr \<lparr>ac_policy = authority, ac_provider = Some (grant_metadata self), ac_provider_client = None\<rparr>))))))"

section \<open>Contexts\<close>

definition unsigned_development :: "authority_policy \<Rightarrow> authority_context" where
  "unsigned_development policy = \<lparr>ac_policy = policy, ac_provider = None, ac_provider_client = None\<rparr>"

definition with_provider :: "nat \<Rightarrow> authority_context \<Rightarrow> authority_context" where
  "with_provider provider self = self\<lparr>ac_provider_client := Some provider\<rparr>"

text \<open>The milliseconds since the epoch, \<open>None\<close> for a clock before it.\<close>

definition current_unix_ms :: "nat option \<Rightarrow> authority_error + u64" where
  "current_unix_ms clock =
     (case clock of
        None \<Rightarrow> Inl (AE_InvalidGrant ''system clock predates Unix epoch'')
      | Some ms \<Rightarrow> if ms < 2 ^ 64 then Inr (of_nat ms) else Inl (AE_InvalidGrant ''system time is out of range''))"

definition validate_provider ::
  "provider_answers \<Rightarrow> nat option \<Rightarrow> authority_context \<Rightarrow> (authority_provider_error + unit) option" where
  "validate_provider answers clock self =
     (case (ac_provider self, ac_provider_client self) of
        (Some metadata, Some provider) \<Rightarrow>
          (case current_unix_ms clock of
             Inl _ \<Rightarrow> Some (Inl PV_Unavailable)
           | Inr now \<Rightarrow> if gm_expires_at_unix_ms metadata \<le> now then Some (Inl PV_Denied) else answers provider metadata)
      | (Some _, None) \<Rightarrow> Some (Inl PV_Unavailable)
      | (None, _) \<Rightarrow> Some (Inr ()))"

text \<open>The trait's own \<^verbatim>\<open>validate\<close>.\<close>

definition default_provider_validate :: "authority_grant_metadata \<Rightarrow> authority_provider_error + unit" where
  "default_provider_validate _ = Inl PV_Denied"

fun strip_prefix :: "string \<Rightarrow> string \<Rightarrow> string option" where
  "strip_prefix [] v = Some v"
| "strip_prefix (p # ps) [] = None"
| "strip_prefix (p # ps) (c # cs) = (if p = c then strip_prefix ps cs else None)"

definition accepts_request_id :: "authority_context \<Rightarrow> string \<Rightarrow> bool" where
  "accepts_request_id self request_id =
     (case ac_provider self of
        None \<Rightarrow> True
      | Some metadata \<Rightarrow>
          (case strip_prefix (gm_request_namespace metadata) request_id of
             None \<Rightarrow> False
           | Some suffix \<Rightarrow> suffix \<noteq> [] \<and> hd suffix = CHR '':'' \<and> 1 < length suffix))"

definition valid_adapter_request_id :: "string \<Rightarrow> bool" where
  "valid_adapter_request_id v \<longleftrightarrow>
     v \<noteq> [] \<and> length v \<le> 128 \<and>
     list_all (\<lambda>b. is_ascii_alphanumeric b \<or> b = CHR ''-'' \<or> b = CHR ''_'' \<or> b = CHR ''.'' \<or> b = CHR '':'') v"

text \<open>The manifest of the adapter's session.\<close>

definition session_manifest :: "authority_policy \<Rightarrow> discovery_ref list \<Rightarrow> capability_manifest" where
  "session_manifest policy application_refs =
     \<lparr>cm_mode = ap_mode policy, cm_application_refs = application_refs, cm_allowed_actions = ap_allowed_actions policy,
      cm_allow_foreground_input = ap_allow_foreground_input policy,
      cm_restore_foreground_after_input = ap_restore_foreground_after_input policy,
      cm_allow_display_capture = ap_allow_display_capture policy,
      cm_allow_clipboard_read = ap_allow_clipboard_read policy,
      cm_allow_clipboard_write = ap_allow_clipboard_write policy, cm_ttl_seconds = ap_ttl_seconds policy\<rparr>"

section \<open>Facts\<close>

text \<open>What \<^const>\<open>authority_validate\<close> accepts.\<close>

definition authority_ok :: "authority_policy \<Rightarrow> bool" where
  "authority_ok p \<longleftrightarrow>
     ap_schema_version p = 1 \<and>
     (ap_application_ids p \<noteq> [] \<or> ap_allow_display_capture p \<or> ap_allow_clipboard_read p) \<and>
     length (ap_application_ids p) \<le> 32 \<and> distinct (ap_application_ids p) \<and>
     (\<forall>v \<in> set (ap_application_ids p). v \<noteq> [] \<and> trim v = v \<and> length v \<le> 512) \<and>
     length (ap_allowed_actions p) \<le> 32 \<and> distinct (ap_allowed_actions p) \<and>
     0 < ap_ttl_seconds p \<and> ap_ttl_seconds p \<le> 3600 \<and>
     (ap_mode p = ReadOnly \<longrightarrow> ap_allowed_actions p = [] \<and> \<not> ap_allow_foreground_input p \<and>
        \<not> ap_allow_clipboard_write p \<and> \<not> ap_allow_application_launch p) \<and>
     (ap_allow_clipboard_write p \<longrightarrow> ap_allow_clipboard_read p) \<and>
     (ap_allow_application_launch p \<longrightarrow> ap_application_ids p \<noteq> []) \<and>
     (ap_allow_application_launch_activation p \<longrightarrow> ap_allow_application_launch p) \<and>
     (ap_restore_foreground_after_input p \<longrightarrow> ap_allow_foreground_input p)"

lemma list_ex_identities:
  "\<not> list_ex (\<lambda>v. v = [] \<or> v \<noteq> trim v \<or> 512 < length v) vs \<longleftrightarrow>
     (\<forall>v \<in> set vs. v \<noteq> [] \<and> trim v = v \<and> length v \<le> 512)"
  by (auto simp: list_ex_iff not_less)

lemma authority_validate_Inr_iff: "authority_validate p = Inr () \<longleftrightarrow> authority_ok p"
proof -
  have words: "ap_ttl_seconds p = 0 \<or> 60 * 60 < ap_ttl_seconds p \<longleftrightarrow>
      \<not> (0 < ap_ttl_seconds p \<and> ap_ttl_seconds p \<le> 3600)"
    by (auto simp: not_le word_gt_0)
  show ?thesis
    unfolding authority_validate_def authority_ok_def list_ex_identities [symmetric]
      early_return_Inr all_unique_distinct MAX_APPLICATIONS_def MAX_APPLICATION_ID_BYTES_def MAX_AUTHORITY_ACTIONS_def
      MAX_TTL_SECONDS_def AUTHORITY_SCHEMA_VERSION_def words
    by (simp only: not_less [symmetric] not_not) blast
qed

lemma authority_ok_shorter:
  assumes "authority_ok p" "0 < ttl" "ttl \<le> ap_ttl_seconds p"
  shows "authority_ok (p\<lparr>ap_ttl_seconds := ttl\<rparr>)"
proof -
  have "ap_ttl_seconds p \<le> 3600" using assms(1) by (simp add: authority_ok_def)
  with assms(3) have "ttl \<le> 3600" by (rule order_trans)
  with assms(1,2) show ?thesis by (simp add: authority_ok_def)
qed

text \<open>The limits of a grant's times, over the natural numbers.\<close>

definition lifetime_ok :: "authority_grant \<Rightarrow> u64 \<Rightarrow> bool" where
  "lifetime_ok g now \<longleftrightarrow>
     unat (ag_issued_at_unix_ms g) \<le> unat now + 30000 \<and>
     unat (ag_issued_at_unix_ms g) < unat (ag_expires_at_unix_ms g) \<and>
     unat (ag_expires_at_unix_ms g) \<le> unat (ag_issued_at_unix_ms g) + 3600000 \<and>
     unat now + 1000 \<le> unat (ag_expires_at_unix_ms g)"

lemma unat_u64_saturating_add: "unat (u64_saturating_add a b) = min (unat a + unat b) (2 ^ 64 - 1)"
proof (cases "unat a + unat b < 2 ^ 64")
  case True
  then have "unat (a + b) = unat a + unat b" by (simp add: unat_word_ariths)
  with True show ?thesis by (simp add: u64_saturating_add_def)
next
  case False
  have "unat (- 1 :: u64) = 2 ^ 64 - 1"
    by (simp add: unsigned_minus_1_eq_mask mask_eq_exp_minus_1)
  with False show ?thesis by (simp add: u64_saturating_add_def)
qed

lemma unat_u64_saturating_sub: "unat (u64_saturating_sub a b) = unat a - unat b"
  by (auto simp: u64_saturating_sub_def word_le_nat_alt unat_sub)

lemma unat_u64_bound: "unat (a :: u64) \<le> 2 ^ 64 - 1"
  using unsigned_less [of a, where ?'a = nat] by simp

lemma ttl_millis: "unat (ucast MAX_TTL_SECONDS * 1000 :: u64) = 3600000"
  by (simp add: MAX_TTL_SECONDS_def)

lemma grant_times_ok_iff: "grant_times_ok g now \<longleftrightarrow> lifetime_ok g now"
proof -
  let ?i = "unat (ag_issued_at_unix_ms g)" and ?e = "unat (ag_expires_at_unix_ms g)"
  have skew: "unat (u64_saturating_add now MAX_CLOCK_SKEW_MS) < ?i \<longleftrightarrow> unat now + 30000 < ?i"
    using unat_u64_bound [of "ag_issued_at_unix_ms g"]
    by (simp add: unat_u64_saturating_add MAX_CLOCK_SKEW_MS_def min_less_iff_disj)
  show ?thesis
    unfolding grant_times_ok_def lifetime_ok_def word_le_nat_alt word_less_nat_alt skew ttl_millis
      unat_u64_saturating_sub MIN_REMAINING_GRANT_MS_def
    by auto
qed

lemma unat_remaining_seconds:
  "unat (remaining_seconds g now) = min ((unat (ag_expires_at_unix_ms g) - unat now) div 1000) 3600"
proof -
  let ?n = "unat (u64_saturating_sub (ag_expires_at_unix_ms g) now div 1000)"
  have n: "?n = (unat (ag_expires_at_unix_ms g) - unat now) div 1000"
    by (simp add: unat_div unat_u64_saturating_sub)
  have min_unat: "unat (min a b) = min (unat a) (unat b)" for a b :: u32
    by (simp add: min_def word_le_nat_alt)
  show ?thesis
  proof (cases "u32_try_from ?n")
    case None
    then have "u32_max < ?n" by (simp add: u32_try_from_def split: if_splits)
    then have "3600 \<le> ?n" by (simp add: u32_max_def)
    with None show ?thesis by (simp add: remaining_seconds_def MAX_TTL_SECONDS_def n)
  next
    case (Some w)
    then show ?thesis
      by (simp add: remaining_seconds_def min_unat unat_u32_try_from n MAX_TTL_SECONDS_def)
  qed
qed

text \<open>What \<^const>\<open>grant_resolve\<close> accepts.\<close>

definition binding_ok :: "string \<Rightarrow> bool" where
  "binding_ok v \<longleftrightarrow> v \<noteq> [] \<and> length v \<le> 256 \<and> trim v = v \<and> \<not> has_control v"

definition namespace_ok :: "string \<Rightarrow> bool" where
  "namespace_ok v \<longleftrightarrow> 16 \<le> length v \<and> length v \<le> 64 \<and>
     list_all (\<lambda>b. is_ascii_alphanumeric b \<or> b = CHR ''_'' \<or> b = CHR ''-'') v"

definition grant_ok :: "authority_grant \<Rightarrow> authority_challenge \<Rightarrow> u64 \<Rightarrow> bool" where
  "grant_ok g c now \<longleftrightarrow>
     ag_schema_version g = 1 \<and> binding_ok (ag_provider_id g) \<and> binding_ok (ag_principal g) \<and> binding_ok (ag_work_scope g) \<and>
     namespace_ok (ag_request_namespace g) \<and> ag_registration_id g = ch_registration_id c \<and>
     ag_adapter_nonce g = ch_adapter_nonce c \<and> ag_runtime_epoch g = ch_runtime_epoch c \<and>
     ag_worker_epoch g = ch_worker_epoch c \<and> lifetime_ok g now \<and> authority_ok (ag_authority g)"

lemma validate_binding_Inr_iff: "validate_binding v field = Inr () \<longleftrightarrow> binding_ok v"
  unfolding validate_binding_def binding_ok_def MAX_BINDING_BYTES_def early_return_Inr eq_commute [of v "trim v"]
  by (simp only: not_less [symmetric]) blast

lemma validate_request_namespace_Inr_iff: "validate_request_namespace v = Inr () \<longleftrightarrow> namespace_ok v"
  unfolding validate_request_namespace_def namespace_ok_def MAX_REQUEST_NAMESPACE_BYTES_def early_return_Inr
  by (simp only: not_less [symmetric]) blast

lemma bindR_unit_Inr: "bindR r (\<lambda>_ :: unit. k) = Inr x \<longleftrightarrow> r = Inr () \<and> k = Inr x"
  by (simp add: bindR_eq_Inr)

text \<open>The session lifetime that a grant leaves.\<close>

definition session_ttl :: "authority_grant \<Rightarrow> u64 \<Rightarrow> u32" where
  "session_ttl g now = min (ap_ttl_seconds (ag_authority g)) (remaining_seconds g now)"

lemma min_unat_u32: "unat (min a b) = min (unat a) (unat b)" for a b :: u32
  by (simp add: min_def word_le_nat_alt)

lemma unat_session_ttl:
  "unat (session_ttl g now) =
     min (unat (ap_ttl_seconds (ag_authority g))) (min ((unat (ag_expires_at_unix_ms g) - unat now) div 1000) 3600)"
  by (simp add: session_ttl_def min_unat_u32 unat_remaining_seconds)

lemma session_ttl_pos:
  assumes "lifetime_ok g now" "authority_ok (ag_authority g)"
  shows "0 < session_ttl g now"
proof -
  have "0 < unat (ap_ttl_seconds (ag_authority g))"
    using assms(2) by (simp add: authority_ok_def word_less_nat_alt)
  moreover have "1000 \<le> unat (ag_expires_at_unix_ms g) - unat now"
    using assms(1) unfolding lifetime_ok_def by linarith
  then have "0 < (unat (ag_expires_at_unix_ms g) - unat now) div 1000" by (simp add: div_greater_zero_iff)
  ultimately show ?thesis by (simp add: word_less_nat_alt unat_session_ttl)
qed

definition resolved_context :: "authority_grant \<Rightarrow> u64 \<Rightarrow> authority_context" where
  "resolved_context g now =
     \<lparr>ac_policy = (ag_authority g)\<lparr>ap_ttl_seconds := session_ttl g now\<rparr>, ac_provider = Some (grant_metadata g),
      ac_provider_client = None\<rparr>"

lemma grant_resolve_Inr_iff:
  "grant_resolve g c now = Inr ctx \<longleftrightarrow> grant_ok g c now \<and> ctx = resolved_context g now"
proof -
  have ttl: "session_ttl g now \<noteq> 0" if "lifetime_ok g now" "authority_ok (ag_authority g)"
    using session_ttl_pos [OF that] by simp
  have "grant_resolve g c now = Inr ctx \<longleftrightarrow> grant_ok g c now \<and> session_ttl g now \<noteq> 0 \<and> ctx = resolved_context g now"
    unfolding grant_resolve_def early_return_Inr bindR_unit_Inr Let_def session_ttl_def [symmetric]
      validate_binding_Inr_iff validate_request_namespace_Inr_iff authority_validate_Inr_iff grant_times_ok_iff
      PROVIDER_GRANT_SCHEMA_VERSION_def grant_ok_def resolved_context_def [symmetric] sum.inject
    by blast
  then show ?thesis using ttl by (auto simp: grant_ok_def)
qed

text \<open>
  Claim C20. A provider's grant is resolved exactly when it answers this adapter's challenge, its
  bindings are normalized, its times lie within the clock skew and the lifetime bound, and its
  authority is well formed. What it resolves to is that authority with only its lifetime changed:
  the session lives for at least a second and at most the granted lifetime, it ends before the
  grant expires, and the authority is still well formed.
\<close>

theorem resolve_exact:
  "case grant_resolve g c now of
     Inl _ \<Rightarrow> \<not> grant_ok g c now
   | Inr ctx \<Rightarrow>
       grant_ok g c now \<and> ac_provider ctx = Some (grant_metadata g) \<and> ac_provider_client ctx = None \<and>
       authority_validate (ac_policy ctx) = Inr () \<and>
       (ac_policy ctx)\<lparr>ap_ttl_seconds := ap_ttl_seconds (ag_authority g)\<rparr> = ag_authority g \<and>
       0 < ap_ttl_seconds (ac_policy ctx) \<and> ap_ttl_seconds (ac_policy ctx) \<le> ap_ttl_seconds (ag_authority g) \<and>
       unat now + 1000 * unat (ap_ttl_seconds (ac_policy ctx)) \<le> unat (ag_expires_at_unix_ms g)"
proof (cases "grant_resolve g c now")
  case (Inl e)
  then have "\<not> grant_ok g c now" using grant_resolve_Inr_iff [of g c now "resolved_context g now"] by auto
  with Inl show ?thesis by simp
next
  case (Inr ctx)
  then have ok: "grant_ok g c now" and ctx: "ctx = resolved_context g now" by (simp_all add: grant_resolve_Inr_iff)
  from ok have life: "lifetime_ok g now" and auth: "authority_ok (ag_authority g)" by (simp_all add: grant_ok_def)
  have ttl: "0 < session_ttl g now" by (rule session_ttl_pos [OF life auth])
  have le: "session_ttl g now \<le> ap_ttl_seconds (ag_authority g)" by (simp add: session_ttl_def)
  have "unat (session_ttl g now) \<le> (unat (ag_expires_at_unix_ms g) - unat now) div 1000" by (simp add: unat_session_ttl)
  then have "unat now + 1000 * unat (session_ttl g now) \<le> unat (ag_expires_at_unix_ms g)"
    using life unfolding lifetime_ok_def by linarith
  then show ?thesis
    using Inr ok ttl le authority_ok_shorter [OF auth ttl le]
    by (simp add: ctx resolved_context_def authority_validate_Inr_iff)
qed

lemma strip_prefix_Some_iff: "strip_prefix p v = Some s \<longleftrightarrow> v = p @ s"
  by (induction p v rule: strip_prefix.induct) auto

lemma accepts_request_id_iff:
  "accepts_request_id ctx r \<longleftrightarrow>
     (case ac_provider ctx of None \<Rightarrow> True
      | Some m \<Rightarrow> \<exists>s. s \<noteq> [] \<and> r = gm_request_namespace m @ CHR '':'' # s)"
proof (cases "ac_provider ctx")
  case (Some m)
  show ?thesis
  proof (cases "strip_prefix (gm_request_namespace m) r")
    case None
    then have "r \<noteq> gm_request_namespace m @ s" for s using strip_prefix_Some_iff [of "gm_request_namespace m" r s] by simp
    with None Some show ?thesis by (simp add: accepts_request_id_def)
  next
    case suffix: (Some s)
    then have "r = gm_request_namespace m @ s" by (simp add: strip_prefix_Some_iff)
    with Some suffix show ?thesis by (cases s) (auto simp: accepts_request_id_def)
  qed
qed (simp add: accepts_request_id_def)

lemma namespace_no_colon: "namespace_ok v \<Longrightarrow> CHR '':'' \<notin> set v"
proof -
  have "\<not> (is_ascii_alphanumeric (CHR '':'') \<or> CHR '':'' = CHR ''_'' \<or> CHR '':'' = CHR ''-'')" by code_simp
  then show "namespace_ok v \<Longrightarrow> CHR '':'' \<notin> set v" by (auto simp: namespace_ok_def list_all_iff)
qed

lemma separator_unique: "c \<notin> set xs \<Longrightarrow> c \<notin> set ys \<Longrightarrow> xs @ c # as = ys @ c # bs \<Longrightarrow> xs = ys"
proof (induction xs arbitrary: ys)
  case Nil
  then show ?case by (cases ys) auto
next
  case (Cons x xs)
  then show ?case by (cases ys) auto
qed

text \<open>A grant that resolves.\<close>

definition example_authority :: authority_policy where
  "example_authority =
     \<lparr>ap_schema_version = 1, ap_mode = Bounded, ap_application_ids = [''com.example.Fixture''],
      ap_allowed_actions = [K_ClickPoint], ap_allow_foreground_input = True, ap_restore_foreground_after_input = True,
      ap_allow_display_capture = True, ap_allow_clipboard_read = False, ap_allow_clipboard_write = False,
      ap_allow_application_launch = True, ap_allow_application_launch_activation = True, ap_ttl_seconds = 300\<rparr>"

definition example_challenge :: authority_challenge where
  "example_challenge =
     \<lparr>ch_registration_id = ''host'', ch_adapter_nonce = ''adapter_1'', ch_runtime_epoch = ''epoch'', ch_worker_epoch = None\<rparr>"

definition example_grant :: "string \<Rightarrow> authority_grant" where
  "example_grant provider =
     \<lparr>ag_schema_version = 1, ag_provider_id = provider, ag_registration_id = ''host'', ag_adapter_nonce = ''adapter_1'',
      ag_runtime_epoch = ''epoch'', ag_worker_epoch = None, ag_principal = ''user'', ag_work_scope = ''desk'',
      ag_request_namespace = ''namespace_0123456'', ag_issued_at_unix_ms = 1000000, ag_expires_at_unix_ms = 1060000,
      ag_authority = example_authority\<rparr>"

lemma example_authority_ok: "authority_ok example_authority"
  unfolding authority_validate_Inr_iff [symmetric] by code_simp

lemma example_grant_ok:
  assumes "binding_ok p" "1000000 \<le> unat now" "unat now \<le> 1059000"
  shows "grant_ok (example_grant p) example_challenge now"
proof -
  have "binding_ok ''user''" "binding_ok ''desk''" "namespace_ok ''namespace_0123456''" by code_simp+
  with assms show ?thesis
    by (simp add: grant_ok_def example_grant_def example_challenge_def example_authority_ok lifetime_ok_def)
qed

lemma example_provider: "binding_ok ''a''" "binding_ok ''b''"
  by code_simp+

text \<open>
  Claim C21. The namespaces of two provider grants separate their requests: a request identity that
  two resolved adapters both accept carries the one namespace of both, and an adapter accepts no
  identity without its namespace and a colon.
\<close>

theorem request_namespaces_disjoint:
  assumes "grant_resolve g c now = Inr ctx" "grant_resolve g' c' now' = Inr ctx'"
    and "accepts_request_id ctx r" "accepts_request_id ctx' r"
  shows "ag_request_namespace g = ag_request_namespace g' \<and> (\<exists>s. s \<noteq> [] \<and> r = ag_request_namespace g @ CHR '':'' # s)"
proof -
  have ok: "grant_ok g c now" "grant_ok g' c' now'" and ctx: "ctx = resolved_context g now" "ctx' = resolved_context g' now'"
    using assms(1,2) by (simp_all add: grant_resolve_Inr_iff)
  obtain s s' where r: "s \<noteq> []" "r = ag_request_namespace g @ CHR '':'' # s" "r = ag_request_namespace g' @ CHR '':'' # s'"
    using assms(3,4) by (auto simp: accepts_request_id_iff ctx resolved_context_def grant_metadata_def)
  have "CHR '':'' \<notin> set (ag_request_namespace g)" "CHR '':'' \<notin> set (ag_request_namespace g')"
    using ok by (simp_all add: grant_ok_def namespace_no_colon)
  then have "ag_request_namespace g = ag_request_namespace g'" using r(2,3) separator_unique by metis
  then show ?thesis using r by blast
qed

theorem request_namespaces_disjoint_witness:
  "ag_request_namespace (example_grant ''a'') = ag_request_namespace (example_grant ''b'') \<and>
   (\<exists>s. s \<noteq> [] \<and> ''namespace_0123456:click-1'' = ag_request_namespace (example_grant ''a'') @ CHR '':'' # s)"
proof (rule request_namespaces_disjoint)
  show "grant_resolve (example_grant ''a'') example_challenge 1001000 = Inr (resolved_context (example_grant ''a'') 1001000)"
    by (simp add: grant_resolve_Inr_iff example_grant_ok example_provider)
  show "grant_resolve (example_grant ''b'') example_challenge 1002000 = Inr (resolved_context (example_grant ''b'') 1002000)"
    by (simp add: grant_resolve_Inr_iff example_grant_ok example_provider)
  show "accepts_request_id (resolved_context (example_grant ''a'') 1001000) ''namespace_0123456:click-1''"
    by (simp add: accepts_request_id_def resolved_context_def grant_metadata_def example_grant_def)
  show "accepts_request_id (resolved_context (example_grant ''b'') 1002000) ''namespace_0123456:click-1''"
    by (simp add: accepts_request_id_def resolved_context_def grant_metadata_def example_grant_def)
qed

text \<open>
  Claim C22. The manifest that the adapter opens its session with is one the runtime admits: every
  validated authority, over any bounded set of distinct well-formed references of running
  applications, passes the validation of the runtime whose limit covers the lifetime, unless it has
  neither an application, nor display capture, nor clipboard access.
\<close>

theorem authority_manifest_admitted:
  assumes "authority_validate p = Inr ()"
    and "refs \<noteq> [] \<or> ap_allow_display_capture p \<or> ap_allow_clipboard_read p"
    and "length refs \<le> 128" "distinct refs" "list_all well_formed_ref refs"
    and "sum_list (map (\<lambda>v. length (discovery_ref_str v)) refs) \<le> 32768"
    and "ap_ttl_seconds p \<le> max_ttl"
  shows "validate_manifest (session_manifest p refs) max_ttl = Inr ()"
proof -
  have "authority_ok p" using assms(1) by (simp add: authority_validate_Inr_iff)
  then show ?thesis
    using assms(2-) by (simp add: validate_manifest_Inr_iff manifest_ok_def session_manifest_def authority_ok_def list_all_iff)
qed

theorem authority_manifest_admitted_witness:
  "validate_manifest (session_manifest example_authority [DiscoveryRef ''app_1'']) 300 = Inr ()"
proof (rule authority_manifest_admitted)
  show "authority_validate example_authority = Inr ()" by code_simp
  show "list_all well_formed_ref [DiscoveryRef ''app_1'']" by code_simp
  show "ap_ttl_seconds example_authority \<le> 300" by code_simp
qed simp_all

end
