(* ===== verification/McpImages.thy ===== *)
theory McpImages
  imports McpAuthority Artifacts
begin

text \<open>
  The images of the MCP adapter (mcp/src/server.rs): the cache of the latest screenshots and of the
  views that were cropped from them, the regions and points of a view, and the crop itself. The PNG
  decoder and encoder are parameters.
\<close>

section \<open>The cache\<close>

type_synonym u16 = "16 word"

definition MAX_CACHED_IMAGE_MAPPINGS :: nat where "MAX_CACHED_IMAGE_MAPPINGS = 32"
definition MAX_CACHED_IMAGE_BYTES :: u64 where "MAX_CACHED_IMAGE_BYTES = 32 * 1024 * 1024"
definition MAX_CACHED_REGION_VIEWS :: nat where "MAX_CACHED_REGION_VIEWS = 32"
definition MAX_DECODED_IMAGE_BYTES :: nat where "MAX_DECODED_IMAGE_BYTES = 128 * 1024 * 1024"
definition NORMALIZED_COORDINATE_MAX :: u16 where "NORMALIZED_COORDINATE_MAX = 1000"

record pixel_rect =
  pr_x :: u32
  pr_y :: u32
  pr_width :: u32
  pr_height :: u32

record cached_image =
  ci_window_ref :: window_ref
  ci_mapping :: screenshot_mapping
  ci_bytes :: bytes

record region_view =
  rv_observation_id :: observation_id
  rv_window_ref :: window_ref
  rv_source_rect :: pixel_rect
  rv_source_size :: pixel_size

record image_mapping_cache =
  ic_entries :: "(observation_id, cached_image) hm"
  ic_order :: "observation_id list"
  ic_cached_bytes :: u64
  ic_views :: "(string, region_view) hm"
  ic_view_order :: "string list"

definition default_cache :: image_mapping_cache where
  "default_cache = \<lparr>ic_entries = [], ic_order = [], ic_cached_bytes = 0, ic_views = [], ic_view_order = []\<rparr>"

definition cache_clear :: "image_mapping_cache \<Rightarrow> image_mapping_cache" where
  "cache_clear self =
     self\<lparr>ic_entries := [], ic_order := [], ic_cached_bytes := 0, ic_views := [], ic_view_order := []\<rparr>"

text \<open>\<^verbatim>\<open>u64::try_from(bytes.len()).unwrap_or(u64::MAX)\<close>.\<close>

definition u64_length :: "bytes \<Rightarrow> u64" where
  "u64_length b = (if length b < 2 ^ 64 then of_nat (length b) else - 1)"

definition invalidate_window :: "window_ref \<Rightarrow> image_mapping_cache \<Rightarrow> image_mapping_cache" where
  "invalidate_window w self =
     (let removed_bytes = fold (\<lambda>img acc. u64_saturating_add acc (u64_length (ci_bytes img)))
            (filter (\<lambda>img. ci_window_ref img = w) (hm_values (ic_entries self))) 0;
          entries = hm_retain (\<lambda>_ img. ci_window_ref img \<noteq> w) (ic_entries self);
          views = hm_retain (\<lambda>_ view. rv_window_ref view \<noteq> w) (ic_views self)
      in \<lparr>ic_entries = entries, ic_order = filter (\<lambda>k. hm_get entries k \<noteq> None) (ic_order self),
          ic_cached_bytes = u64_saturating_sub (ic_cached_bytes self) removed_bytes, ic_views = views,
          ic_view_order = filter (\<lambda>k. hm_get views k \<noteq> None) (ic_view_order self)\<rparr>)"

text \<open>The loop that makes room, over the queue of the oldest observations.\<close>

fun evict_images ::
  "u64 \<Rightarrow> observation_id list \<Rightarrow> (observation_id, cached_image) hm \<Rightarrow> u64 \<Rightarrow>
   observation_id list \<times> (observation_id, cached_image) hm \<times> u64" where
  "evict_images byte_length order entries cached =
     (if MAX_CACHED_IMAGE_MAPPINGS \<le> hm_len entries \<or> MAX_CACHED_IMAGE_BYTES < u64_saturating_add cached byte_length
      then (case order of
              [] \<Rightarrow> (order, entries, cached)
            | stale # rest \<Rightarrow>
                (case hm_get entries stale of
                   None \<Rightarrow> evict_images byte_length rest entries cached
                 | Some removed \<Rightarrow>
                     evict_images byte_length rest (hm_remove stale entries)
                       (u64_saturating_sub cached (u64_length (ci_bytes removed)))))
      else (order, entries, cached))"

declare evict_images.simps [simp del]

definition cache_insert ::
  "observation_id \<Rightarrow> window_ref \<Rightarrow> screenshot_mapping \<Rightarrow> bytes \<Rightarrow> image_mapping_cache \<Rightarrow> image_mapping_cache" where
  "cache_insert observation_id w mapping b self =
     (let cleared = invalidate_window w self; byte_length = u64_length b
      in case evict_images byte_length (ic_order cleared) (ic_entries cleared) (ic_cached_bytes cleared) of
           (order, entries, cached) \<Rightarrow>
             cleared\<lparr>ic_order := order @ [observation_id], ic_cached_bytes := u64_saturating_add cached byte_length,
                     ic_entries := hm_insert observation_id
                       \<lparr>ci_window_ref = w, ci_mapping = mapping, ci_bytes = b\<rparr> entries\<rparr>)"

definition cache_get :: "observation_id \<Rightarrow> window_ref \<Rightarrow> image_mapping_cache \<Rightarrow> cached_image option" where
  "cache_get observation_id w self =
     (case hm_get (ic_entries self) observation_id of
        None \<Rightarrow> None
      | Some img \<Rightarrow> if ci_window_ref img = w then Some img else None)"

fun evict_views :: "string list \<Rightarrow> (string, region_view) hm \<Rightarrow> string list \<times> (string, region_view) hm" where
  "evict_views order views =
     (if MAX_CACHED_REGION_VIEWS \<le> hm_len views
      then (case order of
              [] \<Rightarrow> (order, views)
            | stale # rest \<Rightarrow> evict_views rest (hm_remove stale views))
      else (order, views))"

declare evict_views.simps [simp del]

definition insert_view :: "string \<Rightarrow> region_view \<Rightarrow> image_mapping_cache \<Rightarrow> image_mapping_cache" where
  "insert_view view_ref view self =
     (case evict_views (ic_view_order self) (ic_views self) of
        (order, views) \<Rightarrow> self\<lparr>ic_view_order := order @ [view_ref], ic_views := hm_insert view_ref view views\<rparr>)"

definition get_view :: "string \<Rightarrow> image_mapping_cache \<Rightarrow> region_view option" where
  "get_view view_ref self = hm_get (ic_views self) view_ref"

section \<open>Points and regions\<close>

definition u32_saturating_add :: "u32 \<Rightarrow> u32 \<Rightarrow> u32" where
  "u32_saturating_add a b = (if unat a + unat b < 2 ^ 32 then a + b else - 1)"

definition normalized_axis :: "u16 \<Rightarrow> u32 \<Rightarrow> u32" where
  "normalized_axis v len =
     u32_saturating_from (unat ((ucast v * ucast (saturating_sub_u32 len 1) + 500) div 1000 :: u64))"

definition normalized_view_point :: "u16 \<Rightarrow> u16 \<Rightarrow> pixel_rect \<Rightarrow> screenshot_point" where
  "normalized_view_point x y rect =
     \<lparr>px_x = u32_saturating_add (pr_x rect) (normalized_axis x (pr_width rect)),
      px_y = u32_saturating_add (pr_y rect) (normalized_axis y (pr_height rect))\<rparr>"

definition region_start :: "u16 \<Rightarrow> u32 \<Rightarrow> u32 option" where
  "region_start v len = u32_try_from (unat (ucast v * ucast len div 1000 :: u64))"

definition region_limit :: "u16 \<Rightarrow> u32 \<Rightarrow> u32 option" where
  "region_limit v len =
     map_option (\<lambda>edge. min edge len) (u32_try_from (unat (div_ceil_u64 (ucast v * ucast len) 1000)))"

definition checked_sub_u32 :: "u32 \<Rightarrow> u32 \<Rightarrow> u32 option" where
  "checked_sub_u32 a b = (if b \<le> a then Some (a - b) else None)"

definition normalized_region :: "u16 \<Rightarrow> u16 \<Rightarrow> u16 \<Rightarrow> u16 \<Rightarrow> pixel_size \<Rightarrow> pixel_rect option" where
  "normalized_region l t r b sz =
     (if NORMALIZED_COORDINATE_MAX < r \<or> NORMALIZED_COORDINATE_MAX < b \<or> r \<le> l \<or> b \<le> t \<or>
         ps_width sz = 0 \<or> ps_height sz = 0
      then None
      else Option.bind (region_start l (ps_width sz)) (\<lambda>x.
           Option.bind (region_start t (ps_height sz)) (\<lambda>y.
           Option.bind (region_limit r (ps_width sz)) (\<lambda>x_end.
           Option.bind (region_limit b (ps_height sz)) (\<lambda>y_end.
           Option.bind (checked_sub_u32 x_end x) (\<lambda>w.
           Option.bind (checked_sub_u32 y_end y) (\<lambda>h.
           if 0 < w \<and> 0 < h then Some \<lparr>pr_x = x, pr_y = y, pr_width = w, pr_height = h\<rparr> else None)))))))"

section \<open>Crops\<close>

datatype image_error =
    TooLarge nat u64
  | DecodedImageTooLarge
  | UnexpectedFormat
  | PngDecode string
  | PngEncode string

text \<open>What the decoder of a PNG reports, and the frame that it writes into the buffer it is given.\<close>

record png_frame =
  pf_width :: u32
  pf_height :: u32
  pf_rgba :: bool
  pf_eight_bits :: bool
  pf_buffer_size :: nat
  pf_data :: bytes

record png_reader =
  pd_output_buffer_size :: "nat option"
  pd_next_frame :: "string + png_frame"

definition write_frame :: "nat \<Rightarrow> bytes \<Rightarrow> bytes" where
  "write_frame n content = take n content @ replicate (n - length content) 0"

definition crop_row :: "nat \<Rightarrow> nat \<Rightarrow> u32 \<Rightarrow> bytes \<Rightarrow> u32 \<Rightarrow> image_error + bytes" where
  "crop_row source_stride crop_stride x pixels row =
     bindR (ok_or UnexpectedFormat
              (Option.bind (checked_mul_u64 (unat row) source_stride) (\<lambda>offset.
               Option.bind (checked_mul_u64 (unat x) 4) (\<lambda>column. checked_add_usize offset column)))) (\<lambda>start.
     bindR (ok_or UnexpectedFormat
              (Option.bind (checked_add_usize start crop_stride) (\<lambda>stop.
               if stop \<le> length pixels then Some stop else None))) (\<lambda>stop.
     Inr (take (stop - start) (drop start pixels))))"

fun crop_rows :: "nat \<Rightarrow> nat \<Rightarrow> u32 \<Rightarrow> bytes \<Rightarrow> nat list \<Rightarrow> image_error + bytes" where
  "crop_rows source_stride crop_stride x pixels [] = Inr []"
| "crop_rows source_stride crop_stride x pixels (row # rows) =
     bindR (crop_row source_stride crop_stride x pixels (of_nat row)) (\<lambda>b.
     bindR (crop_rows source_stride crop_stride x pixels rows) (\<lambda>bs. Inr (b @ bs)))"

definition crop_png ::
  "(bytes \<Rightarrow> string + png_reader) \<Rightarrow> (u32 \<Rightarrow> u32 \<Rightarrow> bytes \<Rightarrow> string + bytes) \<Rightarrow> bytes \<Rightarrow> pixel_size \<Rightarrow> pixel_rect \<Rightarrow> u64 \<Rightarrow>
   image_error + bytes" where
  "crop_png decoder encoder input_png expected_size rect max_encoded_bytes =
     bindR (ok_or DecodedImageTooLarge
              (Option.bind (checked_mul_u64 (unat (ps_width expected_size)) (unat (ps_height expected_size))) (\<lambda>pixels.
               Option.bind (checked_mul_u64 pixels 4) (\<lambda>n. if n \<le> MAX_DECODED_IMAGE_BYTES then Some n else None)))) (\<lambda>expected_decoded.
     bindR (map_err PngDecode (decoder input_png)) (\<lambda>reader.
     if pd_output_buffer_size reader \<noteq> Some expected_decoded then Inl UnexpectedFormat
     else bindR (map_err PngDecode (pd_next_frame reader)) (\<lambda>info.
     if pf_width info \<noteq> ps_width expected_size \<or> pf_height info \<noteq> ps_height expected_size \<or> \<not> pf_rgba info \<or>
        \<not> pf_eight_bits info \<or> pf_buffer_size info \<noteq> expected_decoded
     then Inl UnexpectedFormat
     else bindR (ok_or DecodedImageTooLarge (checked_mul_u64 (unat (ps_width expected_size)) 4)) (\<lambda>source_stride.
     bindR (ok_or DecodedImageTooLarge (checked_mul_u64 (unat (pr_width rect)) 4)) (\<lambda>crop_stride.
     bindR (ok_or DecodedImageTooLarge (checked_mul_u64 (unat (pr_height rect)) crop_stride)) (\<lambda>crop_bytes.
     bindR (crop_rows source_stride crop_stride (pr_x rect) (write_frame expected_decoded (pf_data info))
              [unat (pr_y rect) ..< unat (u32_saturating_add (pr_y rect) (pr_height rect))]) (\<lambda>cropped.
     if length cropped \<noteq> crop_bytes then Inl UnexpectedFormat
     else bindR (map_err PngEncode (encoder (pr_width rect) (pr_height rect) cropped)) (\<lambda>output.
     if unat max_encoded_bytes < length output then Inl (TooLarge (length output) max_encoded_bytes)
     else Inr output))))))))"

section \<open>Facts about the cache\<close>

text \<open>The bytes that are held.\<close>

definition held :: "(observation_id, cached_image) hm \<Rightarrow> nat" where
  "held m = (\<Sum>(k, img) \<leftarrow> m. length (ci_bytes img))"

lemma held_simps [simp]: "held [] = 0" "held ((k, img) # m) = length (ci_bytes img) + held m"
  by (simp_all add: held_def)

lemma unat_u64_length: "unat (u64_length b) = min (length b) (2 ^ 64 - 1)"
proof (cases "length b < 2 ^ 64")
  case True
  then show ?thesis by (simp add: u64_length_def unat_of_nat)
next
  case False
  have "unat (- 1 :: u64) = 2 ^ 64 - 1" by (simp add: unsigned_minus_1_eq_mask mask_eq_exp_minus_1)
  with False show ?thesis by (simp add: u64_length_def)
qed

lemma unat_removed:
  "unat (fold (\<lambda>img acc. u64_saturating_add acc (u64_length (ci_bytes img))) xs acc) =
     min (unat acc + (\<Sum>img \<leftarrow> xs. length (ci_bytes img))) (2 ^ 64 - 1)"
proof (induction xs arbitrary: acc)
  case Nil
  show ?case using unat_u64_bound [of acc] by simp
next
  case (Cons img xs)
  show ?case by (simp add: Cons unat_u64_saturating_add unat_u64_length min_def)
qed

lemma held_retain:
  "held (hm_retain (\<lambda>_ img. \<not> P img) m) + (\<Sum>img \<leftarrow> filter P (hm_values m). length (ci_bytes img)) = held m"
  by (induction m) (auto simp: hm_retain_def hm_values_def)

lemma held_remove:
  "hm_wf m \<Longrightarrow> hm_get m k = Some img \<Longrightarrow> held (hm_remove k m) + length (ci_bytes img) = held m"
proof (induction m)
  case (Cons x m)
  obtain k' v where x: "x = (k', v)" by (cases x)
  show ?case
  proof (cases "k' = k")
    case True
    then have "hm_get m k = None" using Cons.prems(1) x by (simp add: hm_wf_def hm_get_None_iff)
    then have "hm_remove k m = m" by (simp add: hm_remove_def hm_get_None_iff delete_id)
    then show ?thesis using True Cons.prems(2) x by (simp add: hm_remove_def hm_get_def)
  next
    case False
    then show ?thesis using Cons x by (simp add: hm_remove_def hm_get_def hm_wf_def)
  qed
qed simp

lemma held_insert: "held (hm_insert k img m) \<le> held m + length (ci_bytes img)"
  by (induction m) (auto simp: hm_insert_def)

lemma MAX_CACHED_IMAGE_BYTES_unat: "unat MAX_CACHED_IMAGE_BYTES = 33554432"
  by (simp add: MAX_CACHED_IMAGE_BYTES_def)

text \<open>The invariant: the queues cover the maps, which are within their bounds.\<close>

definition covered :: "'k list \<Rightarrow> ('k, 'v) hm \<Rightarrow> bool" where
  "covered order m \<longleftrightarrow> hm_wf m \<and> set (hm_keys m) \<subseteq> set order"

definition one_per_window :: "(observation_id, cached_image) hm \<Rightarrow> bool" where
  "one_per_window m \<longleftrightarrow>
     (\<forall>k img k' img'. hm_get m k = Some img \<longrightarrow> hm_get m k' = Some img' \<longrightarrow> ci_window_ref img = ci_window_ref img' \<longrightarrow> k = k')"

definition images_ok :: "observation_id list \<Rightarrow> (observation_id, cached_image) hm \<Rightarrow> u64 \<Rightarrow> bool" where
  "images_ok order m cached \<longleftrightarrow>
     covered order m \<and> one_per_window m \<and> held m \<le> unat cached \<and> held m \<le> 33554432 \<and> hm_len m \<le> 32"

definition cache_ok :: "image_mapping_cache \<Rightarrow> bool" where
  "cache_ok c \<longleftrightarrow>
     images_ok (ic_order c) (ic_entries c) (ic_cached_bytes c) \<and> covered (ic_view_order c) (ic_views c) \<and>
     hm_len (ic_views c) \<le> 32"

lemma keys_get: "k \<in> set (hm_keys m) \<longleftrightarrow> hm_get m k \<noteq> None"
  by (simp add: hm_keys_def hm_get_None_iff)

lemma coveredI: "hm_wf m \<Longrightarrow> (\<And>k. hm_get m k \<noteq> None \<Longrightarrow> k \<in> set order) \<Longrightarrow> covered order m"
  by (auto simp: covered_def keys_get)

lemma coveredD: "covered order m \<Longrightarrow> hm_wf m" "covered order m \<Longrightarrow> hm_get m k \<noteq> None \<Longrightarrow> k \<in> set order"
  by (auto simp: covered_def keys_get)

lemma covered_retain:
  "covered order m \<Longrightarrow> covered (filter (\<lambda>k. hm_get (hm_retain P m) k \<noteq> None) order) (hm_retain P m)"
  by (rule coveredI) (auto simp: coveredD(1) hm_get_retain dest: coveredD(2) split: option.splits if_splits)

lemma covered_pop: "covered (k # rest) m \<Longrightarrow> covered rest (hm_remove k m)"
  by (rule coveredI) (auto simp: coveredD(1) dest: coveredD(2) split: if_splits)

lemma covered_insert: "covered order m \<Longrightarrow> covered (order @ [k]) (hm_insert k v m)"
  by (rule coveredI) (auto simp: coveredD(1) dest: coveredD(2) split: if_splits)

lemma covered_Nil: "covered [] m \<Longrightarrow> m = []"
  by (simp add: covered_def hm_keys_def)

lemma hm_remove_absent: "hm_get m k = None \<Longrightarrow> hm_remove k m = m"
  by (simp add: hm_remove_def hm_get_None_iff delete_id)

lemma one_per_window_sub:
  assumes "one_per_window m" "\<And>k img. hm_get m' k = Some img \<Longrightarrow> hm_get m k = Some img"
  shows "one_per_window m'"
  using assms unfolding one_per_window_def by blast

lemma one_per_window_insert:
  assumes "one_per_window m" "\<And>k' img'. hm_get m k' = Some img' \<Longrightarrow> ci_window_ref img' \<noteq> ci_window_ref img"
  shows "one_per_window (hm_insert k img m)"
  unfolding one_per_window_def
proof (intro allI impI)
  fix a x b y
  assume a: "hm_get (hm_insert k img m) a = Some x" and b: "hm_get (hm_insert k img m) b = Some y"
    and w: "ci_window_ref x = ci_window_ref y"
  show "a = b"
  proof (cases "a = k"; cases "b = k")
    assume "a \<noteq> k" "b \<noteq> k"
    then have "hm_get m a = Some x" "hm_get m b = Some y" using a b by simp_all
    then show ?thesis using assms(1) w unfolding one_per_window_def by blast
  next
    assume "a = k" "b \<noteq> k"
    then have "x = img" "hm_get m b = Some y" using a b by simp_all
    then show ?thesis using assms(2) [of b y] w by simp
  next
    assume "a \<noteq> k" "b = k"
    then have "y = img" "hm_get m a = Some x" using a b by simp_all
    then show ?thesis using assms(2) [of a x] w by simp
  qed simp
qed

lemma images_retain:
  fixes w :: window_ref
  assumes "images_ok order m cached"
  defines "m' \<equiv> hm_retain (\<lambda>_ img. ci_window_ref img \<noteq> w) m"
  shows "images_ok (filter (\<lambda>k. hm_get m' k \<noteq> None) order) m'
     (u64_saturating_sub cached (fold (\<lambda>img acc. u64_saturating_add acc (u64_length (ci_bytes img)))
        (filter (\<lambda>img. ci_window_ref img = w) (hm_values m)) 0))"
proof -
  have ok: "covered order m" "one_per_window m" "held m \<le> unat cached" "held m \<le> 33554432" "hm_len m \<le> 32"
    using assms(1) by (simp_all add: images_ok_def)
  let ?r = "\<Sum>img \<leftarrow> filter (\<lambda>img. ci_window_ref img = w) (hm_values m). length (ci_bytes img)"
  have h: "held m' + ?r = held m" unfolding m'_def by (rule held_retain)
  have sub: "hm_get m k = Some img" if "hm_get m' k = Some img" for k img
    using that unfolding m'_def by (simp add: hm_get_retain coveredD(1) [OF ok(1)] split: option.splits if_splits)
  have "one_per_window m'" by (rule one_per_window_sub [OF ok(2) sub])
  moreover have "hm_len m' \<le> 32" using ok(5) by (simp add: m'_def hm_len_def hm_retain_def order_trans [OF length_filter_le])
  ultimately show ?thesis
    using h ok covered_retain [OF ok(1), of "\<lambda>_ img. ci_window_ref img \<noteq> w"]
    by (simp add: images_ok_def m'_def [symmetric] unat_u64_saturating_sub unat_removed)
qed

text \<open>The loop leaves room for the new image, or nothing but that image.\<close>

lemma evict_images_ok:
  assumes "images_ok order m cached" "evict_images n order m cached = (order', m', cached')"
  shows "images_ok order' m' cached' \<and> (\<forall>k img. hm_get m' k = Some img \<longrightarrow> hm_get m k = Some img) \<and>
     (m' = [] \<or> hm_len m' < 32 \<and> unat cached' + unat n \<le> 33554432)"
  using assms
proof (induction n order m cached rule: evict_images.induct)
  case (1 n order m cached)
  let ?full = "MAX_CACHED_IMAGE_MAPPINGS \<le> hm_len m \<or> MAX_CACHED_IMAGE_BYTES < u64_saturating_add cached n"
  have ok: "covered order m" "one_per_window m" "held m \<le> unat cached" "held m \<le> 33554432" "hm_len m \<le> 32"
    using 1(3) by (simp_all add: images_ok_def)
  show ?case
  proof (cases ?full)
    case False
    then have "(order', m', cached') = (order, m, cached)" using 1(4) by (simp add: evict_images.simps)
    moreover have "unat cached + unat n \<le> 33554432"
      using False unat_u64_bound [of n]
      by (simp add: not_less word_le_nat_alt unat_u64_saturating_add MAX_CACHED_IMAGE_BYTES_unat min_le_iff_disj)
    ultimately show ?thesis using False 1(3) by (simp add: MAX_CACHED_IMAGE_MAPPINGS_def)
  next
    case full: True
    show ?thesis
    proof (cases order)
      case Nil
      then have "(order', m', cached') = (order, m, cached)" using 1(4) full by (simp add: evict_images.simps)
      moreover have "m = []" using ok(1) Nil by (simp add: covered_Nil)
      ultimately show ?thesis using 1(3) by simp
    next
      case (Cons k rest)
      show ?thesis
      proof (cases "hm_get m k")
        case None
        have "images_ok rest m cached"
          using ok covered_pop [of k rest m] Cons None by (simp add: images_ok_def hm_remove_absent)
        then show ?thesis using 1(1) [OF full Cons None] 1(4) full Cons None by (simp add: evict_images.simps)
      next
        case (Some img)
        let ?m = "hm_remove k m" and ?c = "u64_saturating_sub cached (u64_length (ci_bytes img))"
        have h: "held ?m + length (ci_bytes img) = held m" by (rule held_remove [OF coveredD(1) [OF ok(1)] Some])
        have sub: "hm_get m j = Some v" if "hm_get ?m j = Some v" for j v using that by (simp split: if_splits)
        have "hm_len ?m \<le> 32" using hm.len_remove_le [OF coveredD(1) [OF ok(1)], of k] ok(5) by simp
        moreover have "one_per_window ?m" by (rule one_per_window_sub [OF ok(2) sub])
        moreover have "held ?m \<le> unat ?c" using h ok(3) by (simp add: unat_u64_saturating_sub unat_u64_length)
        ultimately have "images_ok rest ?m ?c"
          using ok h covered_pop [of k rest m] Cons by (simp add: images_ok_def)
        moreover have "evict_images n rest ?m ?c = (order', m', cached')"
          using 1(4) full Cons Some by (simp add: evict_images.simps)
        ultimately show ?thesis using 1(2) [OF full Cons Some] sub by blast
      qed
    qed
  qed
qed

lemma evict_views_ok:
  assumes "covered order m" "hm_len m \<le> 32" "evict_views order m = (order', m')"
  shows "covered order' m' \<and> hm_len m' < 32"
  using assms
proof (induction order m rule: evict_views.induct)
  case (1 order m)
  show ?case
  proof (cases "MAX_CACHED_REGION_VIEWS \<le> hm_len m")
    case False
    then show ?thesis using 1(2,4) by (simp add: evict_views.simps MAX_CACHED_REGION_VIEWS_def)
  next
    case full: True
    then have "m \<noteq> []" by (auto simp: hm_len_def MAX_CACHED_REGION_VIEWS_def)
    then obtain k rest where order: "order = k # rest" using 1(2) covered_Nil by (cases order) auto
    have "hm_len (hm_remove k m) \<le> 32" using hm.len_remove_le [OF coveredD(1) [OF 1(2)], of k] 1(3) by simp
    then show ?thesis
      using 1(1) [OF full order] 1(2,4) full order covered_pop [of k rest m] by (simp add: evict_views.simps)
  qed
qed

lemma window_retained:
  "hm_wf m \<Longrightarrow> hm_get (hm_retain (\<lambda>_ img. ci_window_ref img \<noteq> w) m) k = Some img \<Longrightarrow>
     ci_window_ref img \<noteq> w \<and> hm_get m k = Some img"
  by (auto simp: hm_get_retain split: option.splits if_splits)

lemma cache_ok_default: "cache_ok default_cache"
  by (simp add: cache_ok_def default_cache_def images_ok_def covered_def hm_keys_def hm_len_def one_per_window_def)

lemma cache_ok_clear: "cache_ok (cache_clear c)"
  by (simp add: cache_ok_def cache_clear_def images_ok_def covered_def hm_keys_def hm_len_def one_per_window_def)

lemma cache_ok_invalidate:
  assumes "cache_ok c"
  shows "cache_ok (invalidate_window w c)"
proof -
  have ok: "images_ok (ic_order c) (ic_entries c) (ic_cached_bytes c)" "covered (ic_view_order c) (ic_views c)" "hm_len (ic_views c) \<le> 32"
    using assms by (simp_all add: cache_ok_def)
  show ?thesis
    using images_retain [OF ok(1), of w] covered_retain [OF ok(2), of "\<lambda>_ v. rv_window_ref v \<noteq> w"]
      order_trans [OF hm.len_retain_le [OF coveredD(1) [OF ok(2)]] ok(3)]
    by (simp add: cache_ok_def invalidate_window_def Let_def)
qed

lemma cache_ok_view:
  assumes "cache_ok c"
  shows "cache_ok (insert_view k v c)"
proof -
  obtain order views where e: "evict_views (ic_view_order c) (ic_views c) = (order, views)" by fastforce
  have "covered order views \<and> hm_len views < 32" using evict_views_ok [OF _ _ e] assms by (simp add: cache_ok_def)
  then have "covered (order @ [k]) (hm_insert k v views)" "hm_len (hm_insert k v views) \<le> 32"
    using covered_insert [of order views k v] hm.len_insert_le [OF coveredD(1), of order views k v] by simp_all
  then show ?thesis using assms by (simp add: cache_ok_def insert_view_def e)
qed

lemma cache_insert_spec:
  assumes "cache_ok c"
  obtains order m cached where
    "cache_insert k w mapping b c = (invalidate_window w c)\<lparr>ic_order := order @ [k],
       ic_cached_bytes := u64_saturating_add cached (u64_length b),
       ic_entries := hm_insert k \<lparr>ci_window_ref = w, ci_mapping = mapping, ci_bytes = b\<rparr> m\<rparr>"
    "images_ok order m cached"
    "\<forall>k' img. hm_get m k' = Some img \<longrightarrow> hm_get (ic_entries c) k' = Some img \<and> ci_window_ref img \<noteq> w"
    "m = [] \<or> hm_len m < 32 \<and> unat cached + unat (u64_length b) \<le> 33554432"
proof -
  let ?c = "invalidate_window w c"
  obtain order m cached where
    e: "evict_images (u64_length b) (ic_order ?c) (ic_entries ?c) (ic_cached_bytes ?c) = (order, m, cached)"
    by (cases "evict_images (u64_length b) (ic_order ?c) (ic_entries ?c) (ic_cached_bytes ?c)") auto
  have wf: "hm_wf (ic_entries c)" using assms by (simp add: cache_ok_def images_ok_def covered_def)
  have "images_ok (ic_order ?c) (ic_entries ?c) (ic_cached_bytes ?c)"
    using cache_ok_invalidate [OF assms, of w] by (simp add: cache_ok_def)
  note spec = evict_images_ok [OF this e]
  show thesis
  proof (rule that)
    show "cache_insert k w mapping b c = ?c\<lparr>ic_order := order @ [k],
       ic_cached_bytes := u64_saturating_add cached (u64_length b),
       ic_entries := hm_insert k \<lparr>ci_window_ref = w, ci_mapping = mapping, ci_bytes = b\<rparr> m\<rparr>"
      by (simp add: cache_insert_def Let_def e)
    show "\<forall>k' img. hm_get m k' = Some img \<longrightarrow> hm_get (ic_entries c) k' = Some img \<and> ci_window_ref img \<noteq> w"
    proof (intro allI impI)
      fix k' img
      assume "hm_get m k' = Some img"
      then show "hm_get (ic_entries c) k' = Some img \<and> ci_window_ref img \<noteq> w"
        using window_retained [OF wf, of w k' img] spec by (simp add: invalidate_window_def Let_def)
    qed
  qed (use spec in simp_all)
qed

lemma cache_ok_insert:
  assumes "cache_ok c" "length b \<le> 33554432"
  shows "cache_ok (cache_insert k w mapping b c)"
proof -
  let ?img = "\<lparr>ci_window_ref = w, ci_mapping = mapping, ci_bytes = b\<rparr>"
  obtain order m cached where
    e: "cache_insert k w mapping b c = (invalidate_window w c)\<lparr>ic_order := order @ [k],
       ic_cached_bytes := u64_saturating_add cached (u64_length b), ic_entries := hm_insert k ?img m\<rparr>"
    and ok: "images_ok order m cached"
    and sub: "\<forall>k' img. hm_get m k' = Some img \<longrightarrow> hm_get (ic_entries c) k' = Some img \<and> ci_window_ref img \<noteq> w"
    and room: "m = [] \<or> hm_len m < 32 \<and> unat cached + unat (u64_length b) \<le> 33554432"
    by (rule cache_insert_spec [OF assms(1), of k w mapping b])
  have h: "covered order m" "one_per_window m" "held m \<le> unat cached" using ok by (simp_all add: images_ok_def)
  have "one_per_window (hm_insert k ?img m)" by (rule one_per_window_insert [OF h(2)]) (simp add: sub)
  moreover have "hm_len (hm_insert k ?img m) \<le> 32"
    using room hm.len_insert_le [OF coveredD(1) [OF h(1)], of k ?img] by (auto simp: hm_len_def)
  moreover have "held (hm_insert k ?img m) \<le> unat (u64_saturating_add cached (u64_length b))"
    "held (hm_insert k ?img m) \<le> 33554432"
    using room h(3) held_insert [of k ?img m] assms(2)
    by (auto simp: unat_u64_saturating_add unat_u64_length min_def)
  ultimately show ?thesis
    using covered_insert [OF h(1), of k ?img] cache_ok_invalidate [OF assms(1), of w]
    by (simp add: e cache_ok_def images_ok_def)
qed

text \<open>The uses of a cache whose images are within the largest image the adapter accepts.\<close>

inductive cache_step :: "image_mapping_cache \<Rightarrow> image_mapping_cache \<Rightarrow> bool" where
  cs_insert: "length b \<le> 33554432 \<Longrightarrow> cache_step c (cache_insert k w mapping b c)"
| cs_view: "cache_step c (insert_view r v c)"
| cs_invalidate: "cache_step c (invalidate_window w c)"
| cs_clear: "cache_step c (cache_clear c)"

lemma cache_ok_steps: "cache_step\<^sup>*\<^sup>* default_cache c \<Longrightarrow> cache_ok c"
proof (induction rule: rtranclp_induct)
  case (step c c')
  from step(2,3) show ?case
    by cases (simp_all add: cache_ok_insert cache_ok_view cache_ok_invalidate cache_ok_clear)
qed (rule cache_ok_default)

text \<open>
  Claim C34. Whatever the adapter does with its cache, it holds at most 32 images of together at most
  32 MiB, one for a window, and at most 32 views; the byte counter is never below what is held. A
  new image is found under its observation and window and is the only one of its window, and what
  is found of the other windows is what was there before.
\<close>

theorem image_cache_bounded:
  assumes "cache_step\<^sup>*\<^sup>* default_cache c"
  shows "hm_len (ic_entries c) \<le> 32 \<and> held (ic_entries c) \<le> 32 * 1024 * 1024 \<and> hm_len (ic_views c) \<le> 32 \<and>
     held (ic_entries c) \<le> unat (ic_cached_bytes c) \<and> one_per_window (ic_entries c) \<and>
     cache_get k w (cache_insert k w mapping b c) = Some \<lparr>ci_window_ref = w, ci_mapping = mapping, ci_bytes = b\<rparr> \<and>
     (k' \<noteq> k \<longrightarrow> cache_get k' w (cache_insert k w mapping b c) = None \<and>
        cache_get k' w' (cache_insert k w mapping b c) \<in> {None, cache_get k' w' c})"
proof -
  have ok: "cache_ok c" by (rule cache_ok_steps [OF assms])
  let ?img = "\<lparr>ci_window_ref = w, ci_mapping = mapping, ci_bytes = b\<rparr>" and ?c = "cache_insert k w mapping b c"
  obtain order m cached where
    e: "?c = (invalidate_window w c)\<lparr>ic_order := order @ [k],
       ic_cached_bytes := u64_saturating_add cached (u64_length b), ic_entries := hm_insert k ?img m\<rparr>"
    and sub: "\<forall>k' img. hm_get m k' = Some img \<longrightarrow> hm_get (ic_entries c) k' = Some img \<and> ci_window_ref img \<noteq> w"
    by (rule cache_insert_spec [OF ok, of k w mapping b])
  have entries: "ic_entries ?c = hm_insert k ?img m" by (simp add: e)
  have "cache_get k w ?c = Some ?img" by (simp add: cache_get_def entries)
  moreover have "cache_get k' w ?c = None \<and> cache_get k' w' ?c \<in> {None, cache_get k' w' c}" if "k' \<noteq> k"
  proof (cases "hm_get m k'")
    case (Some img)
    then have "hm_get (ic_entries c) k' = Some img" "ci_window_ref img \<noteq> w" using sub by blast+
    then show ?thesis using Some that by (simp add: cache_get_def entries)
  qed (use that in \<open>simp add: cache_get_def entries\<close>)
  ultimately show ?thesis using ok by (simp add: cache_ok_def images_ok_def)
qed

definition example_mapping :: screenshot_mapping where
  "example_mapping =
     \<lparr>sm_screen_bounds = \<lparr>sr_x = Fin 0, sr_y = Fin 0, sr_width = Fin 640, sr_height = Fin 480\<rparr>,
      sm_pixel_size = \<lparr>ps_width = 640, ps_height = 480\<rparr>\<rparr>"

theorem image_cache_bounded_witness:
  "\<exists>c. hm_len (ic_entries c) = 1 \<and> hm_len (ic_entries c) \<le> 32 \<and>
     cache_get (ObservationId ''o2'') (WindowRef ''w'') (cache_insert (ObservationId ''o2'') (WindowRef ''w'') example_mapping [7] c) =
       Some \<lparr>ci_window_ref = WindowRef ''w'', ci_mapping = example_mapping, ci_bytes = [7]\<rparr> \<and>
     cache_get (ObservationId ''o1'') (WindowRef ''w'') (cache_insert (ObservationId ''o2'') (WindowRef ''w'') example_mapping [7] c) = None"
proof -
  let ?c = "cache_insert (ObservationId ''o1'') (WindowRef ''w'') example_mapping [1, 2] default_cache"
  have "cache_step\<^sup>*\<^sup>* default_cache ?c" by (rule r_into_rtranclp, rule cs_insert) simp
  note use = image_cache_bounded [OF this, of "ObservationId ''o2''" "WindowRef ''w''" example_mapping "[7]" "ObservationId ''o1''" "WindowRef ''w''"]
  have "hm_len (ic_entries ?c) = 1"
    by (simp add: cache_insert_def invalidate_window_def default_cache_def hm_values_def hm_retain_def evict_images.simps
        hm_len_def hm_insert_def u64_length_def u64_saturating_sub_def u64_saturating_add_def MAX_CACHED_IMAGE_MAPPINGS_def
        MAX_CACHED_IMAGE_BYTES_def)
  then show ?thesis using use by (intro exI [of _ ?c]) simp
qed

section \<open>Regions and points\<close>

lemma unat_u16: "unat (v :: u16) < 65536"
  using unsigned_less [of v, where ?'a = nat] by simp

lemma unat_scaled: "unat (ucast (v :: u16) * ucast (len :: u32) :: u64) = unat v * unat len"
proof -
  have "unat v * unat len \<le> 65535 * (2 ^ 32 - 1)"
    using unat_u16 [of v] unat_less_u32 [of len] by (intro mult_le_mono) simp_all
  moreover have "unat (ucast v :: u64) = unat v"
    using unat_u16 [of v] by (simp add: unsigned_ucast_eq take_bit_nat_eq_self)
  ultimately have "unat (ucast v :: u64) * unat (ucast len :: u64) < 2 ^ LENGTH(64)"
    by (simp add: unat_ucast_u64)
  then show ?thesis unfolding unat_mult_lem by (simp only: unat_ucast_u64 \<open>unat (ucast v :: u64) = unat v\<close>)
qed

lemma scaled_bound: "unat (v :: u16) * unat (len :: u32) < 2 ^ 60"
proof -
  have "unat v * unat len \<le> 65535 * (2 ^ 32 - 1)"
    using unat_u16 [of v] unat_less_u32 [of len] by (intro mult_le_mono) simp_all
  then show ?thesis by simp
qed

lemma unat_normalized_axis:
  assumes "unat v \<le> 1000" "len \<noteq> 0"
  shows "unat (normalized_axis v len) = (unat v * (unat len - 1) + 500) div 1000"
    and "unat (normalized_axis v len) < unat len"
proof -
  have pos: "0 < unat len" using assms(2) by (simp add: unat_gt_0)
  then have len: "saturating_sub_u32 len 1 = len - 1" "unat (len - 1) = unat len - 1" "0 < unat len"
    using assms(2) by (simp_all add: saturating_sub_u32_def unat_pred_u32 word_less_nat_alt)
  let ?n = "unat v * (unat len - 1) + 500"
  have "unat (ucast v * ucast (len - 1) + 500 :: u64) = ?n"
    using unat_scaled [of v "len - 1"] scaled_bound [of v "len - 1"] len(2) by (simp add: unat_word_ariths)
  then have d: "unat ((ucast v * ucast (len - 1) + 500) div 1000 :: u64) = ?n div 1000" by (simp add: unat_div)
  have "?n \<le> 1000 * (unat len - 1) + 500" using assms(1) by simp
  then have "?n div 1000 \<le> (1000 * (unat len - 1) + 500) div 1000" by (rule div_le_mono)
  then have le: "?n div 1000 \<le> unat len - 1" by simp
  then have "?n div 1000 \<le> u32_max" using unat_less_u32 [of len] by (simp add: u32_max_def)
  then show eq: "unat (normalized_axis v len) = ?n div 1000"
    by (simp add: normalized_axis_def len(1) unat_u32_saturating_from d)
  show "unat (normalized_axis v len) < unat len" using eq le len(3) by linarith
qed

text \<open>One axis of a region: the least run of pixels that covers the interval.\<close>

lemma region_axis:
  assumes "l < r" "r \<le> NORMALIZED_COORDINATE_MAX" "len \<noteq> 0"
  obtains x e where "region_start l len = Some x" "region_limit r len = Some e" "x < e" "e \<le> len"
    "unat x = unat l * unat len div 1000" "unat e = (unat r * unat len + 999) div 1000"
proof -
  have lr: "unat l < unat r" "unat r \<le> 1000" "0 < unat len"
    using assms by (simp_all add: word_less_nat_alt word_le_nat_alt NORMALIZED_COORDINATE_MAX_def unat_gt_0)
  let ?n = "unat r * unat len"
  let ?c = "div_ceil_u64 (ucast r * ucast len) 1000"
  have "?n \<le> unat ?c * 1000" "unat ?c * 1000 < ?n + 1000"
    using unat_div_ceil_u64 [of 1000 "ucast r * ucast len"] scaled_bound [of r len] by (simp_all add: unat_scaled)
  then have c: "unat ?c = (?n + 999) div 1000" by (intro div_nat_eqI [symmetric]) (simp_all add: algebra_simps)
  have "?n \<le> 1000 * unat len" using lr(2) by simp
  then have cl: "(?n + 999) div 1000 \<le> unat len" by linarith
  have "unat l * unat len + unat len \<le> ?n" using lr(1) by (metis add.commute mult_Suc mult_le_mono1 Suc_leI)
  then have xc: "unat l * unat len div 1000 < (?n + 999) div 1000" using lr(3) by linarith
  have bound: "(?n + 999) div 1000 \<le> u32_max" "unat l * unat len div 1000 \<le> u32_max"
    using cl xc unat_less_u32 [of len] by (simp_all add: u32_max_def)
  have s: "unat (ucast l * ucast len div 1000 :: u64) = unat l * unat len div 1000" by (simp add: unat_div unat_scaled)
  obtain x where x: "region_start l len = Some x" "unat x = unat l * unat len div 1000"
    using bound(2) by (simp add: region_start_def s u32_try_from_def u32_max_def unat_of_nat)
  obtain e where e: "u32_try_from (unat ?c) = Some e" "unat e = (?n + 999) div 1000"
    using bound(1) by (simp add: c u32_try_from_def u32_max_def unat_of_nat)
  have "e \<le> len" using e(2) cl by (simp add: word_le_nat_alt)
  then have "region_limit r len = Some e" by (simp add: region_limit_def e(1) min_absorb1)
  moreover have "x < e" using x(2) e(2) xc by (simp add: word_less_nat_alt)
  ultimately show thesis using that x e(2) \<open>e \<le> len\<close> by blast
qed

lemma checked_sub_u32_Some: "b \<le> a \<Longrightarrow> checked_sub_u32 a b = Some (a - b)"
  by (simp add: checked_sub_u32_def)

text \<open>A rectangle of pixels inside an image.\<close>

definition rect_inside :: "pixel_rect \<Rightarrow> pixel_size \<Rightarrow> bool" where
  "rect_inside rect sz \<longleftrightarrow>
     0 < unat (pr_width rect) \<and> unat (pr_x rect) + unat (pr_width rect) \<le> unat (ps_width sz) \<and>
     0 < unat (pr_height rect) \<and> unat (pr_y rect) + unat (pr_height rect) \<le> unat (ps_height sz)"

lemma normalized_region_eval:
  assumes "l < r" "t < b" "r \<le> NORMALIZED_COORDINATE_MAX" "b \<le> NORMALIZED_COORDINATE_MAX"
    and "ps_width sz \<noteq> 0" "ps_height sz \<noteq> 0"
  shows "\<exists>rect. normalized_region l t r b sz = Some rect \<and> rect_inside rect sz \<and>
     unat (pr_x rect) = unat l * unat (ps_width sz) div 1000 \<and>
     unat (pr_x rect) + unat (pr_width rect) = (unat r * unat (ps_width sz) + 999) div 1000 \<and>
     unat (pr_y rect) = unat t * unat (ps_height sz) div 1000 \<and>
     unat (pr_y rect) + unat (pr_height rect) = (unat b * unat (ps_height sz) + 999) div 1000"
proof -
  obtain x xe where x: "region_start l (ps_width sz) = Some x" "region_limit r (ps_width sz) = Some xe" "x < xe" "xe \<le> ps_width sz"
    "unat x = unat l * unat (ps_width sz) div 1000" "unat xe = (unat r * unat (ps_width sz) + 999) div 1000"
    by (rule region_axis [OF assms(1,3,5)])
  obtain y ye where y: "region_start t (ps_height sz) = Some y" "region_limit b (ps_height sz) = Some ye" "y < ye" "ye \<le> ps_height sz"
    "unat y = unat t * unat (ps_height sz) div 1000" "unat ye = (unat b * unat (ps_height sz) + 999) div 1000"
    by (rule region_axis [OF assms(2,4,6)])
  have le: "x \<le> xe" "y \<le> ye" using x(3) y(3) by (simp_all add: order_less_imp_le)
  have w: "unat (xe - x) = unat xe - unat x" "unat (ye - y) = unat ye - unat y"
    using le by (simp_all add: unat_sub)
  have lt: "unat x < unat xe" "unat y < unat ye" using x(3) y(3) by (simp_all add: word_less_nat_alt)
  then have pos: "0 < xe - x" "0 < ye - y" by (simp_all add: word_less_nat_alt w)
  have "normalized_region l t r b sz = Some \<lparr>pr_x = x, pr_y = y, pr_width = xe - x, pr_height = ye - y\<rparr>"
    using assms pos by (simp add: normalized_region_def x(1,2) y(1,2) checked_sub_u32_Some [OF le(1)]
        checked_sub_u32_Some [OF le(2)] not_less not_le)
  moreover have "unat xe \<le> unat (ps_width sz)" "unat ye \<le> unat (ps_height sz)" using x(4) y(4) by (simp_all add: word_le_nat_alt)
  ultimately show ?thesis
    using lt x(5,6) y(5,6) by (intro exI [of _ "\<lparr>pr_x = x, pr_y = y, pr_width = xe - x, pr_height = ye - y\<rparr>"])
      (simp add: rect_inside_def w)
qed

lemma normalized_region_Some:
  assumes "normalized_region l t r b sz = Some rect"
  shows "l < r \<and> t < b \<and> r \<le> NORMALIZED_COORDINATE_MAX \<and> b \<le> NORMALIZED_COORDINATE_MAX \<and> ps_width sz \<noteq> 0 \<and> ps_height sz \<noteq> 0"
  using assms unfolding normalized_region_def by (simp add: not_less not_le split: if_splits)

text \<open>
  Zooming selects exactly what was asked for: a region is accepted exactly when its edges
  are ordered within 0..1000 and the image is not empty, and it is the least rectangle of whole
  pixels that covers the edges, inside the image and never empty.
\<close>

theorem normalized_region_exact:
  "case normalized_region l t r b sz of
     None \<Rightarrow> \<not> (l < r \<and> t < b \<and> r \<le> 1000 \<and> b \<le> 1000 \<and> ps_width sz \<noteq> 0 \<and> ps_height sz \<noteq> 0)
   | Some rect \<Rightarrow>
       l < r \<and> t < b \<and> r \<le> 1000 \<and> b \<le> 1000 \<and> rect_inside rect sz \<and>
       unat (pr_x rect) = unat l * unat (ps_width sz) div 1000 \<and>
       unat (pr_x rect) + unat (pr_width rect) = (unat r * unat (ps_width sz) + 999) div 1000 \<and>
       unat (pr_y rect) = unat t * unat (ps_height sz) div 1000 \<and>
       unat (pr_y rect) + unat (pr_height rect) = (unat b * unat (ps_height sz) + 999) div 1000"
proof (cases "normalized_region l t r b sz")
  case None
  then show ?thesis using normalized_region_eval [of l r t b sz] by (auto simp: NORMALIZED_COORDINATE_MAX_def)
next
  case (Some rect)
  from normalized_region_Some [OF this] have h: "l < r" "t < b" "r \<le> NORMALIZED_COORDINATE_MAX" "b \<le> NORMALIZED_COORDINATE_MAX"
    "ps_width sz \<noteq> 0" "ps_height sz \<noteq> 0" by simp_all
  from normalized_region_eval [OF this] Some h show ?thesis by (simp add: NORMALIZED_COORDINATE_MAX_def)
qed

lemma view_axis:
  fixes len :: u32
  assumes "unat v \<le> 1000" "0 < unat w" "unat x + unat w \<le> unat len"
  shows "unat (u32_saturating_add x (normalized_axis v w)) = unat x + (unat v * (unat w - 1) + 500) div 1000"
    and "(unat v * (unat w - 1) + 500) div 1000 < unat w"
proof -
  have "w \<noteq> 0" using assms(2) by auto
  note a = unat_normalized_axis [OF assms(1) this]
  show "(unat v * (unat w - 1) + 500) div 1000 < unat w" using a by simp
  then have "unat x + unat (normalized_axis v w) < 2 ^ 32" using assms(3) a(1) unat_less_u32 [of len] by linarith
  then show "unat (u32_saturating_add x (normalized_axis v w)) = unat x + (unat v * (unat w - 1) + 500) div 1000"
    using a(1) by (simp add: u32_saturating_add_def unat_word_ariths)
qed

text \<open>
  Claim C35. A click in a zoomed view reaches the pixel that the model sees: for every point in
  0..1000 of a view, the adapter's click is accepted, the runtime turns it back into exactly the
  addressed pixel, and that pixel lies in the cropped rectangle, the nearest one to the point; the
  corners of the view are the corners of the crop.
\<close>

theorem view_click_exact:
  assumes "normalized_region l t r b sz = Some rect" "x \<le> 1000" "y \<le> 1000"
  shows "\<exists>px pt. normalized_view_point x y rect = px \<and> from_pixel px sz = Some pt \<and> to_pixel pt sz = Some px \<and>
     unat (px_x px) = unat (pr_x rect) + (unat x * (unat (pr_width rect) - 1) + 500) div 1000 \<and>
     unat (px_y px) = unat (pr_y rect) + (unat y * (unat (pr_height rect) - 1) + 500) div 1000 \<and>
     unat (px_x px) < unat (pr_x rect) + unat (pr_width rect) \<and> unat (px_y px) < unat (pr_y rect) + unat (pr_height rect) \<and>
     (x = 1000 \<longrightarrow> Suc (unat (px_x px)) = unat (pr_x rect) + unat (pr_width rect)) \<and>
     (y = 1000 \<longrightarrow> Suc (unat (px_y px)) = unat (pr_y rect) + unat (pr_height rect))"
proof -
  let ?px = "normalized_view_point x y rect"
  have inside: "0 < unat (pr_width rect)" "unat (pr_x rect) + unat (pr_width rect) \<le> unat (ps_width sz)"
    "0 < unat (pr_height rect)" "unat (pr_y rect) + unat (pr_height rect) \<le> unat (ps_height sz)"
    using normalized_region_eval [of l r t b sz] normalized_region_Some [OF assms(1)] assms(1) by (auto simp: rect_inside_def)
  have v: "unat x \<le> 1000" "unat y \<le> 1000" using assms(2,3) by (simp_all add: word_le_nat_alt)
  note ax = view_axis [OF v(1) inside(1,2)] and ay = view_axis [OF v(2) inside(3,4)]
  have px: "unat (px_x ?px) = unat (pr_x rect) + (unat x * (unat (pr_width rect) - 1) + 500) div 1000"
    "unat (px_y ?px) = unat (pr_y rect) + (unat y * (unat (pr_height rect) - 1) + 500) div 1000"
    using ax(1) ay(1) by (simp_all add: normalized_view_point_def)
  then have "size_contains sz ?px" using ax(2) ay(2) inside by (simp add: size_contains_def word_less_nat_alt)
  then obtain pt where "from_pixel ?px sz = Some pt" "to_pixel pt sz = Some ?px" using pixel_round_trip by blast
  moreover have "(1000 * (n - 1) + 500) div 1000 = n - 1" for n :: nat by simp
  ultimately show ?thesis using px ax(2) ay(2) inside(1,3) by (intro exI [of _ ?px] exI [of _ pt]) auto
qed

theorem view_click_exact_witness:
  "\<exists>rect px pt. normalized_region 250 0 750 500 \<lparr>ps_width = 640, ps_height = 480\<rparr> = Some rect \<and>
     normalized_view_point 1000 0 rect = px \<and> from_pixel px \<lparr>ps_width = 640, ps_height = 480\<rparr> = Some pt \<and>
     to_pixel pt \<lparr>ps_width = 640, ps_height = 480\<rparr> = Some px \<and>
     Suc (unat (px_x px)) = unat (pr_x rect) + unat (pr_width rect)"
proof -
  let ?sz = "\<lparr>ps_width = 640, ps_height = 480\<rparr>"
  obtain rect where rect: "normalized_region 250 0 750 500 ?sz = Some rect"
    using normalized_region_eval [of 250 750 0 500 ?sz] by (auto simp: NORMALIZED_COORDINATE_MAX_def)
  show ?thesis using view_click_exact [OF rect, of 1000 0] rect by auto
qed

section \<open>Facts about crops\<close>

text \<open>The four bytes of a pixel in rows of \<open>w\<close> pixels.\<close>

definition rgba_at :: "nat \<Rightarrow> bytes \<Rightarrow> nat \<Rightarrow> nat \<Rightarrow> bytes" where
  "rgba_at w pixels column row = take 4 (drop (4 * (row * w + column)) pixels)"

lemma length_concat_rows: "(\<And>row. row \<in> set rows \<Longrightarrow> length (f row) = n) \<Longrightarrow> length (concat (map f rows)) = length rows * n"
  by (induction rows) simp_all

lemma concat_rows:
  assumes "\<And>row. row \<in> set rows \<Longrightarrow> length (f row) = n" "j < length rows" "m + k \<le> n"
  shows "take m (drop (j * n + k) (concat (map f rows))) = take m (drop k (f (rows ! j)))"
  using assms
proof (induction rows arbitrary: j)
  case (Cons row rows)
  have n: "length (f row) = n" using Cons.prems(1) by simp
  show ?case
  proof (cases j)
    case 0
    then show ?thesis using n Cons.prems(3) by simp
  next
    case (Suc i)
    have "take m (drop (i * n + k) (concat (map f rows))) = take m (drop k (f (rows ! i)))"
      using Cons Suc by simp
    then show ?thesis using n Suc by (simp add: add.assoc)
  qed
qed simp

lemma crop_row_Inr:
  assumes "crop_row ss cs x pixels row = Inr out"
  shows "out = take cs (drop (unat row * ss + 4 * unat x) pixels) \<and> unat row * ss + 4 * unat x + cs \<le> length pixels"
  using assms
  by (auto simp: crop_row_def bindR_eq_Inr bind_eq_Some_conv checked_mul_u64_def checked_add_usize_def algebra_simps
      split: if_splits)

lemma crop_rows_Inr:
  assumes "crop_rows ss cs x pixels rows = Inr out" "\<And>row. row \<in> set rows \<Longrightarrow> row < 2 ^ 32"
  shows "out = concat (map (\<lambda>row. take cs (drop (row * ss + 4 * unat x) pixels)) rows) \<and>
     (\<forall>row \<in> set rows. row * ss + 4 * unat x + cs \<le> length pixels)"
  using assms
proof (induction rows arbitrary: out)
  case (Cons row rows)
  then obtain b bs where b: "crop_row ss cs x pixels (of_nat row) = Inr b" "crop_rows ss cs x pixels rows = Inr bs" "out = b @ bs"
    by (auto simp: bindR_eq_Inr)
  have "unat (of_nat row :: u32) = row" using Cons.prems(2) [of row] by (simp add: unat_of_nat)
  then show ?case using crop_row_Inr [OF b(1)] Cons.IH [OF b(2)] Cons.prems(2) b(3) by simp
qed simp

lemma crop_png_Inr:
  assumes "crop_png decoder encoder png sz rect limit = Inr out"
  obtains reader info cropped where "decoder png = Inr reader" "pd_next_frame reader = Inr info"
    "crop_rows (unat (ps_width sz) * 4) (unat (pr_width rect) * 4) (pr_x rect)
       (write_frame (unat (ps_width sz) * unat (ps_height sz) * 4) (pf_data info))
       [unat (pr_y rect) ..< unat (u32_saturating_add (pr_y rect) (pr_height rect))] = Inr cropped"
    "length cropped = unat (pr_height rect) * (unat (pr_width rect) * 4)"
    "encoder (pr_width rect) (pr_height rect) cropped = Inr out" "length out \<le> unat limit"
  using assms
  by (auto simp: crop_png_def bindR_eq_Inr bind_eq_Some_conv checked_mul_u64_def not_less split: if_splits)

lemma rows_of_rect:
  assumes "rect_inside rect sz"
  shows "unat (u32_saturating_add (pr_y rect) (pr_height rect)) = unat (pr_y rect) + unat (pr_height rect)"
proof -
  have "unat (pr_y rect) + unat (pr_height rect) < 2 ^ 32"
    using assms unat_less_u32 [of "ps_height sz"] by (simp add: rect_inside_def)
  then show ?thesis by (simp add: u32_saturating_add_def unat_word_ariths)
qed

text \<open>
  Claim C36. A crop is the selected rectangle, pixel for pixel: what the encoder is given has the
  width and height of the rectangle, each of its pixels is the pixel of the decoded image at the
  same place in the rectangle, and the encoded image is within the limit.
\<close>

theorem crop_exact:
  assumes "crop_png decoder encoder png sz rect limit = Inr out" "rect_inside rect sz"
  shows "\<exists>reader info cropped.
     decoder png = Inr reader \<and> pd_next_frame reader = Inr info \<and>
     encoder (pr_width rect) (pr_height rect) cropped = Inr out \<and> length out \<le> unat limit \<and>
     length cropped = 4 * (unat (pr_width rect) * unat (pr_height rect)) \<and>
     (\<forall>i < unat (pr_width rect). \<forall>j < unat (pr_height rect).
        rgba_at (unat (pr_width rect)) cropped i j =
        rgba_at (unat (ps_width sz)) (write_frame (4 * (unat (ps_width sz) * unat (ps_height sz))) (pf_data info))
          (unat (pr_x rect) + i) (unat (pr_y rect) + j))"
proof -
  let ?w = "unat (pr_width rect)" and ?W = "unat (ps_width sz)" and ?x = "unat (pr_x rect)" and ?y = "unat (pr_y rect)"
    and ?h = "unat (pr_height rect)"
  obtain reader info cropped where r: "decoder png = Inr reader" "pd_next_frame reader = Inr info"
    and rows: "crop_rows (?W * 4) (?w * 4) (pr_x rect) (write_frame (?W * unat (ps_height sz) * 4) (pf_data info))
       [?y ..< unat (u32_saturating_add (pr_y rect) (pr_height rect))] = Inr cropped"
    and out: "length cropped = ?h * (?w * 4)" "encoder (pr_width rect) (pr_height rect) cropped = Inr out" "length out \<le> unat limit"
    by (rule crop_png_Inr [OF assms(1)])
  let ?p = "write_frame (4 * (?W * unat (ps_height sz))) (pf_data info)"
  let ?f = "\<lambda>row. take (?w * 4) (drop (row * (?W * 4) + 4 * ?x) ?p)"
  have p: "write_frame (?W * unat (ps_height sz) * 4) (pf_data info) = ?p" by (simp add: algebra_simps)
  have bound: "row < 2 ^ 32" if "row \<in> set [?y ..< ?y + ?h]" for row
    using that assms(2) unat_less_u32 [of "ps_height sz"] by (simp add: rect_inside_def)
  note spec = crop_rows_Inr [OF rows [unfolded rows_of_rect [OF assms(2)] p] bound]
  have len: "length (?f row) = ?w * 4" if "row \<in> set [?y ..< ?y + ?h]" for row
  proof -
    have "row * (?W * 4) + 4 * ?x + ?w * 4 \<le> length ?p" using spec that by blast
    then show ?thesis by simp
  qed
  have "rgba_at ?w cropped i j = rgba_at ?W ?p (?x + i) (?y + j)" if "i < ?w" "j < ?h" for i j
  proof -
    have "rgba_at ?w cropped i j = take 4 (drop (j * (?w * 4) + 4 * i) (concat (map ?f [?y ..< ?y + ?h])))"
      using spec by (simp add: rgba_at_def algebra_simps)
    also have "\<dots> = take 4 (drop (4 * i) (?f ([?y ..< ?y + ?h] ! j)))"
      by (rule concat_rows) (use len that in simp_all)
    also have "\<dots> = rgba_at ?W ?p (?x + i) (?y + j)"
      using that by (simp add: rgba_at_def drop_take min_def algebra_simps)
    finally show ?thesis .
  qed
  then show ?thesis using r out by (intro exI [of _ reader] exI [of _ info] exI [of _ cropped]) simp
qed

definition example_reader :: png_reader where
  "example_reader =
     \<lparr>pd_output_buffer_size = Some 16,
      pd_next_frame = Inr \<lparr>pf_width = 2, pf_height = 2, pf_rgba = True, pf_eight_bits = True, pf_buffer_size = 16,
        pf_data = [0, 0, 0, 255, 10, 11, 12, 255, 20, 21, 22, 255, 30, 31, 32, 255]\<rparr>\<rparr>"

theorem crop_exact_witness:
  "crop_png (\<lambda>_. Inr example_reader) (\<lambda>_ _ b. Inr b) [] \<lparr>ps_width = 2, ps_height = 2\<rparr>
     \<lparr>pr_x = 1, pr_y = 1, pr_width = 1, pr_height = 1\<rparr> 100 = Inr [30, 31, 32, 255] \<and>
   rgba_at 1 [30, 31, 32, 255] 0 0 = rgba_at 2 (write_frame 16 (pf_data (projr (pd_next_frame example_reader)))) 1 1"
proof -
  let ?rect = "\<lparr>pr_x = 1, pr_y = 1, pr_width = 1, pr_height = 1\<rparr>" and ?sz = "\<lparr>ps_width = 2, ps_height = 2\<rparr>"
  have rows: "[Suc 0..<2] = [Suc 0]" by (simp add: numeral_2_eq_2)
  have run: "crop_png (\<lambda>_. Inr example_reader) (\<lambda>_ _ b. Inr b) [] ?sz ?rect 100 = Inr [30, 31, 32, 255]"
    by (simp add: crop_png_def example_reader_def checked_mul_u64_def MAX_DECODED_IMAGE_BYTES_def u32_saturating_add_def
        crop_row_def checked_add_usize_def write_frame_def rows)
  have inside: "rect_inside ?rect ?sz" by (simp add: rect_inside_def)
  obtain info where "pd_next_frame example_reader = Inr info" "rgba_at 1 [30, 31, 32, 255] 0 0 = rgba_at 2 (write_frame 16 (pf_data info)) 1 1"
    using crop_exact [OF run inside] by auto
  then show ?thesis using run by simp
qed

end
