(* ===== verification/Spec2Isabelle.thy ===== *)
theory Spec2Isabelle
  imports HostWire McpImages
begin

text \<open>
  A verification of the computer-use runtime: a service that lets a host drive desktop
  applications through sessions with bounded authority. A client discovers applications, opens a
  session under a capability manifest, observes windows and performs actions that are guarded by
  an observation; a platform driver carries the actions out. Requests reach the runtime through a
  dispatcher that executes each request identity at most once. A host may place several such
  workers behind a gateway with leases, or offer one to a model through an MCP adapter whose
  authority it fixes beforehand.

  \<^bold>\<open>How code becomes definitions.\<close> A \<^verbatim>\<open>Result\<close> is a sum with \<open>Inl\<close> for the error, a \<^verbatim>\<open>HashMap\<close> an
  association list with distinct keys, a \<^verbatim>\<open>String\<close> its bytes, an instant a number of nanoseconds;
  integers keep their width where a bound or a conversion depends on it. An \<^verbatim>\<open>async\<close> function is a
  program of atomic sections (theory \<open>Tasks\<close>): what runs between two suspension points or under one
  lock is a section, and the theorems quantify over all interleavings of the sections of all tasks.
  Fields whose names end in \<open>_trace\<close>, \<open>_log\<close>, \<open>_owner\<close> or \<open>_holders\<close> record history for the
  theorems; no operation reads them. Code outside the repository is a parameter: the platform driver,
  SHA-256, the PNG and JSON codecs, base64, UUIDs, clocks, the file system's outcomes, the
  authority provider.

  \<^bold>\<open>Theories\<close>, with the sources below \<^verbatim>\<open>src/crates\<close>, in the order of their dependencies.

  Foundations:
  \<^item> \<open>Prelude\<close>: machine integers, results, hash maps (locale \<open>hash_map\<close>), strings.
  \<^item> \<open>F64\<close>: IEEE binary64 values and rounding (locale \<open>correct_rounding\<close>).
  \<^item> \<open>Geometry\<close> (\<^verbatim>\<open>protocol/src/geometry.rs\<close>): coordinate conversions. Pixels and points are within
    bounds, and a pixel survives the round trip through normalized coordinates.
  \<^item> \<open>Protocol\<close> (\<^verbatim>\<open>protocol/src/*.rs\<close>): the wire types.
  \<^item> \<open>Tasks\<close>: programs of atomic sections, pools, rely and guarantee (locale \<open>interleaving\<close>).
  \<^item> \<open>Embedding\<close>: a system whose tasks run the tasks of an inner system at most once each keeps the
    inner system within its own reachable states (locale \<open>embedding\<close>).

  The runtime:
  \<^item> \<open>Guard\<close> (\<^verbatim>\<open>runtime/src/error.rs\<close>, \<^verbatim>\<open>activity.rs\<close>, \<^verbatim>\<open>driver.rs\<close>): driver errors, user-input
    activity, the revocable action guard, its interleavings and the bounded idle wait.
  \<^item> \<open>Driver\<close> (\<^verbatim>\<open>runtime/src/driver.rs\<close>): the driver trait and the types that cross it.
  \<^item> \<open>Validation\<close> (\<^verbatim>\<open>runtime/src/validation.rs\<close>): manifests, keys and actions.
  \<^item> \<open>Policy\<close> (\<^verbatim>\<open>runtime/src/policy.rs\<close>): the immutable dispatch policy and its loading.
  \<^item> \<open>Sessions\<close> (\<^verbatim>\<open>runtime/src/session.rs\<close>): session state, references (locale
    \<open>reference_table\<close>), observation records and action resolution.
  \<^item> \<open>Artifacts\<close> (\<^verbatim>\<open>runtime/src/artifact_store.rs\<close>): image conversion, bounded retention, verified
    reads, and the removal of dead generations.
  \<^item> \<open>RuntimeState\<close> and \<open>Runtime\<close> (\<^verbatim>\<open>runtime/src/service.rs\<close>): the shared state, every command
    handler, shutdown and the expiration loop.
  \<^item> \<open>SessionSteps\<close>, \<open>RuntimeInv\<close>, \<open>RuntimeSafe\<close>, \<open>RuntimeMutations\<close>, \<open>RuntimeLife\<close>: the invariant of
    the runtime, the guarantee of its tasks, and that every task keeps both.
  \<^item> \<open>RuntimeExample\<close>, \<open>RuntimeProgress\<close>, \<open>RuntimeProps\<close>: a concrete run, that commands return, and
    the properties: mutations are authorized, one-use references are used once, statuses are
    faithful, lanes exclude one another, shutdown is final, capacities hold.

  The dispatcher:
  \<^item> \<open>Transport\<close> (\<^verbatim>\<open>transport/src/frame.rs\<close>, \<^verbatim>\<open>auth.rs\<close>, \<^verbatim>\<open>endpoint.rs\<close>): frames, the token, endpoints.
  \<^item> \<open>Dispatcher\<close> (\<^verbatim>\<open>transport/src/dispatcher.rs\<close>): admission, the ledger, reconciliation.
  \<^item> \<open>DispatcherInv\<close>, \<open>DispatcherLife\<close>, \<open>DispatcherExample\<close>, \<open>DispatcherProps\<close>: its invariant, a
    concrete run, and the properties: it refines the runtime, an identity executes once, answers
    and reconciliations mean what they say, requests return.

  The host:
  \<^item> \<open>HostEnvironment\<close> (\<^verbatim>\<open>host/src/environment.rs\<close>): descriptors, snapshots and clones within bounds.
  \<^item> \<open>HostRegistry\<close> (\<^verbatim>\<open>host/src/registry.rs\<close>): workers, placement and leases.
  \<^item> \<open>HostGateway\<close> and \<open>HostGatewayProps\<close> (\<^verbatim>\<open>host/src/gateway.rs\<close>, \<^verbatim>\<open>local.rs\<close>): requests on leases,
    tickets for artifacts, the embedded worker; every dispatch is authorized and leased, and behind
    the gateway a dispatcher stays within its own reachable states.
  \<^item> \<open>HostWire\<close> (\<^verbatim>\<open>host/src/wire.rs\<close>): the gateway over byte streams.

  The MCP adapter:
  \<^item> \<open>McpAuthority\<close> (\<^verbatim>\<open>mcp/src/authority.rs\<close> and the manifest of \<^verbatim>\<open>mcp/src/server.rs\<close>): the authority
    ceiling, the resolution of a provider's grant, request namespaces, and that the runtime admits
    the manifest of a validated authority.
  \<^item> \<open>McpImages\<close> (\<^verbatim>\<open>mcp/src/server.rs\<close>): the bounded cache of screenshots and views, the regions and
    points of a zoomed view, and the crop.

  \<^bold>\<open>Bounds and fuel.\<close> No definition takes fuel. Loops are structural recursions (the eviction loops
  recurse over their queue, the stream loops over the bytes that arrive) or have a termination
  proof (the idle wait, by the time that is left). A program of sections is a well-founded tree, so
  a task that is scheduled often enough ends; that commands and requests return, and within which
  time, is proved in \<open>RuntimeProgress\<close> and \<open>DispatcherProps\<close>. Lengths are natural numbers where the
  code uses \<^verbatim>\<open>usize\<close> of the 64-bit targets, with checked operations failing at \<open>2 ^ 64\<close>.

  \<^bold>\<open>Not modelled.\<close> The native platform drivers, which the theorems quantify over; the accept loops,
  sockets and peer credentials of the transport; the tool handlers, JSON-RPC framing and HTTP
  listeners of the MCP adapter; the command line, the authority providers' processes and secrets,
  the client libraries, and the build and test tools. These are bindings to operating systems and
  third-party frameworks, or translate one modelled type into another. Cancellation of an \<^verbatim>\<open>async\<close>
  function by dropping it and the poisoning of a lock by a panic are not modelled either.
\<close>

end
